(* ===== verification/Prelude.thy ===== *)
theory Prelude
  imports Main
begin

text \<open>
  The shared base of the library: results of fallible calls, tables of rows with the
  handful of SQL statements the storage layer issues, and the generic lemmas on them that
  the component theories rest on.

  A fallible Rust call that returns \<open>Result<T, E>\<close> is a value of \<open>'e + 'a\<close>, with
  \<open>Inl\<close> for \<open>Err\<close>. A call that also writes takes the state first and returns the pair
  of its result and the new state, so that an early return keeps the writes already made.
  A SQLite table is the list of its rows in rowid order.
\<close>

named_theorems tbl \<open>rewriting of table statements\<close>
named_theorems res \<open>rewriting of results\<close>

section \<open>Results\<close>

type_synonym ('e, 's, 'a) stmt = "('e + 'a) \<times> 's"

definition rbind :: "'e + 'a \<Rightarrow> ('a \<Rightarrow> 'e + 'b) \<Rightarrow> 'e + 'b" where
  "rbind r f = (case r of Inl e \<Rightarrow> Inl e | Inr x \<Rightarrow> f x)"

definition is_ok :: "'e + 'a \<Rightarrow> bool" where
  "is_ok r = (case r of Inl _ \<Rightarrow> False | Inr _ \<Rightarrow> True)"

lemma rbind_simps [simp, res]:
  "rbind (Inl e) f = Inl e"
  "rbind (Inr x) f = f x"
  by (simp_all add: rbind_def)

lemma is_ok_simps [simp, res]:
  "is_ok (Inr x)"
  "\<not> is_ok (Inl e)"
  by (simp_all add: is_ok_def)

lemma rbind_eq_Inr: "rbind r f = Inr y \<longleftrightarrow> (\<exists>x. r = Inr x \<and> f x = Inr y)"
  by (cases r) auto

section \<open>Tables and statements\<close>

text \<open>\<open>UPDATE t SET \<dots> WHERE p\<close>, \<open>DELETE FROM t WHERE p\<close>, \<open>SELECT COUNT(*) \<dots> WHERE p\<close>;
  a \<open>SELECT \<dots> WHERE p\<close> fetched with \<open>fetch_optional\<close> is \<^const>\<open>List.find\<close>.\<close>

definition sql_update :: "('r \<Rightarrow> bool) \<Rightarrow> ('r \<Rightarrow> 'r) \<Rightarrow> 'r list \<Rightarrow> 'r list" where
  "sql_update p f t = map (\<lambda>r. if p r then f r else r) t"

definition sql_delete :: "('r \<Rightarrow> bool) \<Rightarrow> 'r list \<Rightarrow> 'r list" where
  "sql_delete p t = filter (\<lambda>r. \<not> p r) t"

definition sql_count :: "('r \<Rightarrow> bool) \<Rightarrow> 'r list \<Rightarrow> nat" where
  "sql_count p t = length (filter p t)"

text \<open>\<open>INSERT \<dots> ON CONFLICT(k) DO UPDATE\<close>: the first row with the key is rewritten,
  otherwise the row is appended.\<close>

definition sql_upsert :: "('r \<Rightarrow> 'k) \<Rightarrow> 'r \<Rightarrow> ('r \<Rightarrow> 'r) \<Rightarrow> 'r list \<Rightarrow> 'r list" where
  "sql_upsert k new upd t =
     (if k new \<in> k ` set t then sql_update (\<lambda>r. k r = k new) upd t else t @ [new])"

text \<open>\<open>LIMIT n OFFSET m\<close>; a negative \<open>LIMIT\<close> is no limit and a negative \<open>OFFSET\<close> is zero.\<close>

definition sql_limit :: "int \<Rightarrow> int \<Rightarrow> 'r list \<Rightarrow> 'r list" where
  "sql_limit n m rows =
     (let rest = drop (nat m) rows in if n < 0 then rest else take (nat n) rest)"

text \<open>A column with a \<open>PRIMARY KEY\<close> or \<open>UNIQUE\<close> constraint.\<close>

abbreviation unique_on :: "('r \<Rightarrow> 'k) \<Rightarrow> 'r list \<Rightarrow> bool" where
  "unique_on k t \<equiv> distinct (map k t)"

lemma sql_update_Nil [simp, tbl]: "sql_update p f [] = []"
  by (simp add: sql_update_def)

lemma sql_update_Cons [simp, tbl]:
  "sql_update p f (r # t) = (if p r then f r else r) # sql_update p f t"
  by (simp add: sql_update_def)

lemma sql_update_append [simp, tbl]:
  "sql_update p f (s @ t) = sql_update p f s @ sql_update p f t"
  by (simp add: sql_update_def)

lemma length_sql_update [simp, tbl]: "length (sql_update p f t) = length t"
  by (simp add: sql_update_def)

lemma set_sql_update: "set (sql_update p f t) = (\<lambda>r. if p r then f r else r) ` set t"
  by (simp add: sql_update_def)

lemma in_sql_updateE:
  assumes "r \<in> set (sql_update p f t)"
  obtains (hit) s where "s \<in> set t" "p s" "r = f s"
  | (miss) "r \<in> set t" "\<not> p r"
  using assms by (auto simp: sql_update_def split: if_splits)

lemma sql_update_id: "(\<And>r. r \<in> set t \<Longrightarrow> \<not> p r) \<Longrightarrow> sql_update p f t = t"
  by (induction t) auto

lemma map_sql_update:
  "(\<And>r. p r \<Longrightarrow> k (f r) = k r) \<Longrightarrow> map k (sql_update p f t) = map k t"
  by (induction t) auto

lemma unique_on_sql_update [tbl]:
  "(\<And>r. p r \<Longrightarrow> k (f r) = k r) \<Longrightarrow> unique_on k (sql_update p f t) = unique_on k t"
  by (simp add: map_sql_update)

lemma set_sql_delete [simp, tbl]: "set (sql_delete p t) = {r \<in> set t. \<not> p r}"
  by (auto simp: sql_delete_def)

lemma unique_on_sql_delete: "unique_on k t \<Longrightarrow> unique_on k (sql_delete p t)"
  by (induction t) (auto simp: sql_delete_def)

lemma sql_count_eq_0 [tbl]: "sql_count p t = 0 \<longleftrightarrow> (\<forall>r \<in> set t. \<not> p r)"
  by (auto simp: sql_count_def filter_empty_conv)

lemma sql_count_Cons [simp, tbl]:
  "sql_count p (r # t) = (if p r then Suc (sql_count p t) else sql_count p t)"
  by (simp add: sql_count_def)

lemma sql_count_Nil [simp, tbl]: "sql_count p [] = 0"
  by (simp add: sql_count_def)

lemma sql_delete_id: "sql_count p t = 0 \<Longrightarrow> sql_delete p t = t"
  by (auto simp: sql_delete_def sql_count_eq_0)

lemma find_append: "List.find p (s @ t) = (case List.find p s of None \<Rightarrow> List.find p t | Some r \<Rightarrow> Some r)"
  by (induction s) auto

lemma find_SomeD: "List.find p t = Some r \<Longrightarrow> r \<in> set t \<and> p r"
  by (induction t) (auto split: if_splits)

lemma find_None: "List.find p t = None \<longleftrightarrow> (\<forall>r \<in> set t. \<not> p r)"
  by (auto simp: find_None_iff)

lemma find_unique:
  "unique_on k t \<Longrightarrow> r \<in> set t \<Longrightarrow> List.find (\<lambda>x. k x = k r) t = Some r"
proof (induction t)
  case Nil
  then show ?case by simp
next
  case (Cons x t)
  show ?case
  proof (cases "x = r")
    case True
    then show ?thesis by simp
  next
    case False
    with Cons.prems have "r \<in> set t" by simp
    then have "k x \<noteq> k r" using Cons.prems(1) by auto
    with Cons \<open>r \<in> set t\<close> show ?thesis by simp
  qed
qed

lemma find_unique_iff:
  assumes "unique_on k t"
  shows "List.find (\<lambda>x. k x = a \<and> q x) t = Some r \<longleftrightarrow> r \<in> set t \<and> k r = a \<and> q r"
proof
  assume "r \<in> set t \<and> k r = a \<and> q r"
  with assms show "List.find (\<lambda>x. k x = a \<and> q x) t = Some r"
    by (induction t) auto
qed (auto dest: find_SomeD)

lemma not_in_image: "x \<notin> f ` A \<longleftrightarrow> (\<forall>y \<in> A. f y \<noteq> x)"
  by auto

lemma option_extI: "(\<And>x. a = Some x \<longleftrightarrow> b = Some x) \<Longrightarrow> a = b"
  by (cases a; cases b) auto

lemma find_sql_update:
  "(\<And>r. p r \<Longrightarrow> q (f r) = q r) \<Longrightarrow>
   List.find q (sql_update p f t) =
     map_option (\<lambda>r. if p r then f r else r) (List.find q t)"
  by (induction t) auto

lemma find_sql_delete_other:
  "(\<And>r. q r \<Longrightarrow> \<not> p r) \<Longrightarrow> List.find q (sql_delete p t) = List.find q t"
  by (induction t) (auto simp: sql_delete_def)

lemma unique_on_sql_upsert:
  assumes "\<And>r. k r = k new \<Longrightarrow> k (upd r) = k r" and "unique_on k t"
  shows "unique_on k (sql_upsert k new upd t)"
proof (cases "k new \<in> k ` set t")
  case True
  have "map k (sql_update (\<lambda>r. k r = k new) upd t) = map k t"
    by (rule map_sql_update) (rule assms(1))
  with True assms(2) show ?thesis by (simp add: sql_upsert_def)
next
  case False
  with assms(2) show ?thesis by (simp add: sql_upsert_def)
qed

lemma find_sql_upsert_same:
  assumes "\<And>r. k r = k new \<Longrightarrow> k (upd r) = k r"
  shows "List.find (\<lambda>r. k r = k new) (sql_upsert k new upd t) =
    Some (case List.find (\<lambda>r. k r = k new) t of None \<Rightarrow> new | Some r \<Rightarrow> upd r)"
proof (cases "List.find (\<lambda>r. k r = k new) t")
  case None
  then have "k new \<notin> k ` set t" by (auto simp: find_None)
  with None show ?thesis by (simp add: sql_upsert_def find_append)
next
  case (Some r)
  then have r: "r \<in> set t" "k r = k new" by (auto dest: find_SomeD)
  then have "k new \<in> k ` set t" by (metis image_eqI)
  moreover have "List.find (\<lambda>r. k r = k new) (sql_update (\<lambda>r. k r = k new) upd t) =
      map_option (\<lambda>r. if k r = k new then upd r else r) (List.find (\<lambda>r. k r = k new) t)"
    by (rule find_sql_update) (simp add: assms)
  ultimately show ?thesis using Some r by (simp add: sql_upsert_def)
qed

lemma find_sql_upsert_other:
  assumes "\<And>r. k r = k new \<Longrightarrow> k (upd r) = k r" and "k' \<noteq> k new"
  shows "List.find (\<lambda>r. k r = k') (sql_upsert k new upd t) = List.find (\<lambda>r. k r = k') t"
proof -
  have "List.find (\<lambda>r. k r = k') (sql_update (\<lambda>r. k r = k new) upd t) =
      List.find (\<lambda>r. k r = k') t"
    using assms by (induction t) auto
  with assms(2) show ?thesis
    by (auto simp: sql_upsert_def find_append split: option.splits)
qed

lemma sort_key_eq_Nil [simp]: "sort_key f xs = [] \<longleftrightarrow> xs = []"
proof -
  have "set (sort_key f xs) = {} \<longleftrightarrow> set xs = {}" by simp
  then show ?thesis by (simp only: set_empty)
qed

lemma length_sql_limit: "0 \<le> n \<Longrightarrow> length (sql_limit n m rows) \<le> nat n"
  by (simp add: sql_limit_def Let_def)

lemma set_sql_limit: "set (sql_limit n m rows) \<subseteq> set rows"
  unfolding sql_limit_def Let_def by (auto dest: in_set_takeD in_set_dropD)

end
