(* ===== verification/Core_Types.thy ===== *)
theory Core_Types
  imports Prelude Complex_Main "HOL-Library.Char_ord" "HOL-Library.List_Lexorder"
begin

text \<open>
  The data of \<^verbatim>\<open>rustbase-core\<close> and the error enums of the storage and API layers
  (\<open>error.rs\<close>, \<open>id.rs\<close>, \<open>ctx.rs\<close>, \<open>record.rs\<close>, \<open>schema.rs\<close>, \<open>rustbase-db/src/error.rs\<close>).

  Text is a \<^typ>\<open>string\<close>: one HOL character per Unicode scalar value, so the model covers
  text in the range U+0000 to U+00FF. Timestamps (\<open>DateTime<Utc>\<close>) are integers on one
  clock that the caller passes in as \<open>now\<close>; durations are integers on the same scale.
  JSON numbers follow \<open>serde_json::Number\<close>: a non-negative integer, a negative integer,
  or a finite \<open>f64\<close>, whose value is a rational.
\<close>

type_synonym time = int

section \<open>JSON values\<close>

datatype json_number = PosInt nat | NegInt int | Float rat

datatype json =
    JNull
  | JBool bool
  | JNumber json_number
  | JString string
  | JArray "json list"
  | JObject "(string \<times> json) list"

section \<open>Errors\<close>

datatype core_error =
    NotFound string string
  | Validation string
  | WorkspaceNotFound string
  | AppNotFound string string
  | PolicyViolation (violation_field: string) (violation_value: string) (violation_bound: string)
  | Unauthorized
  | Forbidden
  | Conflict string
  | Unavailable string
  | TooManyRequests nat
  | Internal string

text \<open>The \<open>sqlx::Error\<close> values the code distinguishes: a missing row, a violated
  \<open>PRIMARY KEY\<close>/\<open>UNIQUE\<close> constraint, a violated foreign key, a violated \<open>NOT NULL\<close>, a statement
  against a table that does or does not exist, and everything else.\<close>

datatype sqlx_error =
    RowNotFound
  | UniqueViolation
  | ForeignKeyViolation
  | NotNullViolation
  | NoSuchTable string
  | TableExists string
  | DuplicateColumn string
  | OtherSqlx string

datatype db_error =
    Sqlx sqlx_error
  | Io string
  | InvalidIdentifier string
  | Invariant string
  | Migration string sqlx_error
  | Core core_error

text \<open>The conversion at the API boundary. The rendering of an underlying driver error is the
  driver's own, so it is an argument.\<close>

definition core_error_of_db :: "(sqlx_error \<Rightarrow> string) \<Rightarrow> db_error \<Rightarrow> core_error" where
  "core_error_of_db show_sqlx e = (case e of
      Core c \<Rightarrow> c
    | InvalidIdentifier name \<Rightarrow> Validation (''invalid identifier: '' @ name)
    | Invariant msg \<Rightarrow> Internal (''storage invariant violated: '' @ msg)
    | Sqlx s \<Rightarrow> Internal (''database error: '' @ show_sqlx s)
    | Io i \<Rightarrow> Internal (''io error: '' @ i)
    | Migration migration source \<Rightarrow>
        Internal (''migration '' @ migration @ '' failed: '' @ show_sqlx source))"

text \<open>\<open>Display\<close> of the two error types; decimal numbers are an argument too.\<close>

fun core_error_str :: "(int \<Rightarrow> string) \<Rightarrow> core_error \<Rightarrow> string" where
  "core_error_str show_int (NotFound coll i) = ''record not found: '' @ coll @ ''/'' @ i"
| "core_error_str show_int (Validation m) = ''validation failed: '' @ m"
| "core_error_str show_int (WorkspaceNotFound w) = ''workspace not found: '' @ w"
| "core_error_str show_int (AppNotFound w a) = ''app not found: '' @ w @ ''/'' @ a"
| "core_error_str show_int (PolicyViolation f v b) = ''policy violation: '' @ f @ '' = '' @ v @ '' outside bound '' @ b"
| "core_error_str show_int Unauthorized = ''unauthorized''"
| "core_error_str show_int Forbidden = ''forbidden''"
| "core_error_str show_int (Conflict m) = ''conflict: '' @ m"
| "core_error_str show_int (Unavailable m) = ''unavailable: '' @ m"
| "core_error_str show_int (TooManyRequests n) = ''too many requests; retry after '' @ show_int (int n) @ ''s''"
| "core_error_str show_int (Internal m) = ''internal error: '' @ m"

fun db_error_str :: "(sqlx_error \<Rightarrow> string) \<Rightarrow> (int \<Rightarrow> string) \<Rightarrow> db_error \<Rightarrow> string" where
  "db_error_str show_sqlx show_int (Sqlx e) = ''sqlx error: '' @ show_sqlx e"
| "db_error_str show_sqlx show_int (Io m) = ''io error: '' @ m"
| "db_error_str show_sqlx show_int (InvalidIdentifier m) = ''invalid identifier: '' @ m"
| "db_error_str show_sqlx show_int (Invariant m) = ''storage invariant violated: '' @ m"
| "db_error_str show_sqlx show_int (Migration m e) = ''migration '' @ m @ '' failed: '' @ show_sqlx e"
| "db_error_str show_sqlx show_int (Core c) = core_error_str show_int c"

section \<open>Identities\<close>

text \<open>The id newtypes of \<open>id.rs\<close> wrap a string and are distinct types.\<close>

datatype workspace_id = WorkspaceId (workspace_str: string)
datatype app_id = AppId (app_str: string)
datatype user_id = UserId (user_str: string)
datatype admin_id = AdminId (admin_str: string)
datatype collection_id = CollectionId (collection_str: string)
datatype record_id = RecordId (record_str: string)

definition MASTER_WORKSPACE_ID :: string where
  "MASTER_WORKSPACE_ID = ''master''"

datatype principal =
    MasterAdmin admin_id
  | WorkspaceAdmin admin_id workspace_id
  | AppAdmin admin_id workspace_id app_id
  | User user_id workspace_id
  | Guest

fun principal_workspace :: "principal \<Rightarrow> workspace_id option" where
  "principal_workspace (WorkspaceAdmin _ w) = Some w"
| "principal_workspace (AppAdmin _ w _) = Some w"
| "principal_workspace (User _ w) = Some w"
| "principal_workspace (MasterAdmin _) = None"
| "principal_workspace Guest = None"

definition is_master :: "principal \<Rightarrow> bool" where
  "is_master p = (case p of MasterAdmin _ \<Rightarrow> True | _ \<Rightarrow> False)"

record workspace_ctx =
  wctx_workspace :: workspace_id
  wctx_principal :: principal

record app_ctx =
  actx_workspace :: workspace_id
  actx_app :: app_id
  actx_principal :: principal

definition app_ctx_workspace_ctx :: "app_ctx \<Rightarrow> workspace_ctx" where
  "app_ctx_workspace_ctx c =
     \<lparr>wctx_workspace = actx_workspace c, wctx_principal = actx_principal c\<rparr>"

section \<open>Schemas and records\<close>

datatype collection_kind = Base | Auth | View

datatype field_type =
    Text "nat option" "nat option"
  | Number "rat option" "rat option"
  | Bool
  | Email
  | Url
  | Date
  | Json
  | Relation collection_id bool
  | File "nat option" "string list"

record field =
  fname :: string
  fty :: field_type
  frequired :: bool
  funique :: bool

record schema =
  schema_id :: collection_id
  schema_kind :: collection_kind
  schema_fields :: "field list"

text \<open>A record's fields are a \<open>BTreeMap\<close>.\<close>

type_synonym fields = "string \<rightharpoonup> json"

record rec =
  rec_id :: record_id
  rec_collection :: collection_id
  rec_fields :: fields
  rec_created_at :: time
  rec_updated_at :: time

definition record_new :: "time \<Rightarrow> collection_id \<Rightarrow> record_id \<Rightarrow> rec" where
  "record_new now collection i =
     \<lparr>rec_id = i, rec_collection = collection, rec_fields = Map.empty,
      rec_created_at = now, rec_updated_at = now\<rparr>"

definition with_field :: "rec \<Rightarrow> string \<Rightarrow> json \<Rightarrow> rec" where
  "with_field r name v = r\<lparr>rec_fields := (rec_fields r)(name \<mapsto> v)\<rparr>"

section \<open>Mail messages\<close>

record email_message =
  em_from :: string
  em_to :: string
  em_subject :: string
  em_text :: string
  em_html :: "string option"

definition email_message_new :: "string \<Rightarrow> string \<Rightarrow> string \<Rightarrow> string \<Rightarrow> email_message" where
  "email_message_new from to subject txt =
     \<lparr>em_from = from, em_to = to, em_subject = subject, em_text = txt, em_html = None\<rparr>"

definition with_html :: "email_message \<Rightarrow> string \<Rightarrow> email_message" where
  "with_html m html = m\<lparr>em_html := Some html\<rparr>"

section \<open>Characters\<close>

text \<open>The character classes of Rust's \<open>char\<close> that the sources use, and \<open>str::trim\<close>, which
  strips the Unicode \<open>White_Space\<close> characters, of which U+0009 to U+000D, U+0020, U+0085 and
  U+00A0 are in range.\<close>

definition is_ascii_lowercase :: "char \<Rightarrow> bool" where
  "is_ascii_lowercase c = (CHR ''a'' \<le> c \<and> c \<le> CHR ''z'')"

definition is_ascii_uppercase :: "char \<Rightarrow> bool" where
  "is_ascii_uppercase c = (CHR ''A'' \<le> c \<and> c \<le> CHR ''Z'')"

definition is_ascii_digit :: "char \<Rightarrow> bool" where
  "is_ascii_digit c = (CHR ''0'' \<le> c \<and> c \<le> CHR ''9'')"

definition is_ascii_alphabetic :: "char \<Rightarrow> bool" where
  "is_ascii_alphabetic c = (is_ascii_lowercase c \<or> is_ascii_uppercase c)"

definition is_ascii_alphanumeric :: "char \<Rightarrow> bool" where
  "is_ascii_alphanumeric c = (is_ascii_alphabetic c \<or> is_ascii_digit c)"

definition to_ascii_lowercase :: "char \<Rightarrow> char" where
  "to_ascii_lowercase c =
     (if is_ascii_uppercase c then char_of (of_char c + 32 :: nat) else c)"

definition eq_ignore_ascii_case :: "string \<Rightarrow> string \<Rightarrow> bool" where
  "eq_ignore_ascii_case s t = (map to_ascii_lowercase s = map to_ascii_lowercase t)"

definition is_whitespace :: "char \<Rightarrow> bool" where
  "is_whitespace c =
     (let n = of_char c :: nat in (9 \<le> n \<and> n \<le> 13) \<or> n = 32 \<or> n = 133 \<or> n = 160)"

definition trim_start :: "string \<Rightarrow> string" where
  "trim_start s = dropWhile is_whitespace s"

definition trim :: "string \<Rightarrow> string" where
  "trim s = rev (dropWhile is_whitespace (rev (trim_start s)))"

lemma trim_eq_Nil: "trim s = [] \<longleftrightarrow> (\<forall>c \<in> set s. is_whitespace c)"
  by (auto simp: trim_def trim_start_def dropWhile_eq_Nil_conv dest: set_dropWhileD)
     (metis dropWhile_eq_Nil_conv hd_dropWhile list.set_sel(1) set_dropWhileD)

section \<open>SQL patterns\<close>

text \<open>SQLite's \<open>LIKE\<close>: \<open>%\<close> matches any run of characters, \<open>_\<close> any one, and the rest is compared
  without regard to ASCII case.\<close>

fun sql_like :: "string \<Rightarrow> string \<Rightarrow> bool" where
  "sql_like [] s = (s = [])"
| "sql_like (p # ps) [] = (p = CHR ''%'' \<and> sql_like ps [])"
| "sql_like (p # ps) (c # s) =
     (if p = CHR ''%'' then sql_like ps (c # s) \<or> sql_like (p # ps) s
      else (p = CHR ''_'' \<or> to_ascii_lowercase p = to_ascii_lowercase c) \<and> sql_like ps s)"

lemma sql_like_percent: "sql_like (CHR ''%'' # ps) s \<longleftrightarrow> (\<exists>a b. s = a @ b \<and> sql_like ps b)"
proof (induction s)
  case Nil
  then show ?case by simp
next
  case (Cons c s)
  show ?case
  proof
    assume "sql_like (CHR ''%'' # ps) (c # s)"
    then consider "sql_like ps (c # s)" | "sql_like (CHR ''%'' # ps) s" by auto
    then show "\<exists>a b. c # s = a @ b \<and> sql_like ps b"
    proof cases
      case 1
      then show ?thesis by (metis append_Nil)
    next
      case 2
      then show ?thesis using Cons.IH by (metis append_Cons)
    qed
  next
    assume "\<exists>a b. c # s = a @ b \<and> sql_like ps b"
    then show "sql_like (CHR ''%'' # ps) (c # s)" using Cons.IH by (auto simp: Cons_eq_append_conv)
  qed
qed

lemma sql_like_any: "sql_like ''%'' s"
  by (simp add: sql_like_percent)

section \<open>Bytes\<close>

text \<open>\<open>str::as_bytes\<close> for scalar values up to U+00FF; a byte is a character code.\<close>

definition utf8 :: "char \<Rightarrow> char list" where
  "utf8 c = (let n = of_char c :: nat in
     if n < 128 then [c] else [char_of (192 + n div 64), char_of (128 + n mod 64)])"

definition as_bytes :: "string \<Rightarrow> char list" where
  "as_bytes s = concat (map utf8 s)"

end
