(* ===== verification/Filter_Node.thy ===== *)
theory Filter_Node
  imports Core_Types "HOL-Library.List_Lexorder"
begin

text \<open>
  The filter expressions of \<^verbatim>\<open>rustbase-core/src/filter.rs\<close> and their in-memory evaluation,
  which the realtime broker runs on every event: \<open>FilterNode\<close>, \<open>matches\<close>, \<open>values_equal\<close>,
  \<open>cmp_values\<close> and \<open>like_match\<close>.

  The lemmas show the evaluator against a declarative meaning: the backtracking pattern matcher
  decides the \<open>LIKE\<close> relation, the four order tests agree with the order of the compared
  values, and incomparable values satisfy none of them.
\<close>

section \<open>Numbers as doubles\<close>

text \<open>\<open>Number::as_f64\<close> converts an integer to the nearest \<open>f64\<close>, ties to even: integers of at
  most 53 bits are exact, longer ones are rounded to 53 significant bits.\<close>

fun bit_length :: "nat \<Rightarrow> nat" where
  "bit_length n = (if n = 0 then 0 else Suc (bit_length (n div 2)))"

declare bit_length.simps [simp del]

definition f64_of_nat :: "nat \<Rightarrow> nat" where
  "f64_of_nat m =
     (if bit_length m \<le> 53 then m
      else let k = bit_length m - 53; q = m div 2 ^ k; r = m mod 2 ^ k; half = 2 ^ (k - 1)
           in (if r > half \<or> (r = half \<and> odd q) then (q + 1) * 2 ^ k else q * 2 ^ k))"

fun as_f64 :: "json_number \<Rightarrow> rat" where
  "as_f64 (PosInt n) = rat_of_nat (f64_of_nat n)"
| "as_f64 (NegInt i) = - rat_of_nat (f64_of_nat (nat (- i)))"
| "as_f64 (Float x) = x"

lemma bit_length_0 [simp]: "bit_length 0 = 0"
  by (simp add: bit_length.simps)

lemma bit_length_bound: "n < 2 ^ k \<Longrightarrow> bit_length n \<le> k"
proof (induction n arbitrary: k rule: bit_length.induct)
  case (1 n)
  show ?case
  proof (cases "n = 0")
    case True
    then show ?thesis by simp
  next
    case False
    with "1.prems" obtain j where k: "k = Suc j" by (cases k) auto
    with "1.prems" have "n div 2 < 2 ^ j" by (simp add: less_mult_imp_div_less mult.commute)
    with "1.IH" [OF False] have "bit_length (n div 2) \<le> j" by simp
    with False k show ?thesis by (simp add: bit_length.simps [of n])
  qed
qed

lemma f64_of_nat_exact: "n < 2 ^ 53 \<Longrightarrow> f64_of_nat n = n"
  by (simp add: f64_of_nat_def bit_length_bound)

section \<open>Filters\<close>

datatype filter_node =
    And filter_node filter_node
  | Or filter_node filter_node
  | Not filter_node
  | Eq string json
  | Ne string json
  | Gt string json
  | Gte string json
  | Lt string json
  | Lte string json
  | Like string string
  | In string "json list"

definition values_equal :: "json \<Rightarrow> json \<Rightarrow> bool" where
  "values_equal a b = (a = b)"

datatype ordering = Less | Equal | Greater

text \<open>\<open>Ord::cmp\<close> and \<open>f64::partial_cmp\<close> on finite values.\<close>

definition cmp :: "'a::linorder \<Rightarrow> 'a \<Rightarrow> ordering" where
  "cmp x y = (if x < y then Less else if x = y then Equal else Greater)"

fun cmp_values :: "json \<Rightarrow> json \<Rightarrow> ordering option" where
  "cmp_values (JNumber x) (JNumber y) = Some (cmp (as_f64 x) (as_f64 y))"
| "cmp_values (JString x) (JString y) = Some (cmp x y)"
| "cmp_values (JBool x) (JBool y) = Some (
     if x = y then Equal else if \<not> x \<and> y then Less else Greater)"
| "cmp_values _ _ = None"

text \<open>\<open>like_match\<close> walks pattern and value greedily and backtracks on \<open>%\<close>; the inner function
  \<open>go\<close> works on the two character slices.\<close>

fun like_go :: "char list \<Rightarrow> char list \<Rightarrow> bool" where
  "like_go v [] = (v = [])"
| "like_go v (c # p) =
     (if c = CHR ''%'' then
        (if like_go v p then True
         else case v of [] \<Rightarrow> False | _ # v' \<Rightarrow> like_go v' (c # p))
      else if c = CHR ''_'' then (case v of [] \<Rightarrow> False | _ # v' \<Rightarrow> like_go v' p)
      else (case v of [] \<Rightarrow> False | x # v' \<Rightarrow> x = c \<and> like_go v' p))"

definition like_match :: "string \<Rightarrow> string \<Rightarrow> bool" where
  "like_match v p = like_go v p"

definition get_or_null :: "fields \<Rightarrow> string \<Rightarrow> json" where
  "get_or_null fs k = (case fs k of Some v \<Rightarrow> v | None \<Rightarrow> JNull)"

fun matches :: "filter_node \<Rightarrow> fields \<Rightarrow> bool" where
  "matches (And l r) fs = (matches l fs \<and> matches r fs)"
| "matches (Or l r) fs = (matches l fs \<or> matches r fs)"
| "matches (Not inner) fs = (\<not> matches inner fs)"
| "matches (Eq k v) fs = values_equal (get_or_null fs k) v"
| "matches (Ne k v) fs = (\<not> values_equal (get_or_null fs k) v)"
| "matches (Gt k v) fs = (case cmp_values (get_or_null fs k) v of Some o1 \<Rightarrow> o1 = Greater | None \<Rightarrow> False)"
| "matches (Gte k v) fs = (case cmp_values (get_or_null fs k) v of Some o1 \<Rightarrow> o1 \<noteq> Less | None \<Rightarrow> False)"
| "matches (Lt k v) fs = (case cmp_values (get_or_null fs k) v of Some o1 \<Rightarrow> o1 = Less | None \<Rightarrow> False)"
| "matches (Lte k v) fs = (case cmp_values (get_or_null fs k) v of Some o1 \<Rightarrow> o1 \<noteq> Greater | None \<Rightarrow> False)"
| "matches (Like k pat) fs = (case fs k of Some (JString s) \<Rightarrow> like_match s pat | _ \<Rightarrow> False)"
| "matches (In k list) fs = list_ex (\<lambda>v. values_equal (get_or_null fs k) v) list"

section \<open>The LIKE relation\<close>

text \<open>What a pattern means: \<open>%\<close> stands for any run of characters, \<open>_\<close> for exactly one, and any
  other character for itself.\<close>

inductive likes :: "string \<Rightarrow> string \<Rightarrow> bool" where
  likes_nil: "likes [] []"
| likes_percent: "likes v p \<Longrightarrow> likes (u @ v) (CHR ''%'' # p)"
| likes_underscore: "likes v p \<Longrightarrow> likes (x # v) (CHR ''_'' # p)"
| likes_char: "likes v p \<Longrightarrow> c \<noteq> CHR ''%'' \<Longrightarrow> c \<noteq> CHR ''_'' \<Longrightarrow> likes (c # v) (c # p)"

declare like_go.simps(2) [simp del]

lemma like_go_underscore: "like_go v (CHR ''_'' # p) \<longleftrightarrow> (\<exists>x v'. v = x # v' \<and> like_go v' p)"
  by (auto simp: like_go.simps split: list.splits)

lemma like_go_char:
  "c \<noteq> CHR ''%'' \<Longrightarrow> c \<noteq> CHR ''_'' \<Longrightarrow> like_go v (c # p) \<longleftrightarrow> (\<exists>v'. v = c # v' \<and> like_go v' p)"
  by (auto simp: like_go.simps split: list.splits)

lemma like_go_percent:
  "like_go v (CHR ''%'' # p) \<longleftrightarrow> like_go v p \<or> (\<exists>x v'. v = x # v' \<and> like_go v' (CHR ''%'' # p))"
  by (subst like_go.simps) (auto split: list.splits)

inductive_simps likes_Nil [simp]: "likes v []"
inductive_cases likes_ConsE: "likes v (c # p)"

lemma like_go_imp_likes: "like_go v p \<Longrightarrow> likes v p"
proof (induction v p rule: like_go.induct)
  case (1 v)
  then show ?case by simp
next
  case (2 v c p)
  show ?case
  proof (cases "c = CHR ''%''")
    case percent: True
    show ?thesis
    proof (cases "like_go v p")
      case True
      with percent "2.IH"(1) have "likes v p" by simp
      then have "likes ([] @ v) (c # p)" unfolding percent by (rule likes_percent)
      then show ?thesis by simp
    next
      case False
      with percent "2.prems" obtain x v' where v: "v = x # v'" "like_go v' (c # p)"
        by (auto simp: like_go_percent [of v])
      with False percent "2.IH"(2) have "likes v' (c # p)" by simp
      with percent obtain u w where "v' = u @ w" "likes w p" by (auto elim: likes_ConsE)
      from \<open>likes w p\<close> have "likes ((x # u) @ w) (c # p)" unfolding percent by (rule likes_percent)
      with v \<open>v' = u @ w\<close> show ?thesis by simp
    qed
  next
    case False
    show ?thesis
    proof (cases "c = CHR ''_''")
      case True
      with "2.prems" obtain x v' where "v = x # v'" "like_go v' p"
        by (auto simp: like_go_underscore)
      with True "2.IH"(3) show ?thesis by (auto intro: likes_underscore)
    next
      case no: False
      with False "2.prems" obtain v' where "v = c # v'" "like_go v' p"
        by (auto simp: like_go_char)
      with False no "2.IH"(4) show ?thesis by (auto intro: likes_char)
    qed
  qed
qed

lemma like_go_percent_append: "like_go v p \<Longrightarrow> like_go (u @ v) (CHR ''%'' # p)"
proof (induction u)
  case Nil
  then show ?case by (subst like_go_percent) simp
next
  case (Cons x u)
  then show ?case by (subst like_go_percent) simp
qed

lemma likes_imp_like_go: "likes v p \<Longrightarrow> like_go v p"
proof (induction rule: likes.induct)
  case likes_nil
  show ?case by simp
next
  case (likes_percent v p u)
  then show ?case by (intro like_go_percent_append)
next
  case (likes_underscore v p x)
  then show ?case by (simp add: like_go_underscore)
next
  case (likes_char v p c)
  then show ?case by (simp add: like_go_char)
qed

lemma like_match_iff: "like_match v p \<longleftrightarrow> likes v p"
  by (auto simp: like_match_def intro: like_go_imp_likes likes_imp_like_go)

lemma like_match_literal:
  "CHR ''%'' \<notin> set p \<Longrightarrow> CHR ''_'' \<notin> set p \<Longrightarrow> like_match v p \<longleftrightarrow> v = p"
  unfolding like_match_def
proof (induction p arbitrary: v)
  case Nil
  show ?case by simp
next
  case (Cons c p)
  from Cons.prems have c: "c \<noteq> CHR ''%''" "c \<noteq> CHR ''_''"
    and p: "CHR ''%'' \<notin> set p" "CHR ''_'' \<notin> set p" by auto
  show ?case unfolding like_go_char [OF c] using Cons.IH [OF p] by auto
qed

lemma like_go_percent_iff: "like_go v (CHR ''%'' # p) \<longleftrightarrow> (\<exists>u w. v = u @ w \<and> like_go w p)"
proof
  assume "like_go v (CHR ''%'' # p)"
  then have "likes v (CHR ''%'' # p)" by (rule like_go_imp_likes)
  then show "\<exists>u w. v = u @ w \<and> like_go w p"
    by (auto elim!: likes_ConsE intro: likes_imp_like_go)
next
  assume "\<exists>u w. v = u @ w \<and> like_go w p"
  then show "like_go v (CHR ''%'' # p)" by (auto intro: like_go_percent_append)
qed

section \<open>Comparisons\<close>

lemma cmp_simps:
  "cmp x y = Less \<longleftrightarrow> x < y" "cmp x y = Equal \<longleftrightarrow> x = y" "cmp x y = Greater \<longleftrightarrow> y < x"
  by (auto simp: cmp_def)

lemma cmp_values_sym:
  "cmp_values a b = Some o1 \<Longrightarrow>
   cmp_values b a = Some (case o1 of Less \<Rightarrow> Greater | Equal \<Rightarrow> Equal | Greater \<Rightarrow> Less)"
  by (cases "(a, b)" rule: cmp_values.cases) (auto simp: cmp_def split: if_splits)

lemma ordering_exhaust: "o1 = Less \<or> o1 = Equal \<or> o1 = Greater"
  by (cases o1) auto

section \<open>Properties\<close>

text \<open>The backtracking matcher terminates on every input and decides exactly the declarative
  \<open>LIKE\<close> relation.\<close>

theorem like_match_correct: "like_match v p = likes v p"
  by (simp add: like_match_iff)

text \<open>Exactly one of \<open><\<close>, \<open>=\<close> (as order) and \<open>>\<close> holds between comparable values, the
  inclusive tests are the complements of the opposite strict ones, and values that cannot be
  compared satisfy no order test at all.\<close>

theorem order_tests_partition:
  "(cmp_values (get_or_null fs k) v = None \<longrightarrow>
      \<not> matches (Gt k v) fs \<and> \<not> matches (Gte k v) fs \<and> \<not> matches (Lt k v) fs \<and> \<not> matches (Lte k v) fs)
   \<and> (cmp_values (get_or_null fs k) v \<noteq> None \<longrightarrow>
      (matches (Gte k v) fs \<longleftrightarrow> \<not> matches (Lt k v) fs) \<and>
      (matches (Lte k v) fs \<longleftrightarrow> \<not> matches (Gt k v) fs) \<and>
      \<not> (matches (Lt k v) fs \<and> matches (Gt k v) fs))"
  by (auto split: option.splits)

theorem order_tests_partition_witness:
  "matches (Gte ''age'' (JNumber (PosInt 18))) [''age'' \<mapsto> JNumber (PosInt 19)]
   \<and> \<not> matches (Lt ''age'' (JNumber (PosInt 18))) [''age'' \<mapsto> JNumber (PosInt 19)]
   \<and> \<not> matches (Gt ''age'' (JNumber (PosInt 18))) [''age'' \<mapsto> JString ''x'']"
  using order_tests_partition [of "[''age'' \<mapsto> JNumber (PosInt 19)]" "''age''" "JNumber (PosInt 18)"]
    order_tests_partition [of "[''age'' \<mapsto> JString ''x'']" "''age''" "JNumber (PosInt 18)"]
  by (simp add: get_or_null_def cmp_simps f64_of_nat_exact)

text \<open>On integers below \<open>2 ^ 53\<close> the comparison through \<open>f64\<close> is the integer order; above it,
  distinct integers can compare as equal.\<close>

theorem integer_comparison_exact:
  assumes "m < 2 ^ 53" and "n < 2 ^ 53"
  shows "matches (Gt k (JNumber (PosInt n))) [k \<mapsto> JNumber (PosInt m)] = (m > n)
    \<and> matches (Lt k (JNumber (PosInt n))) [k \<mapsto> JNumber (PosInt m)] = (m < n)
    \<and> \<not> matches (Gt k (JNumber (PosInt (2 ^ 53)))) [k \<mapsto> JNumber (PosInt (2 ^ 53 + 1))]"
proof -
  have bl: "bit_length (2 ^ 53) = 54" "bit_length (2 ^ 53 + 1) = 54"
    by (simp_all add: bit_length.simps)
  have "f64_of_nat (2 ^ 53 + 1) = f64_of_nat (2 ^ 53)"
    unfolding f64_of_nat_def bl by (simp add: Let_def)
  with assms show ?thesis
    by (simp add: get_or_null_def f64_of_nat_exact cmp_simps)
qed

theorem integer_comparison_exact_witness:
  "matches (Gt ''n'' (JNumber (PosInt 3))) [''n'' \<mapsto> JNumber (PosInt 5)]"
  using integer_comparison_exact [of 5 3 "''n''"] by simp

end
