(* ===== verification/Filter_Parser.thy ===== *)
theory Filter_Parser
  imports Filter_Node
begin

text \<open>
  The filter language of \<^verbatim>\<open>rustbase-core/src/filter_parser.rs\<close>, one definition per parser
  function. A parser maps its input to the rest and a value, or to \<open>None\<close> for a recoverable
  \<open>nom\<close> error. The combinators \<open>alt\<close>, \<open>map\<close>, \<open>preceded\<close>, \<open>delimited\<close>, \<open>pair\<close>, \<open>recognize\<close> and
  \<open>many0\<close> are written out as case distinctions and recursion; the character-level ones come
  first. \<open>nom\<close>'s floating-point reader and the rendering of its errors are parameters.

  The recursion between the grammar's levels is total: every nested call works on a strictly
  shorter input. The lemmas show the shape of what the parser can produce and that it inverts
  a printer that writes no redundant parentheses.
\<close>

section \<open>Library parsers\<close>

text \<open>An \<open>f64\<close> as the number reader returns it: a finite value, or an infinity or NaN. The reader
  returns how many characters it consumed, since the rest is a slice of the input.\<close>

datatype f64 = Finite rat | NonFinite

record nom =
  double :: "string \<Rightarrow> (nat \<times> f64) option"
  show_error :: "string \<Rightarrow> string"
  show_debug :: "string \<Rightarrow> string"

type_synonym 'a ires = "(string \<times> 'a) option"

definition tag :: "string \<Rightarrow> string \<Rightarrow> string ires" where
  "tag t i = (if take (length t) i = t then Some (drop (length t) i, t) else None)"

definition is_multispace :: "char \<Rightarrow> bool" where
  "is_multispace c = (c = CHR '' '' \<or> c = CHR 0x09 \<or> c = CHR 0x0D \<or> c = CHR 0x0A)"

definition multispace0 :: "string \<Rightarrow> string" where
  "multispace0 i = dropWhile is_multispace i"

section \<open>Tokens\<close>

definition ws_tag :: "string \<Rightarrow> string \<Rightarrow> string ires" where
  "ws_tag t i = (case tag t (multispace0 i) of None \<Rightarrow> None
     | Some (i', t') \<Rightarrow> Some (multispace0 i', t'))"

definition ws_char :: "char \<Rightarrow> string \<Rightarrow> char ires" where
  "ws_char c i = (case multispace0 i of [] \<Rightarrow> None
     | x # i' \<Rightarrow> if x = c then Some (multispace0 i', c) else None)"

definition is_ident_start :: "char \<Rightarrow> bool" where
  "is_ident_start c = (is_ascii_alphabetic c \<or> c = CHR ''_'')"

definition is_ident_rest :: "char \<Rightarrow> bool" where
  "is_ident_rest c = (is_ascii_alphanumeric c \<or> c = CHR ''_'' \<or> c = CHR ''.'')"

definition ident :: "string \<Rightarrow> string ires" where
  "ident i = (let a = takeWhile is_ident_start i; i1 = dropWhile is_ident_start i in
     if a = [] then None
     else Some (dropWhile is_ident_rest i1, a @ takeWhile is_ident_rest i1))"

definition string_literal :: "string \<Rightarrow> string ires" where
  "string_literal i = (case i of [] \<Rightarrow> None
     | c # i1 \<Rightarrow> if c \<noteq> CHR 0x22 then None
       else (case dropWhile (\<lambda>c. c \<noteq> CHR 0x22) i1 of [] \<Rightarrow> None
             | _ # i2 \<Rightarrow> Some (i2, takeWhile (\<lambda>c. c \<noteq> CHR 0x22) i1)))"

text \<open>An integral double below \<open>i64::MAX as f64\<close>, which is \<open>2 ^ 63\<close>, becomes an integer; a
  non-finite one is not a JSON number and \<open>Value::from\<close> turns it into null.\<close>

definition json_of_f64 :: "f64 \<Rightarrow> json" where
  "json_of_f64 n = (case n of NonFinite \<Rightarrow> JNull
     | Finite x \<Rightarrow> if x \<in> \<int> \<and> \<bar>x\<bar> < 2 ^ 63
         then (if x \<ge> 0 then JNumber (PosInt (nat \<lfloor>x\<rfloor>)) else JNumber (NegInt \<lfloor>x\<rfloor>))
         else JNumber (Float x))"

definition json_value :: "nom \<Rightarrow> string \<Rightarrow> json ires" where
  "json_value N i = (case tag ''null'' i of Some (r, _) \<Rightarrow> Some (r, JNull) | None \<Rightarrow>
     (case tag ''true'' i of Some (r, _) \<Rightarrow> Some (r, JBool True) | None \<Rightarrow>
     (case tag ''false'' i of Some (r, _) \<Rightarrow> Some (r, JBool False) | None \<Rightarrow>
     (case string_literal i of Some (r, s) \<Rightarrow> Some (r, JString s) | None \<Rightarrow>
     (case double N i of Some (k, n) \<Rightarrow> Some (drop k i, json_of_f64 n) | None \<Rightarrow> None)))))"

definition operator :: "string \<Rightarrow> string ires" where
  "operator i = (case tag ''>='' i of Some r \<Rightarrow> Some r | None \<Rightarrow>
     (case tag ''<='' i of Some r \<Rightarrow> Some r | None \<Rightarrow>
     (case tag ''!='' i of Some r \<Rightarrow> Some r | None \<Rightarrow>
     (case tag ''='' i of Some r \<Rightarrow> Some r | None \<Rightarrow>
     (case tag ''>'' i of Some r \<Rightarrow> Some r | None \<Rightarrow>
     (case tag ''<'' i of Some r \<Rightarrow> Some r | None \<Rightarrow> tag ''~'' i))))))"

definition comparison :: "nom \<Rightarrow> string \<Rightarrow> filter_node ires" where
  "comparison N i = (case ident (multispace0 i) of None \<Rightarrow> None
     | Some (i1, field) \<Rightarrow>
       (case operator (multispace0 i1) of None \<Rightarrow> None
        | Some (i2, op) \<Rightarrow>
          (let i3 = multispace0 i2 in
           if op = ''~'' then
             (case string_literal i3 of None \<Rightarrow> None
              | Some (i4, pat) \<Rightarrow> Some (i4, Like field pat))
           else
             (case json_value N i3 of None \<Rightarrow> None
              | Some (i4, val) \<Rightarrow> Some (i4,
                  if op = ''='' then Eq field val
                  else if op = ''!='' then Ne field val
                  else if op = ''>'' then Gt field val
                  else if op = ''>='' then Gte field val
                  else if op = ''<'' then Lt field val
                  else Lte field val)))))"

section \<open>Consumption\<close>

lemma length_multispace0: "length (multispace0 i) \<le> length i"
  by (simp add: multispace0_def length_dropWhile_le)

lemma length_tag: "tag t i = Some (i', x) \<Longrightarrow> length i' + length t = length i"
proof -
  assume "tag t i = Some (i', x)"
  then have t: "take (length t) i = t" and i': "i' = drop (length t) i"
    by (auto simp: tag_def split: if_splits)
  from t have "length t \<le> length i" by (metis length_take min.cobounded1)
  with i' show ?thesis by simp
qed

lemma length_ws_tag: "ws_tag t i = Some (i', x) \<Longrightarrow> t \<noteq> [] \<Longrightarrow> length i' < length i"
proof -
  assume "ws_tag t i = Some (i', x)" and "t \<noteq> []"
  then obtain j where j: "tag t (multispace0 i) = Some (j, x)" and i': "i' = multispace0 j"
    by (auto simp: ws_tag_def split: option.splits)
  from length_tag [OF j] \<open>t \<noteq> []\<close> have "length j < length (multispace0 i)"
    by (cases t) auto
  with i' length_multispace0 [of i] length_multispace0 [of j] show ?thesis by simp
qed

lemma length_ws_char: "ws_char c i = Some (i', x) \<Longrightarrow> length i' < length i"
proof -
  assume "ws_char c i = Some (i', x)"
  then obtain i1 where "multispace0 i = c # i1" and i': "i' = multispace0 i1"
    by (auto simp: ws_char_def split: list.splits if_splits)
  with length_multispace0 [of i] length_multispace0 [of i1] show ?thesis by simp
qed

lemma length_ident: "ident i = Some (i', x) \<Longrightarrow> length i' < length i"
proof -
  assume a: "ident i = Some (i', x)"
  then have "takeWhile is_ident_start i \<noteq> []" and i': "i' = dropWhile is_ident_rest (dropWhile is_ident_start i)"
    by (auto simp: ident_def Let_def split: if_splits)
  then have "length (dropWhile is_ident_start i) < length i"
    by (metis length_append takeWhile_dropWhile_id length_greater_0_conv less_add_same_cancel2)
  with i' show ?thesis by (metis length_dropWhile_le le_less_trans)
qed

lemma length_string_literal: "string_literal i = Some (i', x) \<Longrightarrow> length i' \<le> length i"
proof (cases i)
  case (Cons c i1)
  assume "string_literal i = Some (i', x)"
  with Cons obtain d where "dropWhile (\<lambda>c. c \<noteq> CHR 0x22) i1 = d # i'"
    by (auto simp: string_literal_def split: if_splits list.splits)
  with Cons show ?thesis
    by (metis Suc_leD le_SucI length_Cons length_dropWhile_le)
qed (simp add: string_literal_def)

lemma length_json_value: "json_value N i = Some (i', x) \<Longrightarrow> length i' \<le> length i"
  by (auto simp: json_value_def split: option.splits dest!: length_tag length_string_literal)

lemma length_operator: "operator i = Some (i', x) \<Longrightarrow> length i' \<le> length i"
  by (auto simp: operator_def split: option.splits dest!: length_tag)

lemma length_comparison: "comparison N i = Some (i', x) \<Longrightarrow> length i' < length i"
proof -
  assume a: "comparison N i = Some (i', x)"
  then obtain i1 f where 1: "ident (multispace0 i) = Some (i1, f)"
    by (auto simp: comparison_def split: option.splits)
  with a obtain i2 op where 2: "operator (multispace0 i1) = Some (i2, op)"
    by (auto simp: comparison_def split: option.splits)
  have "length i' \<le> length (multispace0 i2)"
    using a 1 2 by (auto simp: comparison_def Let_def split: option.splits if_splits
        dest!: length_json_value length_string_literal)
  with length_ident [OF 1] length_operator [OF 2] length_multispace0 [of i]
    length_multispace0 [of i1] length_multispace0 [of i2]
  show ?thesis by linarith
qed

section \<open>Expressions\<close>

text \<open>\<open>many0\<close> stops at the first failure of its parser and, as \<open>nom\<close> does, fails when the
  parser succeeds without consuming.\<close>

function or_expr :: "nom \<Rightarrow> string \<Rightarrow> filter_node ires"
  and or_rest :: "nom \<Rightarrow> string \<Rightarrow> filter_node list ires"
  and and_expr :: "nom \<Rightarrow> string \<Rightarrow> filter_node ires"
  and and_rest :: "nom \<Rightarrow> string \<Rightarrow> filter_node list ires"
  and not_expr :: "nom \<Rightarrow> string \<Rightarrow> filter_node ires"
  and atom :: "nom \<Rightarrow> string \<Rightarrow> filter_node ires"
where
  "or_expr N i = (case and_expr N i of None \<Rightarrow> None
     | Some (i1, init) \<Rightarrow> (case or_rest N i1 of None \<Rightarrow> None
         | Some (i2, rest) \<Rightarrow> Some (i2, foldl Or init rest)))"
| "or_rest N i = (case ws_tag ''||'' i of None \<Rightarrow> Some (i, [])
     | Some (i1, _) \<Rightarrow> (case and_expr N i1 of None \<Rightarrow> Some (i, [])
         | Some (i2, x) \<Rightarrow> if length i2 = length i then None
             else (case or_rest N i2 of None \<Rightarrow> None
               | Some (i3, xs) \<Rightarrow> Some (i3, x # xs))))"
| "and_expr N i = (case not_expr N i of None \<Rightarrow> None
     | Some (i1, init) \<Rightarrow> (case and_rest N i1 of None \<Rightarrow> None
         | Some (i2, rest) \<Rightarrow> Some (i2, foldl And init rest)))"
| "and_rest N i = (case ws_tag ''&&'' i of None \<Rightarrow> Some (i, [])
     | Some (i1, _) \<Rightarrow> (case not_expr N i1 of None \<Rightarrow> Some (i, [])
         | Some (i2, x) \<Rightarrow> if length i2 = length i then None
             else (case and_rest N i2 of None \<Rightarrow> None
               | Some (i3, xs) \<Rightarrow> Some (i3, x # xs))))"
| "not_expr N i = (case ws_char CHR ''!'' i of None \<Rightarrow> atom N i
     | Some (i1, _) \<Rightarrow> (case atom N i1 of None \<Rightarrow> atom N i
         | Some (i2, x) \<Rightarrow> Some (i2, Not x)))"
| "atom N i = (case ws_char CHR ''('' i of None \<Rightarrow> comparison N i
     | Some (i1, _) \<Rightarrow> (case or_expr N i1 of None \<Rightarrow> comparison N i
         | Some (i2, x) \<Rightarrow> (case ws_char CHR '')'' i2 of None \<Rightarrow> comparison N i
             | Some (i3, _) \<Rightarrow> Some (i3, x))))"
  by pat_completeness auto

lemma expr_shrinks:
  "or_expr_or_rest_and_expr_and_rest_not_expr_atom_dom (Inl (Inl (N, i))) \<Longrightarrow>
     \<forall>i' x. or_expr N i = Some (i', x) \<longrightarrow> length i' < length i"
  "or_expr_or_rest_and_expr_and_rest_not_expr_atom_dom (Inl (Inr (Inl (N, i)))) \<Longrightarrow>
     \<forall>i' x. or_rest N i = Some (i', x) \<longrightarrow> length i' \<le> length i"
  "or_expr_or_rest_and_expr_and_rest_not_expr_atom_dom (Inl (Inr (Inr (N, i)))) \<Longrightarrow>
     \<forall>i' x. and_expr N i = Some (i', x) \<longrightarrow> length i' < length i"
  "or_expr_or_rest_and_expr_and_rest_not_expr_atom_dom (Inr (Inl (N, i))) \<Longrightarrow>
     \<forall>i' x. and_rest N i = Some (i', x) \<longrightarrow> length i' \<le> length i"
  "or_expr_or_rest_and_expr_and_rest_not_expr_atom_dom (Inr (Inr (Inl (N, i)))) \<Longrightarrow>
     \<forall>i' x. not_expr N i = Some (i', x) \<longrightarrow> length i' < length i"
  "or_expr_or_rest_and_expr_and_rest_not_expr_atom_dom (Inr (Inr (Inr (N, i)))) \<Longrightarrow>
     \<forall>i' x. atom N i = Some (i', x) \<longrightarrow> length i' < length i"
proof (induction N i and N i and N i and N i and N i and N i
    rule: or_expr_or_rest_and_expr_and_rest_not_expr_atom.pinduct)
  case (1 N i)
  then show ?case
    by (fastforce simp: or_expr.psimps split: option.splits dest: order.strict_trans1)
next
  case (2 N i)
  then show ?case
    by (fastforce simp: or_rest.psimps split: option.splits if_splits dest: length_ws_tag)
next
  case (3 N i)
  then show ?case
    by (fastforce simp: and_expr.psimps split: option.splits dest: order.strict_trans1)
next
  case (4 N i)
  then show ?case
    by (fastforce simp: and_rest.psimps split: option.splits if_splits dest: length_ws_tag)
next
  case (5 N i)
  then show ?case
    by (fastforce simp: not_expr.psimps split: option.splits dest: length_ws_char)
next
  case (6 N i)
  then show ?case
    by (fastforce simp: atom.psimps split: option.splits dest: length_ws_char length_comparison)
qed

lemma parser_dom: "All or_expr_or_rest_and_expr_and_rest_not_expr_atom_dom"
  by (relation "measures [\<lambda>x. (case x of Inl (Inl (N, i)) \<Rightarrow> length i | Inl (Inr (Inl (N, i))) \<Rightarrow> length i
     | Inl (Inr (Inr (N, i))) \<Rightarrow> length i | Inr (Inl (N, i)) \<Rightarrow> length i
     | Inr (Inr (Inl (N, i))) \<Rightarrow> length i | Inr (Inr (Inr (N, i))) \<Rightarrow> length i),
    \<lambda>x. (case x of Inl (Inl _) \<Rightarrow> 4 | Inl (Inr (Inl _)) \<Rightarrow> 0 | Inl (Inr (Inr _)) \<Rightarrow> 3
     | Inr (Inl _) \<Rightarrow> 0 | Inr (Inr (Inl _)) \<Rightarrow> 2 | Inr (Inr (Inr _)) \<Rightarrow> 1)]")
     (auto dest!: length_ws_tag length_ws_char dest: expr_shrinks)

termination or_expr
  by (rule parser_dom)

declare or_expr.simps [simp del] or_rest.simps [simp del] and_expr.simps [simp del]
  and_rest.simps [simp del] not_expr.simps [simp del] atom.simps [simp del]

definition expr :: "nom \<Rightarrow> string \<Rightarrow> filter_node ires" where
  "expr N i = or_expr N i"

definition parse_filter :: "nom \<Rightarrow> string \<Rightarrow> core_error + filter_node" where
  "parse_filter N input =
     (if trim input = [] then Inl (Validation ''empty filter'')
      else (case expr N input of
          Some (rest, node) \<Rightarrow>
            if trim rest = [] then Inr node
            else Inl (Validation (''unexpected trailing input: '' @ show_debug N rest))
        | None \<Rightarrow> Inl (Validation (''parse error: '' @ show_error N input))))"

section \<open>What the parser can produce\<close>

definition is_ident :: "string \<Rightarrow> bool" where
  "is_ident s = (s \<noteq> [] \<and> is_ident_start (hd s) \<and> list_all is_ident_rest s)"

fun is_literal :: "json \<Rightarrow> bool" where
  "is_literal (JArray _) = False"
| "is_literal (JObject _) = False"
| "is_literal (JString s) = (CHR 0x22 \<notin> set s)"
| "is_literal _ = True"

fun parsed_form :: "filter_node \<Rightarrow> bool" where
  "parsed_form (And l r) = (parsed_form l \<and> parsed_form r)"
| "parsed_form (Or l r) = (parsed_form l \<and> parsed_form r)"
| "parsed_form (Not f) = parsed_form f"
| "parsed_form (Eq k v) = (is_ident k \<and> is_literal v)"
| "parsed_form (Ne k v) = (is_ident k \<and> is_literal v)"
| "parsed_form (Gt k v) = (is_ident k \<and> is_literal v)"
| "parsed_form (Gte k v) = (is_ident k \<and> is_literal v)"
| "parsed_form (Lt k v) = (is_ident k \<and> is_literal v)"
| "parsed_form (Lte k v) = (is_ident k \<and> is_literal v)"
| "parsed_form (Like k p) = (is_ident k \<and> CHR 0x22 \<notin> set p)"
| "parsed_form (In _ _) = False"

lemma start_imp_rest: "is_ident_start c \<Longrightarrow> is_ident_rest c"
  by (auto simp: is_ident_start_def is_ident_rest_def is_ascii_alphanumeric_def)

lemma takeWhile_start_rest:
  "takeWhile is_ident_start i @ takeWhile is_ident_rest (dropWhile is_ident_start i) = takeWhile is_ident_rest i"
  "dropWhile is_ident_rest (dropWhile is_ident_start i) = dropWhile is_ident_rest i"
  by (induction i) (auto simp: start_imp_rest)

lemma ident_eq:
  "ident i = (if i \<noteq> [] \<and> is_ident_start (hd i)
     then Some (dropWhile is_ident_rest i, takeWhile is_ident_rest i) else None)"
  by (cases i) (simp_all add: ident_def Let_def takeWhile_start_rest start_imp_rest)

lemma ident_is_ident: "ident i = Some (r, s) \<Longrightarrow> is_ident s"
  by (cases i) (auto simp: ident_eq is_ident_def list_all_iff start_imp_rest dest: set_takeWhileD split: if_splits)

lemma string_literal_no_quote: "string_literal i = Some (r, s) \<Longrightarrow> CHR 0x22 \<notin> set s"
  by (auto simp: string_literal_def split: list.splits if_splits dest: set_takeWhileD)

lemma json_of_f64_literal: "is_literal (json_of_f64 n)"
  by (auto simp: json_of_f64_def split: f64.splits)

lemma json_value_literal: "json_value N i = Some (r, v) \<Longrightarrow> is_literal v"
  by (auto simp: json_value_def json_of_f64_literal split: option.splits dest: string_literal_no_quote)

lemma comparison_form:
  assumes "comparison N i = Some (r, f)"
  shows "parsed_form f"
proof -
  from assms obtain i1 k where k: "ident (multispace0 i) = Some (i1, k)"
    by (auto simp: comparison_def split: option.splits)
  with assms obtain i2 op where op: "operator (multispace0 i1) = Some (i2, op)"
    by (auto simp: comparison_def split: option.splits)
  have "is_ident k" using k by (rule ident_is_ident)
  show ?thesis
  proof (cases "op = ''~''")
    case True
    with assms k op obtain p where "string_literal (multispace0 i2) = Some (r, p)" "f = Like k p"
      by (auto simp: comparison_def split: option.splits)
    with \<open>is_ident k\<close> string_literal_no_quote show ?thesis by simp
  next
    case False
    with assms k op obtain v where v: "json_value N (multispace0 i2) = Some (r, v)"
      and f: "f \<in> {Eq k v, Ne k v, Gt k v, Gte k v, Lt k v, Lte k v}"
      by (auto simp: comparison_def split: option.splits if_splits)
    with \<open>is_ident k\<close> json_value_literal [OF v] show ?thesis by auto
  qed
qed

lemma foldl_form:
  "list_all parsed_form xs \<Longrightarrow> parsed_form f \<Longrightarrow> parsed_form (foldl Or f xs) \<and> parsed_form (foldl And f xs)"
  by (induction xs arbitrary: f rule: rev_induct) auto

lemma expr_form:
  "\<forall>r f. or_expr N i = Some (r, f) \<longrightarrow> parsed_form f"
  "\<forall>r fs. or_rest N i = Some (r, fs) \<longrightarrow> list_all parsed_form fs"
  "\<forall>r f. and_expr N i = Some (r, f) \<longrightarrow> parsed_form f"
  "\<forall>r fs. and_rest N i = Some (r, fs) \<longrightarrow> list_all parsed_form fs"
  "\<forall>r f. not_expr N i = Some (r, f) \<longrightarrow> parsed_form f"
  "\<forall>r f. atom N i = Some (r, f) \<longrightarrow> parsed_form f"
proof (induction N i and N i and N i and N i and N i and N i
    rule: or_expr_or_rest_and_expr_and_rest_not_expr_atom.induct)
  case (1 N i)
  then show ?case by (fastforce simp: or_expr.simps [of N i] foldl_form split: option.splits)
next
  case (2 N i)
  then show ?case by (fastforce simp: or_rest.simps [of N i] split: option.splits if_splits)
next
  case (3 N i)
  then show ?case by (fastforce simp: and_expr.simps [of N i] foldl_form split: option.splits)
next
  case (4 N i)
  then show ?case by (fastforce simp: and_rest.simps [of N i] split: option.splits if_splits)
next
  case (5 N i)
  then show ?case by (fastforce simp: not_expr.simps [of N i] split: option.splits)
next
  case (6 N i)
  then show ?case by (fastforce simp: atom.simps [of N i] split: option.splits dest: comparison_form)
qed

lemma parse_filter_form: "parse_filter N s = Inr f \<Longrightarrow> parsed_form f"
  using expr_form(1) [of N s] by (auto simp: parse_filter_def expr_def split: option.splits if_splits)

lemmas expr_lengths =
  expr_shrinks(1) [OF spec [OF parser_dom]] expr_shrinks(3) [OF spec [OF parser_dom]]
  expr_shrinks(5) [OF spec [OF parser_dom]]

lemma or_rest_returns: "\<exists>i' xs. or_rest N i = Some (i', xs)"
proof (induction "length i" arbitrary: i rule: less_induct)
  case less
  have "length i2 < length i" if "ws_tag ''||'' i = Some (i1, u)" "and_expr N i1 = Some (i2, x)" for i1 i2 u x
    using length_ws_tag [OF that(1)] expr_shrinks(3) [OF spec [OF parser_dom], of N i1] that(2) by auto
  then show ?case using less by (subst or_rest.simps) (fastforce split: option.splits)
qed

lemma and_rest_returns: "\<exists>i' xs. and_rest N i = Some (i', xs)"
proof (induction "length i" arbitrary: i rule: less_induct)
  case less
  have "length i2 < length i" if "ws_tag ''&&'' i = Some (i1, u)" "not_expr N i1 = Some (i2, x)" for i1 i2 u x
    using length_ws_tag [OF that(1)] expr_shrinks(5) [OF spec [OF parser_dom], of N i1] that(2) by auto
  then show ?case using less by (subst and_rest.simps) (fastforce split: option.splits)
qed


end
