(* ===== verification/Filter_Roundtrip.thy ===== *)
theory Filter_Roundtrip
  imports Filter_Parser
begin

text \<open>
  The filter parser against a printer: every filter the grammar can express is read back from
  its text without redundant parentheses, so precedence and associativity are the documented
  ones. The number reader enters as a hypothesis on the numbers of the filter.
\<close>

section \<open>Printing\<close>

text \<open>A printer without redundant parentheses: level 0 is \<open>or_expr\<close>, 1 \<open>and_expr\<close>, 2 \<open>not_expr\<close> and
  3 \<open>atom\<close>. Numbers are written by the argument \<open>num\<close>.\<close>

definition paren :: "bool \<Rightarrow> string \<Rightarrow> string" where
  "paren b s = (if b then ''('' @ s @ '')'' else s)"

fun print_json :: "(json_number \<Rightarrow> string) \<Rightarrow> json \<Rightarrow> string" where
  "print_json num (JBool b) = (if b then ''true'' else ''false'')"
| "print_json num (JString s) = CHR 0x22 # s @ [CHR 0x22]"
| "print_json num (JNumber n) = num n"
| "print_json num _ = ''null''"

fun print_filter :: "(json_number \<Rightarrow> string) \<Rightarrow> nat \<Rightarrow> filter_node \<Rightarrow> string" where
  "print_filter num p (Or l r) =
     paren (0 < p) (print_filter num 0 l @ '' || '' @ print_filter num 1 r)"
| "print_filter num p (And l r) =
     paren (1 < p) (print_filter num 1 l @ '' && '' @ print_filter num 2 r)"
| "print_filter num p (Not f) = paren (2 < p) (''!'' @ print_filter num 3 f)"
| "print_filter num p (Eq k v) = k @ '' = '' @ print_json num v"
| "print_filter num p (Ne k v) = k @ '' != '' @ print_json num v"
| "print_filter num p (Gt k v) = k @ '' > '' @ print_json num v"
| "print_filter num p (Gte k v) = k @ '' >= '' @ print_json num v"
| "print_filter num p (Lt k v) = k @ '' < '' @ print_json num v"
| "print_filter num p (Lte k v) = k @ '' <= '' @ print_json num v"
| "print_filter num p (Like k s) = k @ '' ~ '' @ CHR 0x22 # s @ [CHR 0x22]"
| "print_filter num p (In k vs) = k"

text \<open>What follows a printed comparison: nothing, a blank or a closing parenthesis.\<close>

definition sep :: "string \<Rightarrow> bool" where
  "sep k = (k = [] \<or> hd k = CHR '' '' \<or> hd k = CHR '')'')"

text \<open>The number reader reads back the numbers of a filter: it consumes exactly the printed text
  and returns the value, and a printed number starts with a digit or a minus sign.\<close>

definition reads_number :: "nom \<Rightarrow> (json_number \<Rightarrow> string) \<Rightarrow> json_number \<Rightarrow> bool" where
  "reads_number N num n =
     ((\<exists>c t. num n = c # t \<and> (is_ascii_digit c \<or> c = CHR ''-'')) \<and>
      (\<exists>x. json_of_f64 x = JNumber n \<and>
        (\<forall>k. sep k \<longrightarrow> double N (num n @ k) = Some (length (num n), x))))"

definition json_numbers :: "json \<Rightarrow> json_number set" where
  "json_numbers v = (case v of JNumber n \<Rightarrow> {n} | _ \<Rightarrow> {})"

fun numbers :: "filter_node \<Rightarrow> json_number set" where
  "numbers (And l r) = numbers l \<union> numbers r"
| "numbers (Or l r) = numbers l \<union> numbers r"
| "numbers (Not f) = numbers f"
| "numbers (Eq _ v) = json_numbers v"
| "numbers (Ne _ v) = json_numbers v"
| "numbers (Gt _ v) = json_numbers v"
| "numbers (Gte _ v) = json_numbers v"
| "numbers (Lt _ v) = json_numbers v"
| "numbers (Lte _ v) = json_numbers v"
| "numbers _ = {}"

lemma multispace0_nonspace: "i \<noteq> [] \<Longrightarrow> \<not> is_multispace (hd i) \<Longrightarrow> multispace0 i = i"
  by (cases i) (auto simp: multispace0_def)

lemma multispace0_Cons:
  "multispace0 (c # i) = (if is_multispace c then multispace0 i else c # i)"
  "multispace0 [] = []"
  by (auto simp: multispace0_def)

lemma is_multispace_eval [simp]:
  "is_multispace CHR '' ''" "\<not> is_multispace CHR ''('' " "\<not> is_multispace CHR '')''"
  "\<not> is_multispace CHR ''='' " "\<not> is_multispace CHR ''!'' " "\<not> is_multispace CHR ''<'' "
  "\<not> is_multispace CHR ''>'' " "\<not> is_multispace CHR ''~'' " "\<not> is_multispace CHR 0x22"
  "\<not> is_multispace CHR ''|'' " "\<not> is_multispace CHR ''&'' " "\<not> is_multispace CHR ''n'' "
  "\<not> is_multispace CHR ''t'' " "\<not> is_multispace CHR ''f'' " "\<not> is_multispace CHR ''-'' "
  by (simp_all add: is_multispace_def)

lemma ident_char_codes:
  "is_ident_start c \<Longrightarrow> \<not> is_multispace c \<and> c \<noteq> CHR ''('' \<and> c \<noteq> CHR ''!'' \<and> c \<noteq> CHR '')''"
  "\<not> is_ident_rest CHR '' ''"
  by (auto simp: is_ident_start_def is_ident_rest_def is_multispace_def is_ascii_alphanumeric_def
      is_ascii_alphabetic_def is_ascii_digit_def is_ascii_lowercase_def is_ascii_uppercase_def less_eq_char_def)

lemma digit_codes:
  "is_ascii_digit c \<Longrightarrow> \<not> is_multispace c \<and> c \<noteq> CHR ''n'' \<and> c \<noteq> CHR ''t'' \<and> c \<noteq> CHR ''f'' \<and> c \<noteq> CHR 0x22"
  by (auto simp: is_multispace_def is_ascii_digit_def less_eq_char_def)

lemma ident_printed: "is_ident k \<Longrightarrow> ident (k @ CHR '' '' # t) = Some (CHR '' '' # t, k)"
  by (auto simp: ident_eq is_ident_def list_all_iff ident_char_codes(2) hd_append
      takeWhile_append2 dropWhile_append2)

lemma multispace0_ident: "is_ident k \<Longrightarrow> multispace0 (k @ t) = k @ t"
  by (rule multispace0_nonspace) (auto simp: is_ident_def hd_append ident_char_codes)

lemma string_literal_printed:
  "CHR 0x22 \<notin> set s \<Longrightarrow> string_literal (CHR 0x22 # s @ CHR 0x22 # k) = Some (k, s)"
proof -
  assume a: "CHR 0x22 \<notin> set s"
  then have "dropWhile (\<lambda>c. c \<noteq> CHR 0x22) (s @ CHR 0x22 # k) = CHR 0x22 # k"
    "takeWhile (\<lambda>c. c \<noteq> CHR 0x22) (s @ CHR 0x22 # k) = s"
    by (induction s) auto
  then show ?thesis by (simp add: string_literal_def)
qed

lemma json_value_printed:
  assumes "is_literal v" "\<forall>n \<in> json_numbers v. reads_number N num n" "sep k"
  shows "json_value N (print_json num v @ k) = Some (k, v)"
    and "multispace0 (print_json num v @ k) = print_json num v @ k"
proof -
  have "json_value N (print_json num v @ k) = Some (k, v) \<and>
    multispace0 (print_json num v @ k) = print_json num v @ k"
  proof (cases v)
    case (JNumber n)
    with assms(2) obtain c t x where num: "num n = c # t" "is_ascii_digit c \<or> c = CHR ''-''"
      and x: "json_of_f64 x = JNumber n" "double N (num n @ k) = Some (length (num n), x)"
      using assms(3) by (auto simp: reads_number_def json_numbers_def)
    have "c \<noteq> CHR ''n''" "c \<noteq> CHR ''t''" "c \<noteq> CHR ''f''" "c \<noteq> CHR 0x22" "\<not> is_multispace c"
      using num(2) digit_codes [of c] by auto
    with num x JNumber show ?thesis
      by (auto simp: json_value_def tag_def string_literal_def multispace0_Cons)
  next
    case (JString s)
    with assms(1) show ?thesis
      by (simp add: json_value_def tag_def string_literal_printed multispace0_Cons)
  next
    case (JBool b)
    then show ?thesis by (cases b) (simp_all add: json_value_def tag_def multispace0_Cons)
  qed (use assms in \<open>simp_all add: json_value_def tag_def multispace0_Cons\<close>)
  then show "json_value N (print_json num v @ k) = Some (k, v)"
    and "multispace0 (print_json num v @ k) = print_json num v @ k" by simp_all
qed

lemma operator_printed:
  "operator (''= '' @ t) = Some ('' '' @ t, ''='')"
  "operator (''!= '' @ t) = Some ('' '' @ t, ''!='')"
  "operator (''> '' @ t) = Some ('' '' @ t, ''>'')"
  "operator (''>= '' @ t) = Some ('' '' @ t, ''>='')"
  "operator (''< '' @ t) = Some ('' '' @ t, ''<'')"
  "operator (''<= '' @ t) = Some ('' '' @ t, ''<='')"
  "operator (''~ '' @ t) = Some ('' '' @ t, ''~'')"
  by (simp_all add: operator_def tag_def)

fun is_comparison :: "filter_node \<Rightarrow> bool" where
  "is_comparison (And _ _) = False"
| "is_comparison (Or _ _) = False"
| "is_comparison (Not _) = False"
| "is_comparison (In _ _) = False"
| "is_comparison _ = True"

lemma comparison_printed:
  assumes "is_comparison f" "parsed_form f" "\<forall>n \<in> numbers f. reads_number N num n" "sep k"
  shows "comparison N (print_filter num p f @ k) = Some (k, f)"
proof (cases f)
  case (Like x s)
  with assms show ?thesis
    by (simp add: comparison_def multispace0_ident ident_printed multispace0_Cons
        operator_printed [simplified] string_literal_printed)
qed (use assms in \<open>simp_all add: comparison_def multispace0_ident ident_printed multispace0_Cons
      operator_printed [simplified] json_value_printed\<close>)

section \<open>Reading back\<close>

text \<open>Two rests that differ in leading blanks only.\<close>

definition same_rest :: "string \<Rightarrow> string \<Rightarrow> bool" where
  "same_rest i j = (multispace0 i = multispace0 j)"

lemma same_rest_refl [simp]: "same_rest i i"
  by (simp add: same_rest_def)

lemma multispace0_idem [simp]: "multispace0 (multispace0 i) = multispace0 i"
  by (induction i) (auto simp: multispace0_Cons)

lemma ws_same: "same_rest i j \<Longrightarrow> ws_tag t i = ws_tag t j" "same_rest i j \<Longrightarrow> ws_char c i = ws_char c j"
  by (simp_all add: ws_tag_def ws_char_def same_rest_def)

lemma or_rest_step:
  assumes "ws_tag ''||'' i = Some (i1, t)" and "and_expr N i1 = Some (i2, x)"
  shows "or_rest N i = (case or_rest N i2 of None \<Rightarrow> None | Some (i3, xs) \<Rightarrow> Some (i3, x # xs))"
  using assms length_ws_tag [OF assms(1)] expr_lengths(2) [of N i1]
  by (subst or_rest.simps) fastforce

lemma and_rest_step:
  assumes "ws_tag ''&&'' i = Some (i1, t)" and "not_expr N i1 = Some (i2, x)"
  shows "and_rest N i = (case and_rest N i2 of None \<Rightarrow> None | Some (i3, xs) \<Rightarrow> Some (i3, x # xs))"
  using assms length_ws_tag [OF assms(1)] expr_lengths(3) [of N i1]
  by (subst and_rest.simps) fastforce

lemma or_rest_stop: "ws_tag ''||'' i = None \<Longrightarrow> or_rest N i = Some (i, [])"
  by (subst or_rest.simps) simp

lemma and_rest_stop: "ws_tag ''&&'' i = None \<Longrightarrow> and_rest N i = Some (i, [])"
  by (subst and_rest.simps) simp

text \<open>What it means that a level reads a printed filter back, whatever follows.\<close>

definition reads_atom :: "nom \<Rightarrow> string \<Rightarrow> filter_node \<Rightarrow> bool" where
  "reads_atom N s f = (\<forall>k. sep k \<longrightarrow> (\<exists>k'. same_rest k' k \<and> atom N (s @ k) = Some (k', f)))"

definition reads_not :: "nom \<Rightarrow> string \<Rightarrow> filter_node \<Rightarrow> bool" where
  "reads_not N s f = (\<forall>k. sep k \<longrightarrow> (\<exists>k'. same_rest k' k \<and> not_expr N (s @ k) = Some (k', f)))"

definition reads_and :: "nom \<Rightarrow> string \<Rightarrow> filter_node \<Rightarrow> bool" where
  "reads_and N s f = (\<forall>k. sep k \<longrightarrow> (\<exists>k'. same_rest k' k \<and>
     and_expr N (s @ k) = map_option (\<lambda>(i, xs). (i, foldl And f xs)) (and_rest N k')))"

definition reads_or :: "nom \<Rightarrow> string \<Rightarrow> filter_node \<Rightarrow> bool" where
  "reads_or N s f = (\<forall>k. sep k \<and> ws_tag ''&&'' k = None \<longrightarrow> (\<exists>k'. same_rest k' k \<and>
     or_expr N (s @ k) = map_option (\<lambda>(i, xs). (i, foldl Or f xs)) (or_rest N k')))"

definition starts_atom :: "string \<Rightarrow> bool" where
  "starts_atom s = (\<exists>c t. s = c # t \<and> \<not> is_multispace c \<and> c \<noteq> CHR ''!'')"

lemma ws_char_other: "\<not> is_multispace x \<Longrightarrow> x \<noteq> c \<Longrightarrow> ws_char c (x # i) = None"
  by (simp add: ws_char_def multispace0_Cons)

lemma reads_not_atom: "reads_atom N s f \<Longrightarrow> starts_atom s \<Longrightarrow> reads_not N s f"
  unfolding reads_not_def reads_atom_def starts_atom_def
  by (subst not_expr.simps) (auto simp: ws_char_other)

lemma reads_and_not: "reads_not N s f \<Longrightarrow> reads_and N s f"
  unfolding reads_not_def reads_and_def
  by (subst and_expr.simps) (force split: option.splits)

lemma reads_or_and: "reads_and N s f \<Longrightarrow> reads_or N s f"
proof (unfold reads_or_def, intro allI impI)
  fix k
  assume r: "reads_and N s f" and k: "sep k \<and> ws_tag ''&&'' k = None"
  then obtain k' where k': "same_rest k' k"
    and e: "and_expr N (s @ k) = map_option (\<lambda>(i, xs). (i, foldl And f xs)) (and_rest N k')"
    by (auto simp: reads_and_def)
  have "and_rest N k' = Some (k', [])"
    using k ws_same(1) [OF k'] by (simp add: and_rest_stop)
  with e have "or_expr N (s @ k) = map_option (\<lambda>(i, xs). (i, foldl Or f xs)) (or_rest N k')"
    by (subst or_expr.simps) (auto split: option.splits)
  with k' show "\<exists>k'. same_rest k' k \<and>
     or_expr N (s @ k) = map_option (\<lambda>(i, xs). (i, foldl Or f xs)) (or_rest N k')" by blast
qed

lemma reads_atom_paren:
  assumes "reads_or N s f" and "s \<noteq> []" and "\<not> is_multispace (hd s)"
  shows "reads_atom N (''('' @ s @ '')'') f"
proof (unfold reads_atom_def, intro allI impI)
  fix k
  assume "sep k"
  have open1: "ws_char CHR ''('' (CHR ''('' # s @ CHR '')'' # k) = Some (s @ CHR '')'' # k, CHR ''('')"
    using assms(2,3) by (simp add: ws_char_def multispace0_Cons multispace0_nonspace)
  have "sep (CHR '')'' # k)" "ws_tag ''&&'' (CHR '')'' # k) = None" "ws_tag ''||'' (CHR '')'' # k) = None"
    by (simp_all add: sep_def ws_tag_def multispace0_Cons tag_def)
  with assms(1) obtain k' where k': "same_rest k' (CHR '')'' # k)"
    and e: "or_expr N (s @ CHR '')'' # k) = map_option (\<lambda>(i, xs). (i, foldl Or f xs)) (or_rest N k')"
    unfolding reads_or_def by blast
  have "or_rest N k' = Some (k', [])"
    using ws_same(1) [OF k'] \<open>ws_tag ''||'' (CHR '')'' # k) = None\<close> by (simp add: or_rest_stop)
  with e have "or_expr N (s @ CHR '')'' # k) = Some (k', f)" by simp
  moreover have "ws_char CHR '')'' k' = Some (multispace0 k, CHR '')'')"
    using ws_same(2) [OF k'] by (simp add: ws_char_def multispace0_Cons)
  ultimately have "atom N (CHR ''('' # s @ CHR '')'' # k) = Some (multispace0 k, f)"
    using open1 by (subst atom.simps) simp
  then show "\<exists>k'. same_rest k' k \<and> atom N ((''('' @ s @ '')'') @ k) = Some (k', f)"
    by (auto simp: same_rest_def)
qed

lemma reads_not_bang:
  assumes "reads_atom N s f" and "starts_atom s"
  shows "reads_not N (''!'' @ s) (Not f)"
proof (unfold reads_not_def, intro allI impI)
  fix k
  assume "sep k"
  with assms(1) obtain k' where k': "same_rest k' k" "atom N (s @ k) = Some (k', f)"
    by (auto simp: reads_atom_def)
  from assms(2) have "ws_char CHR ''!'' (CHR ''!'' # s @ k) = Some (s @ k, CHR ''!'')"
    by (auto simp: starts_atom_def ws_char_def multispace0_Cons)
  with k' have "not_expr N (CHR ''!'' # s @ k) = Some (k', Not f)"
    by (subst not_expr.simps) simp
  with k' show "\<exists>k'. same_rest k' k \<and> not_expr N ((''!'' @ s) @ k) = Some (k', Not f)" by auto
qed

lemma ws_tag_between:
  "starts_atom s \<or> (\<exists>s'. s = CHR ''!'' # s') \<Longrightarrow> ws_tag ''&&'' ('' && '' @ s @ k) = Some (s @ k, ''&&'')"
  "starts_atom s \<or> (\<exists>s'. s = CHR ''!'' # s') \<Longrightarrow> ws_tag ''||'' ('' || '' @ s @ k) = Some (s @ k, ''||'')"
  by (auto simp: ws_tag_def tag_def multispace0_Cons starts_atom_def)

lemma reads_and_And:
  assumes "reads_and N s l" and "reads_not N t r" and t: "starts_atom t \<or> (\<exists>t'. t = CHR ''!'' # t')"
  shows "reads_and N (s @ '' && '' @ t) (And l r)"
proof (unfold reads_and_def, intro allI impI)
  fix k
  assume "sep k"
  let ?k0 = "'' && '' @ t @ k"
  have "sep ?k0" by (simp add: sep_def)
  with assms(1) obtain k0 where k0: "same_rest k0 ?k0"
    and e: "and_expr N (s @ ?k0) = map_option (\<lambda>(i, xs). (i, foldl And l xs)) (and_rest N k0)"
    unfolding reads_and_def by blast
  from assms(2) \<open>sep k\<close> obtain k' where k': "same_rest k' k" "not_expr N (t @ k) = Some (k', r)"
    by (auto simp: reads_not_def)
  have "ws_tag ''&&'' k0 = Some (t @ k, ''&&'')"
    using ws_same(1) [OF k0] ws_tag_between(1) [OF t] by simp
  from and_rest_step [OF this k'(2)] e
  have "and_expr N (s @ ?k0) = map_option (\<lambda>(i, xs). (i, foldl And (And l r) xs)) (and_rest N k')"
    by (auto split: option.splits)
  with k'(1) show "\<exists>k'. same_rest k' k \<and> and_expr N ((s @ '' && '' @ t) @ k) =
      map_option (\<lambda>(i, xs). (i, foldl And (And l r) xs)) (and_rest N k')" by auto
qed

lemma reads_or_Or:
  assumes "reads_or N s l" and "reads_and N t r" and t: "starts_atom t \<or> (\<exists>t'. t = CHR ''!'' # t')"
  shows "reads_or N (s @ '' || '' @ t) (Or l r)"
proof (unfold reads_or_def, intro allI impI)
  fix k
  assume k: "sep k \<and> ws_tag ''&&'' k = None"
  let ?k0 = "'' || '' @ t @ k"
  have "sep ?k0 \<and> ws_tag ''&&'' ?k0 = None"
    by (simp add: sep_def ws_tag_def multispace0_Cons tag_def)
  with assms(1) obtain k0 where k0: "same_rest k0 ?k0"
    and e: "or_expr N (s @ ?k0) = map_option (\<lambda>(i, xs). (i, foldl Or l xs)) (or_rest N k0)"
    unfolding reads_or_def by blast
  from assms(2) k obtain k' where k': "same_rest k' k"
    "and_expr N (t @ k) = map_option (\<lambda>(i, xs). (i, foldl And r xs)) (and_rest N k')"
    by (auto simp: reads_and_def)
  then have "and_expr N (t @ k) = Some (k', r)"
    using k ws_same(1) [OF k'(1)] by (simp add: and_rest_stop)
  moreover have "ws_tag ''||'' k0 = Some (t @ k, ''||'')"
    using ws_same(1) [OF k0] ws_tag_between(2) [OF t] by simp
  ultimately have "or_expr N (s @ ?k0) = map_option (\<lambda>(i, xs). (i, foldl Or (Or l r) xs)) (or_rest N k')"
    using or_rest_step e by (auto split: option.splits)
  with k'(1) show "\<exists>k'. same_rest k' k \<and> or_expr N ((s @ '' || '' @ t) @ k) =
      map_option (\<lambda>(i, xs). (i, foldl Or (Or l r) xs)) (or_rest N k')" by auto
qed

lemma starts_atom_paren [simp]: "starts_atom (CHR ''('' # s)"
  by (simp add: starts_atom_def)

lemma starts_atom_ident: "is_ident k \<Longrightarrow> starts_atom (k @ s)"
  by (cases k) (auto simp: starts_atom_def is_ident_def ident_char_codes)

lemma starts_atom_append: "starts_atom s \<Longrightarrow> starts_atom (s @ t)"
  by (auto simp: starts_atom_def)

lemma reads_atom_comparison:
  assumes "is_comparison f" "parsed_form f" "\<forall>n \<in> numbers f. reads_number N num n"
  shows "reads_atom N (print_filter num p f) f" and "starts_atom (print_filter num p f)"
proof -
  obtain k t where s: "print_filter num p f = k @ t" and k: "is_ident k"
    using assms(1,2) by (cases f) auto
  then show st: "starts_atom (print_filter num p f)" by (simp add: starts_atom_ident)
  have "\<And>u. ws_char CHR ''('' (print_filter num p f @ u) = None"
    using s k ident_char_codes(1) [of "hd k"]
    by (cases k) (auto simp: is_ident_def intro: ws_char_other)
  then show "reads_atom N (print_filter num p f) f"
    using comparison_printed [OF assms] unfolding reads_atom_def
    by (subst atom.simps) (auto intro: same_rest_refl)
qed

abbreviation head_ok :: "string \<Rightarrow> bool" where
  "head_ok s \<equiv> starts_atom s \<or> (\<exists>s'. s = CHR ''!'' # s')"

lemma head_ok_append: "head_ok s \<Longrightarrow> head_ok (s @ t)"
  by (auto intro: starts_atom_append)

lemma head_ok_hd: "head_ok s \<Longrightarrow> s \<noteq> [] \<and> \<not> is_multispace (hd s)"
  by (auto simp: starts_atom_def)

definition reads_back :: "nom \<Rightarrow> (json_number \<Rightarrow> string) \<Rightarrow> filter_node \<Rightarrow> bool" where
  "reads_back N num f =
     (reads_atom N (print_filter num 3 f) f \<and> reads_not N (print_filter num 2 f) f \<and>
      reads_and N (print_filter num 1 f) f \<and> reads_or N (print_filter num 0 f) f \<and>
      starts_atom (print_filter num 3 f) \<and> head_ok (print_filter num 2 f) \<and>
      head_ok (print_filter num 1 f) \<and> head_ok (print_filter num 0 f))"

lemma reads_paren_levels:
  assumes "reads_or N s f" and "head_ok s"
  shows "reads_atom N (''('' @ s @ '')'') f" "reads_not N (''('' @ s @ '')'') f" "reads_and N (''('' @ s @ '')'') f"
proof -
  show "reads_atom N (''('' @ s @ '')'') f"
    using assms head_ok_hd by (intro reads_atom_paren) auto
  then show "reads_not N (''('' @ s @ '')'') f" by (rule reads_not_atom) simp
  then show "reads_and N (''('' @ s @ '')'') f" by (rule reads_and_not)
qed

lemma reads_back_comparison:
  assumes "is_comparison f" "parsed_form f" "\<forall>n \<in> numbers f. reads_number N num n"
  shows "reads_back N num f"
proof -
  note r = reads_atom_comparison [OF assms]
  have n: "\<And>p. reads_not N (print_filter num p f) f"
    by (rule reads_not_atom) (rule r)+
  show ?thesis
    unfolding reads_back_def
    using r n reads_and_not [OF n] reads_or_and [OF reads_and_not [OF n]] by blast
qed

lemma reads_back_all:
  "parsed_form f \<Longrightarrow> \<forall>n \<in> numbers f. reads_number N num n \<Longrightarrow> reads_back N num f"
proof (induction f)
  case (And l r)
  then have l: "reads_back N num l" and r: "reads_back N num r" by auto
  have 1: "reads_and N (print_filter num 1 (And l r)) (And l r)"
    using l r by (auto simp: reads_back_def paren_def intro!: reads_and_And [simplified])
  have h: "head_ok (print_filter num 1 (And l r))"
    using l head_ok_append [of "print_filter num 1 l"] by (auto simp: reads_back_def paren_def)
  from reads_or_and [OF 1] have 0: "reads_or N (print_filter num 1 (And l r)) (And l r)" .
  from reads_paren_levels [OF 0 h] 0 1 h show ?case
    by (simp add: reads_back_def paren_def)
next
  case (Or l r)
  then have l: "reads_back N num l" and r: "reads_back N num r" by auto
  have 0: "reads_or N (print_filter num 0 (Or l r)) (Or l r)"
    using l r by (auto simp: reads_back_def paren_def intro!: reads_or_Or [simplified])
  have h: "head_ok (print_filter num 0 (Or l r))"
    using l head_ok_append [of "print_filter num 0 l"] by (auto simp: reads_back_def paren_def)
  from reads_paren_levels [OF 0 h] 0 h show ?case
    by (simp add: reads_back_def paren_def)
next
  case (Not g)
  then have g: "reads_back N num g" by auto
  have 2: "reads_not N (print_filter num 2 (Not g)) (Not g)"
    using g reads_not_bang by (auto simp: reads_back_def paren_def)
  have h: "head_ok (print_filter num 2 (Not g))" by (simp add: paren_def)
  from reads_or_and [OF reads_and_not [OF 2]]
  have 0: "reads_or N (print_filter num 2 (Not g)) (Not g)" .
  from reads_paren_levels [OF 0 h] 0 2 h reads_and_not [OF 2] show ?case
    by (simp add: reads_back_def paren_def)
qed (auto intro!: reads_back_comparison)

lemma multispace_whitespace: "is_multispace c \<Longrightarrow> is_whitespace c"
  by (auto simp: is_multispace_def is_whitespace_def Let_def)

lemma ident_start_not_whitespace: "is_ident_start c \<Longrightarrow> \<not> is_whitespace c"
  by (auto simp: is_ident_start_def is_whitespace_def Let_def is_ascii_alphabetic_def
      is_ascii_lowercase_def is_ascii_uppercase_def less_eq_char_def)

lemma print_has_ident:
  "parsed_form f \<Longrightarrow> \<exists>c \<in> set (print_filter num p f). is_ident_start c"
proof (induction f arbitrary: p)
  case (And l r)
  then show ?case by (fastforce simp: paren_def)
next
  case (Or l r)
  then show ?case by (fastforce simp: paren_def)
next
  case (Not f)
  then show ?case by (fastforce simp: paren_def)
qed (auto simp: is_ident_def intro: bexI [OF _ UnI1, OF _ hd_in_set])

lemma multispace0_Nil: "multispace0 i = [] \<Longrightarrow> trim i = []"
  by (auto simp: multispace0_def trim_eq_Nil dropWhile_eq_Nil_conv intro: multispace_whitespace)

lemma parse_printed:
  assumes "parsed_form f" and "\<forall>n \<in> numbers f. reads_number N num n"
  shows "parse_filter N (print_filter num 0 f) = Inr f"
proof -
  have "ws_tag ''&&'' [] = None" "ws_tag ''||'' [] = None" "sep []"
    by (simp_all add: ws_tag_def tag_def multispace0_Cons sep_def)
  moreover have "reads_or N (print_filter num 0 f) f"
    using reads_back_all [OF assms] by (simp add: reads_back_def)
  ultimately obtain k where k: "same_rest k []"
    and e: "or_expr N (print_filter num 0 f @ []) = map_option (\<lambda>(i, xs). (i, foldl Or f xs)) (or_rest N k)"
    unfolding reads_or_def by blast
  have "or_rest N k = Some (k, [])"
    using ws_same(1) [OF k] \<open>ws_tag ''||'' [] = None\<close> by (simp add: or_rest_stop)
  moreover have "trim k = []"
    using k by (intro multispace0_Nil) (simp add: same_rest_def multispace0_Cons)
  moreover have "trim (print_filter num 0 f) \<noteq> []"
    using print_has_ident [OF assms(1), of num 0] ident_start_not_whitespace
    unfolding trim_eq_Nil by blast
  ultimately show ?thesis using e by (simp add: parse_filter_def expr_def)
qed

section \<open>Properties\<close>

text \<open>C4: The parser inverts the printer: a filter the grammar can express, printed with the fewest
  parentheses that precedence (\<open>!\<close> over \<open>&&\<close> over \<open>||\<close>) and left association allow, parses to
  itself, given that the number reader reads the filter's own numbers back.\<close>

theorem parse_print_filter:
  assumes "parsed_form f" and "\<forall>n \<in> numbers f. reads_number N num n"
  shows "parse_filter N (print_filter num 0 f) = Inr f"
  using assms by (rule parse_printed)

theorem parse_print_filter_witness:
  "parse_filter \<lparr>double = (\<lambda>i. if take 2 i = ''18'' then Some (2, Finite 18) else None),
       show_error = id, show_debug = id\<rparr> ''(a = 18 || b = true) && !c > 18'' =
     Inr (And (Or (Eq ''a'' (JNumber (PosInt 18))) (Eq ''b'' (JBool True)))
           (Not (Gt ''c'' (JNumber (PosInt 18)))))"
proof -
  let ?N = "\<lparr>double = (\<lambda>i. if take 2 i = ''18'' then Some (2, Finite 18) else None),
       show_error = id, show_debug = id\<rparr>"
  let ?f = "And (Or (Eq ''a'' (JNumber (PosInt 18))) (Eq ''b'' (JBool True)))
           (Not (Gt ''c'' (JNumber (PosInt 18))))"
  have "reads_number ?N (\<lambda>_. ''18'') (PosInt 18)"
    unfolding reads_number_def
    by (intro conjI exI [of _ "Finite 18"])
       (simp_all add: json_of_f64_def is_ascii_digit_def less_eq_char_def)
  then have "\<forall>n \<in> numbers ?f. reads_number ?N (\<lambda>_. ''18'') n"
    by (simp add: json_numbers_def)
  moreover have "parsed_form ?f"
    by (simp add: is_ident_def is_ident_start_def is_ident_rest_def is_ascii_alphanumeric_def
        is_ascii_alphabetic_def is_ascii_lowercase_def less_eq_char_def)
  ultimately show ?thesis
    using parse_print_filter [of ?f ?N "\<lambda>_. ''18''"] by (simp add: paren_def)
qed

text \<open>Whatever text is parsed, the result only mentions field names of the grammar's identifier
  form, literals that are scalars, and never an \<open>In\<close> node.\<close>

theorem parse_filter_shape:
  assumes "parse_filter N s = Inr f"
  shows "parsed_form f"
  using assms by (rule parse_filter_form)

theorem parse_filter_shape_witness:
  "parsed_form (Eq ''ab'' JNull)"
  by (rule parse_filter_shape [of "\<lparr>double = (\<lambda>_. None), show_error = id, show_debug = id\<rparr>" "''ab = null''"])
     code_simp

end
