(* ===== verification/Filter_Sql.thy ===== *)
theory Filter_Sql
  imports Filter_Parser
begin

text \<open>
  The translation of a filter into a parameterised SQLite \<open>WHERE\<close> fragment,
  \<^verbatim>\<open>rustbase-db/src/filter_sql.rs\<close>: \<open>filter_to_sql\<close>, \<open>translate\<close>, \<open>binary\<close>, \<open>compare\<close> and
  \<open>quote_ident\<close>, building the statement text and the list of bound values.

  The lemmas give the fragment a syntax tree: the text is the rendering of a SQL expression
  whose placeholders are the bindings in order, it depends on the field names and operators
  only, and the translation fails exactly on a field that is not a plain column name.
\<close>

section \<open>The translator\<close>

record sql_fragment =
  sql_text :: string
  bindings :: "json list"

definition empty_fragment :: sql_fragment where
  "empty_fragment = \<lparr>sql_text = [], bindings = []\<rparr>"

definition push_str :: "string \<Rightarrow> sql_fragment \<Rightarrow> sql_fragment" where
  "push_str s out = out\<lparr>sql_text := sql_text out @ s\<rparr>"

definition push_binding :: "json \<Rightarrow> sql_fragment \<Rightarrow> sql_fragment" where
  "push_binding v out = out\<lparr>bindings := bindings out @ [v]\<rparr>"

definition quote_ident :: "string \<Rightarrow> db_error + string" where
  "quote_ident field = (case field of [] \<Rightarrow> Inl (InvalidIdentifier field)
     | first # chars \<Rightarrow>
       if \<not> (is_ascii_alphabetic first \<or> first = CHR ''_'') then Inl (InvalidIdentifier field)
       else if \<not> list_all (\<lambda>c. is_ascii_alphanumeric c \<or> c = CHR ''_'') chars
         then Inl (InvalidIdentifier field)
       else Inr ([CHR 0x22] @ field @ [CHR 0x22]))"

definition compare :: "sql_fragment \<Rightarrow> string \<Rightarrow> string \<Rightarrow> json \<Rightarrow> db_error + sql_fragment" where
  "compare out field op value =
     rbind (quote_ident field) (\<lambda>col.
       Inr (push_binding value (push_str '' ?)'' (push_str op
             (push_str '' '' (push_str col (push_str ''('' out)))))))"

text \<open>The loop over the members of an \<open>IN\<close> list, with \<open>first\<close> for \<open>i > 0\<close> failing.\<close>

fun push_members :: "bool \<Rightarrow> json list \<Rightarrow> sql_fragment \<Rightarrow> sql_fragment" where
  "push_members first [] out = out"
| "push_members first (v # vs) out =
     push_members False vs
       (push_binding v (push_str ''?'' (if first then out else push_str '', '' out)))"

fun translate :: "filter_node \<Rightarrow> sql_fragment \<Rightarrow> db_error + sql_fragment" where
  "translate (And lhs rhs) out =
     rbind (translate lhs (push_str ''('' out)) (\<lambda>out.
     rbind (translate rhs (push_str '' '' (push_str ''AND'' (push_str '' '' out)))) (\<lambda>out.
     Inr (push_str '')'' out)))"
| "translate (Or lhs rhs) out =
     rbind (translate lhs (push_str ''('' out)) (\<lambda>out.
     rbind (translate rhs (push_str '' '' (push_str ''OR'' (push_str '' '' out)))) (\<lambda>out.
     Inr (push_str '')'' out)))"
| "translate (Not inner) out =
     rbind (translate inner (push_str ''(NOT '' out)) (\<lambda>out. Inr (push_str '')'' out))"
| "translate (Eq field value) out = compare out field ''='' value"
| "translate (Ne field value) out = compare out field ''<>'' value"
| "translate (Gt field value) out = compare out field ''>'' value"
| "translate (Gte field value) out = compare out field ''>='' value"
| "translate (Lt field value) out = compare out field ''<'' value"
| "translate (Lte field value) out = compare out field ''<='' value"
| "translate (Like field pat) out =
     rbind (quote_ident field) (\<lambda>col.
       Inr (push_binding (JString (''%'' @ pat @ ''%''))
             (push_str '' LIKE ?)'' (push_str col (push_str ''('' out)))))"
| "translate (In field values) out =
     rbind (quote_ident field) (\<lambda>col.
       Inr (push_str ''))'' (push_members True values
             (push_str '' IN ('' (push_str col (push_str ''('' out))))))"

definition filter_to_sql :: "filter_node \<Rightarrow> db_error + sql_fragment" where
  "filter_to_sql f = translate f empty_fragment"

section \<open>The fragment as a SQL expression\<close>

datatype sql_expr =
    SBin sql_expr string sql_expr
  | SNot sql_expr
  | SCmp string string
  | SLike string
  | SIn string nat

text \<open>Rendering of an expression; every literal is a placeholder.\<close>

fun commas :: "string list \<Rightarrow> string" where
  "commas [] = []"
| "commas [s] = s"
| "commas (s # ss) = s @ '', '' @ commas ss"

definition quoted :: "string \<Rightarrow> string" where
  "quoted c = [CHR 0x22] @ c @ [CHR 0x22]"

fun render :: "sql_expr \<Rightarrow> string" where
  "render (SBin l op r) = ''('' @ render l @ '' '' @ op @ '' '' @ render r @ '')''"
| "render (SNot e) = ''(NOT '' @ render e @ '')''"
| "render (SCmp c op) = ''('' @ quoted c @ '' '' @ op @ '' ?)''"
| "render (SLike c) = ''('' @ quoted c @ '' LIKE ?)''"
| "render (SIn c n) = ''('' @ quoted c @ '' IN ('' @ commas (replicate n ''?'') @ ''))''"

text \<open>The expression and the bound values of a filter.\<close>

fun expr_of :: "filter_node \<Rightarrow> sql_expr" where
  "expr_of (And l r) = SBin (expr_of l) ''AND'' (expr_of r)"
| "expr_of (Or l r) = SBin (expr_of l) ''OR'' (expr_of r)"
| "expr_of (Not f) = SNot (expr_of f)"
| "expr_of (Eq k _) = SCmp k ''=''"
| "expr_of (Ne k _) = SCmp k ''<>''"
| "expr_of (Gt k _) = SCmp k ''>''"
| "expr_of (Gte k _) = SCmp k ''>=''"
| "expr_of (Lt k _) = SCmp k ''<''"
| "expr_of (Lte k _) = SCmp k ''<=''"
| "expr_of (Like k _) = SLike k"
| "expr_of (In k vs) = SIn k (length vs)"

fun binds_of :: "filter_node \<Rightarrow> json list" where
  "binds_of (And l r) = binds_of l @ binds_of r"
| "binds_of (Or l r) = binds_of l @ binds_of r"
| "binds_of (Not f) = binds_of f"
| "binds_of (Eq _ v) = [v]"
| "binds_of (Ne _ v) = [v]"
| "binds_of (Gt _ v) = [v]"
| "binds_of (Gte _ v) = [v]"
| "binds_of (Lt _ v) = [v]"
| "binds_of (Lte _ v) = [v]"
| "binds_of (Like _ p) = [JString (''%'' @ p @ ''%'')]"
| "binds_of (In _ vs) = vs"

fun params :: "sql_expr \<Rightarrow> nat" where
  "params (SBin l _ r) = params l + params r"
| "params (SNot e) = params e"
| "params (SCmp _ _) = 1"
| "params (SLike _) = 1"
| "params (SIn _ n) = n"

definition plain_column :: "string \<Rightarrow> bool" where
  "plain_column s = (is_ident s \<and> CHR ''.'' \<notin> set s)"

fun filter_fields :: "filter_node \<Rightarrow> string set" where
  "filter_fields (And l r) = filter_fields l \<union> filter_fields r"
| "filter_fields (Or l r) = filter_fields l \<union> filter_fields r"
| "filter_fields (Not f) = filter_fields f"
| "filter_fields (Eq k _) = {k}"
| "filter_fields (Ne k _) = {k}"
| "filter_fields (Gt k _) = {k}"
| "filter_fields (Gte k _) = {k}"
| "filter_fields (Lt k _) = {k}"
| "filter_fields (Lte k _) = {k}"
| "filter_fields (Like k _) = {k}"
| "filter_fields (In k _) = {k}"

lemma fragment_simps [simp]:
  "sql_text (push_str s out) = sql_text out @ s" "bindings (push_str s out) = bindings out"
  "sql_text (push_binding v out) = sql_text out" "bindings (push_binding v out) = bindings out @ [v]"
  by (simp_all add: push_str_def push_binding_def)

lemma quote_ident_eq:
  "quote_ident s = (if plain_column s then Inr (quoted s) else Inl (InvalidIdentifier s))"
proof (cases s)
  case (Cons c cs)
  have "is_ident_start c \<Longrightarrow> c \<noteq> CHR ''.''"
    by (auto simp: is_ident_start_def is_ascii_alphabetic_def is_ascii_lowercase_def
        is_ascii_uppercase_def less_eq_char_def)
  moreover have "\<not> is_ascii_alphabetic CHR ''.''" "\<not> is_ascii_digit CHR ''.''"
    by (simp_all add: is_ascii_alphabetic_def is_ascii_lowercase_def is_ascii_uppercase_def
        is_ascii_digit_def less_eq_char_def)
  ultimately show ?thesis using Cons
    by (auto simp: quote_ident_def plain_column_def is_ident_def quoted_def list_all_iff
        is_ident_rest_def is_ident_start_def is_ascii_alphanumeric_def)
qed (simp add: quote_ident_def plain_column_def is_ident_def)

lemma commas_replicate: "commas (replicate (Suc n) ''?'') = ''?'' @ concat (replicate n '', ?'')"
  by (induction n) auto

lemma push_members_eq:
  "sql_text (push_members first vs out) =
     sql_text out @ (if first then commas (replicate (length vs) ''?'')
                else concat (replicate (length vs) '', ?''))"
  "bindings (push_members first vs out) = bindings out @ vs"
proof (induction vs arbitrary: first out)
  case (Cons v vs)
  {
    case 1
    then show ?case using Cons.IH(1) [of False] commas_replicate [of "length vs"] by simp
  next
    case 2
    then show ?case using Cons.IH(2) [of False] by simp
  }
qed simp_all

lemma fragment_eq: "a = b \<longleftrightarrow> sql_text a = sql_text b \<and> bindings a = bindings (b :: sql_fragment)"
  by (cases a; cases b) simp

lemma translate_ok:
  "filter_fields f \<subseteq> Collect plain_column \<Longrightarrow>
   translate f out = Inr \<lparr>sql_text = sql_text out @ render (expr_of f), bindings = bindings out @ binds_of f\<rparr>"
  by (induction f arbitrary: out)
     (auto simp: compare_def quote_ident_eq fragment_eq push_members_eq)

lemma translate_bad:
  "\<not> filter_fields f \<subseteq> Collect plain_column \<Longrightarrow>
   \<exists>s \<in> filter_fields f. \<not> plain_column s \<and> translate f out = Inl (InvalidIdentifier s)"
proof (induction f arbitrary: out)
  case (And l r)
  show ?case
  proof (cases "filter_fields l \<subseteq> Collect plain_column")
    case True
    with And.prems have "\<not> filter_fields r \<subseteq> Collect plain_column" by simp
    moreover obtain o1 where "translate l (push_str ''('' out) = Inr o1"
      using translate_ok [OF True] by blast
    ultimately show ?thesis
      using And.IH(2) [of "push_str '' '' (push_str ''AND'' (push_str '' '' o1))"] by auto
  next
    case False
    from And.IH(1) [OF this, of "push_str ''('' out"] show ?thesis by auto
  qed
next
  case (Or l r)
  show ?case
  proof (cases "filter_fields l \<subseteq> Collect plain_column")
    case True
    with Or.prems have "\<not> filter_fields r \<subseteq> Collect plain_column" by simp
    moreover obtain o1 where "translate l (push_str ''('' out) = Inr o1"
      using translate_ok [OF True] by blast
    ultimately show ?thesis
      using Or.IH(2) [of "push_str '' '' (push_str ''OR'' (push_str '' '' o1))"] by auto
  next
    case False
    from Or.IH(1) [OF this, of "push_str ''('' out"] show ?thesis by auto
  qed
next
  case (Not f)
  from Not.prems have "\<not> filter_fields f \<subseteq> Collect plain_column" by simp
  from Not.IH [OF this, of "push_str ''(NOT '' out"] show ?case by auto
qed (auto simp: compare_def quote_ident_eq)

lemma length_binds: "length (binds_of f) = params (expr_of f)"
  by (induction f) auto

section \<open>Properties\<close>

text \<open>C6: The translation succeeds exactly when every field of the filter is a plain column name
  (a letter or underscore, then letters, digits and underscores), and then the text is the
  rendering of one SQL expression with one placeholder per bound value, in order; otherwise it
  reports an offending field.\<close>

theorem filter_to_sql_correct:
  "if filter_fields f \<subseteq> Collect plain_column
   then filter_to_sql f = Inr \<lparr>sql_text = render (expr_of f), bindings = binds_of f\<rparr>
     \<and> length (binds_of f) = params (expr_of f)
   else \<exists>s \<in> filter_fields f. \<not> plain_column s \<and> filter_to_sql f = Inl (InvalidIdentifier s)"
  using translate_ok [of f empty_fragment] translate_bad [of f empty_fragment] length_binds [of f]
  by (auto simp: filter_to_sql_def empty_fragment_def)



end
