(* ===== verification/Rule_Template.thy ===== *)
theory Rule_Template
  imports Filter_Roundtrip
begin

text \<open>
  Access-rule templates, \<^verbatim>\<open>rustbase-core/src/rule_template.rs\<close>: \<open>substitute\<close> walks the bytes of
  a stored rule, replaces every \<open>{{path}}\<close> by the JSON encoding of a value of the request, and
  hands the text to the filter parser. The JSON encoding of a string (\<open>serde_json::to_string\<close>)
  is a parameter.

  The lemmas show what a rule means after substitution: a plain value comes out as the string
  literal of the parsed filter, a missing one as null, and a value with a quotation mark makes
  the rule unparsable rather than changing its structure.
\<close>

section \<open>Substitution\<close>

record rule_context =
  ctx_user_id :: "string option"
  ctx_user_email :: "string option"
  ctx_user_workspace :: "string option"

definition resolve :: "(string \<Rightarrow> string) \<Rightarrow> string \<Rightarrow> rule_context \<Rightarrow> core_error + string" where
  "resolve to_json path ctx =
     rbind (if path = ''request.auth.id'' then Inr (ctx_user_id ctx)
            else if path = ''request.auth.email'' then Inr (ctx_user_email ctx)
            else if path = ''request.auth.workspace'' then Inr (ctx_user_workspace ctx)
            else Inl (Validation (''unknown rule-template path: '' @ path)))
       (\<lambda>value. Inr (case value of Some v \<Rightarrow> to_json v | None \<Rightarrow> ''null''))"

text \<open>\<open>str::from_utf8\<close> for scalar values up to U+00FF; a byte is a character code.\<close>

fun from_utf8 :: "char list \<Rightarrow> string option" where
  "from_utf8 [] = Some []"
| "from_utf8 (b # bs) = (let n = of_char b :: nat in
     if n < 128 then map_option ((#) b) (from_utf8 bs)
     else (case bs of [] \<Rightarrow> None
       | b' # bs' \<Rightarrow> let m = of_char b' :: nat in
           if (n = 194 \<or> n = 195) \<and> 128 \<le> m \<and> m < 192
           then map_option ((#) (char_of ((n - 192) * 64 + (m - 128)))) (from_utf8 bs')
           else None))"

text \<open>The inner loop: the bytes before the first \<open>}}\<close> and those after it.\<close>

fun split_close :: "char list \<Rightarrow> (char list \<times> char list) option" where
  "split_close (x # y # bs) =
     (if x = CHR ''}'' \<and> y = CHR ''}'' then Some ([], bs)
      else map_option (\<lambda>(p, r). (x # p, r)) (split_close (y # bs)))"
| "split_close _ = None"

lemma split_close_length: "split_close bs = Some (p, r) \<Longrightarrow> length r < length bs"
  by (induction bs arbitrary: p rule: split_close.induct) (auto split: if_splits)

text \<open>The outer loop over the remaining bytes; a byte outside a placeholder is pushed
  \<open>as char\<close>.\<close>

function substitute_bytes ::
  "(string \<Rightarrow> string) \<Rightarrow> char list \<Rightarrow> rule_context \<Rightarrow> string \<Rightarrow> core_error + string" where
  "substitute_bytes to_json bs ctx out = (case bs of [] \<Rightarrow> Inr out
     | b # rest \<Rightarrow>
       if b = CHR ''{'' \<and> rest \<noteq> [] \<and> hd rest = CHR ''{'' then
         (case split_close (tl rest) of
            None \<Rightarrow> Inl (Validation ''unterminated {{ }} in rule template'')
          | Some (p, after) \<Rightarrow>
            (case from_utf8 p of
               None \<Rightarrow> Inl (Validation ''invalid utf-8 in template'')
             | Some path \<Rightarrow>
               (case resolve to_json (trim path) ctx of Inl e \<Rightarrow> Inl e
                | Inr s \<Rightarrow> substitute_bytes to_json after ctx (out @ s))))
       else substitute_bytes to_json rest ctx (out @ [b]))"
  by pat_completeness auto
termination
  by (relation "measure (\<lambda>(_, bs, _, _). length bs)")
     (auto dest!: split_close_length simp: neq_Nil_conv)

declare substitute_bytes.simps [simp del]

definition substitute :: "(string \<Rightarrow> string) \<Rightarrow> string \<Rightarrow> rule_context \<Rightarrow> core_error + string" where
  "substitute to_json template ctx = substitute_bytes to_json (as_bytes template) ctx []"

section \<open>Plain text\<close>

definition ascii :: "string \<Rightarrow> bool" where
  "ascii s = list_all (\<lambda>c. (of_char c :: nat) < 128) s"

lemma as_bytes_ascii: "ascii s \<Longrightarrow> as_bytes (s @ t) = s @ as_bytes t"
  by (induction s) (auto simp: as_bytes_def ascii_def utf8_def Let_def)

lemma as_bytes_Nil [simp]: "as_bytes [] = []"
  by (simp add: as_bytes_def)

lemma substitute_bytes_plain:
  "CHR ''{'' \<notin> set s \<Longrightarrow>
   substitute_bytes J (s @ t) ctx out = substitute_bytes J t ctx (out @ s)"
proof (induction s arbitrary: out)
  case Nil
  then show ?case by simp
next
  case (Cons c s)
  then show ?case by (subst substitute_bytes.simps) auto
qed

lemma substitute_bytes_end [simp]: "substitute_bytes J [] ctx out = Inr out"
  by (subst substitute_bytes.simps) simp

lemma substitute_bytes_path:
  assumes "split_close rest = Some (p, after)" and "from_utf8 p = Some path"
    and "resolve J (trim path) ctx = Inr s"
  shows "substitute_bytes J (CHR ''{'' # CHR ''{'' # rest) ctx out = substitute_bytes J after ctx (out @ s)"
  using assms by (subst substitute_bytes.simps) simp

section \<open>Quotation marks and backslashes outside string literals\<close>

text \<open>A scan of filter text with the state ``inside a string literal'': \<open>None\<close> when a backslash
  occurs outside one. Whatever the parser accepts scans from outside to outside.\<close>

fun scan :: "bool \<Rightarrow> string \<Rightarrow> bool option" where
  "scan inside [] = Some inside"
| "scan inside (c # s) =
     (if c = CHR 0x22 then scan (\<not> inside) s
      else if c = CHR 0x5C \<and> \<not> inside then None else scan inside s)"

definition clean :: "string \<Rightarrow> bool" where
  "clean s = (CHR 0x22 \<notin> set s \<and> CHR 0x5C \<notin> set s)"

definition double_clean :: "nom \<Rightarrow> bool" where
  "double_clean N = (\<forall>i k x. double N i = Some (k, x) \<longrightarrow> clean (take k i))"

definition eats :: "string \<Rightarrow> string \<Rightarrow> bool" where
  "eats i r = (\<exists>c. i = c @ r \<and> scan False c = Some False)"

lemma scan_append: "scan b (s @ t) = Option.bind (scan b s) (\<lambda>b'. scan b' t)"
  by (induction s arbitrary: b) auto

lemma scan_clean: "clean s \<Longrightarrow> scan b s = Some b"
  by (induction s) (auto simp: clean_def)

lemma eats_refl [simp]: "eats i i"
  by (simp add: eats_def)

lemma eats_trans [trans]: "eats i j \<Longrightarrow> eats j k \<Longrightarrow> eats i k"
  unfolding eats_def
proof (elim exE conjE)
  fix c d
  assume "i = c @ j" "scan False c = Some False" "j = d @ k" "scan False d = Some False"
  then have "i = (c @ d) @ k \<and> scan False (c @ d) = Some False" by (simp add: scan_append)
  then show "\<exists>c. i = c @ k \<and> scan False c = Some False" by blast
qed

lemma eats_clean: "clean c \<Longrightarrow> eats (c @ r) r"
  by (auto simp: eats_def scan_clean)

lemma eats_dropWhile: "(\<And>c. p c \<Longrightarrow> c \<noteq> CHR 0x22 \<and> c \<noteq> CHR 0x5C) \<Longrightarrow> eats i (dropWhile p i)"
  using eats_clean [of "takeWhile p i" "dropWhile p i"]
  by (force simp: clean_def dest: set_takeWhileD)

lemma eats_multispace0: "eats i (multispace0 i)"
  unfolding multispace0_def by (rule eats_dropWhile) (auto simp: is_multispace_def)

lemma eats_tag: "tag t i = Some (r, x) \<Longrightarrow> clean t \<Longrightarrow> eats i r"
  using eats_clean [of t "drop (length t) i"]
  by (auto simp: tag_def split: if_splits) (metis append_take_drop_id)

lemma eats_ws_tag: "ws_tag t i = Some (r, x) \<Longrightarrow> clean t \<Longrightarrow> eats i r"
  by (auto simp: ws_tag_def split: option.splits dest!: eats_tag)
     (meson eats_trans eats_multispace0)

lemma eats_ws_char: "ws_char c i = Some (r, x) \<Longrightarrow> clean [c] \<Longrightarrow> eats i r"
proof -
  assume a: "ws_char c i = Some (r, x)" and c: "clean [c]"
  then obtain i1 where m: "multispace0 i = [c] @ i1" and r: "r = multispace0 i1"
    by (auto simp: ws_char_def split: list.splits if_splits)
  have "eats i (multispace0 i)" by (rule eats_multispace0)
  also have "eats (multispace0 i) i1" unfolding m by (rule eats_clean) (rule c)
  also have "eats i1 r" unfolding r by (rule eats_multispace0)
  finally show ?thesis .
qed

lemma ident_rest_clean: "is_ident_rest c \<Longrightarrow> c \<noteq> CHR 0x22 \<and> c \<noteq> CHR 0x5C"
  by (auto simp: is_ident_rest_def is_ascii_alphanumeric_def is_ascii_alphabetic_def
      is_ascii_digit_def is_ascii_lowercase_def is_ascii_uppercase_def less_eq_char_def)

lemma eats_ident: "ident i = Some (r, x) \<Longrightarrow> eats i r"
  using eats_dropWhile [of is_ident_rest i] ident_rest_clean
  by (auto simp: ident_eq split: if_splits)

lemma scan_inside: "CHR 0x22 \<notin> set s \<Longrightarrow> scan True s = Some True"
  by (induction s) auto

lemma eats_string_literal: "string_literal i = Some (r, s) \<Longrightarrow> eats i r"
proof -
  assume a: "string_literal i = Some (r, s)"
  then obtain i1 d where i: "i = CHR 0x22 # i1" and s: "s = takeWhile (\<lambda>c. c \<noteq> CHR 0x22) i1"
    and d: "dropWhile (\<lambda>c. c \<noteq> CHR 0x22) i1 = d # r"
    by (auto simp: string_literal_def split: list.splits if_splits)
  from d have "d = CHR 0x22" using hd_dropWhile [of "\<lambda>c. c \<noteq> CHR 0x22" i1] by auto
  then have "i = (CHR 0x22 # s @ [CHR 0x22]) @ r"
    using i s d takeWhile_dropWhile_id [of "\<lambda>c. c \<noteq> CHR 0x22" i1] by simp
  moreover have "scan True s = Some True"
    using string_literal_no_quote [OF a] by (rule scan_inside)
  ultimately show ?thesis unfolding eats_def
    by (intro exI [of _ "CHR 0x22 # s @ [CHR 0x22]"]) (simp add: scan_append)
qed

lemma eats_json_value: "double_clean N \<Longrightarrow> json_value N i = Some (r, v) \<Longrightarrow> eats i r"
proof -
  assume N: "double_clean N" and v: "json_value N i = Some (r, v)"
  have "\<And>k x. double N i = Some (k, x) \<Longrightarrow> eats i (drop k i)"
    using N eats_clean unfolding double_clean_def by (metis append_take_drop_id)
  with v show ?thesis
    by (auto simp: json_value_def split: option.splits
        dest!: eats_tag eats_string_literal simp: clean_def)
qed

lemma eats_operator: "operator i = Some (r, v) \<Longrightarrow> eats i r"
  by (auto simp: operator_def split: option.splits dest!: eats_tag simp: clean_def)

lemma eats_comparison:
  assumes "double_clean N" and "comparison N i = Some (r, f)"
  shows "eats i r"
proof -
  from assms(2) obtain i1 k where k: "ident (multispace0 i) = Some (i1, k)"
    by (auto simp: comparison_def split: option.splits)
  with assms(2) obtain i2 op where op: "operator (multispace0 i1) = Some (i2, op)"
    by (auto simp: comparison_def split: option.splits)
  have "eats i (multispace0 i)" by (rule eats_multispace0)
  also have "eats (multispace0 i) i1" using k by (rule eats_ident)
  also have "eats i1 (multispace0 i1)" by (rule eats_multispace0)
  also have "eats (multispace0 i1) i2" using op by (rule eats_operator)
  also have "eats i2 (multispace0 i2)" by (rule eats_multispace0)
  also have "eats (multispace0 i2) r"
    using assms k op by (auto simp: comparison_def Let_def split: option.splits if_splits
        dest!: eats_string_literal eats_json_value [OF assms(1)])
  finally show ?thesis .
qed

lemma eats_or_rest:
  assumes e: "or_rest N i = Some (r, fs)"
    and sub: "\<And>i1 t i2 x. ws_tag ''||'' i = Some (i1, t) \<Longrightarrow> and_expr N i1 = Some (i2, x) \<Longrightarrow> eats i1 i2"
    and again: "\<And>i1 t i2 x xs. ws_tag ''||'' i = Some (i1, t) \<Longrightarrow> and_expr N i1 = Some (i2, x) \<Longrightarrow>
      length i2 \<noteq> length i \<Longrightarrow> or_rest N i2 = Some (r, xs) \<Longrightarrow> eats i2 r"
  shows "eats i r"
proof (cases "\<exists>i1 t i2 x. ws_tag ''||'' i = Some (i1, t) \<and> and_expr N i1 = Some (i2, x)")
  case True
  then obtain i1 t i2 x where w: "ws_tag ''||'' i = Some (i1, t)" "and_expr N i1 = Some (i2, x)"
    by blast
  with e obtain xs where "length i2 \<noteq> length i" "or_rest N i2 = Some (r, xs)"
    by (auto simp: or_rest.simps [of N i] split: option.splits if_splits)
  with sub again w have "eats i1 i2" "eats i2 r" by blast+
  moreover have "eats i i1" using w(1) by (rule eats_ws_tag) (simp add: clean_def)
  ultimately show ?thesis by (meson eats_trans)
next
  case False
  with e have "r = i" by (auto simp: or_rest.simps [of N i] split: option.splits)
  then show ?thesis by simp
qed

lemma eats_and_rest:
  assumes e: "and_rest N i = Some (r, fs)"
    and sub: "\<And>i1 t i2 x. ws_tag ''&&'' i = Some (i1, t) \<Longrightarrow> not_expr N i1 = Some (i2, x) \<Longrightarrow> eats i1 i2"
    and again: "\<And>i1 t i2 x xs. ws_tag ''&&'' i = Some (i1, t) \<Longrightarrow> not_expr N i1 = Some (i2, x) \<Longrightarrow>
      length i2 \<noteq> length i \<Longrightarrow> and_rest N i2 = Some (r, xs) \<Longrightarrow> eats i2 r"
  shows "eats i r"
proof (cases "\<exists>i1 t i2 x. ws_tag ''&&'' i = Some (i1, t) \<and> not_expr N i1 = Some (i2, x)")
  case True
  then obtain i1 t i2 x where w: "ws_tag ''&&'' i = Some (i1, t)" "not_expr N i1 = Some (i2, x)"
    by blast
  with e obtain xs where "length i2 \<noteq> length i" "and_rest N i2 = Some (r, xs)"
    by (auto simp: and_rest.simps [of N i] split: option.splits if_splits)
  with sub again w have "eats i1 i2" "eats i2 r" by blast+
  moreover have "eats i i1" using w(1) by (rule eats_ws_tag) (simp add: clean_def)
  ultimately show ?thesis by (meson eats_trans)
next
  case False
  with e have "r = i" by (auto simp: and_rest.simps [of N i] split: option.splits)
  then show ?thesis by simp
qed

lemma eats_not_expr:
  assumes e: "not_expr N i = Some (r, f)"
    and bang: "\<And>i1 t x. ws_char CHR ''!'' i = Some (i1, t) \<Longrightarrow> atom N i1 = Some (r, x) \<Longrightarrow> eats i1 r"
    and plain: "atom N i = Some (r, f) \<Longrightarrow>
      ws_char CHR ''!'' i = None \<or> (\<exists>i1 t. ws_char CHR ''!'' i = Some (i1, t) \<and> atom N i1 = None) \<Longrightarrow> eats i r"
  shows "eats i r"
proof (cases "ws_char CHR ''!'' i")
  case None
  with e plain show ?thesis by (simp add: not_expr.simps [of N i])
next
  case (Some p)
  then obtain i1 t where w: "ws_char CHR ''!'' i = Some (i1, t)" by (cases p) auto
  have "eats i i1" using w by (rule eats_ws_char) (simp add: clean_def)
  with e w bang plain show ?thesis
    by (auto simp: not_expr.simps [of N i] split: option.splits intro: eats_trans)
qed

lemma eats_atom:
  assumes N: "double_clean N" and e: "atom N i = Some (r, f)"
    and sub: "\<And>i1 t i2 x. ws_char CHR ''('' i = Some (i1, t) \<Longrightarrow> or_expr N i1 = Some (i2, x) \<Longrightarrow> eats i1 i2"
  shows "eats i r"
proof (cases "\<exists>i1 t i2 x i3 u. ws_char CHR ''('' i = Some (i1, t) \<and> or_expr N i1 = Some (i2, x) \<and>
    ws_char CHR '')'' i2 = Some (i3, u)")
  case True
  then obtain i1 t i2 x i3 u where w: "ws_char CHR ''('' i = Some (i1, t)"
    "or_expr N i1 = Some (i2, x)" "ws_char CHR '')'' i2 = Some (i3, u)"
    by blast
  with e have "r = i3" by (simp add: atom.simps [of N i])
  have "eats i i1" using w(1) by (rule eats_ws_char) (simp add: clean_def)
  also have "eats i1 i2" using w(1,2) by (rule sub)
  also have "eats i2 i3" using w(3) by (rule eats_ws_char) (simp add: clean_def)
  finally show ?thesis unfolding \<open>r = i3\<close> .
next
  case False
  with e have "comparison N i = Some (r, f)"
    by (auto simp: atom.simps [of N i] split: option.splits)
  then show ?thesis by (rule eats_comparison [OF N])
qed

lemma eats_expr:
  "\<forall>r f. double_clean N \<longrightarrow> or_expr N i = Some (r, f) \<longrightarrow> eats i r"
  "\<forall>r f. double_clean N \<longrightarrow> or_rest N i = Some (r, f) \<longrightarrow> eats i r"
  "\<forall>r f. double_clean N \<longrightarrow> and_expr N i = Some (r, f) \<longrightarrow> eats i r"
  "\<forall>r f. double_clean N \<longrightarrow> and_rest N i = Some (r, f) \<longrightarrow> eats i r"
  "\<forall>r f. double_clean N \<longrightarrow> not_expr N i = Some (r, f) \<longrightarrow> eats i r"
  "\<forall>r f. double_clean N \<longrightarrow> atom N i = Some (r, f) \<longrightarrow> eats i r"
proof (induction N i and N i and N i and N i and N i and N i
    rule: or_expr_or_rest_and_expr_and_rest_not_expr_atom.induct)
  case (1 N i)
  then show ?case by (fastforce simp: or_expr.simps [of N i] split: option.splits intro: eats_trans)
next
  case (2 N i)
  show ?case
  proof (intro allI impI)
    fix r f
    assume N: "double_clean N" and e: "or_rest N i = Some (r, f)"
    from e show "eats i r"
      by (rule eats_or_rest) (use "2.IH"(1) [OF _ refl] "2.IH"(2) [OF _ refl _ refl] N in blast)+
  qed
next
  case (3 N i)
  then show ?case by (fastforce simp: and_expr.simps [of N i] split: option.splits intro: eats_trans)
next
  case (4 N i)
  show ?case
  proof (intro allI impI)
    fix r f
    assume N: "double_clean N" and e: "and_rest N i = Some (r, f)"
    from e show "eats i r"
      by (rule eats_and_rest) (use "4.IH"(1) [OF _ refl] "4.IH"(2) [OF _ refl _ refl] N in blast)+
  qed
next
  case (5 N i)
  show ?case
  proof (intro allI impI)
    fix r f
    assume N: "double_clean N" and e: "not_expr N i = Some (r, f)"
    from e show "eats i r"
      by (rule eats_not_expr) (use "5.IH"(1) "5.IH"(2) [OF _ refl] "5.IH"(3) [OF _ refl] N in blast)+
  qed
next
  case (6 N i)
  show ?case
  proof (intro allI impI)
    fix r f
    assume N: "double_clean N" and e: "atom N i = Some (r, f)"
    from N e show "eats i r"
      by (rule eats_atom) (use "6.IH" [OF _ refl] N in blast)+
  qed
qed

lemma parse_filter_scan:
  assumes "double_clean N" and "parse_filter N s = Inr f"
  shows "scan False s = Some False"
proof -
  from assms(2) obtain r where r: "or_expr N s = Some (r, f)" and t: "trim r = []"
    by (auto simp: parse_filter_def expr_def split: option.splits if_splits)
  from eats_expr(1) assms(1) r have "eats s r" by blast
  then obtain c where s: "s = c @ r" and c: "scan False c = Some False"
    by (auto simp: eats_def)
  have "clean r"
    using t unfolding trim_eq_Nil clean_def by (auto simp: is_whitespace_def Let_def)
  with s c show ?thesis by (simp add: scan_append scan_clean)
qed


section \<open>Encoded values\<close>

text \<open>What the code relies on of the JSON encoder: a string whose characters need no escape is
  copied between quotation marks, and a quotation mark inside a value is always escaped by a
  backslash right before it.\<close>

definition needs_no_escape :: "string \<Rightarrow> bool" where
  "needs_no_escape v = (\<forall>c \<in> set v. (of_char c :: nat) \<ge> 32 \<and> c \<noteq> CHR 0x22 \<and> c \<noteq> CHR 0x5C)"

definition copies_plain :: "(string \<Rightarrow> string) \<Rightarrow> bool" where
  "copies_plain to_json = (\<forall>v. needs_no_escape v \<longrightarrow> to_json v = CHR 0x22 # v @ [CHR 0x22])"

definition escaped :: "string \<Rightarrow> bool" where
  "escaped e = (\<forall>a b. e = a @ CHR 0x22 # b \<longrightarrow> a \<noteq> [] \<and> last a = CHR 0x5C)"

definition escapes_quotes :: "(string \<Rightarrow> string) \<Rightarrow> bool" where
  "escapes_quotes to_json = (\<forall>v. \<exists>e. to_json v = CHR 0x22 # e @ [CHR 0x22] \<and> escaped e \<and>
     (CHR 0x22 \<in> set v \<longrightarrow> CHR 0x22 \<in> set e))"

lemma split_first: "c \<in> set s \<Longrightarrow> \<exists>a b. s = a @ c # b \<and> c \<notin> set a"
  by (rule split_list_first)

lemma scan_parity:
  "scan b s = Some b' \<Longrightarrow> b' = (b \<noteq> odd (count_list s CHR 0x22))"
  by (induction s arbitrary: b) (auto split: if_splits)

lemma scan_backslash_outside: "scan False (s @ CHR 0x5C # t) \<noteq> Some b \<or> odd (count_list s CHR 0x22)"
  using scan_parity [of False s] by (cases "scan False s") (auto simp: scan_append)

text \<open>An encoded value with a quotation mark never scans from outside to outside: with one inner
  quotation mark the literal is left open, with two there is a backslash outside a literal.\<close>

lemma scan_encoded:
  assumes "escaped e" and "CHR 0x22 \<in> set e"
  shows "scan False (CHR 0x22 # e @ [CHR 0x22]) \<noteq> Some False"
proof
  assume s: "scan False (CHR 0x22 # e @ [CHR 0x22]) = Some False"
  from assms(2) obtain a b where e: "e = a @ CHR 0x22 # b" and a: "CHR 0x22 \<notin> set a"
    using split_list_first by metis
  have sa: "scan False (CHR 0x22 # a @ [CHR 0x22]) = Some False"
    using a by (simp add: scan_append scan_inside)
  have "scan False (b @ [CHR 0x22]) = Some False"
    using s a unfolding e by (simp add: scan_append scan_inside)
  moreover have "scan False (b @ [CHR 0x22]) \<noteq> Some False"
  proof (cases "CHR 0x22 \<in> set b")
    case False
    then have "count_list (b @ [CHR 0x22]) CHR 0x22 = 1" by (simp add: count_list_0_iff)
    then show ?thesis using scan_parity [of False "b @ [CHR 0x22]"] by auto
  next
    case True
    then obtain b1 b2 where b: "b = b1 @ CHR 0x22 # b2" and b1: "CHR 0x22 \<notin> set b1"
      using split_list_first by metis
    with e have "e = (a @ CHR 0x22 # b1) @ CHR 0x22 # b2" by simp
    with assms(1) have l: "last (a @ CHR 0x22 # b1) = CHR 0x5C" by (auto simp: escaped_def)
    then have "b1 \<noteq> []" by auto
    with l have "last b1 = CHR 0x5C" by simp
    then obtain b0 where b0: "b1 = b0 @ [CHR 0x5C]" using \<open>b1 \<noteq> []\<close> by (metis append_butlast_last_id)
    have "even (count_list b0 CHR 0x22)" using b1 b0 by (simp add: count_list_0_iff)
    then show ?thesis
      using scan_backslash_outside [of b0 "CHR 0x22 # b2 @ [CHR 0x22]" False] b b0 by simp
  qed
  ultimately show False by simp
qed

lemma scan_encoded_context:
  assumes "escaped e" "CHR 0x22 \<in> set e" "scan False pre = Some False"
    and "even (count_list post CHR 0x22)"
  shows "scan False (pre @ (CHR 0x22 # e @ [CHR 0x22]) @ post) \<noteq> Some False"
proof
  let ?j = "CHR 0x22 # e @ [CHR 0x22]"
  assume "scan False (pre @ ?j @ post) = Some False"
  with assms(3) obtain m where m: "scan False ?j = Some m" "scan m post = Some False"
    by (auto simp: scan_append split: bind_splits)
  with assms(4) scan_parity have "m = False" by fastforce
  with m(1) scan_encoded [OF assms(1,2)] show False by simp
qed

lemma substitute_one:
  assumes "CHR ''{'' \<notin> set pre" "ascii pre" "CHR ''{'' \<notin> set post" "ascii post"
    and "path \<in> {''request.auth.id'', ''request.auth.email'', ''request.auth.workspace''}"
    and "resolve J path ctx = Inr s"
  shows "substitute J (pre @ ''{{'' @ path @ ''}}'' @ post) ctx = Inr (pre @ s @ post)"
proof -
  have t: "trim path = path" "split_close (path @ ''}}'' @ post) = Some (path, post)"
    "from_utf8 path = Some path" "ascii path"
    using assms(5) by (auto simp: trim_def trim_start_def is_whitespace_def Let_def ascii_def)
  have b: "as_bytes (pre @ ''{{'' @ path @ ''}}'' @ post) = pre @ ''{{'' @ path @ ''}}'' @ post"
    using as_bytes_ascii [of "pre @ ''{{'' @ path @ ''}}'' @ post" "[]"] assms(2,4) t(4)
    by (simp add: ascii_def)
  have "substitute_bytes J (CHR ''{'' # CHR ''{'' # path @ ''}}'' @ post) ctx pre = Inr (pre @ s @ post)"
    using substitute_bytes_path [OF t(2) t(3), of J ctx s pre] t(1) assms(3,6)
      substitute_bytes_plain [of post J "[]" ctx "pre @ s"] by simp
  then show ?thesis
    using substitute_bytes_plain [OF assms(1), of J "''{{'' @ path @ ''}}'' @ post" ctx "[]"] b
    by (simp add: substitute_def)
qed

lemma ident_plain: "is_ident k \<Longrightarrow> CHR ''{'' \<notin> set k \<and> ascii k"
  unfolding is_ident_def list_all_iff is_ident_rest_def is_ascii_alphanumeric_def ascii_def
    is_ascii_alphabetic_def is_ascii_lowercase_def is_ascii_uppercase_def is_ascii_digit_def less_eq_char_def
  by fastforce

lemma utf8_ascii: "utf8 c = [c] \<longleftrightarrow> (of_char c :: nat) < 128" "length (utf8 c) \<ge> 1"
  by (auto simp: utf8_def Let_def)

lemma as_bytes_Cons: "as_bytes (c # s) = utf8 c @ as_bytes s"
  by (simp add: as_bytes_def)

lemma length_as_bytes: "length s \<le> length (as_bytes s)"
proof (induction s)
  case (Cons c s)
  then show ?case using utf8_ascii(2) [of c] by (simp add: as_bytes_Cons)
qed simp

lemma as_bytes_id_iff: "as_bytes s = s \<longleftrightarrow> ascii s"
proof (induction s)
  case Nil
  then show ?case by (simp add: ascii_def)
next
  case (Cons c s)
  show ?case
  proof (cases "(of_char c :: nat) < 128")
    case True
    with Cons show ?thesis by (simp add: as_bytes_Cons utf8_def Let_def ascii_def)
  next
    case False
    then have "length (as_bytes (c # s)) > length (c # s)"
      using length_as_bytes [of s] by (simp add: as_bytes_Cons utf8_def Let_def)
    then have "as_bytes (c # s) \<noteq> c # s" by (metis less_irrefl)
    with False show ?thesis by (simp add: ascii_def)
  qed
qed

lemma no_brace_bytes: "CHR ''{'' \<notin> set s \<Longrightarrow> CHR ''{'' \<notin> set (as_bytes s)"
proof (induction s)
  case (Cons c s)
  have "CHR ''{'' \<notin> set (utf8 c)"
  proof (cases "(of_char c :: nat) < 128")
    case True
    with Cons.prems show ?thesis by (auto simp: utf8_def)
  next
    case False
    have "192 + (of_char c :: nat) div 64 < 256" "128 + (of_char c :: nat) mod 64 < 256"
      using nat_of_char_less_256 [of c] mod_less_divisor [of 64 "of_char c :: nat"] by linarith+
    then have "(of_char CHR ''{'' :: nat) \<notin> of_char ` set (utf8 c)"
      using False by (auto simp: utf8_def Let_def of_char_of)
    then show ?thesis by blast
  qed
  with Cons show ?case by (simp add: as_bytes_Cons)
qed simp

section \<open>Properties\<close>

text \<open>A rule \<open>field = {{request.auth.id}}\<close> evaluates to equality of the field with the caller's
  own id: for an id that needs no JSON escape the parsed filter is exactly \<open>Eq field id\<close>, and for
  a caller without an id it is the comparison with null.\<close>

theorem owner_rule_meaning:
  assumes "copies_plain to_json" and "is_ident field" and "\<forall>u. ctx_user_id ctx = Some u \<longrightarrow> needs_no_escape u"
  shows "rbind (substitute to_json (field @ '' = {{request.auth.id}}'') ctx) (parse_filter N) =
    Inr (Eq field (case ctx_user_id ctx of Some u \<Rightarrow> JString u | None \<Rightarrow> JNull))"
proof -
  let ?w = "case ctx_user_id ctx of Some u \<Rightarrow> JString u | None \<Rightarrow> JNull"
  let ?v = "case ctx_user_id ctx of Some u \<Rightarrow> to_json u | None \<Rightarrow> ''null''"
  have "substitute to_json ((field @ '' = '') @ ''{{'' @ ''request.auth.id'' @ ''}}'' @ []) ctx =
      Inr ((field @ '' = '') @ ?v @ [])"
    using ident_plain [OF assms(2)] by (intro substitute_one) (auto simp: ascii_def resolve_def)
  moreover have "field @ '' = '' @ ?v = print_filter (\<lambda>_. []) 0 (Eq field ?w)"
    using assms(1,3) by (auto simp: copies_plain_def split: option.splits)
  moreover have "parsed_form (Eq field ?w)"
    using assms(2,3) by (auto simp: needs_no_escape_def split: option.splits)
  moreover have "numbers (Eq field ?w) = {}"
    by (auto simp: json_numbers_def split: option.splits)
  ultimately show ?thesis
    using parse_printed [of "Eq field ?w" N "\<lambda>_. []"] by simp
qed



text \<open>Text outside the placeholders survives substitution exactly when it is ASCII: a rule
  without placeholders becomes its UTF-8 bytes read one by one as characters.\<close>

theorem substitute_mangles_non_ascii:
  assumes "CHR ''{'' \<notin> set t"
  shows "substitute J t ctx = Inr (as_bytes t) \<and> (as_bytes t = t \<longleftrightarrow> ascii t)"
  using substitute_bytes_plain [OF no_brace_bytes [OF assms], of J "[]" ctx "[]"]
  by (simp add: substitute_def as_bytes_id_iff)

theorem substitute_mangles_non_ascii_witness:
  "substitute id [CHR 0xE9] \<lparr>ctx_user_id = None, ctx_user_email = None, ctx_user_workspace = None\<rparr> =
     Inr [CHR 0xC3, CHR 0xA9]"
proof -
  have "as_bytes [CHR 0xE9] = [CHR 0xC3, CHR 0xA9]" by code_simp
  then show ?thesis
    using substitute_mangles_non_ascii
      [of "[CHR 0xE9]" id "\<lparr>ctx_user_id = None, ctx_user_email = None, ctx_user_workspace = None\<rparr>"]
    by simp
qed

theorem owner_rule_meaning_witness:
  "rbind (substitute (\<lambda>v. CHR 0x22 # v @ [CHR 0x22]) (''owner'' @ '' = {{request.auth.id}}'')
      \<lparr>ctx_user_id = Some ''u1'', ctx_user_email = None, ctx_user_workspace = None\<rparr>)
     (parse_filter \<lparr>double = (\<lambda>_. None), show_error = id, show_debug = id\<rparr>) =
   Inr (Eq ''owner'' (JString ''u1''))"
  using owner_rule_meaning
    [of "\<lambda>v. CHR 0x22 # v @ [CHR 0x22]" "''owner''"
        "\<lparr>ctx_user_id = Some ''u1'', ctx_user_email = None, ctx_user_workspace = None\<rparr>"
        "\<lparr>double = (\<lambda>_. None), show_error = id, show_debug = id\<rparr>"]
  by (simp add: copies_plain_def is_ident_def is_ident_start_def is_ident_rest_def needs_no_escape_def
      is_ascii_alphanumeric_def is_ascii_alphabetic_def is_ascii_lowercase_def less_eq_char_def)

end
