(* ===== verification/Realtime.thy ===== *)
theory Realtime
  imports Filter_Node "HOL-Library.AList"
begin

text \<open>
  The broker of record events, \<^verbatim>\<open>rustbase-realtime/src/lib.rs\<close>: a map from collections to broadcast
  channels. The channel itself (\<open>tokio::sync::broadcast\<close>) is the parameter \<open>broadcast\<close>: opening a
  channel, a further receiver, sending, counting receivers, and dropping the sender, on a state \<open>'w\<close> of
  all channels. What the broker relies on is \<open>broadcast_ok\<close>, stated over three observations: the senders
  that exist, the receivers of a sender, and the values a receiver was sent. A receiver that falls
  behind loses the oldest of them, which the channel reports to the reader; that is not part of the broker.
\<close>

section \<open>The channel\<close>

record subscription_key =
  sk_workspace :: string
  sk_app :: string
  sk_collection :: string

datatype realtime_event =
    RecordCreated rec
  | RecordUpdated rec
  | RecordDeleted string

record 'w broadcast =
  ch_channel :: "nat \<Rightarrow> 'w \<Rightarrow> (nat \<times> nat) \<times> 'w"
  ch_subscribe :: "nat \<Rightarrow> 'w \<Rightarrow> nat \<times> 'w"
  ch_send :: "nat \<Rightarrow> realtime_event \<Rightarrow> 'w \<Rightarrow> (unit + nat) \<times> 'w"
  ch_receiver_count :: "nat \<Rightarrow> 'w \<Rightarrow> nat"
  ch_drop_sender :: "nat \<Rightarrow> 'w \<Rightarrow> 'w"

record 'w broadcast_view =
  senders :: "'w \<Rightarrow> nat set"
  receivers :: "'w \<Rightarrow> nat \<Rightarrow> nat set"
  received :: "'w \<Rightarrow> nat \<Rightarrow> realtime_event list"

definition opens_channel :: "'w broadcast \<Rightarrow> 'w broadcast_view \<Rightarrow> bool" where
  "opens_channel lib v \<longleftrightarrow> (\<forall>cap w tx rx w'. ch_channel lib cap w = ((tx, rx), w') \<longrightarrow>
        tx \<notin> senders v w \<and> (\<forall>t. rx \<notin> receivers v w t)
      \<and> senders v w' = insert tx (senders v w) \<and> receivers v w' = (receivers v w)(tx := {rx})
      \<and> received v w' = (received v w)(rx := []))"

definition adds_receiver :: "'w broadcast \<Rightarrow> 'w broadcast_view \<Rightarrow> bool" where
  "adds_receiver lib v \<longleftrightarrow> (\<forall>w tx rx w'. ch_subscribe lib tx w = (rx, w') \<longrightarrow>
        (\<forall>t. rx \<notin> receivers v w t) \<and> senders v w' = senders v w
      \<and> receivers v w' = (receivers v w)(tx := insert rx (receivers v w tx))
      \<and> received v w' = (received v w)(rx := []))"

definition sends_to_all :: "'w broadcast \<Rightarrow> 'w broadcast_view \<Rightarrow> bool" where
  "sends_to_all lib v \<longleftrightarrow> (\<forall>w tx e r w'. ch_send lib tx e w = (r, w') \<longrightarrow> receivers v w tx \<noteq> {} \<longrightarrow>
        r = Inr (card (receivers v w tx)) \<and> senders v w' = senders v w \<and> receivers v w' = receivers v w
      \<and> received v w' = (\<lambda>rx. if rx \<in> receivers v w tx then received v w rx @ [e] else received v w rx))"

definition broadcast_ok :: "'w broadcast \<Rightarrow> 'w broadcast_view \<Rightarrow> bool" where
  "broadcast_ok lib v \<longleftrightarrow>
     (\<forall>w tx. finite (receivers v w tx)) \<and> opens_channel lib v \<and> adds_receiver lib v \<and> sends_to_all lib v
   \<and> (\<forall>w tx e. receivers v w tx = {} \<longrightarrow> ch_send lib tx e w = (Inl (), w))
   \<and> (\<forall>w tx. ch_receiver_count lib tx w = card (receivers v w tx))
   \<and> (\<forall>w tx. senders v (ch_drop_sender lib tx w) = senders v w - {tx})
   \<and> (\<forall>w tx. receivers v (ch_drop_sender lib tx w) = (receivers v w)(tx := {}))
   \<and> (\<forall>w tx. received v (ch_drop_sender lib tx w) = received v w)"

section \<open>The broker\<close>

record 'w broker =
  inner :: "(subscription_key \<times> nat) list"
  capacity :: nat
  channels :: 'w

definition with_capacity :: "nat \<Rightarrow> 'w \<Rightarrow> 'w broker" where
  "with_capacity n w = \<lparr>inner = [], capacity = max n 1, channels = w\<rparr>"

definition default_broker :: "'w \<Rightarrow> 'w broker" where
  "default_broker w = with_capacity 32 w"

text \<open>The second half of \<open>subscribe\<close>, after the lookup has missed: \<open>insert\<close> replaces whatever sender the
  key has by then, and drops it.\<close>

definition subscribe_insert :: "'w broadcast \<Rightarrow> subscription_key \<Rightarrow> 'w broker \<Rightarrow> nat \<times> 'w broker" where
  "subscribe_insert lib k b =
     (case ch_channel lib (capacity b) (channels b) of ((tx, rx), w) \<Rightarrow>
        (rx, b\<lparr>inner := AList.update k tx (inner b),
               channels := (case map_of (inner b) k of None \<Rightarrow> w | Some old \<Rightarrow> ch_drop_sender lib old w)\<rparr>))"

definition subscribe :: "'w broadcast \<Rightarrow> subscription_key \<Rightarrow> 'w broker \<Rightarrow> nat \<times> 'w broker" where
  "subscribe lib k b =
     (case map_of (inner b) k of
        Some tx \<Rightarrow> (case ch_subscribe lib tx (channels b) of (rx, w) \<Rightarrow> (rx, b\<lparr>channels := w\<rparr>))
      | None \<Rightarrow> subscribe_insert lib k b)"

definition publish :: "'w broadcast \<Rightarrow> subscription_key \<Rightarrow> realtime_event \<Rightarrow> 'w broker \<Rightarrow> nat \<times> 'w broker" where
  "publish lib k event b =
     (case map_of (inner b) k of
        None \<Rightarrow> (0, b)
      | Some tx \<Rightarrow>
          (case ch_send lib tx event (channels b) of (r, w) \<Rightarrow>
             let n = (case r of Inl _ \<Rightarrow> 0 | Inr n \<Rightarrow> n) in
             if n = 0 \<and> ch_receiver_count lib tx w = 0
             then (n, b\<lparr>inner := AList.delete k (inner b), channels := ch_drop_sender lib tx w\<rparr>)
             else (n, b\<lparr>channels := w\<rparr>)))"

definition channel_count :: "'w broker \<Rightarrow> nat" where
  "channel_count b = length (inner b)"

section \<open>What a subscriber receives\<close>

text \<open>Every entry of the map is a live sender, and no two keys share one; a receiver listens to one
  sender.\<close>

definition one_sender :: "'w broadcast_view \<Rightarrow> 'w \<Rightarrow> bool" where
  "one_sender v w \<longleftrightarrow> (\<forall>t t' rx. rx \<in> receivers v w t \<longrightarrow> rx \<in> receivers v w t' \<longrightarrow> t = t')"

definition broker_ok :: "'w broadcast_view \<Rightarrow> 'w broker \<Rightarrow> bool" where
  "broker_ok v b \<longleftrightarrow> distinct (map fst (inner b)) \<and> distinct (map snd (inner b))
     \<and> snd ` set (inner b) \<subseteq> senders v (channels b)
     \<and> one_sender v (channels b)"

definition listeners :: "'w broadcast_view \<Rightarrow> 'w broker \<Rightarrow> subscription_key \<Rightarrow> nat set" where
  "listeners v b k = (case map_of (inner b) k of None \<Rightarrow> {} | Some tx \<Rightarrow> receivers v (channels b) tx)"

text \<open>The operations of a run; a receiver may be dropped at any time, which only shrinks the sets of
  receivers.\<close>

datatype broker_op = Subscribed subscription_key nat | Published subscription_key realtime_event nat | Dropped nat

inductive broker_step :: "'w broadcast \<Rightarrow> 'w broadcast_view \<Rightarrow> 'w broker \<Rightarrow> broker_op \<Rightarrow> 'w broker \<Rightarrow> bool"
  for lib v where
  step_subscribe: "subscribe lib k b = (rx, b') \<Longrightarrow> broker_step lib v b (Subscribed k rx) b'"
| step_publish: "publish lib k e b = (n, b') \<Longrightarrow> broker_step lib v b (Published k e n) b'"
| step_drop: "senders v w = senders v (channels b) \<Longrightarrow> received v w = received v (channels b) \<Longrightarrow>
    receivers v w = (\<lambda>t. receivers v (channels b) t - {rx}) \<Longrightarrow>
    broker_step lib v b (Dropped rx) (b\<lparr>channels := w\<rparr>)"

inductive_cases subscribedE: "broker_step lib v b (Subscribed k rx) b'"
inductive_cases publishedE: "broker_step lib v b (Published k e n) b'"
inductive_cases droppedE: "broker_step lib v b (Dropped rx) b'"

inductive broker_run :: "'w broadcast \<Rightarrow> 'w broadcast_view \<Rightarrow> 'w broker \<Rightarrow> broker_op list \<Rightarrow> 'w broker \<Rightarrow> bool"
  for lib v where
  run_nil: "broker_run lib v b [] b"
| run_cons: "broker_step lib v b x b1 \<Longrightarrow> broker_run lib v b1 xs b2 \<Longrightarrow> broker_run lib v b (x # xs) b2"

inductive_cases run_consE: "broker_run lib v b (x # xs) b'"
inductive_cases run_nilE: "broker_run lib v b [] b'"

fun published_to :: "subscription_key \<Rightarrow> broker_op list \<Rightarrow> realtime_event list" where
  "published_to k [] = []"
| "published_to k (Published k' e n # xs) = (if k' = k then e # published_to k xs else published_to k xs)"
| "published_to k (x # xs) = published_to k xs"

lemma opensD:
  assumes "broadcast_ok lib v" and "ch_channel lib cap w = ((tx, rx), w')"
  shows "tx \<notin> senders v w \<and> (\<forall>t. rx \<notin> receivers v w t) \<and> senders v w' = insert tx (senders v w)
    \<and> receivers v w' = (receivers v w)(tx := {rx}) \<and> received v w' = (received v w)(rx := [])"
proof -
  have "opens_channel lib v" using assms(1) by (simp only: broadcast_ok_def)
  from this [unfolded opens_channel_def, rule_format, OF assms(2)] show ?thesis by simp
qed

lemma addsD:
  assumes "broadcast_ok lib v" and "ch_subscribe lib tx w = (rx, w')"
  shows "(\<forall>t. rx \<notin> receivers v w t) \<and> senders v w' = senders v w
    \<and> receivers v w' = (receivers v w)(tx := insert rx (receivers v w tx)) \<and> received v w' = (received v w)(rx := [])"
proof -
  have "adds_receiver lib v" using assms(1) by (simp only: broadcast_ok_def)
  from this [unfolded adds_receiver_def, rule_format, OF assms(2)] show ?thesis by simp
qed

lemma sendsD:
  assumes "broadcast_ok lib v" and "ch_send lib tx e w = (r, w')" and "receivers v w tx \<noteq> {}"
  shows "r = Inr (card (receivers v w tx)) \<and> senders v w' = senders v w \<and> receivers v w' = receivers v w
    \<and> received v w' = (\<lambda>rx. if rx \<in> receivers v w tx then received v w rx @ [e] else received v w rx)"
proof -
  have "sends_to_all lib v" using assms(1) by (simp only: broadcast_ok_def)
  from this [unfolded sends_to_all_def, rule_format, OF assms(2,3)] show ?thesis by simp
qed

lemma broadcast_okD:
  assumes "broadcast_ok lib v"
  shows "finite (receivers v w tx)"
    "receivers v w tx = {} \<Longrightarrow> ch_send lib tx e w = (Inl (), w)"
    "ch_receiver_count lib tx w = card (receivers v w tx)"
    "senders v (ch_drop_sender lib tx w) = senders v w - {tx}"
    "receivers v (ch_drop_sender lib tx w) = (receivers v w)(tx := {})"
    "received v (ch_drop_sender lib tx w) = received v w"
  using assms by (simp_all add: broadcast_ok_def)

lemma one_sender_add:
  assumes "one_sender v w" and "\<forall>t. rx \<notin> receivers v w t"
    and "receivers v w' = (receivers v w)(tx := insert rx S)" and "S \<subseteq> receivers v w tx"
  shows "one_sender v w'"
  using assms(2,4) assms(1) [unfolded one_sender_def] unfolding one_sender_def assms(3)
  by (auto split: if_splits)

lemma one_sender_sub:
  assumes "one_sender v w" and "\<And>t. receivers v w' t \<subseteq> receivers v w t"
  shows "one_sender v w'"
  using assms unfolding one_sender_def by blast

lemma map_of_distinct_snd:
  "distinct (map snd xs) \<Longrightarrow> map_of xs k = Some t \<Longrightarrow> map_of xs k' = Some t \<Longrightarrow> k = k'"
  by (induction xs) (auto split: if_splits dest!: map_of_SomeD intro: rev_image_eqI)

lemma update_fresh: "map_of xs k = None \<Longrightarrow> AList.update k t xs = xs @ [(k, t)]"
  by (induction xs) (auto split: if_splits)

lemma not_listening: "\<forall>t. rx \<notin> receivers v (channels b) t \<Longrightarrow> \<forall>j. rx \<notin> listeners v b j"
  by (auto simp: listeners_def split: option.splits)

lemma subscribe_ok:
  assumes lib: "broadcast_ok lib v" and ok: "broker_ok v b" and s: "subscribe lib k b = (rx, b')"
  shows "broker_ok v b' \<and> listeners v b' = (listeners v b)(k := insert rx (listeners v b k))
    \<and> (\<forall>j. rx \<notin> listeners v b j) \<and> received v (channels b') = (received v (channels b))(rx := [])"
proof (cases "map_of (inner b) k")
  case (Some tx)
  with s obtain w where w: "ch_subscribe lib tx (channels b) = (rx, w)" "b' = b\<lparr>channels := w\<rparr>"
    by (auto simp: subscribe_def split: prod.splits)
  note d = addsD [OF lib w(1)]
  have "one_sender v w" using one_sender_add [of v "channels b" rx w] ok d by (auto simp: broker_ok_def)
  then have "broker_ok v b'" using ok d w(2) by (auto simp: broker_ok_def)
  moreover have "listeners v b' = (listeners v b)(k := insert rx (listeners v b k))"
  proof (rule ext)
    fix j show "listeners v b' j = ((listeners v b)(k := insert rx (listeners v b k))) j"
  proof (cases "map_of (inner b) j = Some tx")
    case True
    then have "j = k" using map_of_distinct_snd [of "inner b" j tx k] ok Some by (simp add: broker_ok_def)
    then show ?thesis using d w(2) Some by (simp add: listeners_def)
  next
    case False
    then have "j \<noteq> k" using Some by auto
    then show ?thesis using d w(2) False by (simp add: listeners_def split: option.splits)
  qed qed
  ultimately show ?thesis using d w(2) not_listening [of rx v b] by simp
next
  case None
  with s obtain tx w where w: "ch_channel lib (capacity b) (channels b) = ((tx, rx), w)"
      "b' = b\<lparr>inner := inner b @ [(k, tx)], channels := w\<rparr>"
    by (auto simp: subscribe_def subscribe_insert_def update_fresh split: prod.splits)
  note d = opensD [OF lib w(1)]
  have fresh: "tx \<notin> snd ` set (inner b)" "k \<notin> fst ` set (inner b)"
    using d ok None by (auto simp: broker_ok_def map_of_eq_None_iff)
  have "one_sender v w" using one_sender_add [of v "channels b" rx w tx "{}"] ok d by (auto simp: broker_ok_def)
  then have "broker_ok v b'" using ok d w(2) fresh by (auto simp: broker_ok_def)
  moreover have "listeners v b' = (listeners v b)(k := insert rx (listeners v b k))"
  proof (rule ext)
    fix j show "listeners v b' j = ((listeners v b)(k := insert rx (listeners v b k))) j"
  proof (cases "map_of (inner b) j")
    case None
    then show ?thesis using d w(2) \<open>map_of (inner b) k = None\<close> by (auto simp: listeners_def map_add_def)
  next
    case (Some t)
    then have "t \<noteq> tx" using fresh(1) by (force dest: map_of_SomeD)
    moreover from Some \<open>map_of (inner b) k = None\<close> have "j \<noteq> k" by auto
    ultimately show ?thesis using Some d w(2) by (simp add: listeners_def map_add_def)
  qed qed
  ultimately show ?thesis using d w(2) not_listening [of rx v b] by simp
qed

lemma publish_ok:
  assumes lib: "broadcast_ok lib v" and ok: "broker_ok v b" and p: "publish lib k e b = (n, b')"
  shows "broker_ok v b' \<and> listeners v b' = listeners v b \<and> n = card (listeners v b k)
    \<and> received v (channels b') = (\<lambda>rx. if rx \<in> listeners v b k then received v (channels b) rx @ [e] else received v (channels b) rx)
    \<and> (n = 0 \<longrightarrow> map_of (inner b') k = None)"
proof (cases "map_of (inner b) k")
  case None
  with p ok show ?thesis by (auto simp: publish_def listeners_def)
next
  case (Some tx)
  show ?thesis
  proof (cases "receivers v (channels b) tx = {}")
    case True
    note s = broadcast_okD(2) [OF lib True] and d = broadcast_okD(3-6) [OF lib]
    have b': "n = 0" "b' = b\<lparr>inner := AList.delete k (inner b), channels := ch_drop_sender lib tx (channels b)\<rparr>"
      using p Some s d True by (auto simp: publish_def)
    have "tx \<notin> snd ` set (AList.delete k (inner b))"
    proof
      assume "tx \<in> snd ` set (AList.delete k (inner b))"
      then obtain j where "(j, tx) \<in> set (inner b)" "j \<noteq> k" by (auto simp: AList.delete_eq)
      with ok Some map_of_distinct_snd [of "inner b" k tx j] show False by (auto simp: broker_ok_def)
    qed
    moreover have "distinct (map snd (AList.delete k (inner b)))" "distinct (map fst (AList.delete k (inner b)))"
      using ok by (auto simp: broker_ok_def AList.delete_eq distinct_map_filter)
    moreover have "snd ` set (AList.delete k (inner b)) \<subseteq> senders v (channels b)"
      using ok by (force simp: broker_ok_def AList.delete_eq)
    moreover have "one_sender v (channels b')"
      by (rule one_sender_sub [of _ "channels b"]) (use ok d(3) b'(2) in \<open>auto simp: broker_ok_def\<close>)
    ultimately have "broker_ok v b'" using ok d(2) b'(2) unfolding broker_ok_def by auto
    moreover have "listeners v b' j = listeners v b j" for j
      using b'(2) d Some True by (auto simp: listeners_def AList.delete_conv split: option.splits)
    ultimately show ?thesis using b' d Some True by (auto simp: listeners_def AList.delete_conv)
  next
    case False
    obtain r w where w: "ch_send lib tx e (channels b) = (r, w)" by fastforce
    note d = sendsD [OF lib w False] and fin = broadcast_okD(1) [OF lib, of "channels b" tx]
    have "n = card (receivers v (channels b) tx)" "n \<noteq> 0" "b' = b\<lparr>channels := w\<rparr>"
      using p Some w d False fin by (auto simp: publish_def)
    moreover have "one_sender v w" using one_sender_sub [of v "channels b" w] ok d by (auto simp: broker_ok_def)
    moreover from calculation have "listeners v b' = listeners v b" using d by (simp add: listeners_def fun_eq_iff split: option.splits)
    ultimately show ?thesis using d ok Some by (simp add: broker_ok_def listeners_def)
  qed
qed

lemma drop_ok:
  assumes ok: "broker_ok v b" and s: "broker_step lib v b (Dropped rx) b'"
  shows "broker_ok v b' \<and> listeners v b' = (\<lambda>k. listeners v b k - {rx}) \<and> received v (channels b') = received v (channels b)"
  using s
proof (rule droppedE)
  fix w assume w: "senders v w = senders v (channels b)" "received v w = received v (channels b)"
    "receivers v w = (\<lambda>t. receivers v (channels b) t - {rx})" "b' = b\<lparr>channels := w\<rparr>"
  have "one_sender v w" using one_sender_sub [of v "channels b" w] ok w(3) by (auto simp: broker_ok_def)
  with ok w show ?thesis by (auto simp: broker_ok_def listeners_def fun_eq_iff split: option.splits)
qed


section \<open>A concrete channel\<close>

text \<open>A channel library that meets the laws: the senders, the pairs of a sender and one of its receivers,
  and what each receiver was sent.\<close>

type_synonym demo_world = "nat list \<times> (nat \<times> nat) list \<times> (nat \<Rightarrow> realtime_event list)"

definition demo_view :: "demo_world broadcast_view" where
  "demo_view = \<lparr>senders = (\<lambda>(txs, _, _). set txs), receivers = (\<lambda>(_, subs, _) t. snd ` set (filter (\<lambda>p. fst p = t) subs)),
     received = (\<lambda>(_, _, got). got)\<rparr>"

definition demo_broadcast :: "demo_world broadcast" where
  "demo_broadcast =
     \<lparr>ch_channel = (\<lambda>_ (txs, subs, got).
        let tx = Suc (sum_list (txs @ map fst subs)); rx = Suc (sum_list (map snd subs))
        in ((tx, rx), (tx # txs, (tx, rx) # subs, got(rx := [])))),
      ch_subscribe = (\<lambda>tx (txs, subs, got).
        let rx = Suc (sum_list (map snd subs)) in (rx, (txs, (tx, rx) # subs, got(rx := [])))),
      ch_send = (\<lambda>tx e (txs, subs, got).
        let rs = map snd (filter (\<lambda>p. fst p = tx) subs)
        in if rs = [] then (Inl (), (txs, subs, got))
           else (Inr (length (remdups rs)), (txs, subs, \<lambda>rx. if rx \<in> set rs then got rx @ [e] else got rx))),
      ch_receiver_count = (\<lambda>tx (txs, subs, got). length (remdups (map snd (filter (\<lambda>p. fst p = tx) subs)))),
      ch_drop_sender = (\<lambda>tx (txs, subs, got). (removeAll tx txs, filter (\<lambda>p. fst p \<noteq> tx) subs, got))\<rparr>"

lemma above_sum: "n \<in> set xs \<Longrightarrow> n < Suc (sum_list (xs :: nat list))"
  using member_le_sum_list [of n xs] by simp

lemma fresh_receiver: "(t, Suc (sum_list (map snd subs))) \<notin> set (subs :: (nat \<times> nat) list)"
  using above_sum [of "Suc (sum_list (map snd subs))" "map snd subs"] by force

lemma fresh_sender:
  "Suc (sum_list (txs @ map fst subs)) \<notin> set txs" "(Suc (sum_list (txs @ map fst subs)), r) \<notin> set (subs :: (nat \<times> nat) list)"
  using above_sum [of "Suc (sum_list (txs @ map fst subs))" "txs @ map fst subs"] by force+

lemma demo_broadcast_ok: "broadcast_ok demo_broadcast demo_view"
proof -
  have "opens_channel demo_broadcast demo_view"
    using fresh_sender fresh_receiver
    by (auto simp: opens_channel_def demo_broadcast_def demo_view_def Let_def fun_eq_iff image_iff simp del: sum_list_append)
  moreover have "adds_receiver demo_broadcast demo_view"
    using fresh_receiver by (auto simp: adds_receiver_def demo_broadcast_def demo_view_def Let_def fun_eq_iff image_iff)
  moreover have "sends_to_all demo_broadcast demo_view"
    by (auto simp: sends_to_all_def demo_broadcast_def demo_view_def Let_def length_remdups_card_conv filter_empty_conv split: if_splits)
  ultimately show ?thesis
    by (auto simp: broadcast_ok_def demo_broadcast_def demo_view_def Let_def length_remdups_card_conv filter_empty_conv fun_eq_iff)
qed

definition demo_key :: subscription_key where
  "demo_key = \<lparr>sk_workspace = ''acme'', sk_app = ''blog'', sk_collection = ''posts''\<rparr>"

definition demo_broker :: "demo_world broker" where
  "demo_broker = default_broker ([], [], \<lambda>_. [])"

lemma demo_broker_ok: "broker_ok demo_view demo_broker"
  by (simp add: broker_ok_def one_sender_def demo_view_def demo_broker_def default_broker_def with_capacity_def)

lemmas demo_broker_simps = subscribe_def subscribe_insert_def publish_def demo_broadcast_def demo_view_def demo_broker_def
  default_broker_def with_capacity_def Let_def


text \<open>The lookup and the insertion of \<open>subscribe\<close> are two steps of the concurrent map. When two
  requests for the same collection both miss the lookup before either inserts, the second insertion
  replaces the sender of the first, whose receiver is then sent nothing that is published.\<close>

theorem racing_subscriber_is_lost:
  assumes "broadcast_ok lib v" and "broker_ok v b" and "map_of (inner b) k = None"
    and "subscribe_insert lib k b = (rx1, b1)" and "subscribe_insert lib k b1 = (rx2, b2)"
    and "publish lib k e b2 = (n, b3)"
  shows "n = 1 \<and> received v (channels b3) rx1 = [] \<and> received v (channels b3) rx2 = [e]"
proof -
  have s1: "subscribe lib k b = (rx1, b1)" using assms(3,4) by (simp add: subscribe_def)
  note d1 = subscribe_ok [OF assms(1,2) s1]
  obtain tx1 where t1: "map_of (inner b1) k = Some tx1"
    using assms(3,4) by (auto simp: subscribe_insert_def update_fresh map_add_def split: prod.splits)
  obtain tx2 w where w: "ch_channel lib (capacity b1) (channels b1) = ((tx2, rx2), w)"
      "b2 = b1\<lparr>inner := AList.update k tx2 (inner b1), channels := ch_drop_sender lib tx1 w\<rparr>"
    using assms(5) t1 by (auto simp: subscribe_insert_def split: prod.splits)
  note d2 = opensD [OF assms(1) w(1)] and dd = broadcast_okD(4-6) [OF assms(1)]
  have "tx1 \<in> senders v (channels b1)" using d1 t1 by (force simp: broker_ok_def dest: map_of_SomeD)
  with d2 have "tx1 \<noteq> tx2" by auto
  have l1: "rx1 \<in> listeners v b1 k" using d1 by simp
  then have "rx1 \<noteq> rx2" using d2 t1 by (auto simp: listeners_def)
  have m2: "map_of (inner b2) k = Some tx2" using w(2) by (simp add: AList.update_conv')
  have r2: "receivers v (channels b2) tx2 = {rx2}" using w(2) d2 dd \<open>tx1 \<noteq> tx2\<close> by simp
  have g2: "received v (channels b2) rx1 = []" "received v (channels b2) rx2 = []"
    using w(2) d2 dd d1 \<open>rx1 \<noteq> rx2\<close> by auto
  obtain r w3 where w3: "ch_send lib tx2 e (channels b2) = (r, w3)" by fastforce
  note d3 = sendsD [OF assms(1) w3]
  show ?thesis using assms(6) m2 w3 d3 r2 g2 \<open>rx1 \<noteq> rx2\<close> by (auto simp: publish_def split: if_splits)
qed

theorem racing_subscriber_is_lost_witness:
  "\<exists>b1 b2 b3. subscribe_insert demo_broadcast demo_key demo_broker = (1, b1)
     \<and> subscribe_insert demo_broadcast demo_key b1 = (2, b2)
     \<and> publish demo_broadcast demo_key (RecordDeleted ''r1'') b2 = (1, b3)
     \<and> received demo_view (channels b3) 1 = []"
proof -
  let ?b1 = "snd (subscribe_insert demo_broadcast demo_key demo_broker)"
  let ?b2 = "snd (subscribe_insert demo_broadcast demo_key ?b1)"
  have "subscribe_insert demo_broadcast demo_key demo_broker = (1, ?b1)" "subscribe_insert demo_broadcast demo_key ?b1 = (2, ?b2)"
    "publish demo_broadcast demo_key (RecordDeleted ''r1'') ?b2 = (1, snd (publish demo_broadcast demo_key (RecordDeleted ''r1'') ?b2))"
    "map_of (inner demo_broker) demo_key = None"
    by (simp_all add: demo_broker_simps)
  with racing_subscriber_is_lost [OF demo_broadcast_ok demo_broker_ok] show ?thesis by blast
qed

end
