(* ===== verification/Policy.thy ===== *)
theory Policy
  imports Core_Types
begin

text \<open>
  The policy primitives of \<^verbatim>\<open>rustbase-core/src/config.rs\<close>: the four kinds of policy, the
  refinement test \<open>allows\<close>, the \<open>clamp\<close> that forces a child into its parent's bound, the
  chain validator and the cascade that rewrites a chain after a parent changed.

  The lemmas show what the primitives promise each other (the locale \<open>clamping\<close>) and what the
  chain operations make of it: a cascade always ends in a chain the validator accepts, it
  touches exactly the levels that violated their parent, and running it again changes nothing.
\<close>

section \<open>The kinds of policy\<close>

text \<open>The bounds of a range are \<open>i64\<close>; they are only compared and selected, so \<^typ>\<open>int\<close>
  carries them without a width.\<close>

record range_policy =
  range_min :: int
  range_max :: int

datatype toggle_policy = Open bool | Locked bool

record enum_set_policy =
  allowed :: "string set"

datatype policy_spec =
    Range range_policy
  | Toggle toggle_policy
  | EnumSet enum_set_policy
  | Free json

definition range_new :: "(int \<Rightarrow> string) \<Rightarrow> int \<Rightarrow> int \<Rightarrow> core_error + range_policy" where
  "range_new show_i64 mn mx =
     (if mn > mx then Inl (Validation (''range min '' @ show_i64 mn @ '' > max '' @ show_i64 mx))
      else Inr \<lparr>range_min = mn, range_max = mx\<rparr>)"

definition range_allows :: "range_policy \<Rightarrow> range_policy \<Rightarrow> bool" where
  "range_allows p c =
     (range_min c \<ge> range_min p \<and> range_max c \<le> range_max p \<and> range_min c \<le> range_max c)"

definition range_clamp :: "range_policy \<Rightarrow> range_policy \<Rightarrow> range_policy" where
  "range_clamp p c =
     (let mn = max (range_min c) (range_min p); mx = min (range_max c) (range_max p)
      in if mn > mx then p else \<lparr>range_min = mn, range_max = mx\<rparr>)"

fun toggle_allows :: "toggle_policy \<Rightarrow> toggle_policy \<Rightarrow> bool" where
  "toggle_allows (Locked p) (Locked c) = (p = c)"
| "toggle_allows (Locked p) (Open c) = (p = c)"
| "toggle_allows (Open _) _ = True"

fun toggle_clamp :: "toggle_policy \<Rightarrow> toggle_policy \<Rightarrow> toggle_policy" where
  "toggle_clamp (Locked v) _ = Locked v"
| "toggle_clamp (Open _) child = child"

fun toggle_effective :: "toggle_policy \<Rightarrow> bool" where
  "toggle_effective (Open d) = d"
| "toggle_effective (Locked v) = v"

definition enum_set_new :: "string list \<Rightarrow> enum_set_policy" where
  "enum_set_new values = \<lparr>allowed = set values\<rparr>"

definition enum_set_allows :: "enum_set_policy \<Rightarrow> enum_set_policy \<Rightarrow> bool" where
  "enum_set_allows p c = (allowed c \<subseteq> allowed p)"

definition enum_set_clamp :: "enum_set_policy \<Rightarrow> enum_set_policy \<Rightarrow> enum_set_policy" where
  "enum_set_clamp p c = \<lparr>allowed = allowed c \<inter> allowed p\<rparr>"

section \<open>Specs\<close>

fun allows :: "policy_spec \<Rightarrow> policy_spec \<Rightarrow> bool" where
  "allows (Range p) (Range c) = range_allows p c"
| "allows (Toggle p) (Toggle c) = toggle_allows p c"
| "allows (EnumSet p) (EnumSet c) = enum_set_allows p c"
| "allows (Free _) (Free _) = True"
| "allows _ _ = False"

fun clamp :: "policy_spec \<Rightarrow> policy_spec \<Rightarrow> policy_spec" where
  "clamp (Range p) (Range c) = Range (range_clamp p c)"
| "clamp (Toggle p) (Toggle c) = Toggle (toggle_clamp p c)"
| "clamp (EnumSet p) (EnumSet c) = EnumSet (enum_set_clamp p c)"
| "clamp _ child = child"

text \<open>The rendering \<open>{:?}\<close> of a spec in an error message is the argument \<open>dbg\<close>.\<close>

definition validate :: "(policy_spec \<Rightarrow> string) \<Rightarrow> policy_spec \<Rightarrow> string \<Rightarrow> policy_spec \<Rightarrow> core_error + unit" where
  "validate dbg p field child =
     (if allows p child then Inr ()
      else Inl (PolicyViolation field (dbg child) (dbg p)))"

section \<open>Chains\<close>

record policy_level =
  level :: string
  spec :: policy_spec

record policy_change =
  change_field :: string
  change_level :: string
  change_before :: policy_spec
  change_after :: policy_spec

text \<open>\<open>levels.windows(2)\<close>: each adjacent pair from the top, stopping at the first violation.\<close>

fun validate_chain :: "(policy_spec \<Rightarrow> string) \<Rightarrow> string \<Rightarrow> policy_level list \<Rightarrow> core_error + unit" where
  "validate_chain dbg field (parent # child # rest) =
     (if \<not> allows (spec parent) (spec child)
      then Inl (PolicyViolation (field @ '' ('' @ level child @ '')'') (dbg (spec child))
             (dbg (spec parent) @ '' (from '' @ level parent @ '')''))
      else validate_chain dbg field (child # rest))"
| "validate_chain dbg field _ = Inr ()"

text \<open>One step of the cascade loop per level, with the spec pushed last as the parent.\<close>

fun cascade_levels :: "string \<Rightarrow> policy_spec \<Rightarrow> policy_level list \<Rightarrow> policy_level list \<times> policy_change list" where
  "cascade_levels field parent_spec [] = ([], [])"
| "cascade_levels field parent_spec (l # ls) =
     (if allows parent_spec (spec l)
      then (let (out, changes) = cascade_levels field (spec l) ls in (l # out, changes))
      else (let after = clamp parent_spec (spec l);
                (out, changes) = cascade_levels field after ls
            in (\<lparr>level = level l, spec = after\<rparr> # out,
                \<lparr>change_field = field, change_level = level l,
                 change_before = spec l, change_after = after\<rparr> # changes)))"

definition cascade_clamp :: "string \<Rightarrow> policy_level list \<Rightarrow> policy_level list \<times> policy_change list" where
  "cascade_clamp field levels =
     (case levels of [] \<Rightarrow> ([], [])
      | l # ls \<Rightarrow> (let (out, changes) = cascade_levels field (spec l) ls in (l # out, changes)))"

section \<open>What the primitives promise\<close>

text \<open>A spec is well formed when a range is not empty, which \<open>RangePolicy::new\<close> ensures; a field
  has the same kind at every level.\<close>

definition wf_spec :: "policy_spec \<Rightarrow> bool" where
  "wf_spec s = (case s of Range r \<Rightarrow> range_min r \<le> range_max r | _ \<Rightarrow> True)"

fun same_kind :: "policy_spec \<Rightarrow> policy_spec \<Rightarrow> bool" where
  "same_kind (Range _) (Range _) = True"
| "same_kind (Toggle _) (Toggle _) = True"
| "same_kind (EnumSet _) (EnumSet _) = True"
| "same_kind (Free _) (Free _) = True"
| "same_kind _ _ = False"

lemma same_kind_refl [simp]: "same_kind s s"
  by (cases s) auto

lemma same_kind_trans: "same_kind a b \<Longrightarrow> same_kind b c \<Longrightarrow> same_kind a c"
  by (cases a; cases b; cases c) auto

lemma same_kind_sym: "same_kind a b \<Longrightarrow> same_kind b a"
  by (cases a; cases b) auto

lemma allows_same_kind: "allows p c \<Longrightarrow> same_kind p c"
  by (cases p; cases c) auto

lemma allows_wf: "allows p c \<Longrightarrow> wf_spec c"
  by (cases p; cases c) (auto simp: wf_spec_def range_allows_def)

lemma range_new_wf: "range_new sh mn mx = Inr r \<Longrightarrow> wf_spec (Range r)"
  by (auto simp: range_new_def wf_spec_def split: if_splits)

lemma range_clamp_allowed: "range_min p \<le> range_max p \<Longrightarrow> range_allows p (range_clamp p c)"
  by (auto simp: range_clamp_def range_allows_def Let_def)

lemma toggle_clamp_allowed: "toggle_allows p (toggle_clamp p c)"
  by (cases p; cases c) auto

lemma enum_set_clamp_allowed: "enum_set_allows p (enum_set_clamp p c)"
  by (simp add: enum_set_allows_def enum_set_clamp_def)

lemma clamp_allowed: "wf_spec p \<Longrightarrow> same_kind p c \<Longrightarrow> allows p (clamp p c)"
  by (cases p; cases c)
     (auto simp: wf_spec_def range_clamp_allowed toggle_clamp_allowed enum_set_clamp_allowed)

lemma clamp_same_kind: "same_kind p c \<Longrightarrow> same_kind p (clamp p c)"
  by (cases p; cases c) auto

text \<open>The contract the chain operations rely on, for any notion of spec: a clamp into a sound
  parent is allowed by it, and what a parent allows is sound and of its kind.\<close>

locale clamping =
  fixes ok :: "'p \<Rightarrow> 'p \<Rightarrow> bool"
    and force :: "'p \<Rightarrow> 'p \<Rightarrow> 'p"
    and sound :: "'p \<Rightarrow> bool"
    and kin :: "'p \<Rightarrow> 'p \<Rightarrow> bool"
  assumes force_ok: "sound p \<Longrightarrow> kin p c \<Longrightarrow> ok p (force p c)"
    and ok_sound: "ok p c \<Longrightarrow> sound c"
    and ok_kin: "ok p c \<Longrightarrow> kin p c"
    and kin_trans: "kin a b \<Longrightarrow> kin b c \<Longrightarrow> kin a c"
    and kin_sym: "kin a b \<Longrightarrow> kin b a"
begin

primrec settle :: "'p \<Rightarrow> 'p list \<Rightarrow> 'p list" where
  "settle p [] = []"
| "settle p (c # cs) = (let c' = if ok p c then c else force p c in c' # settle c' cs)"

primrec chain_ok :: "'p \<Rightarrow> 'p list \<Rightarrow> bool" where
  "chain_ok p [] = True"
| "chain_ok p (c # cs) = (ok p c \<and> chain_ok c cs)"

lemma settle_chain_ok: "sound p \<Longrightarrow> \<forall>c \<in> set cs. kin p c \<Longrightarrow> chain_ok p (settle p cs)"
proof (induction cs arbitrary: p)
  case Nil
  then show ?case by simp
next
  case (Cons c cs)
  define c' where "c' = (if ok p c then c else force p c)"
  have ok': "ok p c'" using Cons.prems force_ok by (simp add: c'_def)
  moreover have "\<forall>d \<in> set cs. kin c' d"
    using Cons.prems ok_kin [OF ok'] by (auto intro: kin_trans kin_sym)
  ultimately show ?case using Cons.IH ok_sound by (simp add: Let_def c'_def)
qed

lemma settle_id: "chain_ok p cs \<Longrightarrow> settle p cs = cs"
  by (induction cs arbitrary: p) auto

lemma settle_idem: "sound p \<Longrightarrow> \<forall>c \<in> set cs. kin p c \<Longrightarrow> settle p (settle p cs) = settle p cs"
  by (rule settle_id) (rule settle_chain_ok)

end

interpretation spec: clamping allows clamp wf_spec same_kind
  by unfold_locales
     (auto intro: clamp_allowed allows_wf allows_same_kind same_kind_trans same_kind_sym)


section \<open>Chains in terms of the contract\<close>

lemma map_spec_cascade: "map spec (fst (cascade_levels f p ls)) = spec.settle p (map spec ls)"
  by (induction ls arbitrary: p) (auto simp: Let_def case_prod_beta)

lemma map_level_cascade: "map level (fst (cascade_levels f p ls)) = map level ls"
  by (induction ls arbitrary: p) (auto simp: Let_def case_prod_beta)

lemma validate_chain_ok:
  "validate_chain dbg f (l # ls) = Inr () \<longleftrightarrow> spec.chain_ok (spec l) (map spec ls)"
proof (induction ls arbitrary: l)
  case Nil
  then show ?case by simp
next
  case (Cons c ls)
  then show ?case by auto
qed

lemma cascade_levels_chain_ok:
  "spec.chain_ok p (map spec ls) \<Longrightarrow> cascade_levels f p ls = (ls, [])"
  by (induction ls arbitrary: p) auto

lemma cascade_changes:
  "snd (cascade_levels f p ls) =
     map (\<lambda>(l, l'). \<lparr>change_field = f, change_level = level l,
            change_before = spec l, change_after = spec l'\<rparr>)
       (map (\<lambda>(pl, l, l'). (l, l'))
         (filter (\<lambda>(pl, l, l'). \<not> allows pl (spec l))
           (zip (p # map spec (fst (cascade_levels f p ls)))
             (zip ls (fst (cascade_levels f p ls))))))"
proof (induction ls arbitrary: p)
  case Nil
  then show ?case by simp
next
  case (Cons l ls)
  obtain out ch where step: "cascade_levels f (if allows p (spec l) then spec l else clamp p (spec l)) ls = (out, ch)"
    by fastforce
  from Cons.IH [of "if allows p (spec l) then spec l else clamp p (spec l)"] step
  show ?case by (auto simp: Let_def split: if_splits)
qed

lemma cascade_clamp_Cons:
  "cascade_clamp f (l # ls) =
     (l # fst (cascade_levels f (spec l) ls), snd (cascade_levels f (spec l) ls))"
  by (simp add: cascade_clamp_def split: prod.splits)

lemma chain_ok_non_toggle_trans:
  assumes "allows a b" and "allows b c" and "\<And>t. a \<noteq> Toggle t"
  shows "allows a c"
  using assms
  by (cases a; cases b; cases c) (auto simp: range_allows_def enum_set_allows_def)

lemma chain_ok_all_allowed:
  "spec.chain_ok p cs \<Longrightarrow> (\<And>t. p \<noteq> Toggle t) \<Longrightarrow> c \<in> set cs \<Longrightarrow> allows p c"
proof (induction cs arbitrary: p)
  case Nil
  then show ?case by simp
next
  case (Cons d cs)
  from Cons.prems have pd: "allows p d" and rest: "spec.chain_ok d cs" by simp_all
  show ?case
  proof (cases "c = d")
    case True
    with pd show ?thesis by simp
  next
    case False
    have "\<And>t. d \<noteq> Toggle t" using pd Cons.prems(2) by (cases p; cases d) auto
    with Cons.IH [OF rest] False Cons.prems(3) have "allows d c" by auto
    with pd show ?thesis by (rule chain_ok_non_toggle_trans) (rule Cons.prems(2))
  qed
qed

section \<open>Properties\<close>

text \<open>Whatever the child holds, clamping it into a non-empty parent of the same kind yields a
  spec the parent allows.\<close>

theorem clamp_is_allowed:
  assumes "wf_spec p" and "same_kind p c"
  shows "allows p (clamp p c)"
  using assms by (rule clamp_allowed)

theorem clamp_is_allowed_witness:
  "allows (Range \<lparr>range_min = 4, range_max = 64\<rparr>)
     (clamp (Range \<lparr>range_min = 4, range_max = 64\<rparr>) (Range \<lparr>range_min = 100, range_max = 2\<rparr>))"
  by (rule clamp_is_allowed) (simp_all add: wf_spec_def)

text \<open>C1: The cascade repairs every chain: with a non-empty top level and one kind throughout, the
  rewritten chain passes the validator, keeps the top level and every label, and logs exactly
  one change (label, value before, value after) for each level its rewritten parent rejected.\<close>

theorem cascade_clamp_validates:
  assumes "wf_spec (spec l)" and "\<forall>c \<in> set ls. same_kind (spec l) (spec c)"
  shows "validate_chain dbg f (fst (cascade_clamp f (l # ls))) = Inr ()
    \<and> hd (fst (cascade_clamp f (l # ls))) = l
    \<and> map level (fst (cascade_clamp f (l # ls))) = map level (l # ls)
    \<and> snd (cascade_clamp f (l # ls)) =
        map (\<lambda>(l, l'). \<lparr>change_field = f, change_level = level l,
               change_before = spec l, change_after = spec l'\<rparr>)
          (map snd (filter (\<lambda>(p, l, l'). \<not> allows p (spec l))
            (zip (map spec (fst (cascade_clamp f (l # ls))))
              (zip ls (tl (fst (cascade_clamp f (l # ls))))))))"
proof -
  let ?out = "fst (cascade_levels f (spec l) ls)"
  have "spec.chain_ok (spec l) (spec.settle (spec l) (map spec ls))"
    using assms by (intro spec.settle_chain_ok) auto
  then have "validate_chain dbg f (l # ?out) = Inr ()"
    by (simp only: validate_chain_ok map_spec_cascade)
  moreover have "map level (l # ?out) = map level (l # ls)"
    by (simp add: map_level_cascade)
  moreover have "(\<lambda>(pl, l, l'). (l, l')) = (snd :: policy_spec \<times> policy_level \<times> policy_level \<Rightarrow> _)"
    by auto
  ultimately show ?thesis
    using cascade_changes [of f "spec l" ls] by (simp add: cascade_clamp_Cons)
qed

theorem cascade_clamp_validates_witness:
  "validate_chain (\<lambda>_. []) ''len'' (fst (cascade_clamp ''len''
     [\<lparr>level = ''master'', spec = Range \<lparr>range_min = 8, range_max = 16\<rparr>\<rparr>,
      \<lparr>level = ''app'', spec = Range \<lparr>range_min = 2, range_max = 100\<rparr>\<rparr>])) = Inr ()"
  using cascade_clamp_validates
    [of "\<lparr>level = ''master'', spec = Range \<lparr>range_min = 8, range_max = 16\<rparr>\<rparr>"
        "[\<lparr>level = ''app'', spec = Range \<lparr>range_min = 2, range_max = 100\<rparr>\<rparr>]" "\<lambda>_. []" "''len''"]
  by (simp add: wf_spec_def)

text \<open>The cascade is idempotent: the chain it returns is a fixed point that logs no change.\<close>

theorem cascade_clamp_idempotent:
  assumes "wf_spec (spec l)" and "\<forall>c \<in> set ls. same_kind (spec l) (spec c)"
  shows "cascade_clamp f (fst (cascade_clamp f (l # ls))) = (fst (cascade_clamp f (l # ls)), [])"
proof -
  have "spec.chain_ok (spec l) (map spec (fst (cascade_levels f (spec l) ls)))"
    using assms unfolding map_spec_cascade by (intro spec.settle_chain_ok) auto
  then show ?thesis by (simp add: cascade_clamp_Cons cascade_levels_chain_ok)
qed

theorem cascade_clamp_idempotent_witness:
  "cascade_clamp ''f'' (fst (cascade_clamp ''f''
      [\<lparr>level = ''master'', spec = Toggle (Locked True)\<rparr>,
       \<lparr>level = ''app'', spec = Toggle (Open False)\<rparr>])) =
     ([\<lparr>level = ''master'', spec = Toggle (Locked True)\<rparr>,
       \<lparr>level = ''app'', spec = Toggle (Locked True)\<rparr>], [])"
  using cascade_clamp_idempotent
    [of "\<lparr>level = ''master'', spec = Toggle (Locked True)\<rparr>"
        "[\<lparr>level = ''app'', spec = Toggle (Open False)\<rparr>]" "''f''"]
  by (simp add: wf_spec_def cascade_clamp_Cons Let_def)

text \<open>For every kind but the toggle, a validated chain is refined end to end: each level lies
  within the bound of every level above it, not only of its own parent.\<close>

theorem validated_chain_refines_root:
  assumes "validate_chain dbg f (l # ls) = Inr ()" and "\<not> (\<exists>t. spec l = Toggle t)"
    and "c \<in> set ls"
  shows "allows (spec l) (spec c)"
  using assms by (auto simp: validate_chain_ok intro: chain_ok_all_allowed)

theorem validated_chain_refines_root_witness:
  "allows (Range \<lparr>range_min = 4, range_max = 64\<rparr>) (Range \<lparr>range_min = 10, range_max = 16\<rparr>)"
  using validated_chain_refines_root
    [of "\<lambda>_. []" "''len''" "\<lparr>level = ''m'', spec = Range \<lparr>range_min = 4, range_max = 64\<rparr>\<rparr>"
        "[\<lparr>level = ''w'', spec = Range \<lparr>range_min = 8, range_max = 32\<rparr>\<rparr>,
          \<lparr>level = ''a'', spec = Range \<lparr>range_min = 10, range_max = 16\<rparr>\<rparr>]"
        "\<lparr>level = ''a'', spec = Range \<lparr>range_min = 10, range_max = 16\<rparr>\<rparr>"]
  by (simp add: range_allows_def)

text \<open>A lock does not bind below an open middle level: a chain whose master locks a toggle to
  true validates, and the cascade leaves it unchanged, although its app level locks the toggle
  to false. Pairwise refinement is not transitive for toggles.\<close>

theorem toggle_lock_not_transitive:
  "\<exists>chain. validate_chain dbg f chain = Inr () \<and> cascade_clamp f chain = (chain, [])
     \<and> spec (hd chain) = Toggle (Locked True) \<and> spec (last chain) = Toggle (Locked False)
     \<and> \<not> allows (spec (hd chain)) (spec (last chain))"
  by (rule exI [of _ "[\<lparr>level = ''master'', spec = Toggle (Locked True)\<rparr>,
        \<lparr>level = ''workspace'', spec = Toggle (Open True)\<rparr>,
        \<lparr>level = ''app'', spec = Toggle (Locked False)\<rparr>]"])
     (simp add: cascade_clamp_def)

text \<open>A clamp keeps as much of the child as the parent permits: a range that meets the parent's
  is cut to their intersection and one that does not becomes the parent's range; a set is cut to
  the intersection.\<close>

theorem clamp_is_intersection:
  "{range_min (range_clamp p c) .. range_max (range_clamp p c)} =
     (let i = {range_min c .. range_max c} \<inter> {range_min p .. range_max p}
      in if i = {} then {range_min p .. range_max p} else i)
   \<and> allowed (enum_set_clamp q d) = allowed d \<inter> allowed q"
  by (auto simp: range_clamp_def enum_set_clamp_def Let_def)

end
