(* ===== verification/Scopes.thy ===== *)
theory Scopes
  imports Policy
begin

text \<open>
  The tables that every scope of the hierarchy carries: workspaces in \<^verbatim>\<open>system.db\<close>
  (\<^verbatim>\<open>workspaces.rs\<close>), apps in a \<^verbatim>\<open>workspace.db\<close> (\<^verbatim>\<open>apps.rs\<close>), and the policy table
  (\<^verbatim>\<open>policies.rs\<close>) and audit log (\<^verbatim>\<open>audit.rs\<close>) that system, workspace and app databases share.

  A policy column holds JSON text. It is modelled by what decoding it gives: \<open>Inr\<close> the spec, or
  \<open>Inl\<close> the decoder's message for text that is no spec.

  The lemmas show that the master workspace cannot be removed, that policy reads return what was
  last written, and that the pages of the audit log partition it.
\<close>

section \<open>Workspaces\<close>

record workspace =
  w_id :: string
  w_name :: string
  w_is_master :: bool
  w_created_at :: time

type_synonym workspaces = "workspace list"

text \<open>Unique are the id and, by a partial index, the master flag. \<open>OR IGNORE\<close> drops the row when
  either is taken.\<close>

definition ensure_master_realm :: "time \<Rightarrow> workspaces \<Rightarrow> workspaces" where
  "ensure_master_realm now t =
     (if MASTER_WORKSPACE_ID \<in> w_id ` set t \<or> (\<exists>w \<in> set t. w_is_master w) then t
      else t @ [\<lparr>w_id = MASTER_WORKSPACE_ID, w_name = ''Master'', w_is_master = True, w_created_at = now\<rparr>])"

definition find_workspace :: "workspaces \<Rightarrow> string \<Rightarrow> workspace option" where
  "find_workspace t i = List.find (\<lambda>w. w_id w = i) t"

text \<open>\<open>ORDER BY is_master DESC, created_at ASC\<close>.\<close>

definition list_realms :: "workspaces \<Rightarrow> workspaces" where
  "list_realms t =
     (let s = sort_key w_created_at t in filter w_is_master s @ filter (\<lambda>w. \<not> w_is_master w) s)"

definition create_realm :: "time \<Rightarrow> workspaces \<Rightarrow> string \<Rightarrow> string \<Rightarrow> (db_error, workspaces, workspace) stmt" where
  "create_realm now t i name =
     (let w = \<lparr>w_id = i, w_name = name, w_is_master = False, w_created_at = now\<rparr>
      in if i \<in> w_id ` set t then (Inl (Sqlx UniqueViolation), t) else (Inr w, t @ [w]))"

definition rename_realm :: "workspaces \<Rightarrow> string \<Rightarrow> string \<Rightarrow> (db_error, workspaces, unit) stmt" where
  "rename_realm t i new_name =
     (if sql_count (\<lambda>w. w_id w = i) t = 0 then (Inl (Sqlx RowNotFound), t)
      else (Inr (), sql_update (\<lambda>w. w_id w = i) (\<lambda>w. w\<lparr>w_name := new_name\<rparr>) t))"

definition delete_realm :: "workspaces \<Rightarrow> string \<Rightarrow> (db_error, workspaces, unit) stmt" where
  "delete_realm t i =
     (let p = (\<lambda>w. w_id w = i \<and> \<not> w_is_master w)
      in if sql_count p t = 0 then (Inl (Sqlx RowNotFound), t) else (Inr (), sql_delete p t))"

section \<open>Apps\<close>

record app =
  a_id :: string
  a_name :: string
  a_created_at :: time

type_synonym apps = "app list"

definition create_app :: "time \<Rightarrow> apps \<Rightarrow> string \<Rightarrow> string \<Rightarrow> (db_error, apps, app) stmt" where
  "create_app now t i name =
     (let a = \<lparr>a_id = i, a_name = name, a_created_at = now\<rparr>
      in if i \<in> a_id ` set t then (Inl (Sqlx UniqueViolation), t) else (Inr a, t @ [a]))"

definition find_app :: "apps \<Rightarrow> string \<Rightarrow> app option" where
  "find_app t i = List.find (\<lambda>a. a_id a = i) t"

definition list_apps :: "apps \<Rightarrow> apps" where
  "list_apps t = sort_key a_created_at t"

definition rename_app :: "apps \<Rightarrow> string \<Rightarrow> string \<Rightarrow> (db_error, apps, unit) stmt" where
  "rename_app t i new_name =
     (if sql_count (\<lambda>a. a_id a = i) t = 0 then (Inl (Sqlx RowNotFound), t)
      else (Inr (), sql_update (\<lambda>a. a_id a = i) (\<lambda>a. a\<lparr>a_name := new_name\<rparr>) t))"

definition delete_app :: "apps \<Rightarrow> string \<Rightarrow> (db_error, apps, unit) stmt" where
  "delete_app t i =
     (if sql_count (\<lambda>a. a_id a = i) t = 0 then (Inl (Sqlx RowNotFound), t)
      else (Inr (), sql_delete (\<lambda>a. a_id a = i) t))"

section \<open>Policies\<close>

record policy_row =
  pol_field :: string
  pol_json :: "string + policy_spec"
  pol_updated_at :: time

type_synonym policies = "policy_row list"

definition decode_policy :: "string \<Rightarrow> string + policy_spec \<Rightarrow> db_error + policy_spec" where
  "decode_policy field j = (case j of
      Inl e \<Rightarrow> Inl (InvalidIdentifier (''policy_json for '' @ [CHR 0x27] @ field @ [CHR 0x27] @ '': '' @ e))
    | Inr s \<Rightarrow> Inr s)"

definition get_policy :: "policies \<Rightarrow> string \<Rightarrow> db_error + policy_spec option" where
  "get_policy t field =
     (case List.find (\<lambda>r. pol_field r = field) t of
        None \<Rightarrow> Inr None
      | Some r \<Rightarrow> rbind (decode_policy field (pol_json r)) (\<lambda>s. Inr (Some s)))"

text \<open>The derived (de)serialiser of a spec is the argument \<open>store\<close>: the serialiser's error, or what
  decoding the written text gives. \<open>storable\<close> are the specs that the format can hold: an internally
  tagged enum holds a free value only if it is an object without a key \<open>kind\<close> of its own.\<close>

type_synonym spec_store = "policy_spec \<Rightarrow> string + (string + policy_spec)"

definition storable :: "policy_spec \<Rightarrow> bool" where
  "storable s = (case s of
      Free (JObject kvs) \<Rightarrow> ''kind'' \<notin> fst ` set kvs
    | Free _ \<Rightarrow> False
    | EnumSet e \<Rightarrow> finite (allowed e)
    | _ \<Rightarrow> True)"

definition upsert_policy :: "spec_store \<Rightarrow> time \<Rightarrow> policies \<Rightarrow> string \<Rightarrow> policy_spec \<Rightarrow> (db_error, policies, time) stmt" where
  "upsert_policy store now t field s =
     (case store s of
        Inl e \<Rightarrow> (Inl (InvalidIdentifier (''policy_json: '' @ e)), t)
      | Inr j \<Rightarrow> (Inr now, sql_upsert pol_field \<lparr>pol_field = field, pol_json = j, pol_updated_at = now\<rparr>
          (\<lambda>r. r\<lparr>pol_json := j, pol_updated_at := now\<rparr>) t))"

definition delete_policy :: "policies \<Rightarrow> string \<Rightarrow> (db_error, policies, unit) stmt" where
  "delete_policy t field =
     (if sql_count (\<lambda>r. pol_field r = field) t = 0 then (Inl (Sqlx RowNotFound), t)
      else (Inr (), sql_delete (\<lambda>r. pol_field r = field) t))"

fun decode_rows :: "policies \<Rightarrow> db_error + (string \<times> policy_spec \<times> time) list" where
  "decode_rows [] = Inr []"
| "decode_rows (r # rs) =
     rbind (decode_policy (pol_field r) (pol_json r))
       (\<lambda>s. rbind (decode_rows rs) (\<lambda>xs. Inr ((pol_field r, s, pol_updated_at r) # xs)))"

definition list_policies :: "policies \<Rightarrow> db_error + (string \<times> policy_spec \<times> time) list" where
  "list_policies t = decode_rows (sort_key pol_field t)"

definition policies_ok :: "policies \<Rightarrow> bool" where
  "policies_ok t = (unique_on pol_field t \<and> (\<forall>r \<in> set t. \<exists>s. pol_json r = Inr s \<and> storable s))"

section \<open>Audit log\<close>

record audit_entry =
  au_id :: int
  au_ts :: time
  au_actor :: "string option"
  au_action :: string
  au_target :: "string option"
  au_details :: json

record audit_log =
  au_rows :: "audit_entry list"
  au_last_id :: int

definition audit_append ::
  "time \<Rightarrow> audit_log \<Rightarrow> string option \<Rightarrow> string \<Rightarrow> string option \<Rightarrow> json \<Rightarrow> int \<times> audit_log" where
  "audit_append now t actor action target details =
     (let i = au_last_id t + 1
      in (i, \<lparr>au_rows = au_rows t @ [\<lparr>au_id = i, au_ts = now, au_actor = actor, au_action = action,
                au_target = target, au_details = details\<rparr>], au_last_id = i\<rparr>))"

definition audit_list_recent :: "audit_log \<Rightarrow> int \<Rightarrow> audit_entry list" where
  "audit_list_recent t limit = sql_limit limit 0 (sort_key (\<lambda>r. - au_id r) (au_rows t))"

text \<open>The page and page size are \<open>u32\<close>.\<close>

record audit_query =
  aq_page :: nat
  aq_per_page :: nat
  aq_action :: "string option"
  aq_actor :: "string option"

record listed_audit =
  la_items :: "audit_entry list"
  la_page :: nat
  la_per_page :: nat
  la_total_items :: nat

definition audit_where :: "audit_query \<Rightarrow> audit_entry \<Rightarrow> bool" where
  "audit_where q r =
     ((case aq_action q of None \<Rightarrow> True | Some s \<Rightarrow> sql_like (''%'' @ s @ ''%'') (au_action r)) \<and>
      (case aq_actor q of None \<Rightarrow> True | Some a \<Rightarrow> au_actor r = Some a))"

definition audit_list_paginated :: "audit_log \<Rightarrow> audit_query \<Rightarrow> listed_audit" where
  "audit_list_paginated t q =
     (let per_page = min (max (aq_per_page q) 1) 200;
          page = max (aq_page q) 1;
          offset = (int page - 1) * int per_page;
          total = sql_count (audit_where q) (au_rows t);
          items = sql_limit (int per_page) offset
                    (sort_key (\<lambda>r. - au_id r) (filter (audit_where q) (au_rows t)))
      in \<lparr>la_items = items, la_page = page, la_per_page = per_page, la_total_items = total\<rparr>)"


section \<open>The master workspace\<close>

definition workspaces_ok :: "workspaces \<Rightarrow> bool" where
  "workspaces_ok t = (unique_on w_id t \<and>
     (\<exists>m \<in> set t. w_id m = MASTER_WORKSPACE_ID \<and> filter w_is_master t = [m]))"

inductive realm_step :: "workspaces \<Rightarrow> workspaces \<Rightarrow> bool" where
  ensure: "realm_step t (ensure_master_realm now t)"
| create: "realm_step t (snd (create_realm now t i name))"
| rename: "realm_step t (snd (rename_realm t i name))"
| delete: "realm_step t (snd (delete_realm t i))"

lemma filter_sql_update:
  "(\<And>r. p r \<Longrightarrow> q (f r) = q r) \<Longrightarrow> filter q (sql_update p f t) = sql_update p f (filter q t)"
  by (induction t) auto

lemma rename_realm_ok:
  assumes "workspaces_ok t"
  shows "workspaces_ok (sql_update (\<lambda>w. w_id w = i) (\<lambda>w. w\<lparr>w_name := name\<rparr>) t)"
proof -
  let ?u = "\<lambda>w. if w_id w = i then w\<lparr>w_name := name\<rparr> else w"
  obtain m where m: "m \<in> set t" "w_id m = MASTER_WORKSPACE_ID" "filter w_is_master t = [m]"
    using assms by (auto simp: workspaces_ok_def)
  have "filter w_is_master (sql_update (\<lambda>w. w_id w = i) (\<lambda>w. w\<lparr>w_name := name\<rparr>) t) = [?u m]"
    using m by (simp add: filter_sql_update)
  moreover have "?u m \<in> set (sql_update (\<lambda>w. w_id w = i) (\<lambda>w. w\<lparr>w_name := name\<rparr>) t)"
    using m(1) by (simp add: sql_update_def)
  moreover have "w_id (?u m) = MASTER_WORKSPACE_ID" using m by simp
  ultimately show ?thesis using assms unfolding workspaces_ok_def by (auto simp: map_sql_update)
qed

lemma delete_realm_ok:
  assumes "workspaces_ok t"
  shows "workspaces_ok (sql_delete (\<lambda>w. w_id w = i \<and> \<not> w_is_master w) t)"
proof -
  obtain m where m: "m \<in> set t" "w_id m = MASTER_WORKSPACE_ID" "filter w_is_master t = [m]"
    using assms by (auto simp: workspaces_ok_def)
  have "filter w_is_master (sql_delete (\<lambda>w. w_id w = i \<and> \<not> w_is_master w) t) = filter w_is_master t"
    by (auto simp: sql_delete_def intro: filter_cong)
  moreover have "w_is_master m" using m(3) by (metis filter_eq_ConsD list.discI list.set_intros(1) mem_Collect_eq set_filter)
  ultimately show ?thesis
    using assms m unfolding workspaces_ok_def by (auto simp: unique_on_sql_delete)
qed

lemma realm_step_ok: "realm_step t u \<Longrightarrow> workspaces_ok t \<Longrightarrow> workspaces_ok u"
proof (induction rule: realm_step.induct)
  case (ensure t now)
  then show ?case by (auto simp: ensure_master_realm_def workspaces_ok_def)
next
  case (create t now i name)
  then show ?case by (auto simp: create_realm_def Let_def workspaces_ok_def)
next
  case (rename t i name)
  then show ?case by (simp add: rename_realm_def rename_realm_ok)
next
  case (delete t i)
  then show ?case by (simp add: delete_realm_def Let_def delete_realm_ok)
qed

text \<open>once the server has booted, the master workspace is there and is the only master, whatever
  workspaces are created, renamed and deleted; deleting the master itself is refused.\<close>

theorem master_workspace_permanent:
  assumes "unique_on w_id t" and "\<forall>w \<in> set t. \<not> w_is_master w \<and> w_id w \<noteq> MASTER_WORKSPACE_ID"
    and "realm_step\<^sup>*\<^sup>* (ensure_master_realm now t) u"
  shows "workspaces_ok u \<and> delete_realm u MASTER_WORKSPACE_ID = (Inl (Sqlx RowNotFound), u)"
proof -
  have "workspaces_ok (ensure_master_realm now t)"
    using assms(1,2) by (auto simp: ensure_master_realm_def workspaces_ok_def filter_empty_conv)
  with assms(3) have ok: "workspaces_ok u"
    by (induction rule: rtranclp_induct) (auto dest: realm_step_ok)
  have "w_is_master w" if "w \<in> set u" "w_id w = MASTER_WORKSPACE_ID" for w
  proof -
    obtain m where m: "m \<in> set u" "w_id m = MASTER_WORKSPACE_ID" "filter w_is_master u = [m]"
      using ok by (auto simp: workspaces_ok_def)
    then have "w_is_master m" by (metis list.set_intros(1) mem_Collect_eq set_filter)
    moreover have "w = m" using ok that m by (auto simp: workspaces_ok_def distinct_map inj_on_def)
    ultimately show ?thesis by simp
  qed
  then have "sql_count (\<lambda>w. w_id w = MASTER_WORKSPACE_ID \<and> \<not> w_is_master w) u = 0"
    by (auto simp: sql_count_eq_0)
  then show ?thesis using ok by (simp add: delete_realm_def Let_def)
qed

theorem master_workspace_permanent_witness:
  "workspaces_ok (snd (create_realm 1 (ensure_master_realm 0 []) ''acme'' ''Acme''))"
  using master_workspace_permanent [of "[]" 0 "snd (create_realm 1 (ensure_master_realm 0 []) ''acme'' ''Acme'')"]
  by (simp add: realm_step.create r_into_rtranclp)

section \<open>Policy reads\<close>

lemma policies_ok_get:
  assumes "policies_ok t"
  shows "get_policy t field = Inr None \<or> (\<exists>s. get_policy t field = Inr (Some s) \<and> storable s)"
proof (cases "List.find (\<lambda>r. pol_field r = field) t")
  case None
  then show ?thesis by (simp add: get_policy_def)
next
  case (Some r)
  then have "r \<in> set t" by (auto dest: find_SomeD)
  then obtain s where "pol_json r = Inr s" "storable s" using assms by (auto simp: policies_ok_def)
  then show ?thesis using Some by (simp add: get_policy_def decode_policy_def)
qed

lemma get_upsert_same:
  assumes "store s = Inr (Inr s)"
  shows "get_policy (snd (upsert_policy store now t field s)) field = Inr (Some s)"
proof -
  let ?new = "\<lparr>pol_field = field, pol_json = Inr s, pol_updated_at = now\<rparr>"
  have "List.find (\<lambda>r. pol_field r = pol_field ?new) (snd (upsert_policy store now t field s)) =
      Some (case List.find (\<lambda>r. pol_field r = pol_field ?new) t of None \<Rightarrow> ?new
        | Some r \<Rightarrow> r\<lparr>pol_json := Inr s, pol_updated_at := now\<rparr>)"
    unfolding upsert_policy_def assms sum.case snd_conv by (rule find_sql_upsert_same) simp
  then show ?thesis by (auto simp: get_policy_def decode_policy_def split: option.splits)
qed

lemma get_upsert_other:
  assumes "g \<noteq> field"
  shows "get_policy (snd (upsert_policy store now t field s)) g = get_policy t g"
proof (cases "store s")
  case (Inr j)
  have "List.find (\<lambda>r. pol_field r = g) (snd (upsert_policy store now t field s)) = List.find (\<lambda>r. pol_field r = g) t"
    unfolding upsert_policy_def Inr sum.case snd_conv by (rule find_sql_upsert_other) (use assms in simp_all)
  then show ?thesis by (simp add: get_policy_def)
qed (simp add: upsert_policy_def)

lemma get_delete:
  assumes "delete_policy t field = (Inr (), t')"
  shows "get_policy t' g = (if g = field then Inr None else get_policy t g)"
proof -
  have t': "t' = sql_delete (\<lambda>r. pol_field r = field) t"
    using assms by (simp add: delete_policy_def split: if_splits)
  have "List.find (\<lambda>r. pol_field r = field) t' = None" unfolding find_None t' by simp
  moreover have "List.find (\<lambda>r. pol_field r = g) t' = List.find (\<lambda>r. pol_field r = g) t" if "g \<noteq> field"
    unfolding t' by (rule find_sql_delete_other) (use that in simp)
  ultimately show ?thesis by (simp add: get_policy_def)
qed

lemma upsert_policies_ok:
  assumes "policies_ok t" and "store s = Inr (Inr s)" and "storable s"
  shows "policies_ok (snd (upsert_policy store now t field s))"
proof -
  let ?t = "snd (upsert_policy store now t field s)"
  have "unique_on pol_field ?t"
    unfolding upsert_policy_def assms(2) sum.case snd_conv
    by (rule unique_on_sql_upsert) (use assms in \<open>simp_all add: policies_ok_def\<close>)
  moreover have "\<forall>r \<in> set ?t. \<exists>s. pol_json r = Inr s \<and> storable s"
    using assms unfolding upsert_policy_def sql_upsert_def policies_ok_def
    by (auto elim!: in_sql_updateE split: if_splits)
  ultimately show ?thesis by (simp add: policies_ok_def)
qed

section \<open>Pages of the audit log\<close>

definition audit_ok :: "audit_log \<Rightarrow> bool" where
  "audit_ok t = (sorted_wrt (<) (map au_id (au_rows t)) \<and> (\<forall>r \<in> set (au_rows t). au_id r \<le> au_last_id t))"

lemma audit_append_ok: "audit_ok t \<Longrightarrow> audit_ok (snd (audit_append now t actor action target details))"
  by (fastforce simp: audit_ok_def audit_append_def Let_def sorted_wrt_append)

lemma insort_key_last: "\<forall>y \<in> set ys. f y < f x \<Longrightarrow> insort_key f x ys = ys @ [x]"
  by (induction ys) auto

lemma sort_key_neg_rev:
  fixes f :: "'a \<Rightarrow> int"
  assumes "sorted_wrt (<) (map f xs)"
  shows "sort_key (\<lambda>x. - f x) xs = rev xs"
  using assms by (induction xs) (auto simp: insort_key_last)

lemma sorted_wrt_filter_map: "sorted_wrt R (map f xs) \<Longrightarrow> sorted_wrt R (map f (filter p xs))"
  by (induction xs) auto

lemma audit_items:
  assumes "audit_ok t"
  shows "sort_key (\<lambda>r. - au_id r) (filter p (au_rows t)) = rev (filter p (au_rows t))"
  by (rule sort_key_neg_rev) (use assms in \<open>simp add: audit_ok_def sorted_wrt_filter_map\<close>)

lemma concat_pages:
  assumes "0 < k"
  shows "concat (map (\<lambda>i. take k (drop (i * k) xs)) [0..<n]) = take (n * k) xs"
proof (induction n)
  case (Suc n)
  have "take (Suc n * k) xs = take (n * k) xs @ take k (drop (n * k) xs)"
    by (metis add.commute mult_Suc take_add)
  with Suc show ?case by simp
qed simp

text \<open>the pages of the audit log partition what the query selects: read in order they give every
  matching entry once, newest first, no page is longer than 200 entries, and the reported total is
  the number of matching entries.\<close>

theorem audit_pages_partition:
  assumes "audit_ok t" and "aq_page q = 1"
    and "n * la_per_page (audit_list_paginated t q) \<ge> la_total_items (audit_list_paginated t q)"
  shows "concat (map (\<lambda>i. la_items (audit_list_paginated t (q\<lparr>aq_page := i\<rparr>))) [1..<Suc n]) =
      rev (filter (audit_where q) (au_rows t))
    \<and> la_total_items (audit_list_paginated t q) = length (filter (audit_where q) (au_rows t))
    \<and> (\<forall>i. length (la_items (audit_list_paginated t (q\<lparr>aq_page := i\<rparr>))) \<le> 200)"
proof -
  let ?k = "min (max (aq_per_page q) 1) 200"
  let ?xs = "rev (filter (audit_where q) (au_rows t))"
  have w: "audit_where (q\<lparr>aq_page := i\<rparr>) = audit_where q" for i by (simp add: audit_where_def fun_eq_iff)
  have nat_off: "nat ((int (max i 1) - 1) * int ?k) = (max i 1 - 1) * ?k" for i :: nat
    by (metis diff_Suc_1 le_add1 max.cobounded2 nat_int_comparison(1) of_nat_1 of_nat_diff of_nat_mult nat_int plus_1_eq_Suc)
  have page: "la_items (audit_list_paginated t (q\<lparr>aq_page := i\<rparr>)) = take ?k (drop ((max i 1 - 1) * ?k) ?xs)" for i
    using audit_items [OF assms(1), of "audit_where q"]
    by (simp add: audit_list_paginated_def Let_def w sql_limit_def nat_off [unfolded One_nat_def])
  have "map (\<lambda>i. la_items (audit_list_paginated t (q\<lparr>aq_page := i\<rparr>))) [1..<Suc n] =
      map (\<lambda>i. take ?k (drop (i * ?k) ?xs)) [0..<n]"
    unfolding map_Suc_upt [symmetric] One_nat_def by (simp add: page del: upt_Suc)
  then have "concat (map (\<lambda>i. la_items (audit_list_paginated t (q\<lparr>aq_page := i\<rparr>))) [1..<Suc n]) = take (n * ?k) ?xs"
    using concat_pages [of ?k ?xs n] by simp
  moreover have "length ?xs \<le> n * ?k"
    using assms(3) by (simp add: audit_list_paginated_def Let_def sql_count_def)
  moreover have "length (la_items (audit_list_paginated t (q\<lparr>aq_page := i\<rparr>))) \<le> 200" for i
    unfolding page length_take by (rule min.coboundedI2) (rule min.cobounded2)
  ultimately show ?thesis by (simp add: audit_list_paginated_def Let_def sql_count_def)
qed

theorem audit_pages_partition_witness:
  "concat (map (\<lambda>i. la_items (audit_list_paginated
      (snd (audit_append 5 (snd (audit_append 4 \<lparr>au_rows = [], au_last_id = 0\<rparr> None ''login'' None JNull)) None ''logout'' None JNull))
      (\<lparr>aq_page = 1, aq_per_page = 1, aq_action = None, aq_actor = None\<rparr>\<lparr>aq_page := i\<rparr>))) [1..<3]) =
   rev (au_rows (snd (audit_append 5 (snd (audit_append 4 \<lparr>au_rows = [], au_last_id = 0\<rparr> None ''login'' None JNull)) None ''logout'' None JNull)))"
  using audit_pages_partition [of "snd (audit_append 5 (snd (audit_append 4 \<lparr>au_rows = [], au_last_id = 0\<rparr> None ''login'' None JNull)) None ''logout'' None JNull)"
      "\<lparr>aq_page = 1, aq_per_page = 1, aq_action = None, aq_actor = None\<rparr>" 2, THEN conjunct1]
  by (simp add: audit_ok_def audit_append_def Let_def audit_list_paginated_def audit_where_def eval_nat_numeral)

end
