(* ===== verification/Single_Use.thy ===== *)
theory Single_Use
  imports Prelude
begin

text \<open>
  The interface of every table of one-shot secrets, and what it gives its callers. Redeeming is
  two statements: a lookup that decides whether the secret may be redeemed, and a guarded
  \<open>UPDATE \<dots> WHERE \<dots> AND consumed_at IS NULL\<close> whose row count decides who wins. Between the two,
  other requests run.

  The locale \<open>single_use\<close> states what the guarded update promises. The result proved in it once
  is that over every interleaving of lookups, updates and other writes, each secret is won at
  most once.
\<close>

section \<open>Interleavings\<close>

text \<open>Concurrent requests against one table: \<open>pending\<close> holds, for each request that has passed its
  lookup, the key, the time it read the clock and the row it read; \<open>wins\<close> the keys whose guarded
  update reported a row, with the row the winning request answers from.\<close>

record ('s, 'k, 'r) sched =
  tab :: 's
  pending :: "nat \<Rightarrow> ('k \<times> int \<times> 'r) option"
  wins :: "('k \<times> 'r) list"

datatype ('s, 'k) event =
    Begin nat 'k int
  | Finish nat
  | Write "'s \<Rightarrow> 's"

fun sched_step ::
  "('s \<Rightarrow> 'k \<Rightarrow> int \<Rightarrow> 'r option) \<Rightarrow> ('s \<Rightarrow> 'k \<Rightarrow> int \<Rightarrow> nat \<times> 's) \<Rightarrow> ('s, 'k) event
    \<Rightarrow> ('s, 'k, 'r) sched \<Rightarrow> ('s, 'k, 'r) sched" where
  "sched_step look claim (Begin i k now) c =
     (case look (tab c) k now of
        None \<Rightarrow> c
      | Some r \<Rightarrow> c\<lparr>pending := (pending c)(i \<mapsto> (k, now, r))\<rparr>)"
| "sched_step look claim (Finish i) c =
     (case pending c i of
        None \<Rightarrow> c
      | Some (k, now, r) \<Rightarrow>
          (let (n, t) = claim (tab c) k now
           in c\<lparr>tab := t, pending := (pending c)(i := None),
                wins := (if n = 0 then wins c else (k, r) # wins c)\<rparr>))"
| "sched_step look claim (Write f) c = c\<lparr>tab := f (tab c)\<rparr>"

definition sched_start :: "'s \<Rightarrow> ('s, 'k, 'r) sched" where
  "sched_start t = \<lparr>tab = t, pending = (\<lambda>_. None), wins = []\<rparr>"

definition sched_run ::
  "('s \<Rightarrow> 'k \<Rightarrow> int \<Rightarrow> 'r option) \<Rightarrow> ('s \<Rightarrow> 'k \<Rightarrow> int \<Rightarrow> nat \<times> 's) \<Rightarrow> ('s, 'k) event list
    \<Rightarrow> 's \<Rightarrow> ('s, 'k, 'r) sched" where
  "sched_run look claim es t = fold (sched_step look claim) es (sched_start t)"

definition writes_in :: "('s \<Rightarrow> 's) set \<Rightarrow> ('s, 'k) event list \<Rightarrow> bool" where
  "writes_in W es = (\<forall>f. Write f \<in> set es \<longrightarrow> f \<in> W)"

section \<open>The contract\<close>

locale single_use =
  fixes look :: "'s \<Rightarrow> 'k \<Rightarrow> int \<Rightarrow> 'r option"
    and claim :: "'s \<Rightarrow> 'k \<Rightarrow> int \<Rightarrow> nat \<times> 's"
    and spent :: "'s \<Rightarrow> 'k \<Rightarrow> bool"
    and writes :: "('s \<Rightarrow> 's) set"
    and ok :: "'s \<Rightarrow> bool"
  assumes claim_spends: "ok t \<Longrightarrow> claim t k now = (n, t') \<Longrightarrow> n \<noteq> 0 \<Longrightarrow> spent t' k"
    and spent_claim: "ok t \<Longrightarrow> spent t k \<Longrightarrow> fst (claim t k now) = 0"
    and claim_keeps: "ok t \<Longrightarrow> spent t k \<Longrightarrow> spent (snd (claim t k' now)) k"
    and write_keeps: "ok t \<Longrightarrow> f \<in> writes \<Longrightarrow> spent t k \<Longrightarrow> spent (f t) k"
    and claim_ok: "ok t \<Longrightarrow> ok (snd (claim t k now))"
    and write_ok: "ok t \<Longrightarrow> f \<in> writes \<Longrightarrow> ok (f t)"
begin

definition fair :: "('s, 'k, 'r) sched \<Rightarrow> bool" where
  "fair c \<longleftrightarrow> ok (tab c) \<and> distinct (map fst (wins c)) \<and> (\<forall>k \<in> fst ` set (wins c). spent (tab c) k)"

lemma fair_start: "ok t \<Longrightarrow> fair (sched_start t)"
  by (simp add: fair_def sched_start_def)

lemma finish_cases:
  obtains (idle) "pending c i = None" "sched_step look claim (Finish i) c = c"
  | (claimed) k now r n t where "pending c i = Some (k, now, r)" "claim (tab c) k now = (n, t)"
      "sched_step look claim (Finish i) c = c\<lparr>tab := t, pending := (pending c)(i := None),
         wins := (if n = 0 then wins c else (k, r) # wins c)\<rparr>"
proof (cases "pending c i")
  case None
  then show thesis by (intro idle) simp_all
next
  case (Some p)
  obtain k now r where p: "p = (k, now, r)" by (cases p)
  obtain n t where "claim (tab c) k now = (n, t)" by (cases "claim (tab c) k now")
  with Some p show thesis by (intro claimed) simp_all
qed

lemma fair_step:
  assumes "fair c" and "\<And>f. e = Write f \<Longrightarrow> f \<in> writes"
  shows "fair (sched_step look claim e c)"
proof (cases e)
  case (Begin i k now)
  with assms show ?thesis by (auto simp: fair_def split: option.split)
next
  case (Finish i)
  have ok: "ok (tab c)" and d: "distinct (map fst (wins c))"
    and s: "\<And>k. k \<in> fst ` set (wins c) \<Longrightarrow> spent (tab c) k"
    using assms(1) by (auto simp: fair_def)
  show ?thesis
  proof (cases rule: finish_cases [of c i])
    case idle
    with Finish assms show ?thesis by simp
  next
    case (claimed k now r n t)
    have "ok t" using claim_ok [OF ok, of k now] claimed(2) by simp
    moreover have "spent t k'" if "k' \<in> fst ` set (wins c)" for k'
      using claim_keeps [OF ok s [OF that], of k now] claimed(2) by simp
    moreover have "k \<notin> fst ` set (wins c)" "spent t k" if "n \<noteq> 0"
      using spent_claim [OF ok s, of k now] claim_spends [OF ok claimed(2) that] claimed(2) that by auto
    ultimately show ?thesis
      using Finish claimed(3) d by (auto simp: fair_def)
  qed
next
  case (Write f)
  with assms write_ok write_keeps show ?thesis by (auto simp: fair_def)
qed

lemma fair_run:
  assumes "fair c" and "writes_in writes es"
  shows "fair (fold (sched_step look claim) es c)"
  using assms
proof (induction es arbitrary: c)
  case (Cons e es)
  have "fair (sched_step look claim e c)"
    using Cons.prems by (intro fair_step) (auto simp: writes_in_def)
  with Cons show ?case by (simp add: writes_in_def)
qed simp

lemma won_at_most_once:
  "ok t \<Longrightarrow> writes_in writes es \<Longrightarrow> distinct (map fst (wins (sched_run look claim es t)))"
  using fair_run [OF fair_start, of t es] by (simp add: sched_run_def fair_def)

definition lost :: "'k \<Rightarrow> ('s, 'k, 'r) sched \<Rightarrow> bool" where
  "lost k c \<longleftrightarrow> ok (tab c) \<and> spent (tab c) k \<and> k \<notin> fst ` set (wins c)"

lemma lost_step:
  assumes "lost k c" and "\<And>f. e = Write f \<Longrightarrow> f \<in> writes"
  shows "lost k (sched_step look claim e c)"
proof (cases e)
  case (Begin i k' now)
  with assms show ?thesis by (auto simp: lost_def split: option.split)
next
  case (Finish i)
  have ok: "ok (tab c)" and s: "spent (tab c) k" using assms by (auto simp: lost_def)
  show ?thesis
  proof (cases rule: finish_cases [of c i])
    case (claimed k' now r n t)
    have "ok t \<and> spent t k \<and> (k' = k \<longrightarrow> n = 0)"
      using claim_ok [OF ok, of k' now] claim_keeps [OF ok s, of k' now]
        spent_claim [OF ok s, of now] claimed(2) by auto
    with Finish claimed(3) assms show ?thesis by (auto simp: lost_def)
  qed (use Finish assms in simp)
next
  case (Write f)
  with assms write_ok write_keeps show ?thesis by (auto simp: lost_def)
qed

lemma lost_run: "lost k c \<Longrightarrow> writes_in writes es \<Longrightarrow> lost k (fold (sched_step look claim) es c)"
proof (induction es arbitrary: c)
  case (Cons e es)
  have "lost k (sched_step look claim e c)"
    using Cons.prems by (intro lost_step) (auto simp: writes_in_def)
  with Cons show ?case by (simp add: writes_in_def)
qed simp

lemma spent_never_won:
  "ok t \<Longrightarrow> writes_in writes es \<Longrightarrow> spent t k \<Longrightarrow> k \<notin> fst ` set (wins (sched_run look claim es t))"
  using lost_run [of k "sched_start t" es] by (simp add: sched_run_def lost_def sched_start_def)

end

end
