(* ===== verification/Tokens.thy ===== *)
theory Tokens
  imports Core_Types
begin

text \<open>
  Refresh tokens, \<^verbatim>\<open>rustbase-db/src/tokens.rs\<close>: the digest under which a bearer secret is stored
  and the statements on \<open>_refresh_tokens\<close>. SHA-256 is a parameter on byte strings; where a lemma
  needs two secrets to have different digests it says so.

  The lemmas show the token table as a state machine: keys stay unique, revocation is permanent,
  rotation retires the old token and activates exactly the new one, and a subject-wide revocation
  leaves no active token of that subject.
\<close>

section \<open>Digests\<close>

definition hex_digit :: "nat \<Rightarrow> char" where
  "hex_digit n = ''0123456789abcdef'' ! n"

definition hex_byte :: "char \<Rightarrow> string" where
  "hex_byte b = (let n = of_char b in [hex_digit (n div 16), hex_digit (n mod 16)])"

definition hash_token :: "(char list \<Rightarrow> char list) \<Rightarrow> string \<Rightarrow> string" where
  "hash_token sha256 token = concat (map hex_byte (sha256 (as_bytes token)))"

section \<open>Rows\<close>

datatype subject_kind = MasterAdminKind | WorkspaceAdminKind | AppAdminKind | UserKind

fun subject_kind_str :: "subject_kind \<Rightarrow> string" where
  "subject_kind_str MasterAdminKind = ''master_admin''"
| "subject_kind_str WorkspaceAdminKind = ''workspace_admin''"
| "subject_kind_str AppAdminKind = ''app_admin''"
| "subject_kind_str UserKind = ''user''"

record refresh_token =
  rt_token_hash :: string
  rt_subject_kind :: string
  rt_subject_id :: string
  rt_issued_at :: time
  rt_expires_at :: time
  rt_revoked :: bool

type_synonym refresh_tokens = "refresh_token list"

section \<open>Statements\<close>

text \<open>\<open>INSERT INTO _refresh_tokens\<close>, whose primary key is the digest.\<close>

definition insert_row :: "refresh_token \<Rightarrow> refresh_tokens \<Rightarrow> (db_error, refresh_tokens, refresh_token) stmt" where
  "insert_row r t =
     (if rt_token_hash r \<in> rt_token_hash ` set t then (Inl (Sqlx UniqueViolation), t)
      else (Inr r, t @ [r]))"

definition fresh_token ::
  "(char list \<Rightarrow> char list) \<Rightarrow> time \<Rightarrow> string \<Rightarrow> subject_kind \<Rightarrow> string \<Rightarrow> time \<Rightarrow> refresh_token" where
  "fresh_token H now token kind subject ttl =
     \<lparr>rt_token_hash = hash_token H token, rt_subject_kind = subject_kind_str kind,
      rt_subject_id = subject, rt_issued_at = now, rt_expires_at = now + ttl, rt_revoked = False\<rparr>"

definition insert_refresh_token ::
  "(char list \<Rightarrow> char list) \<Rightarrow> time \<Rightarrow> refresh_tokens \<Rightarrow> string \<Rightarrow> subject_kind \<Rightarrow> string \<Rightarrow> time
    \<Rightarrow> (db_error, refresh_tokens, refresh_token) stmt" where
  "insert_refresh_token H now t token kind subject ttl =
     insert_row (fresh_token H now token kind subject ttl) t"

definition find_active_refresh_token ::
  "(char list \<Rightarrow> char list) \<Rightarrow> time \<Rightarrow> refresh_tokens \<Rightarrow> string \<Rightarrow> subject_kind \<Rightarrow> refresh_token option" where
  "find_active_refresh_token H now t token kind =
     List.find (\<lambda>r. rt_token_hash r = hash_token H token \<and> rt_subject_kind r = subject_kind_str kind
                  \<and> \<not> rt_revoked r \<and> rt_expires_at r > now) t"

definition revoke_refresh_token :: "(char list \<Rightarrow> char list) \<Rightarrow> refresh_tokens \<Rightarrow> string \<Rightarrow> refresh_tokens" where
  "revoke_refresh_token H t token =
     sql_update (\<lambda>r. rt_token_hash r = hash_token H token) (\<lambda>r. r\<lparr>rt_revoked := True\<rparr>) t"

text \<open>Both statements of a rotation run in one transaction: if the insertion fails, the
  revocation is rolled back with it.\<close>

definition rotate_refresh_token ::
  "(char list \<Rightarrow> char list) \<Rightarrow> time \<Rightarrow> refresh_tokens \<Rightarrow> string \<Rightarrow> string \<Rightarrow> subject_kind \<Rightarrow> string \<Rightarrow> time
    \<Rightarrow> (db_error, refresh_tokens, refresh_token) stmt" where
  "rotate_refresh_token H now t old_token new_token kind subject ttl =
     (case insert_row (fresh_token H now new_token kind subject ttl) (revoke_refresh_token H t old_token) of
        (Inl e, _) \<Rightarrow> (Inl e, t)
      | (Inr r, t') \<Rightarrow> (Inr r, t'))"

definition revoke_all_for_subject :: "refresh_tokens \<Rightarrow> subject_kind \<Rightarrow> string \<Rightarrow> nat \<times> refresh_tokens" where
  "revoke_all_for_subject t kind subject =
     (let p = (\<lambda>r. rt_subject_kind r = subject_kind_str kind \<and> rt_subject_id r = subject \<and> \<not> rt_revoked r)
      in (sql_count p t, sql_update p (\<lambda>r. r\<lparr>rt_revoked := True\<rparr>) t))"

section \<open>Digests tell secrets apart\<close>

lemma hex_digit_inj: "m < 16 \<Longrightarrow> n < 16 \<Longrightarrow> hex_digit m = hex_digit n \<Longrightarrow> m = n"
proof -
  have d: "distinct ''0123456789abcdef''" by simp
  assume "m < 16" "n < 16" "hex_digit m = hex_digit n"
  with d show "m = n" unfolding hex_digit_def by (subst (asm) nth_eq_iff_index_eq) auto
qed

lemma hex_byte_inj: "hex_byte a = hex_byte b \<Longrightarrow> a = b"
proof -
  assume h: "hex_byte a = hex_byte b"
  have "(of_char a :: nat) < 256" "(of_char b :: nat) < 256" by simp_all
  then have "(of_char a :: nat) div 16 < 16" "(of_char b :: nat) div 16 < 16" by linarith+
  with h have "(of_char a :: nat) div 16 = of_char b div 16" "(of_char a :: nat) mod 16 = of_char b mod 16"
    by (auto simp: hex_byte_def Let_def intro: hex_digit_inj)
  then have "(of_char a :: nat) = of_char b" by (metis div_mult_mod_eq)
  then show ?thesis by simp
qed

lemma length_hex_byte: "length (hex_byte b) = 2"
  by (simp add: hex_byte_def Let_def)

lemma hex_inj: "concat (map hex_byte xs) = concat (map hex_byte ys) \<Longrightarrow> xs = ys"
proof (induction xs arbitrary: ys)
  case Nil
  then show ?case by (cases ys) (auto simp: hex_byte_def Let_def)
next
  case (Cons x xs)
  from Cons.prems obtain y ys' where ys: "ys = y # ys'"
    by (cases ys) (auto simp: hex_byte_def Let_def)
  with Cons.prems have "hex_byte x = hex_byte y \<and> concat (map hex_byte xs) = concat (map hex_byte ys')"
    by (simp add: append_eq_append_conv length_hex_byte)
  with Cons.IH ys hex_byte_inj show ?case by blast
qed

lemma hash_token_eq_iff:
  "hash_token H a = hash_token H b \<longleftrightarrow> H (as_bytes a) = H (as_bytes b)"
  by (auto simp: hash_token_def dest: hex_inj)

lemma subject_kind_str_inj: "subject_kind_str k = subject_kind_str k' \<Longrightarrow> k = k'"
  by (cases k; cases k') auto

section \<open>The table as a state machine\<close>

inductive token_step :: "(char list \<Rightarrow> char list) \<Rightarrow> refresh_tokens \<Rightarrow> refresh_tokens \<Rightarrow> bool" for H where
  insert: "token_step H t (snd (insert_refresh_token H now t token kind subject ttl))"
| revoke: "token_step H t (revoke_refresh_token H t token)"
| rotate: "token_step H t (snd (rotate_refresh_token H now t old_token new_token kind subject ttl))"
| revoke_all: "token_step H t (snd (revoke_all_for_subject t kind subject))"

inductive token_run :: "(char list \<Rightarrow> char list) \<Rightarrow> refresh_tokens \<Rightarrow> refresh_tokens \<Rightarrow> bool" for H where
  stop: "token_run H t t"
| step: "token_run H t u \<Longrightarrow> token_step H u v \<Longrightarrow> token_run H t v"

definition dead :: "string \<Rightarrow> refresh_tokens \<Rightarrow> bool" where
  "dead h t = (\<exists>r \<in> set t. rt_token_hash r = h \<and> rt_revoked r)"

definition tokens_ok :: "refresh_tokens \<Rightarrow> bool" where
  "tokens_ok t = unique_on rt_token_hash t"

lemma revoke_hash: "map rt_token_hash (revoke_refresh_token H t x) = map rt_token_hash t"
  unfolding revoke_refresh_token_def by (rule map_sql_update) simp

lemma insert_row_ok: "tokens_ok t \<Longrightarrow> tokens_ok (snd (insert_row r t))"
  by (auto simp: insert_row_def tokens_ok_def)

lemma rotate_cases:
  "snd (rotate_refresh_token H now t old new kind subject ttl) = t \<or>
   snd (rotate_refresh_token H now t old new kind subject ttl) =
     snd (insert_row (fresh_token H now new kind subject ttl) (revoke_refresh_token H t old))"
  by (simp add: rotate_refresh_token_def case_prod_beta split: sum.split)

lemma token_step_ok: "token_step H t u \<Longrightarrow> tokens_ok t \<Longrightarrow> tokens_ok u"
proof (induction rule: token_step.induct)
  case (insert t now token kind subject ttl)
  then show ?case unfolding insert_refresh_token_def by (rule insert_row_ok)
next
  case (revoke t token)
  then show ?case by (simp add: tokens_ok_def revoke_hash)
next
  case (rotate t now old_token new_token kind subject ttl)
  have "tokens_ok (revoke_refresh_token H t old_token)"
    using rotate by (simp add: tokens_ok_def revoke_hash)
  then have "tokens_ok (snd (insert_row (fresh_token H now new_token kind subject ttl)
      (revoke_refresh_token H t old_token)))" by (rule insert_row_ok)
  with rotate rotate_cases [of H now t old_token new_token kind subject ttl] show ?case by auto
next
  case (revoke_all t kind subject)
  then show ?case by (simp add: revoke_all_for_subject_def Let_def tokens_ok_def map_sql_update)
qed

lemma dead_update: "dead h t \<Longrightarrow> dead h (sql_update p (\<lambda>r. r\<lparr>rt_revoked := True\<rparr>) t)"
  by (induction t) (auto simp: dead_def)

lemma dead_insert_row: "dead h t \<Longrightarrow> dead h (snd (insert_row r t))"
  by (auto simp: dead_def insert_row_def)

lemma token_step_dead: "token_step H t u \<Longrightarrow> dead h t \<Longrightarrow> dead h u"
proof (induction rule: token_step.induct)
  case (rotate t now old_token new_token kind subject ttl)
  have "dead h (revoke_refresh_token H t old_token)"
    using rotate unfolding revoke_refresh_token_def by (rule dead_update)
  then have "dead h (snd (insert_row (fresh_token H now new_token kind subject ttl)
      (revoke_refresh_token H t old_token)))" by (rule dead_insert_row)
  with rotate rotate_cases [of H now t old_token new_token kind subject ttl] show ?case by auto
qed (simp_all add: insert_refresh_token_def dead_insert_row revoke_refresh_token_def dead_update
      revoke_all_for_subject_def Let_def)

lemma token_run_invariants: "token_run H t u \<Longrightarrow> (tokens_ok t \<longrightarrow> tokens_ok u) \<and> (dead h t \<longrightarrow> dead h u)"
  by (induction rule: token_run.induct) (auto dest: token_step_ok token_step_dead)

lemma dead_not_active:
  assumes "tokens_ok t" and "dead (hash_token H x) t"
  shows "find_active_refresh_token H now t x kind = None"
proof -
  from assms(2) obtain r where r: "r \<in> set t" "rt_token_hash r = hash_token H x" "rt_revoked r"
    by (auto simp: dead_def)
  have "\<And>r'. r' \<in> set t \<Longrightarrow> rt_token_hash r' = hash_token H x \<Longrightarrow> r' = r"
    using r assms(1) by (auto simp: tokens_ok_def distinct_map inj_on_def)
  with r(3) show ?thesis unfolding find_active_refresh_token_def find_None by blast
qed


section \<open>What the statements do to the active tokens\<close>

lemma find_active_iff:
  assumes "tokens_ok t"
  shows "find_active_refresh_token H now t x kind = Some r \<longleftrightarrow>
    r \<in> set t \<and> rt_token_hash r = hash_token H x \<and> rt_subject_kind r = subject_kind_str kind
      \<and> \<not> rt_revoked r \<and> rt_expires_at r > now"
  using assms unfolding find_active_refresh_token_def tokens_ok_def by (rule find_unique_iff)

lemma set_revoke:
  "r \<in> set (revoke_refresh_token H t x) \<and> \<not> rt_revoked r \<longleftrightarrow>
   r \<in> set t \<and> \<not> rt_revoked r \<and> rt_token_hash r \<noteq> hash_token H x"
  by (induction t) (auto simp: revoke_refresh_token_def)

lemma rotate_InrD:
  assumes "rotate_refresh_token H now t old new kind subject ttl = (Inr r, t')"
  shows "r = fresh_token H now new kind subject ttl \<and> t' = revoke_refresh_token H t old @ [r]
    \<and> rt_token_hash r \<notin> rt_token_hash ` set t"
proof -
  have "rt_token_hash ` set (revoke_refresh_token H t old) = rt_token_hash ` set t"
    by (metis revoke_hash set_map)
  with assms show ?thesis
    by (auto simp: rotate_refresh_token_def insert_row_def split: if_splits)
qed

lemma subject_kind_str_eq [simp]: "subject_kind_str k = subject_kind_str k' \<longleftrightarrow> k = k'"
  by (auto dest: subject_kind_str_inj)

lemma fresh_token_sel [simp]:
  "rt_token_hash (fresh_token H now x kind subject ttl) = hash_token H x"
  "rt_subject_kind (fresh_token H now x kind subject ttl) = subject_kind_str kind"
  "rt_subject_id (fresh_token H now x kind subject ttl) = subject"
  "rt_expires_at (fresh_token H now x kind subject ttl) = now + ttl"
  "\<not> rt_revoked (fresh_token H now x kind subject ttl)"
  by (simp_all add: fresh_token_def)

lemma rotate_active:
  assumes "tokens_ok t"
    and "rotate_refresh_token H now t old new kind subject ttl = (Inr r, t')"
  shows "tokens_ok t'"
    and "find_active_refresh_token H now' t' x k =
      (if hash_token H x = hash_token H new
       then if k = kind \<and> now' < now + ttl then Some r else None
       else if hash_token H x = hash_token H old then None
       else find_active_refresh_token H now' t x k)"
proof -
  note r = rotate_InrD [OF assms(2)]
  have new: "hash_token H new \<notin> rt_token_hash ` set t" using r by (metis fresh_token_sel(1))
  then have nt: "\<And>s. s \<in> set t \<Longrightarrow> rt_token_hash s \<noteq> hash_token H new"
    by (metis image_eqI)
  have "hash_token H new \<notin> set (map rt_token_hash (revoke_refresh_token H t old))"
    using new by (simp only: revoke_hash set_map not_False_eq_True)
  then show ok: "tokens_ok t'"
    using r assms(1) by (simp add: tokens_ok_def revoke_hash)
  show "find_active_refresh_token H now' t' x k =
      (if hash_token H x = hash_token H new
       then if k = kind \<and> now' < now + ttl then Some r else None
       else if hash_token H x = hash_token H old then None
       else find_active_refresh_token H now' t x k)"
  proof (rule option_extI)
    fix s
    have "find_active_refresh_token H now' t' x k = Some s \<longleftrightarrow>
        (s \<in> set t' \<and> \<not> rt_revoked s) \<and> rt_token_hash s = hash_token H x
          \<and> rt_subject_kind s = subject_kind_str k \<and> rt_expires_at s > now'"
      using ok by (auto simp: find_active_iff)
    also have "s \<in> set t' \<and> \<not> rt_revoked s \<longleftrightarrow>
        s = r \<or> s \<in> set t \<and> \<not> rt_revoked s \<and> rt_token_hash s \<noteq> hash_token H old"
      using r set_revoke [of s H t old] by auto
    finally show "find_active_refresh_token H now' t' x k = Some s \<longleftrightarrow>
        (if hash_token H x = hash_token H new
         then if k = kind \<and> now' < now + ttl then Some r else None
         else if hash_token H x = hash_token H old then None
         else find_active_refresh_token H now' t x k) = Some s"
      using r nt [of s] assms(1) by (auto simp: find_active_iff)
  qed
qed

text \<open>C30: a successful rotation changes exactly two lookups: afterwards the new token is active for
  the subject kind it was issued to until it expires, the old token is active for nobody, and every
  other token is as active as it was. The table keeps its unique digests.\<close>

theorem rotation_moves_session:
  assumes "tokens_ok t"
    and "rotate_refresh_token H now t old new kind subject ttl = (Inr r, t')"
  shows "tokens_ok t' \<and> find_active_refresh_token H now' t' x k =
      (if hash_token H x = hash_token H new
       then if k = kind \<and> now' < now + ttl then Some r else None
       else if hash_token H x = hash_token H old then None
       else find_active_refresh_token H now' t x k)"
  using rotate_active [OF assms] by simp

theorem rotation_moves_session_witness:
  "find_active_refresh_token id 5 (snd (rotate_refresh_token id 0
      (snd (insert_refresh_token id 0 [] ''a'' UserKind ''u'' 10)) ''a'' ''b'' UserKind ''u'' 10)) ''a'' UserKind = None"
  using rotation_moves_session [where t = "snd (insert_refresh_token id 0 [] ''a'' UserKind ''u'' 10)"
        and H = id and t' = "[(fresh_token id 0 ''a'' UserKind ''u'' 10)\<lparr>rt_revoked := True\<rparr>, fresh_token id 0 ''b'' UserKind ''u'' 10]"
        and r = "fresh_token id 0 ''b'' UserKind ''u'' 10" and old = "''a''" and new = "''b''" and now = 0
        and kind = UserKind and subject = "''u''" and ttl = 10 and x = "''a''" and k = UserKind and now' = 5]
  by (simp add: insert_refresh_token_def insert_row_def tokens_ok_def rotate_refresh_token_def
      revoke_refresh_token_def hash_token_eq_iff as_bytes_def utf8_def)

text \<open>C38: revocation is permanent: once a stored token has been revoked, no sequence of
  insertions, revocations, rotations and subject-wide revocations makes it active again.\<close>

theorem revoked_token_stays_dead:
  assumes "tokens_ok t" and "hash_token H x \<in> rt_token_hash ` set t"
    and "token_run H (revoke_refresh_token H t x) u"
  shows "find_active_refresh_token H now u x kind = None"
proof (rule dead_not_active)
  have "dead (hash_token H x) (revoke_refresh_token H t x)"
    using assms(2) by (induction t) (auto simp: dead_def revoke_refresh_token_def)
  moreover have "tokens_ok (revoke_refresh_token H t x)"
    using assms(1) by (simp add: tokens_ok_def revoke_hash)
  ultimately show "tokens_ok u" "dead (hash_token H x) u"
    using token_run_invariants [OF assms(3)] by auto
qed

theorem revoked_token_stays_dead_witness:
  "find_active_refresh_token id 5 (snd (insert_refresh_token id 1
      (revoke_refresh_token id [fresh_token id 0 ''a'' UserKind ''u'' 10] ''a'') ''a'' UserKind ''u'' 10)) ''a'' UserKind = None"
  by (rule revoked_token_stays_dead [where t = "[fresh_token id 0 ''a'' UserKind ''u'' 10]"])
    (auto simp: tokens_ok_def intro: token_run.intros token_step.intros)

lemma set_revoke_all:
  "r \<in> set (snd (revoke_all_for_subject t kind subject)) \<and> \<not> rt_revoked r \<longleftrightarrow>
   r \<in> set t \<and> \<not> rt_revoked r \<and> \<not> (rt_subject_kind r = subject_kind_str kind \<and> rt_subject_id r = subject)"
  by (induction t) (auto simp: revoke_all_for_subject_def Let_def)

lemma revoke_all_count:
  "fst (revoke_all_for_subject t kind subject) + sql_count rt_revoked t =
    sql_count rt_revoked (snd (revoke_all_for_subject t kind subject))"
  by (induction t) (auto simp: revoke_all_for_subject_def Let_def)

lemma revoke_all_ok: "tokens_ok t \<Longrightarrow> tokens_ok (snd (revoke_all_for_subject t kind subject))"
  using token_step.revoke_all token_step_ok by blast

lemma revoke_all_active:
  assumes "tokens_ok t"
  shows "find_active_refresh_token H now (snd (revoke_all_for_subject t kind subject)) x k = Some r \<longleftrightarrow>
    find_active_refresh_token H now t x k = Some r \<and> \<not> (k = kind \<and> rt_subject_id r = subject)"
  unfolding find_active_iff [OF assms] find_active_iff [OF revoke_all_ok [OF assms]]
  using set_revoke_all [of r t kind subject] by auto

text \<open>revoking a subject's tokens removes exactly that subject's tokens from the active ones
  and reports how many rows it revoked.\<close>

theorem revoke_all_exact:
  assumes "tokens_ok t" and "revoke_all_for_subject t kind subject = (n, t')"
  shows "(find_active_refresh_token H now t' x k = Some r \<longleftrightarrow>
      find_active_refresh_token H now t x k = Some r \<and> \<not> (k = kind \<and> rt_subject_id r = subject))
    \<and> n + sql_count rt_revoked t = sql_count rt_revoked t'"
  using revoke_all_active [OF assms(1), of H now kind subject x k r] revoke_all_count [of t kind subject] assms(2)
  by simp

theorem revoke_all_exact_witness:
  "find_active_refresh_token id 5 [(fresh_token id 0 ''a'' UserKind ''u'' 10)\<lparr>rt_revoked := True\<rparr>] ''a'' UserKind
    \<noteq> Some (fresh_token id 0 ''a'' UserKind ''u'' 10)"
  using revoke_all_exact [of "[fresh_token id 0 ''a'' UserKind ''u'' 10]" UserKind "''u''" 1
      "[(fresh_token id 0 ''a'' UserKind ''u'' 10)\<lparr>rt_revoked := True\<rparr>]" id 5 "''a''" UserKind
      "fresh_token id 0 ''a'' UserKind ''u'' 10"]
  by (simp add: revoke_all_for_subject_def Let_def tokens_ok_def)

text \<open>rotation does not claim the old token: two requests that both looked a token up while it
  was active both rotate it successfully, and afterwards both replacement tokens are active.\<close>

theorem rotation_forks_session:
  assumes "tokens_ok t" and "0 < ttl"
    and "hash_token H new1 \<noteq> hash_token H new2"
    and "hash_token H new1 \<notin> rt_token_hash ` set t" "hash_token H new2 \<notin> rt_token_hash ` set t"
  shows "\<exists>r1 r2 t1 t2. rotate_refresh_token H now t old new1 kind subject ttl = (Inr r1, t1)
    \<and> rotate_refresh_token H now t1 old new2 kind subject ttl = (Inr r2, t2)
    \<and> (hash_token H old \<in> rt_token_hash ` set t \<longrightarrow>
         find_active_refresh_token H now t2 new1 kind = Some r1 \<and>
         find_active_refresh_token H now t2 new2 kind = Some r2)"
proof -
  let ?f = "\<lambda>n. fresh_token H now n kind subject ttl"
  let ?t1 = "revoke_refresh_token H t old @ [?f new1]"
  let ?t2 = "revoke_refresh_token H ?t1 old @ [?f new2]"
  have h: "rt_token_hash ` set (revoke_refresh_token H s old) = rt_token_hash ` set s" for s
    by (metis revoke_hash set_map)
  have r1: "rotate_refresh_token H now t old new1 kind subject ttl = (Inr (?f new1), ?t1)"
    using assms h by (simp add: rotate_refresh_token_def insert_row_def)
  have r2: "rotate_refresh_token H now ?t1 old new2 kind subject ttl = (Inr (?f new2), ?t2)"
    using assms h by (simp add: rotate_refresh_token_def insert_row_def)
  have ok: "tokens_ok ?t2"
    using rotate_active(1) [OF assms(1) r1] r2 by (rule rotate_active(1))
  have "hash_token H old \<in> rt_token_hash ` set t \<Longrightarrow> hash_token H new1 \<noteq> hash_token H old"
    using assms(4) by auto
  then have "hash_token H old \<in> rt_token_hash ` set t \<Longrightarrow> ?f new1 \<in> set ?t2"
    by (auto simp: revoke_refresh_token_def)
  then show ?thesis
    using r1 r2 ok assms(2) by (auto simp: find_active_iff)
qed

theorem rotation_forks_session_witness:
  "\<exists>r1 r2 t1 t2. rotate_refresh_token id 1 [fresh_token id 0 ''a'' UserKind ''u'' 10] ''a'' ''b'' UserKind ''u'' 10 = (Inr r1, t1)
    \<and> rotate_refresh_token id 1 t1 ''a'' ''c'' UserKind ''u'' 10 = (Inr r2, t2)
    \<and> find_active_refresh_token id 1 t2 ''b'' UserKind = Some r1
    \<and> find_active_refresh_token id 1 t2 ''c'' UserKind = Some r2"
  using rotation_forks_session [of "[fresh_token id 0 ''a'' UserKind ''u'' 10]" 10 id "''b''" "''c''" 1 "''a''" UserKind "''u''"]
  by (simp add: tokens_ok_def hash_token_eq_iff as_bytes_def utf8_def)

end
