(* ===== verification/One_Shot.thy ===== *)
theory One_Shot
  imports Single_Use Tokens
begin

text \<open>
  The one-shot secrets of a workspace database that are bound to a user or to an OAuth provider:
  \<^verbatim>\<open>password_resets.rs\<close>, \<^verbatim>\<open>email_verifications.rs\<close>, \<^verbatim>\<open>mfa_challenges.rs\<close>,
  \<^verbatim>\<open>oauth_states.rs\<close> and \<^verbatim>\<open>secret_at_rest.rs\<close> of \<^verbatim>\<open>rustbase-db\<close>.

  The first three modules have the same row and the same statements on tables of their own. Each
  has a foreign key to \<open>users\<close>, so an insertion takes the ids that are present there. A
  redemption is the lookup (\<open>redeemable\<close>) followed by the guarded update (\<open>claim\<close>), which are
  separate definitions because other requests run between them.
\<close>

section \<open>Tokens bound to a user\<close>

record one_shot =
  os_token_hash :: string
  os_user_id :: string
  os_issued_at :: time
  os_expires_at :: time
  os_consumed_at :: "time option"

type_synonym one_shots = "one_shot list"

datatype consume_outcome = ConsumeOk string | Unknown | AlreadyConsumed | Expired

definition one_shot_row :: "(char list \<Rightarrow> char list) \<Rightarrow> time \<Rightarrow> string \<Rightarrow> string \<Rightarrow> time \<Rightarrow> one_shot" where
  "one_shot_row H now token user ttl =
     \<lparr>os_token_hash = hash_token H token, os_user_id = user, os_issued_at = now,
      os_expires_at = now + ttl, os_consumed_at = None\<rparr>"

definition one_shot_insert ::
  "string list \<Rightarrow> one_shots \<Rightarrow> one_shot \<Rightarrow> (db_error, one_shots, one_shot) stmt" where
  "one_shot_insert users t r =
     (if os_token_hash r \<in> os_token_hash ` set t then (Inl (Sqlx UniqueViolation), t)
      else if os_user_id r \<notin> set users then (Inl (Sqlx ForeignKeyViolation), t)
      else (Inr r, t @ [r]))"

definition one_shot_find :: "one_shots \<Rightarrow> string \<Rightarrow> one_shot option" where
  "one_shot_find t h = List.find (\<lambda>r. os_token_hash r = h) t"

definition one_shot_claim :: "one_shots \<Rightarrow> string \<Rightarrow> time \<Rightarrow> nat \<times> one_shots" where
  "one_shot_claim t h now =
     (let p = (\<lambda>r. os_token_hash r = h \<and> os_consumed_at r = None)
      in (sql_count p t, sql_update p (\<lambda>r. r\<lparr>os_consumed_at := Some now\<rparr>) t))"

definition one_shot_redeemable :: "one_shots \<Rightarrow> string \<Rightarrow> time \<Rightarrow> one_shot option" where
  "one_shot_redeemable t h now =
     (case one_shot_find t h of
        None \<Rightarrow> None
      | Some row \<Rightarrow> if os_consumed_at row \<noteq> None \<or> os_expires_at row \<le> now then None else Some row)"

definition one_shot_consume :: "one_shots \<Rightarrow> string \<Rightarrow> time \<Rightarrow> consume_outcome \<times> one_shots" where
  "one_shot_consume t h now =
     (case one_shot_find t h of
        None \<Rightarrow> (Unknown, t)
      | Some row \<Rightarrow>
          if os_consumed_at row \<noteq> None then (AlreadyConsumed, t)
          else if os_expires_at row \<le> now then (Expired, t)
          else case one_shot_claim t h now of
            (n, t') \<Rightarrow> if n = 0 then (AlreadyConsumed, t') else (ConsumeOk (os_user_id row), t'))"

definition password_reset_issue ::
  "(char list \<Rightarrow> char list) \<Rightarrow> time \<Rightarrow> string list \<Rightarrow> one_shots \<Rightarrow> string \<Rightarrow> string \<Rightarrow> time
    \<Rightarrow> (db_error, one_shots, one_shot) stmt" where
  "password_reset_issue H now users t token user ttl =
     one_shot_insert users t (one_shot_row H now token user ttl)"

definition password_reset_find :: "(char list \<Rightarrow> char list) \<Rightarrow> one_shots \<Rightarrow> string \<Rightarrow> one_shot option" where
  "password_reset_find H t token = one_shot_find t (hash_token H token)"

definition password_reset_consume ::
  "(char list \<Rightarrow> char list) \<Rightarrow> time \<Rightarrow> one_shots \<Rightarrow> string \<Rightarrow> consume_outcome \<times> one_shots" where
  "password_reset_consume H now t token = one_shot_consume t (hash_token H token) now"

definition invalidate_all_for_user :: "time \<Rightarrow> one_shots \<Rightarrow> string \<Rightarrow> nat \<times> one_shots" where
  "invalidate_all_for_user now t user =
     (let p = (\<lambda>r. os_user_id r = user \<and> os_consumed_at r = None)
      in (sql_count p t, sql_update p (\<lambda>r. r\<lparr>os_consumed_at := Some now\<rparr>) t))"

definition email_verification_issue ::
  "(char list \<Rightarrow> char list) \<Rightarrow> time \<Rightarrow> string list \<Rightarrow> one_shots \<Rightarrow> string \<Rightarrow> string \<Rightarrow> time
    \<Rightarrow> (db_error, one_shots, one_shot) stmt" where
  "email_verification_issue H now users t token user ttl =
     one_shot_insert users t (one_shot_row H now token user ttl)"

definition email_verification_find :: "(char list \<Rightarrow> char list) \<Rightarrow> one_shots \<Rightarrow> string \<Rightarrow> one_shot option" where
  "email_verification_find H t token = one_shot_find t (hash_token H token)"

definition email_verification_consume ::
  "(char list \<Rightarrow> char list) \<Rightarrow> time \<Rightarrow> one_shots \<Rightarrow> string \<Rightarrow> consume_outcome \<times> one_shots" where
  "email_verification_consume H now t token = one_shot_consume t (hash_token H token) now"

definition mfa_challenge_issue ::
  "(char list \<Rightarrow> char list) \<Rightarrow> time \<Rightarrow> string list \<Rightarrow> one_shots \<Rightarrow> string \<Rightarrow> string \<Rightarrow> time
    \<Rightarrow> (db_error, one_shots, one_shot) stmt" where
  "mfa_challenge_issue H now users t token user ttl =
     one_shot_insert users t (one_shot_row H now token user ttl)"

definition mfa_challenge_consume ::
  "(char list \<Rightarrow> char list) \<Rightarrow> time \<Rightarrow> one_shots \<Rightarrow> string \<Rightarrow> consume_outcome \<times> one_shots" where
  "mfa_challenge_consume H now t token = one_shot_consume t (hash_token H token) now"

section \<open>Secrets that have to be readable again\<close>

datatype stored_secret = Clear string | Encrypted "char list"

fun secret_columns :: "stored_secret \<Rightarrow> string option \<times> char list option" where
  "secret_columns (Clear s) = (Some s, None)"
| "secret_columns (Encrypted b) = (None, Some b)"

definition secret_from_columns :: "string option \<Rightarrow> char list option \<Rightarrow> stored_secret option" where
  "secret_from_columns clear enc = (case (clear, enc) of
      (Some s, None) \<Rightarrow> Some (Clear s)
    | (None, Some b) \<Rightarrow> Some (Encrypted b)
    | _ \<Rightarrow> None)"

section \<open>OAuth states\<close>

text \<open>The row as stored, with the two verifier columns; the \<open>CHECK\<close> of the schema holds exactly
  when \<^const>\<open>secret_from_columns\<close> succeeds on them.\<close>

record oauth_state =
  st_state_hash :: string
  st_provider :: string
  st_redirect_uri :: string
  st_issued_at :: time
  st_expires_at :: time
  st_consumed_at :: "time option"
  st_code_verifier :: "string option"
  st_code_verifier_enc :: "char list option"

type_synonym oauth_states = "oauth_state list"

datatype oauth_outcome =
    OAuthOk string stored_secret
  | OAuthUnknown
  | OAuthAlreadyConsumed
  | OAuthExpired
  | ProviderMismatch

definition oauth_state_issue ::
  "(char list \<Rightarrow> char list) \<Rightarrow> time \<Rightarrow> oauth_states \<Rightarrow> string \<Rightarrow> string \<Rightarrow> string \<Rightarrow> stored_secret \<Rightarrow> time
    \<Rightarrow> (db_error, oauth_states, oauth_state) stmt" where
  "oauth_state_issue H now t state provider redirect_uri code_verifier ttl =
     (case secret_columns code_verifier of
        (clear_cv, enc_cv) \<Rightarrow>
          let r = \<lparr>st_state_hash = hash_token H state, st_provider = provider,
                   st_redirect_uri = redirect_uri, st_issued_at = now, st_expires_at = now + ttl,
                   st_consumed_at = None, st_code_verifier = clear_cv, st_code_verifier_enc = enc_cv\<rparr>
          in if st_state_hash r \<in> st_state_hash ` set t then (Inl (Sqlx UniqueViolation), t)
             else (Inr r, t @ [r]))"

definition oauth_state_find :: "oauth_states \<Rightarrow> string \<Rightarrow> oauth_state option" where
  "oauth_state_find t h = List.find (\<lambda>r. st_state_hash r = h) t"

definition oauth_state_claim :: "oauth_states \<Rightarrow> string \<Rightarrow> time \<Rightarrow> nat \<times> oauth_states" where
  "oauth_state_claim t h now =
     (let p = (\<lambda>r. st_state_hash r = h \<and> st_consumed_at r = None)
      in (sql_count p t, sql_update p (\<lambda>r. r\<lparr>st_consumed_at := Some now\<rparr>) t))"

definition oauth_state_consume ::
  "(char list \<Rightarrow> char list) \<Rightarrow> time \<Rightarrow> oauth_states \<Rightarrow> string \<Rightarrow> string
    \<Rightarrow> (db_error, oauth_states, oauth_outcome) stmt" where
  "oauth_state_consume H now t state provider =
     (case oauth_state_find t (hash_token H state) of
        None \<Rightarrow> (Inr OAuthUnknown, t)
      | Some row \<Rightarrow>
          (case secret_from_columns (st_code_verifier row) (st_code_verifier_enc row) of
             None \<Rightarrow> (Inl (Invariant (''_oauth_states row '' @ st_state_hash row @
                        '' holds neither exactly one verifier nor the other'')), t)
           | Some code_verifier \<Rightarrow>
               if st_provider row \<noteq> provider then (Inr ProviderMismatch, t)
               else if st_consumed_at row \<noteq> None then (Inr OAuthAlreadyConsumed, t)
               else if st_expires_at row \<le> now then (Inr OAuthExpired, t)
               else case oauth_state_claim t (hash_token H state) now of
                 (n, t') \<Rightarrow> if n = 0 then (Inr OAuthAlreadyConsumed, t')
                            else (Inr (OAuthOk (st_redirect_uri row) code_verifier), t')))"

section \<open>Well-formed tables\<close>

definition one_shots_ok :: "one_shots \<Rightarrow> bool" where
  "one_shots_ok t = unique_on os_token_hash t"

definition oauth_states_ok :: "oauth_states \<Rightarrow> bool" where
  "oauth_states_ok t = (unique_on st_state_hash t \<and>
     (\<forall>r \<in> set t. secret_from_columns (st_code_verifier r) (st_code_verifier_enc r) \<noteq> None))"

definition os_spent :: "one_shots \<Rightarrow> string \<Rightarrow> bool" where
  "os_spent t h = (\<exists>r \<in> set t. os_token_hash r = h \<and> os_consumed_at r \<noteq> None)"

definition st_spent :: "oauth_states \<Rightarrow> string \<Rightarrow> bool" where
  "st_spent t h = (\<exists>r \<in> set t. st_state_hash r = h \<and> st_consumed_at r \<noteq> None)"

text \<open>The writes other requests make: a new token, and the invalidation of a user's tokens.\<close>

definition one_shot_writes :: "(one_shots \<Rightarrow> one_shots) set" where
  "one_shot_writes = {\<lambda>t. snd (one_shot_insert users t r) | users r. True} \<union>
     {\<lambda>t. snd (invalidate_all_for_user now t user) | now user. True}"

definition oauth_state_writes :: "(char list \<Rightarrow> char list) \<Rightarrow> (oauth_states \<Rightarrow> oauth_states) set" where
  "oauth_state_writes H =
     {\<lambda>t. snd (oauth_state_issue H now t s p u v ttl) | now s p u v ttl. True}"

lemma from_columns_secret: "secret_from_columns (fst (secret_columns s)) (snd (secret_columns s)) = Some s"
  by (cases s) (simp_all add: secret_from_columns_def)

lemma from_columns_iff: "secret_from_columns c e = Some s \<longleftrightarrow> secret_columns s = (c, e)"
  by (cases s) (auto simp: secret_from_columns_def split: option.splits)

lemma one_shot_insert_ok: "one_shots_ok t \<Longrightarrow> one_shots_ok (snd (one_shot_insert users t r))"
  by (auto simp: one_shots_ok_def one_shot_insert_def)

lemma claim_hashes: "map os_token_hash (snd (one_shot_claim t h now)) = map os_token_hash t"
  by (simp add: one_shot_claim_def Let_def map_sql_update)

lemma invalidate_hashes: "map os_token_hash (snd (invalidate_all_for_user now t u)) = map os_token_hash t"
  by (simp add: invalidate_all_for_user_def Let_def map_sql_update)

lemma os_spent_update: "os_spent t h \<Longrightarrow> os_spent (sql_update p (\<lambda>r. r\<lparr>os_consumed_at := Some now\<rparr>) t) h"
  by (induction t) (auto simp: os_spent_def)

lemma os_claim_spends: "one_shot_claim t h now = (n, t') \<Longrightarrow> n \<noteq> 0 \<Longrightarrow> os_spent t' h"
  by (induction t arbitrary: n t') (auto simp: one_shot_claim_def Let_def os_spent_def)

lemma os_spent_unique:
  assumes "one_shots_ok t" and "os_spent t h" and "r \<in> set t" and "os_token_hash r = h"
  shows "os_consumed_at r \<noteq> None"
  using assms by (auto simp: one_shots_ok_def os_spent_def distinct_map inj_on_def)

interpretation os: single_use one_shot_redeemable one_shot_claim os_spent one_shot_writes one_shots_ok
proof
  fix t :: one_shots and h h' now n t' f
  show "one_shots_ok t \<Longrightarrow> one_shot_claim t h now = (n, t') \<Longrightarrow> n \<noteq> 0 \<Longrightarrow> os_spent t' h"
    by (rule os_claim_spends)
  show "one_shots_ok t \<Longrightarrow> os_spent t h \<Longrightarrow> fst (one_shot_claim t h now) = 0"
    using os_spent_unique by (auto simp: one_shot_claim_def Let_def sql_count_eq_0)
  show "one_shots_ok t \<Longrightarrow> os_spent t h \<Longrightarrow> os_spent (snd (one_shot_claim t h' now)) h"
    by (simp add: one_shot_claim_def Let_def os_spent_update)
  show "one_shots_ok t \<Longrightarrow> one_shots_ok (snd (one_shot_claim t h now))"
    by (simp add: one_shots_ok_def claim_hashes)
  show "one_shots_ok t \<Longrightarrow> f \<in> one_shot_writes \<Longrightarrow> os_spent t h \<Longrightarrow> os_spent (f t) h"
    by (auto simp: one_shot_writes_def one_shot_insert_def invalidate_all_for_user_def Let_def
        os_spent_update) (auto simp: os_spent_def)
  show "one_shots_ok t \<Longrightarrow> f \<in> one_shot_writes \<Longrightarrow> one_shots_ok (f t)"
    by (auto simp: one_shot_writes_def one_shot_insert_ok) (simp add: one_shots_ok_def invalidate_hashes)
qed

lemma st_spent_update: "st_spent t h \<Longrightarrow> st_spent (sql_update p (\<lambda>r. r\<lparr>st_consumed_at := Some now\<rparr>) t) h"
  by (induction t) (auto simp: st_spent_def)

lemma st_claim_spends: "oauth_state_claim t h now = (n, t') \<Longrightarrow> n \<noteq> 0 \<Longrightarrow> st_spent t' h"
  by (induction t arbitrary: n t') (auto simp: oauth_state_claim_def Let_def st_spent_def)

lemma st_spent_unique:
  assumes "oauth_states_ok t" and "st_spent t h" and "r \<in> set t" and "st_state_hash r = h"
  shows "st_consumed_at r \<noteq> None"
  using assms by (auto simp: oauth_states_ok_def st_spent_def distinct_map inj_on_def)

lemma oauth_claim_ok: "oauth_states_ok t \<Longrightarrow> oauth_states_ok (snd (oauth_state_claim t h now))"
  by (auto simp: oauth_states_ok_def oauth_state_claim_def Let_def map_sql_update set_sql_update)

lemma oauth_issue_cases:
  "snd (oauth_state_issue H now t s p u v ttl) = t \<or>
   (\<exists>r. snd (oauth_state_issue H now t s p u v ttl) = t @ [r] \<and> st_state_hash r \<notin> st_state_hash ` set t
      \<and> secret_from_columns (st_code_verifier r) (st_code_verifier_enc r) = Some v)"
  using from_columns_secret [of v] by (auto simp: oauth_state_issue_def Let_def split: prod.split)

lemma oauth_issue_ok: "oauth_states_ok t \<Longrightarrow> oauth_states_ok (snd (oauth_state_issue H now t s p u v ttl))"
  using oauth_issue_cases [of H now t s p u v ttl] by (auto simp: oauth_states_ok_def)

lemma oauth_issue_spent: "st_spent t h \<Longrightarrow> st_spent (snd (oauth_state_issue H now t s p u v ttl)) h"
  using oauth_issue_cases [of H now t s p u v ttl] by (auto simp: st_spent_def)

interpretation st: single_use "\<lambda>t h now. oauth_state_find t h" oauth_state_claim st_spent "oauth_state_writes H" oauth_states_ok for H
proof
  fix t :: oauth_states and h h' now n t' f
  show "oauth_states_ok t \<Longrightarrow> oauth_state_claim t h now = (n, t') \<Longrightarrow> n \<noteq> 0 \<Longrightarrow> st_spent t' h"
    by (rule st_claim_spends)
  show "oauth_states_ok t \<Longrightarrow> st_spent t h \<Longrightarrow> fst (oauth_state_claim t h now) = 0"
    using st_spent_unique by (auto simp: oauth_state_claim_def Let_def sql_count_eq_0)
  show "oauth_states_ok t \<Longrightarrow> st_spent t h \<Longrightarrow> st_spent (snd (oauth_state_claim t h' now)) h"
    by (simp add: oauth_state_claim_def Let_def st_spent_update)
  show "oauth_states_ok t \<Longrightarrow> oauth_states_ok (snd (oauth_state_claim t h now))"
    by (rule oauth_claim_ok)
  show "oauth_states_ok t \<Longrightarrow> f \<in> oauth_state_writes H \<Longrightarrow> st_spent t h \<Longrightarrow> st_spent (f t) h"
    by (auto simp: oauth_state_writes_def oauth_issue_spent)
  show "oauth_states_ok t \<Longrightarrow> f \<in> oauth_state_writes H \<Longrightarrow> oauth_states_ok (f t)"
    by (auto simp: oauth_state_writes_def oauth_issue_ok)
qed


section \<open>Redemption\<close>

lemma one_shot_find_iff:
  "one_shots_ok t \<Longrightarrow> one_shot_find t h = Some r \<longleftrightarrow> r \<in> set t \<and> os_token_hash r = h"
  using find_unique_iff [of os_token_hash t h "\<lambda>_. True" r]
  by (simp add: one_shots_ok_def one_shot_find_def)

lemma one_shot_claim_count:
  assumes "one_shot_find t h = Some r" and "os_consumed_at r = None"
  shows "fst (one_shot_claim t h now) \<noteq> 0"
  using assms find_SomeD [of _ t r]
  by (auto simp: one_shot_claim_def Let_def sql_count_eq_0 one_shot_find_def)

lemma one_shot_claim_find:
  assumes "one_shot_find t h = Some r" and "os_consumed_at r = None"
  shows "one_shot_find (snd (one_shot_claim t h now)) g =
    (if g = h then Some (r\<lparr>os_consumed_at := Some now\<rparr>) else one_shot_find t g)"
proof -
  have "one_shot_find (snd (one_shot_claim t h now)) g =
      map_option (\<lambda>r. if os_token_hash r = h \<and> os_consumed_at r = None
        then r\<lparr>os_consumed_at := Some now\<rparr> else r) (one_shot_find t g)"
    unfolding one_shot_find_def one_shot_claim_def Let_def snd_conv by (rule find_sql_update) simp
  moreover have "os_token_hash r' = g" if "one_shot_find t g = Some r'" for r' g
    using that by (auto simp: one_shot_find_def dest: find_SomeD)
  ultimately show ?thesis using assms by (cases "one_shot_find t g") auto
qed

lemma one_shot_consume_cases:
  "one_shot_consume t h now =
     (case one_shot_find t h of
        None \<Rightarrow> (Unknown, t)
      | Some r \<Rightarrow> if os_consumed_at r \<noteq> None then (AlreadyConsumed, t)
          else if os_expires_at r \<le> now then (Expired, t)
          else (ConsumeOk (os_user_id r), snd (one_shot_claim t h now)))"
  using one_shot_claim_count [of t h _ now]
  by (auto simp: one_shot_consume_def split: option.split prod.split)

text \<open>redeeming a token answers \<open>Ok\<close> exactly when its row is there, unused and unexpired;
  then that row alone is marked used at this time. In every other case the table is left as it
  was, and the answer tells an unknown token, a used one and an expired one apart.\<close>

theorem consume_outcomes:
  assumes "password_reset_consume H now t token = (out, t')"
  shows "case password_reset_find H t token of
      None \<Rightarrow> out = Unknown \<and> t' = t
    | Some r \<Rightarrow>
        if os_consumed_at r \<noteq> None then out = AlreadyConsumed \<and> t' = t
        else if os_expires_at r \<le> now then out = Expired \<and> t' = t
        else out = ConsumeOk (os_user_id r) \<and>
          (\<forall>x. one_shot_find t' x = (if x = hash_token H token then Some (r\<lparr>os_consumed_at := Some now\<rparr>)
             else one_shot_find t x))"
  using assms one_shot_claim_find [of t "hash_token H token" _ now]
  by (auto simp: password_reset_consume_def password_reset_find_def one_shot_consume_cases
      split: option.splits if_splits)

theorem consume_outcomes_witness:
  "\<forall>x. one_shot_find (snd (password_reset_consume id 1 [one_shot_row id 0 ''k'' ''u'' 9] ''k'')) x =
     (if x = hash_token id ''k'' then Some ((one_shot_row id 0 ''k'' ''u'' 9)\<lparr>os_consumed_at := Some 1\<rparr>) else None)"
  using consume_outcomes [of id 1 "[one_shot_row id 0 ''k'' ''u'' 9]" "''k''"
      "fst (password_reset_consume id 1 [one_shot_row id 0 ''k'' ''u'' 9] ''k'')"
      "snd (password_reset_consume id 1 [one_shot_row id 0 ''k'' ''u'' 9] ''k'')"]
  by (simp add: password_reset_find_def one_shot_find_def one_shot_row_def)



text \<open>once a user's pending resets have been invalidated, none of them is ever redeemed,
  whatever requests already in flight or still to come do.\<close>

theorem invalidated_never_won:
  assumes "one_shots_ok t" and "r \<in> set t" and "os_user_id r = user"
    and "writes_in one_shot_writes es"
  shows "os_token_hash r \<notin> fst ` set (wins (sched_run one_shot_redeemable one_shot_claim es
    (snd (invalidate_all_for_user now t user))))"
proof (rule os.spent_never_won)
  show "one_shots_ok (snd (invalidate_all_for_user now t user))"
    using assms(1) by (simp add: one_shots_ok_def invalidate_hashes)
  show "os_spent (snd (invalidate_all_for_user now t user)) (os_token_hash r)"
    using assms(2,3) by (induction t) (auto simp: os_spent_def invalidate_all_for_user_def Let_def)
qed (rule assms(4))

theorem invalidated_never_won_witness:
  "hash_token id ''k'' \<notin> fst ` set (wins (sched_run one_shot_redeemable one_shot_claim
     [Begin 0 (hash_token id ''k'') 1, Finish 0] (snd (invalidate_all_for_user 1 [one_shot_row id 0 ''k'' ''u'' 9] ''u''))))"
  using invalidated_never_won [of "[one_shot_row id 0 ''k'' ''u'' 9]" "one_shot_row id 0 ''k'' ''u'' 9" "''u''"
      "[Begin 0 (hash_token id ''k'') 1, Finish 0]" 1]
  by (simp add: one_shots_ok_def one_shot_row_def writes_in_def)

lemma oauth_find_iff:
  "oauth_states_ok t \<Longrightarrow> oauth_state_find t h = Some r \<longleftrightarrow> r \<in> set t \<and> st_state_hash r = h"
  using find_unique_iff [of st_state_hash t h "\<lambda>_. True" r]
  by (simp add: oauth_states_ok_def oauth_state_find_def)

text \<open>an OAuth callback is accepted only for a state that was issued with the callback's own
  provider and not used before, and it gets back the redirect URI and the verifier it was issued
  with; under no interleaving of callbacks and new states is a state accepted twice.\<close>

theorem oauth_state_bound_and_single_use:
  assumes "oauth_states_ok t"
    and "oauth_state_consume H now t state provider = (Inr (OAuthOk uri verifier), t')"
    and "writes_in (oauth_state_writes H) es"
  shows "(\<exists>r \<in> set t. st_state_hash r = hash_token H state \<and> st_provider r = provider
      \<and> st_redirect_uri r = uri \<and> (st_code_verifier r, st_code_verifier_enc r) = secret_columns verifier
      \<and> st_consumed_at r = None \<and> now < st_expires_at r)
    \<and> hash_token H state \<notin> fst ` set (wins (sched_run (\<lambda>t h now. oauth_state_find t h) oauth_state_claim es t'))"
proof -
  obtain r n where r: "oauth_state_find t (hash_token H state) = Some r"
    "secret_from_columns (st_code_verifier r) (st_code_verifier_enc r) = Some verifier"
    "st_provider r = provider" "st_consumed_at r = None" "now < st_expires_at r" "st_redirect_uri r = uri"
    and c: "oauth_state_claim t (hash_token H state) now = (n, t')" "n \<noteq> 0"
    using assms(2) by (auto simp: oauth_state_consume_def split: option.splits if_splits prod.splits)
  have "oauth_states_ok t'" using oauth_claim_ok [OF assms(1)] c(1) by (metis snd_conv)
  moreover have "st_spent t' (hash_token H state)" using c by (rule st_claim_spends)
  ultimately have "hash_token H state \<notin>
      fst ` set (wins (sched_run (\<lambda>t h now. oauth_state_find t h) oauth_state_claim es t'))"
    using assms(3) by (intro st.spent_never_won)
  moreover have "r \<in> set t" "st_state_hash r = hash_token H state"
    using r(1) assms(1) by (auto simp: oauth_find_iff)
  ultimately show ?thesis using r by (auto simp: from_columns_iff)
qed

theorem oauth_state_bound_and_single_use_witness:
  "\<exists>t. snd (oauth_state_issue id 0 [] ''s'' ''google'' ''/cb'' (Clear ''v'') 300) = t \<and>
     hash_token id ''s'' \<notin> fst ` set (wins (sched_run (\<lambda>t h now. oauth_state_find t h) oauth_state_claim
       [Begin 0 (hash_token id ''s'') 2, Finish 0] (snd (oauth_state_consume id 1 t ''s'' ''google''))))"
  using oauth_state_bound_and_single_use [of "snd (oauth_state_issue id 0 [] ''s'' ''google'' ''/cb'' (Clear ''v'') 300)"
      id 1 "''s''" "''google''" "''/cb''" "Clear ''v''"
      "snd (oauth_state_consume id 1 (snd (oauth_state_issue id 0 [] ''s'' ''google'' ''/cb'' (Clear ''v'') 300)) ''s'' ''google'')"
      "[Begin 0 (hash_token id ''s'') 2, Finish 0]"]
  by (simp add: oauth_states_ok_def oauth_state_issue_def oauth_state_consume_def oauth_state_find_def
      oauth_state_claim_def secret_from_columns_def writes_in_def Let_def)

end
