(* ===== verification/Email_Otp.thy ===== *)
theory Email_Otp
  imports Single_Use Tokens
begin

text \<open>
  One-time email codes, \<^verbatim>\<open>rustbase-db/src/email_otps.rs\<close>. The table keeps its rows and the
  last \<open>AUTOINCREMENT\<close> id. \<open>consume\<close> reads the pending row first and writes afterwards; the
  write (\<open>otp_settle\<close>, from the row that was read) is a definition of its own, because requests
  interleave there.

  The lemmas show that one code per address is in flight, that a code is won at most once under
  every interleaving, that five wrong guesses one after the other lock the code, and that wrong
  guesses which run at the same time do not.
\<close>

section \<open>Table and statements\<close>

definition MAX_ATTEMPTS :: int where
  "MAX_ATTEMPTS = 5"

record email_otp =
  otp_id :: int
  otp_code_hash :: string
  otp_email :: string
  otp_issued_at :: time
  otp_expires_at :: time
  otp_consumed_at :: "time option"
  otp_attempts :: int

record email_otps =
  otp_rows :: "email_otp list"
  otp_last_id :: int

datatype otp_outcome =
    OtpOk string
  | OtpUnknown
  | WrongCode int
  | OtpExpired
  | Locked

definition otp_issue ::
  "(char list \<Rightarrow> char list) \<Rightarrow> time \<Rightarrow> email_otps \<Rightarrow> string \<Rightarrow> string \<Rightarrow> time \<Rightarrow> email_otp \<times> email_otps" where
  "otp_issue H now t code email ttl =
     (let rows = sql_update (\<lambda>r. otp_email r = email \<and> otp_consumed_at r = None)
                   (\<lambda>r. r\<lparr>otp_consumed_at := Some now\<rparr>) (otp_rows t);
          row = \<lparr>otp_id = otp_last_id t + 1, otp_code_hash = hash_token H code, otp_email = email,
                 otp_issued_at = now, otp_expires_at = now + ttl, otp_consumed_at = None, otp_attempts = 0\<rparr>
      in (row, \<lparr>otp_rows = rows @ [row], otp_last_id = otp_last_id t + 1\<rparr>))"

text \<open>\<open>ORDER BY issued_at DESC LIMIT 1\<close>.\<close>

definition otp_current :: "email_otps \<Rightarrow> string \<Rightarrow> email_otp option" where
  "otp_current t email =
     (case sort_key (\<lambda>r. - otp_issued_at r)
             (filter (\<lambda>r. otp_email r = email \<and> otp_consumed_at r = None) (otp_rows t)) of
        [] \<Rightarrow> None
      | r # _ \<Rightarrow> Some r)"

definition otp_update :: "(email_otp \<Rightarrow> bool) \<Rightarrow> (email_otp \<Rightarrow> email_otp) \<Rightarrow> email_otps \<Rightarrow> email_otps" where
  "otp_update p f t = t\<lparr>otp_rows := sql_update p f (otp_rows t)\<rparr>"

definition otp_claim :: "email_otps \<Rightarrow> int \<Rightarrow> time \<Rightarrow> nat \<times> email_otps" where
  "otp_claim t i now =
     (let p = (\<lambda>r. otp_id r = i \<and> otp_consumed_at r = None)
      in (sql_count p (otp_rows t), otp_update p (\<lambda>r. r\<lparr>otp_consumed_at := Some now\<rparr>) t))"

definition otp_settle ::
  "(char list \<Rightarrow> char list) \<Rightarrow> time \<Rightarrow> email_otp \<Rightarrow> string \<Rightarrow> email_otps \<Rightarrow> otp_outcome \<times> email_otps" where
  "otp_settle H now row code t =
     (if otp_expires_at row \<le> now
      then (OtpExpired, otp_update (\<lambda>r. otp_id r = otp_id row) (\<lambda>r. r\<lparr>otp_consumed_at := Some now\<rparr>) t)
      else if otp_code_hash row = hash_token H code
      then (case otp_claim t (otp_id row) now of
              (n, t') \<Rightarrow> if n = 0 then (OtpUnknown, t') else (OtpOk (otp_email row), t'))
      else let new_attempts = otp_attempts row + 1
           in if new_attempts \<ge> MAX_ATTEMPTS
              then (Locked, otp_update (\<lambda>r. otp_id r = otp_id row)
                      (\<lambda>r. r\<lparr>otp_attempts := new_attempts, otp_consumed_at := Some now\<rparr>) t)
              else (WrongCode (MAX_ATTEMPTS - new_attempts),
                    otp_update (\<lambda>r. otp_id r = otp_id row) (\<lambda>r. r\<lparr>otp_attempts := new_attempts\<rparr>) t))"

definition otp_consume ::
  "(char list \<Rightarrow> char list) \<Rightarrow> time \<Rightarrow> email_otps \<Rightarrow> string \<Rightarrow> string \<Rightarrow> otp_outcome \<times> email_otps" where
  "otp_consume H now t email code =
     (case otp_current t email of
        None \<Rightarrow> (OtpUnknown, t)
      | Some row \<Rightarrow> otp_settle H now row code t)"

section \<open>One code in flight\<close>

definition otp_pending :: "string \<Rightarrow> email_otp \<Rightarrow> bool" where
  "otp_pending email r = (otp_email r = email \<and> otp_consumed_at r = None)"

definition otps_ok :: "email_otps \<Rightarrow> bool" where
  "otps_ok t = (unique_on otp_id (otp_rows t) \<and> (\<forall>r \<in> set (otp_rows t). otp_id r \<le> otp_last_id t)
     \<and> (\<forall>r \<in> set (otp_rows t). \<forall>s \<in> set (otp_rows t).
          otp_pending (otp_email r) s \<longrightarrow> otp_pending (otp_email r) r \<longrightarrow> s = r))"

lemma otps_ok_pending:
  "otps_ok t \<Longrightarrow> r \<in> set (otp_rows t) \<Longrightarrow> s \<in> set (otp_rows t) \<Longrightarrow>
   otp_pending e r \<Longrightarrow> otp_pending e s \<Longrightarrow> r = s"
  by (auto simp: otps_ok_def otp_pending_def)

lemma otps_ok_ids:
  "otps_ok t \<Longrightarrow> r \<in> set (otp_rows t) \<Longrightarrow> s \<in> set (otp_rows t) \<Longrightarrow> otp_id r = otp_id s \<Longrightarrow> r = s"
  by (auto simp: otps_ok_def distinct_map inj_on_def)

lemma otp_current_SomeD:
  assumes "otp_current t e = Some r"
  shows "r \<in> set (otp_rows t) \<and> otp_pending e r"
proof -
  let ?xs = "filter (\<lambda>r. otp_email r = e \<and> otp_consumed_at r = None) (otp_rows t)"
  have "r \<in> set (sort_key (\<lambda>r. - otp_issued_at r) ?xs)"
    using assms by (cases "sort_key (\<lambda>r. - otp_issued_at r) ?xs") (simp_all add: otp_current_def del: set_sort)
  then show ?thesis by (simp add: otp_pending_def)
qed

lemma otp_current_None: "otp_current t e = None \<longleftrightarrow> (\<forall>r \<in> set (otp_rows t). \<not> otp_pending e r)"
proof -
  let ?xs = "filter (\<lambda>r. otp_email r = e \<and> otp_consumed_at r = None) (otp_rows t)"
  have "otp_current t e = None \<longleftrightarrow> sort_key (\<lambda>r. - otp_issued_at r) ?xs = []"
    by (cases "sort_key (\<lambda>r. - otp_issued_at r) ?xs") (simp_all add: otp_current_def)
  also have "\<dots> \<longleftrightarrow> ?xs = []" by (rule sort_key_eq_Nil)
  also have "\<dots> \<longleftrightarrow> (\<forall>r \<in> set (otp_rows t). \<not> otp_pending e r)"
    by (simp add: filter_empty_conv otp_pending_def)
  finally show ?thesis .
qed

lemma otp_current_iff:
  assumes "otps_ok t"
  shows "otp_current t e = Some r \<longleftrightarrow> r \<in> set (otp_rows t) \<and> otp_pending e r"
proof
  assume r: "r \<in> set (otp_rows t) \<and> otp_pending e r"
  then obtain s where "otp_current t e = Some s"
    using otp_current_None [of t e] by (cases "otp_current t e") auto
  with r otp_current_SomeD [OF this] otps_ok_pending [OF assms] show "otp_current t e = Some r" by auto
qed (rule otp_current_SomeD)

text \<open>Every statement keeps a row's id and address and never clears \<open>consumed_at\<close>.\<close>

definition otp_keeps :: "(email_otp \<Rightarrow> email_otp) \<Rightarrow> bool" where
  "otp_keeps f = (\<forall>r. otp_id (f r) = otp_id r \<and> otp_email (f r) = otp_email r \<and>
     (otp_consumed_at r \<noteq> None \<longrightarrow> otp_consumed_at (f r) \<noteq> None))"

lemma otp_update_pending:
  assumes "otp_keeps f" and "r \<in> set (otp_rows (otp_update p f t))" and "otp_pending e r"
  obtains s where "s \<in> set (otp_rows t)" "otp_pending e s" "r = (if p s then f s else s)"
proof -
  from assms(2) have "r \<in> set (sql_update p f (otp_rows t))" by (simp add: otp_update_def)
  then show thesis
  proof (cases rule: in_sql_updateE)
    case (hit s)
    moreover have "otp_pending e s" using assms(1,3) hit(3) by (auto simp: otp_keeps_def otp_pending_def)
    ultimately show thesis by (intro that [of s]) simp_all
  next
    case miss
    with assms(3) show thesis by (intro that [of r]) simp_all
  qed
qed

lemma otp_update_ids:
  "otp_keeps f \<Longrightarrow> map otp_id (otp_rows (otp_update p f t)) = map otp_id (otp_rows t)"
  unfolding otp_update_def by (simp add: map_sql_update otp_keeps_def)

lemma otps_okI:
  assumes "unique_on otp_id (otp_rows t)" and "\<And>i. i \<in> set (map otp_id (otp_rows t)) \<Longrightarrow> i \<le> otp_last_id t"
    and "\<And>r s e. r \<in> set (otp_rows t) \<Longrightarrow> s \<in> set (otp_rows t) \<Longrightarrow> otp_pending e r \<Longrightarrow> otp_pending e s \<Longrightarrow> s = r"
  shows "otps_ok t"
  unfolding otps_ok_def using assms(1,2) assms(3) [of _ _ "otp_email _"] by auto

lemma otps_ok_le: "otps_ok t \<Longrightarrow> i \<in> set (map otp_id (otp_rows t)) \<Longrightarrow> i \<le> otp_last_id t"
  by (auto simp: otps_ok_def)

lemma otp_update_ok:
  assumes f: "otp_keeps f" and ok: "otps_ok t"
  shows "otps_ok (otp_update p f t)"
proof (rule otps_okI)
  show "unique_on otp_id (otp_rows (otp_update p f t))"
    using ok unfolding otp_update_ids [OF f] by (simp add: otps_ok_def)
  show "i \<le> otp_last_id (otp_update p f t)" if "i \<in> set (map otp_id (otp_rows (otp_update p f t)))" for i
    using otps_ok_le [OF ok, of i] that unfolding otp_update_ids [OF f] by (simp add: otp_update_def)
  show "s = r" if "r \<in> set (otp_rows (otp_update p f t))" "s \<in> set (otp_rows (otp_update p f t))"
      "otp_pending e r" "otp_pending e s" for r s e
  proof -
    note mem = that
    obtain r' where r': "r' \<in> set (otp_rows t)" "otp_pending e r'" "r = (if p r' then f r' else r')"
      using mem(1,3) by (rule otp_update_pending [OF f])
    obtain s' where s': "s' \<in> set (otp_rows t)" "otp_pending e s'" "s = (if p s' then f s' else s')"
      using mem(2,4) by (rule otp_update_pending [OF f])
    have "s' = r'" using otps_ok_pending [OF ok s'(1) r'(1) s'(2) r'(2)] .
    then show "s = r" using r'(3) s'(3) by simp
  qed
qed

lemma otp_keeps_consumed [simp]: "otp_keeps (\<lambda>r. r\<lparr>otp_consumed_at := Some now\<rparr>)"
  and otp_keeps_attempts [simp]: "otp_keeps (\<lambda>r. r\<lparr>otp_attempts := n\<rparr>)"
  and otp_keeps_lock [simp]: "otp_keeps (\<lambda>r. r\<lparr>otp_attempts := n, otp_consumed_at := Some now\<rparr>)"
  by (simp_all add: otp_keeps_def)

lemma otp_settle_cases:
  "\<exists>p f. otp_keeps f \<and> snd (otp_settle H now row code t) = otp_update p f t"
proof -
  have "\<exists>p f. otp_keeps f \<and> snd (otp_claim t (otp_id row) now) = otp_update p f t"
    unfolding otp_claim_def Let_def snd_conv using otp_keeps_consumed by blast
  moreover have "\<exists>p f. otp_keeps f \<and> otp_update q g t = otp_update p f t" if "otp_keeps g" for q g
    using that by blast
  ultimately show ?thesis
    by (simp add: otp_settle_def Let_def case_prod_beta)
qed

lemma otp_settle_ok: "otps_ok t \<Longrightarrow> otps_ok (snd (otp_settle H now row code t))"
  using otp_settle_cases [of H now row code t] by (metis otp_update_ok)

definition otp_cleared :: "time \<Rightarrow> string \<Rightarrow> email_otps \<Rightarrow> email_otps" where
  "otp_cleared now email t = otp_update (otp_pending email) (\<lambda>r. r\<lparr>otp_consumed_at := Some now\<rparr>) t"

lemma otp_issue_eq:
  "otp_issue H now t code email ttl = (row, t') \<longleftrightarrow>
   row = \<lparr>otp_id = otp_last_id t + 1, otp_code_hash = hash_token H code, otp_email = email,
     otp_issued_at = now, otp_expires_at = now + ttl, otp_consumed_at = None, otp_attempts = 0\<rparr> \<and>
   t' = \<lparr>otp_rows = otp_rows (otp_cleared now email t) @ [row], otp_last_id = otp_last_id t + 1\<rparr>"
  by (auto simp: otp_issue_def Let_def otp_cleared_def otp_update_def otp_pending_def [abs_def])

lemma otp_cleared_not_pending:
  assumes "r \<in> set (otp_rows (otp_cleared now email t))"
  shows "\<not> otp_pending email r"
proof
  assume "otp_pending email r"
  with assms obtain s where "otp_pending email s"
    "r = (if otp_pending email s then s\<lparr>otp_consumed_at := Some now\<rparr> else s)"
    unfolding otp_cleared_def by (auto elim!: otp_update_pending [OF otp_keeps_consumed])
  then show False using \<open>otp_pending email r\<close> by (simp add: otp_pending_def)
qed

lemma otp_issue_ok:
  assumes ok: "otps_ok t" and i: "otp_issue H now t code email ttl = (row, t')"
  shows "otps_ok t'"
proof (rule otps_okI)
  let ?u = "otp_cleared now email t"
  have u: "otps_ok ?u" unfolding otp_cleared_def using ok by (intro otp_update_ok) simp_all
  have last: "otp_last_id ?u = otp_last_id t" by (simp add: otp_cleared_def otp_update_def)
  note row = i [unfolded otp_issue_eq]
  show "unique_on otp_id (otp_rows t')"
    using row u last by (force simp: otps_ok_def)
  show "i \<le> otp_last_id t'" if "i \<in> set (map otp_id (otp_rows t'))" for i
    using that row otps_ok_le [OF u, of i] last by auto
  show "s = r" if "r \<in> set (otp_rows t')" "s \<in> set (otp_rows t')" "otp_pending e r" "otp_pending e s" for r s e
  proof (cases "e = email")
    case True
    then show ?thesis using that row otp_cleared_not_pending [of _ now email t] by auto
  next
    case False
    then have "r \<in> set (otp_rows ?u)" "s \<in> set (otp_rows ?u)"
      using that row by (auto simp: otp_pending_def)
    then show ?thesis using otps_ok_pending [OF u] that by blast
  qed
qed

lemma otp_issue_current:
  assumes "otps_ok t" and "otp_issue H now t code email ttl = (row, t')"
  shows "otp_current t' email = Some row"
  using assms(2) unfolding otp_current_iff [OF otp_issue_ok [OF assms]] otp_issue_eq
  by (auto simp: otp_pending_def)

lemma otp_consume_ok: "otps_ok t \<Longrightarrow> otps_ok (snd (otp_consume H now t email code))"
  by (simp add: otp_consume_def otp_settle_ok split: option.split)


section \<open>A code is won once\<close>

definition otp_spent :: "email_otps \<Rightarrow> int \<Rightarrow> bool" where
  "otp_spent t i = (\<exists>r \<in> set (otp_rows t). otp_id r = i \<and> otp_consumed_at r \<noteq> None)"

definition otp_find :: "email_otps \<Rightarrow> int \<Rightarrow> time \<Rightarrow> email_otp option" where
  "otp_find t i now = List.find (\<lambda>r. otp_id r = i \<and> otp_consumed_at r = None) (otp_rows t)"

text \<open>The writes of other requests: a new code, and whatever a redemption does with the row it read.\<close>

definition otp_writes :: "(char list \<Rightarrow> char list) \<Rightarrow> (email_otps \<Rightarrow> email_otps) set" where
  "otp_writes H = {\<lambda>t. snd (otp_issue H now t code email ttl) | now code email ttl. True} \<union>
     {\<lambda>t. snd (otp_settle H now row code t) | now row code. True}"

lemma otp_spent_update:
  assumes "otp_keeps f" and "otp_spent t i"
  shows "otp_spent (otp_update p f t) i"
proof -
  from assms(2) obtain r where r: "r \<in> set (otp_rows t)" "otp_id r = i" "otp_consumed_at r \<noteq> None"
    by (auto simp: otp_spent_def)
  let ?r = "if p r then f r else r"
  have "?r \<in> set (otp_rows (otp_update p f t))"
    using r(1) unfolding otp_update_def sql_update_def by auto
  moreover have "otp_id ?r = i \<and> otp_consumed_at ?r \<noteq> None"
    using r assms(1) by (auto simp: otp_keeps_def)
  ultimately show ?thesis unfolding otp_spent_def by blast
qed

lemma otp_claim_eq:
  "otp_claim t i now = (sql_count (\<lambda>r. otp_id r = i \<and> otp_consumed_at r = None) (otp_rows t),
     otp_update (\<lambda>r. otp_id r = i \<and> otp_consumed_at r = None) (\<lambda>r. r\<lparr>otp_consumed_at := Some now\<rparr>) t)"
  by (simp add: otp_claim_def Let_def)

lemma otp_claim_spends:
  assumes "otp_claim t i now = (n, t')" and "n \<noteq> 0"
  shows "otp_spent t' i"
proof -
  let ?p = "\<lambda>r. otp_id r = i \<and> otp_consumed_at r = None"
  have "sql_count ?p (otp_rows t) \<noteq> 0" using assms by (simp add: otp_claim_eq)
  then obtain r where r: "r \<in> set (otp_rows t)" "?p r" by (auto simp: sql_count_eq_0)
  then have "r\<lparr>otp_consumed_at := Some now\<rparr> \<in> set (otp_rows t')"
    using assms(1) by (auto simp: otp_claim_eq otp_update_def sql_update_def)
  then show ?thesis using r(2) unfolding otp_spent_def by (intro bexI) simp_all
qed

lemma otp_spent_issue: "otp_spent t i \<Longrightarrow> otp_spent (snd (otp_issue H now t code email ttl)) i"
proof -
  assume "otp_spent t i"
  then have "otp_spent (otp_cleared now email t) i" unfolding otp_cleared_def by (simp add: otp_spent_update)
  moreover obtain row t' where i: "otp_issue H now t code email ttl = (row, t')" by (metis prod.exhaust)
  ultimately show ?thesis using i [unfolded otp_issue_eq] by (auto simp: i otp_spent_def)
qed

interpretation otp: single_use otp_find otp_claim otp_spent "otp_writes H" otps_ok for H
proof
  fix t :: email_otps and i j now n t' f
  show "otps_ok t \<Longrightarrow> otp_claim t i now = (n, t') \<Longrightarrow> n \<noteq> 0 \<Longrightarrow> otp_spent t' i"
    by (rule otp_claim_spends)
  show "otps_ok t \<Longrightarrow> otp_spent t i \<Longrightarrow> fst (otp_claim t i now) = 0"
    unfolding otp_claim_eq fst_conv sql_count_eq_0 otp_spent_def by (metis otps_ok_ids)
  show "otps_ok t \<Longrightarrow> otp_spent t i \<Longrightarrow> otp_spent (snd (otp_claim t j now)) i"
    by (simp add: otp_claim_eq otp_spent_update)
  show "otps_ok t \<Longrightarrow> otps_ok (snd (otp_claim t i now))"
    by (simp add: otp_claim_eq otp_update_ok)
  show "otps_ok t \<Longrightarrow> f \<in> otp_writes H \<Longrightarrow> otp_spent t i \<Longrightarrow> otp_spent (f t) i"
    unfolding otp_writes_def using otp_spent_issue otp_settle_cases otp_spent_update
    by (auto, metis)
  show "otps_ok t \<Longrightarrow> f \<in> otp_writes H \<Longrightarrow> otps_ok (f t)"
    unfolding otp_writes_def using otp_settle_ok otp_issue_ok by (auto, metis prod.collapse)
qed

text \<open>a code is redeemed at most once: over every schedule of redemptions, wrong guesses and new
  codes, the ids of the won rows are pairwise different.\<close>

theorem otp_won_once:
  assumes "otps_ok t" and "writes_in (otp_writes H) es"
  shows "distinct (map fst (wins (sched_run otp_find otp_claim es t)))"
  using assms by (rule otp.won_at_most_once)

theorem otp_won_once_witness:
  "distinct (map fst (wins (sched_run otp_find otp_claim [Begin 0 1 5, Begin 1 1 5, Finish 0, Finish 1]
     (snd (otp_issue id 0 \<lparr>otp_rows = [], otp_last_id = 0\<rparr> ''123456'' ''a@b.c'' 600)))))"
  by (rule otp_won_once [of _ id]) (simp_all add: otps_ok_def otp_issue_def Let_def writes_in_def)

text \<open>issuing a code for an address makes it the pending code of that address, whatever codes were
  pending before, and leaves the pending codes of all other addresses alone; at most one code per
  address stays pending.\<close>

theorem otp_single_in_flight:
  assumes "otps_ok t" and "otp_issue H now t code email ttl = (row, t')"
  shows "otps_ok t' \<and> (\<forall>e. otp_current t' e = (if e = email then Some row else otp_current t e))"
proof -
  have ok: "otps_ok t'" using assms by (rule otp_issue_ok)
  have "otp_current t' e = otp_current t e" if "e \<noteq> email" for e
  proof (rule option_extI)
    fix r
    have "r \<in> set (otp_rows (otp_cleared now email t)) \<and> otp_pending e r \<longleftrightarrow> r \<in> set (otp_rows t) \<and> otp_pending e r"
      using that unfolding otp_cleared_def otp_update_def by (auto simp: set_sql_update otp_pending_def)
    then show "otp_current t' e = Some r \<longleftrightarrow> otp_current t e = Some r"
      unfolding otp_current_iff [OF ok] otp_current_iff [OF assms(1)]
      using assms(2) that unfolding otp_issue_eq by (auto simp: otp_pending_def)
  qed
  then show ?thesis using ok otp_issue_current [OF assms] by simp
qed

theorem otp_single_in_flight_witness:
  "otp_current (snd (otp_issue id 1 (snd (otp_issue id 0 \<lparr>otp_rows = [], otp_last_id = 0\<rparr> ''1'' ''a'' 9)) ''2'' ''a'' 9)) ''a''
     = Some (fst (otp_issue id 1 (snd (otp_issue id 0 \<lparr>otp_rows = [], otp_last_id = 0\<rparr> ''1'' ''a'' 9)) ''2'' ''a'' 9))"
  using otp_single_in_flight [of "snd (otp_issue id 0 \<lparr>otp_rows = [], otp_last_id = 0\<rparr> ''1'' ''a'' 9)" id 1 "''2''" "''a''" 9
      "fst (otp_issue id 1 (snd (otp_issue id 0 \<lparr>otp_rows = [], otp_last_id = 0\<rparr> ''1'' ''a'' 9)) ''2'' ''a'' 9)"
      "snd (otp_issue id 1 (snd (otp_issue id 0 \<lparr>otp_rows = [], otp_last_id = 0\<rparr> ''1'' ''a'' 9)) ''2'' ''a'' 9)"]
  by (simp add: otps_ok_def otp_issue_def Let_def)

section \<open>The attempt budget\<close>

text \<open>A wrong guess before expiry, from the row that was read.\<close>

definition wrong_guess :: "(char list \<Rightarrow> char list) \<Rightarrow> email_otp \<Rightarrow> time \<times> string \<Rightarrow> bool" where
  "wrong_guess H row g = (fst g < otp_expires_at row \<and> hash_token H (snd g) \<noteq> otp_code_hash row)"

definition guess_one_by_one ::
  "(char list \<Rightarrow> char list) \<Rightarrow> string \<Rightarrow> (time \<times> string) list \<Rightarrow> email_otps \<Rightarrow> email_otps" where
  "guess_one_by_one H email gs t = fold (\<lambda>g t. snd (otp_consume H (fst g) t email (snd g))) gs t"

definition guess_at_once ::
  "(char list \<Rightarrow> char list) \<Rightarrow> email_otp \<Rightarrow> (time \<times> string) list \<Rightarrow> email_otps \<Rightarrow> email_otps" where
  "guess_at_once H row gs t = fold (\<lambda>g t. snd (otp_settle H (fst g) row (snd g) t)) gs t"

lemma current_bump:
  assumes "otps_ok t" and "otp_current t e = Some r" and "otp_id r = i"
  shows "otp_current (otp_update (\<lambda>s. otp_id s = i) (\<lambda>s. s\<lparr>otp_attempts := n\<rparr>) t) e = Some (r\<lparr>otp_attempts := n\<rparr>)"
  using assms unfolding otp_current_iff [OF assms(1)] otp_current_iff [OF otp_update_ok [OF otp_keeps_attempts assms(1)]]
  by (auto simp: otp_update_def set_sql_update otp_pending_def image_iff)

lemma current_lock:
  assumes "otps_ok t" and "otp_current t e = Some r"
  shows "otp_current (otp_update (\<lambda>s. otp_id s = otp_id r)
    (\<lambda>s. s\<lparr>otp_attempts := n, otp_consumed_at := Some now\<rparr>) t) e = None"
  unfolding otp_current_None
proof
  fix s assume "s \<in> set (otp_rows (otp_update (\<lambda>s. otp_id s = otp_id r)
    (\<lambda>s. s\<lparr>otp_attempts := n, otp_consumed_at := Some now\<rparr>) t))"
  then have "s \<in> set (sql_update (\<lambda>s. otp_id s = otp_id r)
    (\<lambda>s. s\<lparr>otp_attempts := n, otp_consumed_at := Some now\<rparr>) (otp_rows t))" by (simp add: otp_update_def)
  then show "\<not> otp_pending e s"
  proof (cases rule: in_sql_updateE)
    case hit
    then show ?thesis by (simp add: otp_pending_def)
  next
    case miss
    then show ?thesis using assms otps_ok_pending otp_current_SomeD by blast
  qed
qed

lemma otp_settle_wrong:
  assumes "wrong_guess H r g"
  shows "otp_settle H (fst g) r (snd g) t =
    (if otp_attempts r + 1 \<ge> MAX_ATTEMPTS
     then (Locked, otp_update (\<lambda>s. otp_id s = otp_id r)
        (\<lambda>s. s\<lparr>otp_attempts := otp_attempts r + 1, otp_consumed_at := Some (fst g)\<rparr>) t)
     else (WrongCode (MAX_ATTEMPTS - (otp_attempts r + 1)),
        otp_update (\<lambda>s. otp_id s = otp_id r) (\<lambda>s. s\<lparr>otp_attempts := otp_attempts r + 1\<rparr>) t))"
  using assms by (auto simp: wrong_guess_def otp_settle_def Let_def)

lemma guess_after_lock: "otp_current t e = None \<Longrightarrow> guess_one_by_one H e gs t = t"
  by (induction gs) (simp_all add: guess_one_by_one_def otp_consume_def)

lemma guess_one_by_one_current:
  assumes "otps_ok t" and "otp_current t e = Some r" and "otp_attempts r < MAX_ATTEMPTS"
    and "list_all (wrong_guess H r) gs"
  shows "otp_current (guess_one_by_one H e gs t) e =
    (if otp_attempts r + int (length gs) < MAX_ATTEMPTS
     then Some (r\<lparr>otp_attempts := otp_attempts r + int (length gs)\<rparr>) else None)"
  using assms
proof (induction gs arbitrary: t r)
  case Nil
  then show ?case by (simp add: guess_one_by_one_def)
next
  case (Cons g gs)
  let ?t = "snd (otp_consume H (fst g) t e (snd g))"
  have step: "guess_one_by_one H e (g # gs) t = guess_one_by_one H e gs ?t"
    by (simp add: guess_one_by_one_def)
  have set: "?t = snd (otp_settle H (fst g) r (snd g) t)" using Cons.prems by (simp add: otp_consume_def)
  have ok: "otps_ok ?t" using Cons.prems(1) by (rule otp_consume_ok)
  note w = otp_settle_wrong [of H r g t]
  show ?case
  proof (cases "otp_attempts r + 1 \<ge> MAX_ATTEMPTS")
    case True
    then have "otp_current ?t e = None"
      using w Cons.prems current_lock [OF Cons.prems(1,2)] set by simp
    then show ?thesis using True step guess_after_lock [of ?t e H gs] by simp
  next
    case False
    let ?r = "r\<lparr>otp_attempts := otp_attempts r + 1\<rparr>"
    have cur: "otp_current ?t e = Some ?r"
      using False w Cons.prems current_bump [OF Cons.prems(1,2) refl] set by simp
    have "list_all (wrong_guess H ?r) gs"
      using Cons.prems(4) by (simp add: list_all_iff wrong_guess_def)
    from Cons.IH [OF ok cur _ this] False step show ?thesis by (simp add: algebra_simps)
  qed
qed

text \<open>five wrong guesses, one request after the other, burn the code: from then on every code is
  answered with \<open>Unknown\<close>, the right one included. Fewer than five leave the code pending with the
  guesses counted.\<close>

theorem otp_locks_after_budget:
  assumes "otps_ok t" and "otp_current t email = Some row" and "otp_attempts row = 0"
    and "list_all (wrong_guess H row) gs"
  shows "if length gs < 5
    then otp_current (guess_one_by_one H email gs t) email = Some (row\<lparr>otp_attempts := int (length gs)\<rparr>)
    else fst (otp_consume H now (guess_one_by_one H email gs t) email code) = OtpUnknown"
  using guess_one_by_one_current [OF assms(1,2) _ assms(4)] assms(3)
  by (simp add: MAX_ATTEMPTS_def otp_consume_def)

theorem otp_locks_after_budget_witness:
  "\<exists>t row. otp_issue id 0 \<lparr>otp_rows = [], otp_last_id = 0\<rparr> ''r'' ''a'' 600 = (row, t) \<and>
     fst (otp_consume id 9 (guess_one_by_one id ''a'' [(1, ''1''), (2, ''2''), (3, ''3''), (4, ''4''), (5, ''5'')] t) ''a'' ''r'') = OtpUnknown"
  using otp_locks_after_budget [of "snd (otp_issue id 0 \<lparr>otp_rows = [], otp_last_id = 0\<rparr> ''r'' ''a'' 600)" "''a''"
      "fst (otp_issue id 0 \<lparr>otp_rows = [], otp_last_id = 0\<rparr> ''r'' ''a'' 600)" id
      "[(1, ''1''), (2, ''2''), (3, ''3''), (4, ''4''), (5, ''5'')]" 9 "''r''"]
  by (simp add: otps_ok_def otp_issue_def Let_def otp_current_def wrong_guess_def hash_token_eq_iff
      as_bytes_def utf8_def)

text \<open>guesses that run at the same time escape the budget: when any number of requests have read the
  pending row before the first of them writes, their wrong guesses together count as one, and the
  right code is still accepted afterwards.\<close>

theorem otp_parallel_guesses_count_once:
  assumes "otps_ok t" and "otp_current t email = Some row" and "otp_attempts row = 0"
    and "gs \<noteq> []" and "list_all (wrong_guess H row) gs"
    and "now < otp_expires_at row" and "hash_token H code = otp_code_hash row"
  shows "otp_current (guess_at_once H row gs t) email = Some (row\<lparr>otp_attempts := 1\<rparr>)
    \<and> fst (otp_consume H now (guess_at_once H row gs t) email code) = OtpOk email"
proof -
  have step: "otps_ok (snd (otp_settle H (fst g) row (snd g) t)) \<and>
      otp_current (snd (otp_settle H (fst g) row (snd g) t)) email = Some (row\<lparr>otp_attempts := 1\<rparr>)"
    if "wrong_guess H row g" "otps_ok t" "otp_current t email = Some r" "otp_id r = otp_id row"
      "r\<lparr>otp_attempts := 1\<rparr> = row\<lparr>otp_attempts := 1\<rparr>" for g t r
    using that assms(3) otp_update_ok [OF otp_keeps_attempts that(2)] current_bump [OF that(2,3), of "otp_id row" 1]
    by (simp add: otp_settle_wrong MAX_ATTEMPTS_def)
  have run: "otps_ok (guess_at_once H row gs t) \<and>
      otp_current (guess_at_once H row gs t) email = Some (row\<lparr>otp_attempts := 1\<rparr>)"
    if "gs \<noteq> []" "otps_ok t" "otp_current t email = Some r" "otp_id r = otp_id row"
      "r\<lparr>otp_attempts := 1\<rparr> = row\<lparr>otp_attempts := 1\<rparr>" "list_all (wrong_guess H row) gs" for gs t r
    using that
  proof (induction gs arbitrary: t r)
    case (Cons g gs)
    show ?case
    proof (cases gs)
      case Nil
      with Cons.prems step [of g t r] show ?thesis by (simp add: guess_at_once_def)
    next
      case (Cons g' gs')
      with Cons.prems Cons.IH [of "snd (otp_settle H (fst g) row (snd g) t)" "row\<lparr>otp_attempts := 1\<rparr>"] step [of g t r]
      show ?thesis by (simp add: guess_at_once_def)
    qed
  qed simp
  let ?u = "guess_at_once H row gs t"
  have u: "otps_ok ?u" "otp_current ?u email = Some (row\<lparr>otp_attempts := 1\<rparr>)"
    using run [OF assms(4,1,2) _ _ assms(5)] by simp_all
  then have mem: "row\<lparr>otp_attempts := 1\<rparr> \<in> set (otp_rows ?u)" "otp_pending email row"
    using otp_current_SomeD [of ?u email] by (auto simp: otp_pending_def)
  then have "sql_count (\<lambda>r. otp_id r = otp_id row \<and> otp_consumed_at r = None) (otp_rows ?u) \<noteq> 0"
    unfolding sql_count_eq_0 by (auto simp: otp_pending_def intro!: bexI [OF _ mem(1)])
  then show ?thesis
    using u mem(2) assms(6,7) by (simp add: otp_consume_def otp_settle_def otp_claim_eq otp_pending_def)
qed

theorem otp_parallel_guesses_count_once_witness:
  "fst (otp_consume id 9 (guess_at_once id (fst (otp_issue id 0 \<lparr>otp_rows = [], otp_last_id = 0\<rparr> ''r'' ''a'' 600))
      [(1, ''1''), (1, ''2''), (1, ''3''), (1, ''4''), (1, ''5''), (1, ''6'')]
      (snd (otp_issue id 0 \<lparr>otp_rows = [], otp_last_id = 0\<rparr> ''r'' ''a'' 600))) ''a'' ''r'') = OtpOk ''a''"
  by (rule otp_parallel_guesses_count_once [THEN conjunct2])
    (simp_all add: otps_ok_def otp_issue_def Let_def otp_current_def wrong_guess_def hash_token_eq_iff
      as_bytes_def utf8_def)

end
