(* ===== verification/Accounts.thy ===== *)
theory Accounts
  imports Scopes One_Shot Email_Otp
begin

text \<open>
  The account tables: end users, the three kinds of admins, TOTP enrolments, OAuth links and
  providers, and the server's secrets (\<^verbatim>\<open>users.rs\<close>, \<^verbatim>\<open>admins.rs\<close>, \<^verbatim>\<open>user_totp.rs\<close>,
  \<^verbatim>\<open>oauth_links.rs\<close>, \<^verbatim>\<open>oauth_providers.rs\<close>, \<^verbatim>\<open>secrets.rs\<close> of \<^verbatim>\<open>rustbase-db\<close>).
  A generated row id (\<open>Uuid::now_v7\<close>) is an argument.
\<close>

section \<open>Users\<close>

record user =
  u_id :: string
  u_email :: string
  u_password_hash :: "string option"
  u_verified :: bool
  u_last_login :: "time option"
  u_created_at :: time

type_synonym users = "user list"

definition insert_user_row :: "users \<Rightarrow> user \<Rightarrow> (db_error, users, user) stmt" where
  "insert_user_row t u =
     (if u_id u \<in> u_id ` set t \<or> u_email u \<in> u_email ` set t then (Inl (Sqlx UniqueViolation), t)
      else (Inr u, t @ [u]))"

definition insert_user :: "string \<Rightarrow> time \<Rightarrow> users \<Rightarrow> string \<Rightarrow> string \<Rightarrow> (db_error, users, user) stmt" where
  "insert_user i now t email password_hash =
     insert_user_row t \<lparr>u_id = i, u_email = email, u_password_hash = Some password_hash,
       u_verified = False, u_last_login = None, u_created_at = now\<rparr>"

definition insert_passwordless_user :: "string \<Rightarrow> time \<Rightarrow> users \<Rightarrow> string \<Rightarrow> (db_error, users, user) stmt" where
  "insert_passwordless_user i now t email =
     insert_user_row t \<lparr>u_id = i, u_email = email, u_password_hash = None,
       u_verified = False, u_last_login = None, u_created_at = now\<rparr>"

definition find_user_by_email :: "users \<Rightarrow> string \<Rightarrow> user option" where
  "find_user_by_email t email = List.find (\<lambda>u. u_email u = email) t"

definition find_user_by_id :: "users \<Rightarrow> string \<Rightarrow> user option" where
  "find_user_by_id t i = List.find (\<lambda>u. u_id u = i) t"

definition record_last_login :: "time \<Rightarrow> users \<Rightarrow> string \<Rightarrow> users" where
  "record_last_login now t i = sql_update (\<lambda>u. u_id u = i) (\<lambda>u. u\<lparr>u_last_login := Some now\<rparr>) t"

definition mark_verified :: "users \<Rightarrow> string \<Rightarrow> users" where
  "mark_verified t i = sql_update (\<lambda>u. u_id u = i) (\<lambda>u. u\<lparr>u_verified := True\<rparr>) t"

definition set_password_hash :: "users \<Rightarrow> string \<Rightarrow> string \<Rightarrow> users" where
  "set_password_hash t i hash = sql_update (\<lambda>u. u_id u = i) (\<lambda>u. u\<lparr>u_password_hash := Some hash\<rparr>) t"

definition email_pattern :: "string \<Rightarrow> string" where
  "email_pattern email_like = (if email_like = [] then ''%'' else ''%'' @ email_like @ ''%'')"

definition list_users :: "users \<Rightarrow> string \<Rightarrow> int \<Rightarrow> int \<Rightarrow> users" where
  "list_users t email_like limit offset =
     sql_limit limit offset
       (sort_key (\<lambda>u. - u_created_at u) (filter (\<lambda>u. sql_like (email_pattern email_like) (u_email u)) t))"

definition count_users :: "users \<Rightarrow> string \<Rightarrow> nat" where
  "count_users t email_like = sql_count (\<lambda>u. sql_like (email_pattern email_like) (u_email u)) t"

definition users_ok :: "users \<Rightarrow> bool" where
  "users_ok t = (unique_on u_id t \<and> unique_on u_email t)"

section \<open>Admins\<close>

record master_admin =
  ma_id :: string
  ma_username :: string
  ma_email :: "string option"
  ma_password_hash :: "string option"
  ma_name :: "string option"
  ma_created_at :: time

record workspace_admin =
  wa_id :: string
  wa_email :: string
  wa_password_hash :: string
  wa_name :: "string option"
  wa_created_at :: time

record app_admin =
  aa_id :: string
  aa_app_id :: string
  aa_email :: string
  aa_password_hash :: string
  aa_name :: "string option"
  aa_created_at :: time

type_synonym master_admins = "master_admin list"
type_synonym workspace_admins = "workspace_admin list"
type_synonym app_admins = "app_admin list"

definition insert_master_row :: "master_admins \<Rightarrow> master_admin \<Rightarrow> (db_error, master_admins, master_admin) stmt" where
  "insert_master_row t a =
     (if ma_id a \<in> ma_id ` set t \<or> ma_username a \<in> ma_username ` set t then (Inl (Sqlx UniqueViolation), t)
      else (Inr a, t @ [a]))"

definition count_master_admins :: "master_admins \<Rightarrow> nat" where
  "count_master_admins t = sql_count (\<lambda>_. True) t"

definition ensure_seed_master_admin :: "string \<Rightarrow> time \<Rightarrow> master_admins \<Rightarrow> (db_error, master_admins, unit) stmt" where
  "ensure_seed_master_admin i now t =
     (if count_master_admins t > 0 then (Inr (), t)
      else case insert_master_row t \<lparr>ma_id = i, ma_username = ''admin'', ma_email = None,
             ma_password_hash = None, ma_name = Some ''admin'', ma_created_at = now\<rparr> of
        (Inl e, t') \<Rightarrow> (Inl e, t')
      | (Inr _, t') \<Rightarrow> (Inr (), t'))"

definition insert_master_admin ::
  "string \<Rightarrow> time \<Rightarrow> master_admins \<Rightarrow> string \<Rightarrow> string \<Rightarrow> string option \<Rightarrow> (db_error, master_admins, master_admin) stmt" where
  "insert_master_admin i now t username password_hash name =
     insert_master_row t \<lparr>ma_id = i, ma_username = username, ma_email = None,
       ma_password_hash = Some password_hash, ma_name = name, ma_created_at = now\<rparr>"

definition find_master_admin_by_username :: "master_admins \<Rightarrow> string \<Rightarrow> master_admin option" where
  "find_master_admin_by_username t username = List.find (\<lambda>a. ma_username a = username) t"

definition find_master_admin_by_id :: "master_admins \<Rightarrow> string \<Rightarrow> master_admin option" where
  "find_master_admin_by_id t i = List.find (\<lambda>a. ma_id a = i) t"

definition set_master_admin_password :: "master_admins \<Rightarrow> string \<Rightarrow> string \<Rightarrow> (db_error, master_admins, unit) stmt" where
  "set_master_admin_password t i password_hash =
     (if sql_count (\<lambda>a. ma_id a = i) t = 0 then (Inl (Sqlx RowNotFound), t)
      else (Inr (), sql_update (\<lambda>a. ma_id a = i) (\<lambda>a. a\<lparr>ma_password_hash := Some password_hash\<rparr>) t))"

definition master_admin_is_initialized :: "master_admins \<Rightarrow> bool" where
  "master_admin_is_initialized t = (sql_count (\<lambda>a. ma_password_hash a \<noteq> None) t > 0)"

definition delete_master_admin :: "master_admins \<Rightarrow> string \<Rightarrow> (db_error, master_admins, unit) stmt" where
  "delete_master_admin t i =
     (if sql_count (\<lambda>a. ma_id a = i) t = 0 then (Inl (Sqlx RowNotFound), t)
      else (Inr (), sql_delete (\<lambda>a. ma_id a = i) t))"

definition insert_realm_admin ::
  "string \<Rightarrow> time \<Rightarrow> workspace_admins \<Rightarrow> string \<Rightarrow> string \<Rightarrow> string option
    \<Rightarrow> (db_error, workspace_admins, workspace_admin) stmt" where
  "insert_realm_admin i now t email password_hash name =
     (let a = \<lparr>wa_id = i, wa_email = email, wa_password_hash = password_hash, wa_name = name, wa_created_at = now\<rparr>
      in if i \<in> wa_id ` set t \<or> email \<in> wa_email ` set t then (Inl (Sqlx UniqueViolation), t)
         else (Inr a, t @ [a]))"

definition find_workspace_admin_by_email :: "workspace_admins \<Rightarrow> string \<Rightarrow> workspace_admin option" where
  "find_workspace_admin_by_email t email = List.find (\<lambda>a. wa_email a = email) t"

text \<open>App admins reference \<open>apps(id)\<close> and are unique per app and email.\<close>

definition insert_app_admin ::
  "string \<Rightarrow> time \<Rightarrow> string list \<Rightarrow> app_admins \<Rightarrow> string \<Rightarrow> string \<Rightarrow> string \<Rightarrow> string option
    \<Rightarrow> (db_error, app_admins, app_admin) stmt" where
  "insert_app_admin i now app_ids t app email password_hash name =
     (let a = \<lparr>aa_id = i, aa_app_id = app, aa_email = email, aa_password_hash = password_hash,
               aa_name = name, aa_created_at = now\<rparr>
      in if i \<in> aa_id ` set t \<or> (app, email) \<in> (\<lambda>a. (aa_app_id a, aa_email a)) ` set t
         then (Inl (Sqlx UniqueViolation), t)
         else if app \<notin> set app_ids then (Inl (Sqlx ForeignKeyViolation), t)
         else (Inr a, t @ [a]))"

definition find_app_admin_by_email :: "app_admins \<Rightarrow> string \<Rightarrow> string \<Rightarrow> app_admin option" where
  "find_app_admin_by_email t app email = List.find (\<lambda>a. aa_app_id a = app \<and> aa_email a = email) t"

section \<open>TOTP enrolments\<close>

record totp_row =
  tp_user_id :: string
  tp_secret_b32 :: "string option"
  tp_secret_enc :: "char list option"
  tp_enrolled_at :: time
  tp_confirmed_at :: "time option"
  tp_enabled :: bool

record user_totp =
  ut_user_id :: string
  ut_secret :: stored_secret
  ut_enrolled_at :: time
  ut_confirmed_at :: "time option"
  ut_enabled :: bool

type_synonym totps = "totp_row list"

definition totp_enroll ::
  "time \<Rightarrow> string list \<Rightarrow> totps \<Rightarrow> string \<Rightarrow> stored_secret \<Rightarrow> (db_error, totps, user_totp) stmt" where
  "totp_enroll now users t user secret =
     (case secret_columns secret of
        (clear, enc) \<Rightarrow>
          let new = \<lparr>tp_user_id = user, tp_secret_b32 = clear, tp_secret_enc = enc,
                     tp_enrolled_at = now, tp_confirmed_at = None, tp_enabled = False\<rparr>
          in if user \<notin> set users \<and> user \<notin> tp_user_id ` set t then (Inl (Sqlx ForeignKeyViolation), t)
             else (Inr \<lparr>ut_user_id = user, ut_secret = secret, ut_enrolled_at = now,
                        ut_confirmed_at = None, ut_enabled = False\<rparr>,
                   sql_upsert tp_user_id new
                     (\<lambda>r. r\<lparr>tp_secret_b32 := clear, tp_secret_enc := enc, tp_enrolled_at := now,
                            tp_confirmed_at := None, tp_enabled := False\<rparr>) t))"

definition totp_find :: "totps \<Rightarrow> string \<Rightarrow> db_error + user_totp option" where
  "totp_find t user =
     (case List.find (\<lambda>r. tp_user_id r = user) t of
        None \<Rightarrow> Inr None
      | Some r \<Rightarrow>
          (case secret_from_columns (tp_secret_b32 r) (tp_secret_enc r) of
             None \<Rightarrow> Inl (Invariant (''_user_totp row for '' @ tp_user_id r @
                       '' holds neither exactly one secret nor the other''))
           | Some s \<Rightarrow> Inr (Some \<lparr>ut_user_id = tp_user_id r, ut_secret = s, ut_enrolled_at = tp_enrolled_at r,
                       ut_confirmed_at = tp_confirmed_at r, ut_enabled = tp_enabled r\<rparr>)))"

definition totp_confirm_enabled :: "time \<Rightarrow> totps \<Rightarrow> string \<Rightarrow> nat \<times> totps" where
  "totp_confirm_enabled now t user =
     (let p = (\<lambda>r. tp_user_id r = user \<and> \<not> tp_enabled r)
      in (sql_count p t, sql_update p (\<lambda>r. r\<lparr>tp_enabled := True, tp_confirmed_at := Some now\<rparr>) t))"

definition totp_disable :: "totps \<Rightarrow> string \<Rightarrow> nat \<times> totps" where
  "totp_disable t user = (sql_count (\<lambda>r. tp_user_id r = user) t, sql_delete (\<lambda>r. tp_user_id r = user) t)"

section \<open>OAuth links and providers\<close>

record oauth_link =
  ol_user_id :: string
  ol_provider :: string
  ol_provider_user_id :: string

type_synonym oauth_links = "oauth_link list"

definition upsert_link ::
  "string list \<Rightarrow> oauth_links \<Rightarrow> string \<Rightarrow> string \<Rightarrow> string \<Rightarrow> (db_error, oauth_links, unit) stmt" where
  "upsert_link users t user provider provider_user =
     (if user \<notin> set users \<and> (user, provider) \<notin> (\<lambda>l. (ol_user_id l, ol_provider l)) ` set t
      then (Inl (Sqlx ForeignKeyViolation), t)
      else (Inr (), sql_upsert (\<lambda>l. (ol_user_id l, ol_provider l))
              \<lparr>ol_user_id = user, ol_provider = provider, ol_provider_user_id = provider_user\<rparr>
              (\<lambda>l. l\<lparr>ol_provider_user_id := provider_user\<rparr>) t))"

definition find_by_provider_user :: "oauth_links \<Rightarrow> string \<Rightarrow> string \<Rightarrow> oauth_link option" where
  "find_by_provider_user t provider provider_user =
     List.find (\<lambda>l. ol_provider l = provider \<and> ol_provider_user_id l = provider_user) t"

definition list_links_for_user :: "oauth_links \<Rightarrow> string \<Rightarrow> oauth_links" where
  "list_links_for_user t user = sort_key ol_provider (filter (\<lambda>l. ol_user_id l = user) t)"

record oauth_provider_config =
  oc_auth_url :: string
  oc_token_url :: string
  oc_userinfo_url :: string
  oc_scopes :: "string list"
  oc_userinfo_id_field :: string
  oc_userinfo_email_field :: string

record oauth_provider =
  op_provider :: string
  op_client_id :: string
  op_secret_enc :: "char list"
  op_config :: oauth_provider_config

record oauth_provider_summary =
  os_provider :: string
  os_client_id :: string
  os_config :: oauth_provider_config

text \<open>The nullable \<open>config_json\<close> column, by what decoding it gives.\<close>

record provider_row =
  pr_provider :: string
  pr_client_id :: string
  pr_client_secret_enc :: "char list"
  pr_config_json :: "(string + oauth_provider_config) option"

type_synonym oauth_providers = "provider_row list"

definition decode_config :: "(string + oauth_provider_config) option \<Rightarrow> db_error + oauth_provider_config" where
  "decode_config c = (case c of
      Some (Inr x) \<Rightarrow> Inr x
    | Some (Inl e) \<Rightarrow> Inl (InvalidIdentifier (''config: '' @ e))
    | None \<Rightarrow> Inr \<lparr>oc_auth_url = [], oc_token_url = [], oc_userinfo_url = [], oc_scopes = [],
               oc_userinfo_id_field = ''/sub'', oc_userinfo_email_field = ''/email''\<rparr>)"

definition upsert_provider :: "oauth_providers \<Rightarrow> oauth_provider \<Rightarrow> oauth_providers" where
  "upsert_provider t p =
     sql_upsert pr_provider
       \<lparr>pr_provider = op_provider p, pr_client_id = op_client_id p,
        pr_client_secret_enc = op_secret_enc p, pr_config_json = Some (Inr (op_config p))\<rparr>
       (\<lambda>r. r\<lparr>pr_client_id := op_client_id p, pr_client_secret_enc := op_secret_enc p,
              pr_config_json := Some (Inr (op_config p))\<rparr>) t"

definition find_provider :: "oauth_providers \<Rightarrow> string \<Rightarrow> db_error + oauth_provider option" where
  "find_provider t provider =
     (case List.find (\<lambda>r. pr_provider r = provider) t of
        None \<Rightarrow> Inr None
      | Some r \<Rightarrow> rbind (decode_config (pr_config_json r))
          (\<lambda>c. Inr (Some \<lparr>op_provider = pr_provider r, op_client_id = pr_client_id r,
                  op_secret_enc = pr_client_secret_enc r, op_config = c\<rparr>)))"

fun summarise_providers :: "oauth_providers \<Rightarrow> db_error + oauth_provider_summary list" where
  "summarise_providers [] = Inr []"
| "summarise_providers (r # rs) =
     rbind (decode_config (pr_config_json r)) (\<lambda>c.
       rbind (summarise_providers rs) (\<lambda>xs.
         Inr (\<lparr>os_provider = pr_provider r, os_client_id = pr_client_id r, os_config = c\<rparr> # xs)))"

definition list_providers :: "oauth_providers \<Rightarrow> db_error + oauth_provider_summary list" where
  "list_providers t = summarise_providers (sort_key pr_provider t)"

definition delete_provider :: "oauth_providers \<Rightarrow> string \<Rightarrow> nat \<times> oauth_providers" where
  "delete_provider t provider =
     (sql_count (\<lambda>r. pr_provider r = provider) t, sql_delete (\<lambda>r. pr_provider r = provider) t)"

section \<open>Server secrets\<close>

record secret_row =
  se_name :: string
  se_value :: "char list"
  se_created_at :: time

type_synonym secrets = "secret_row list"

definition get_secret :: "secrets \<Rightarrow> string \<Rightarrow> char list option" where
  "get_secret t name = map_option se_value (List.find (\<lambda>r. se_name r = name) t)"

text \<open>\<open>INSERT OR REPLACE\<close> deletes the conflicting row first.\<close>

definition put_secret :: "time \<Rightarrow> secrets \<Rightarrow> string \<Rightarrow> char list \<Rightarrow> secrets" where
  "put_secret now t name val =
     sql_delete (\<lambda>r. se_name r = name) t @ [\<lparr>se_name = name, se_value = val, se_created_at = now\<rparr>]"

definition get_or_init_secret :: "time \<Rightarrow> secrets \<Rightarrow> string \<Rightarrow> char list \<Rightarrow> char list \<times> secrets" where
  "get_or_init_secret now t name default_val =
     (case get_secret t name of
        Some val \<Rightarrow> (val, t)
      | None \<Rightarrow> (default_val, put_secret now t name default_val))"

end
