(* ===== verification/App_Tables.thy ===== *)
theory App_Tables
  imports Scopes
begin

text \<open>
  The tables of an app's \<^verbatim>\<open>data.db\<close>: collections with the tables they own
  (\<^verbatim>\<open>collections.rs\<close>), access rules (\<^verbatim>\<open>access_rules.rs\<close>) and file metadata
  (\<^verbatim>\<open>files.rs\<close>).

  The catalog is part of the state: \<open>ad_tables\<close> holds the columns of every collection table and
  \<open>ad_missing\<close> the built-in tables that have been dropped, so that a statement against a dropped
  table fails. SQLite's rules for \<open>ALTER TABLE\<close> are written out: a column can neither be added nor
  dropped with a \<open>UNIQUE\<close> constraint. Statements run one by one, outside any transaction, as in the
  code. \<open>schema_json\<close> holds what decoding it gives, as for policies.

  The lemmas show what a validated schema guarantees, that the catalog and the metadata agree as long
  as no statement fails, and which operations break that agreement or drop a built-in table.
\<close>

section \<open>Collections\<close>

definition RESERVED_COLLECTION_IDS :: "string list" where
  "RESERVED_COLLECTION_IDS =
     [''_collections'', ''_access_rules'', ''_migrations'', ''policies'', ''audit_log'', ''_files'',
      ''users'', ''oauth_providers'', ''user_oauth_links'', ''_refresh_tokens'', ''_email_verifications'',
      ''_password_resets'', ''_email_otps'', ''_oauth_states'', ''_user_totp'', ''_mfa_challenges'']"

definition RESERVED_FIELD_NAMES :: "string list" where
  "RESERVED_FIELD_NAMES = [''id'', ''created_at'', ''updated_at'']"

text \<open>The tables the app migrations and the migration runner create.\<close>

definition BUILTIN_TABLES :: "string list" where
  "BUILTIN_TABLES = [''_collections'', ''_access_rules'', ''policies'', ''audit_log'', ''_files'', ''_migrations'']"

record column =
  col_name :: string
  col_type :: string
  col_not_null :: bool
  col_unique :: bool

record collection =
  c_id :: string
  c_kind :: collection_kind
  c_schema :: schema
  c_created_at :: time
  c_updated_at :: time

record collection_row =
  cr_id :: string
  cr_name :: string
  cr_kind :: string
  cr_schema_json :: "string + schema"
  cr_created_at :: time
  cr_updated_at :: time

record access_rule_row =
  ar_collection_id :: string
  ar_action :: string
  ar_filter :: "string option"

record file_meta =
  f_id :: string
  f_filename :: string
  f_mime :: "string option"
  f_size :: int
  f_created_at :: time

text \<open>A value in a table and a row of a collection's table; a column the row was not written with is NULL.\<close>

datatype sql_val = SNull | SInt int | SReal rat | SText string

record db_row =
  dr_id :: string
  dr_created_at :: time
  dr_updated_at :: time
  dr_cols :: "string \<Rightarrow> sql_val"

record app_db =
  ad_collections :: "collection_row list"
  ad_rules :: "access_rule_row list"
  ad_files :: "file_meta list"
  ad_policies :: policies
  ad_audit :: audit_log
  ad_tables :: "string \<rightharpoonup> column list"
  ad_missing :: "string set"
  ad_rows :: "string \<Rightarrow> db_row list"

definition need :: "app_db \<Rightarrow> string \<Rightarrow> db_error + unit" where
  "need db name = (if name \<in> ad_missing db then Inl (Sqlx (NoSuchTable name)) else Inr ())"

definition is_valid_ident :: "string \<Rightarrow> bool" where
  "is_valid_ident s =
     (let len = length (as_bytes s) in 2 \<le> len \<and> len \<le> 50 \<and>
      (case s of [] \<Rightarrow> False | first # _ \<Rightarrow>
        (is_ascii_lowercase first \<or> first = CHR ''_'') \<and>
        list_all (\<lambda>c. is_ascii_lowercase c \<or> is_ascii_digit c \<or> c = CHR ''_'') s))"

fun validate_fields :: "string set \<Rightarrow> field list \<Rightarrow> db_error + unit" where
  "validate_fields seen [] = Inr ()"
| "validate_fields seen (f # fs) =
     (if \<not> is_valid_ident (fname f) then Inl (InvalidIdentifier (fname f))
      else if fname f \<in> set RESERVED_FIELD_NAMES
      then Inl (InvalidIdentifier (''field name '' @ [CHR 0x27] @ fname f @ [CHR 0x27] @ '' is reserved''))
      else if fname f \<in> seen
      then Inl (InvalidIdentifier (''duplicate field name '' @ [CHR 0x27] @ fname f @ [CHR 0x27]))
      else validate_fields (insert (fname f) seen) fs)"

definition validate_schema :: "schema \<Rightarrow> db_error + unit" where
  "validate_schema s =
     (if \<not> is_valid_ident (collection_str (schema_id s)) then Inl (InvalidIdentifier (collection_str (schema_id s)))
      else validate_fields {} (schema_fields s))"

fun sql_type :: "field_type \<Rightarrow> string" where
  "sql_type (Number _ _) = ''REAL''"
| "sql_type Bool = ''INTEGER''"
| "sql_type _ = ''TEXT''"

definition field_types_compatible :: "field_type \<Rightarrow> field_type \<Rightarrow> bool" where
  "field_types_compatible a b = (sql_type a = sql_type b)"

fun collection_kind_str :: "collection_kind \<Rightarrow> string" where
  "collection_kind_str Base = ''base''"
| "collection_kind_str Auth = ''auth''"
| "collection_kind_str View = ''view''"

definition parse_collection_kind :: "string \<Rightarrow> collection_kind option" where
  "parse_collection_kind s =
     (if s = ''base'' then Some Base else if s = ''auth'' then Some Auth
      else if s = ''view'' then Some View else None)"

definition field_column :: "field \<Rightarrow> column" where
  "field_column f = \<lparr>col_name = fname f, col_type = sql_type (fty f), col_not_null = frequired f, col_unique = funique f\<rparr>"

text \<open>\<open>columns_sql\<close>: the three built-in columns and one per field.\<close>

definition schema_columns :: "schema \<Rightarrow> column list" where
  "schema_columns s =
     [\<lparr>col_name = ''id'', col_type = ''TEXT'', col_not_null = False, col_unique = True\<rparr>,
      \<lparr>col_name = ''created_at'', col_type = ''TEXT'', col_not_null = True, col_unique = False\<rparr>,
      \<lparr>col_name = ''updated_at'', col_type = ''TEXT'', col_not_null = True, col_unique = False\<rparr>]
     @ map field_column (schema_fields s)"

text \<open>Names that start with \<open>sqlite_\<close> are reserved by SQLite.\<close>

definition create_table :: "app_db \<Rightarrow> string \<Rightarrow> column list \<Rightarrow> (db_error, app_db, unit) stmt" where
  "create_table db name cols =
     (if take 7 name = ''sqlite_'' then (Inl (Sqlx (OtherSqlx ''object name reserved for internal use'')), db)
      else if ad_tables db name \<noteq> None \<or> name \<in> set BUILTIN_TABLES - ad_missing db
      then (Inl (Sqlx (TableExists name)), db)
      else (Inr (), db\<lparr>ad_tables := (ad_tables db)(name \<mapsto> cols), ad_rows := (ad_rows db)(name := [])\<rparr>))"

text \<open>\<open>DROP TABLE IF EXISTS\<close>. Dropping a referenced table deletes its rows first, so dropping
  \<open>_collections\<close> cascades to the access rules.\<close>

definition drop_table :: "app_db \<Rightarrow> string \<Rightarrow> app_db" where
  "drop_table db name =
     (if name \<in> set BUILTIN_TABLES
      then db\<lparr>ad_missing := insert name (ad_missing db),
              ad_rules := (if name = ''_collections'' then [] else ad_rules db)\<rparr>
      else db\<lparr>ad_tables := (ad_tables db)(name := None), ad_rows := (ad_rows db)(name := [])\<rparr>)"

definition decode_collection :: "collection_row \<Rightarrow> db_error + collection" where
  "decode_collection r =
     (case parse_collection_kind (cr_kind r) of
        None \<Rightarrow> Inl (InvalidIdentifier (''unknown collection kind: '' @ cr_kind r))
      | Some k \<Rightarrow>
          (case cr_schema_json r of
             Inl e \<Rightarrow> Inl (InvalidIdentifier (''schema json: '' @ e))
           | Inr s \<Rightarrow> Inr \<lparr>c_id = cr_id r, c_kind = k, c_schema = s,
                       c_created_at = cr_created_at r, c_updated_at = cr_updated_at r\<rparr>))"

definition create_collection :: "time \<Rightarrow> app_db \<Rightarrow> schema \<Rightarrow> (db_error, app_db, collection) stmt" where
  "create_collection now db s =
     (let i = collection_str (schema_id s) in
      case validate_schema s of
        Inl e \<Rightarrow> (Inl e, db)
      | Inr _ \<Rightarrow>
          if i \<in> set RESERVED_COLLECTION_IDS
          then (Inl (InvalidIdentifier (''collection id '' @ [CHR 0x27] @ i @ [CHR 0x27] @ '' is reserved'')), db)
          else case create_table db i (schema_columns s) of
            (Inl e, db') \<Rightarrow> (Inl e, db')
          | (Inr _, db') \<Rightarrow>
              (case need db' ''_collections'' of
                 Inl e \<Rightarrow> (Inl e, db')
               | Inr _ \<Rightarrow>
                   if i \<in> cr_id ` set (ad_collections db') \<or> i \<in> cr_name ` set (ad_collections db')
                   then (Inl (Sqlx UniqueViolation), db')
                   else (Inr \<lparr>c_id = i, c_kind = schema_kind s, c_schema = s, c_created_at = now, c_updated_at = now\<rparr>,
                         db'\<lparr>ad_collections := ad_collections db' @
                           [\<lparr>cr_id = i, cr_name = i, cr_kind = collection_kind_str (schema_kind s),
                             cr_schema_json = Inr s, cr_created_at = now, cr_updated_at = now\<rparr>]\<rparr>)))"

definition find_collection :: "app_db \<Rightarrow> string \<Rightarrow> db_error + collection option" where
  "find_collection db i =
     rbind (need db ''_collections'') (\<lambda>_.
       case List.find (\<lambda>r. cr_id r = i) (ad_collections db) of
         None \<Rightarrow> Inr None
       | Some r \<Rightarrow> rbind (decode_collection r) (\<lambda>c. Inr (Some c)))"

fun decode_collections :: "collection_row list \<Rightarrow> db_error + collection list" where
  "decode_collections [] = Inr []"
| "decode_collections (r # rs) =
     rbind (decode_collection r) (\<lambda>c. rbind (decode_collections rs) (\<lambda>cs. Inr (c # cs)))"

definition list_collections :: "app_db \<Rightarrow> db_error + collection list" where
  "list_collections db =
     rbind (need db ''_collections'') (\<lambda>_. decode_collections (sort_key cr_created_at (ad_collections db)))"

text \<open>Deleting a collection's row cascades to its access rules.\<close>

definition delete_collection :: "app_db \<Rightarrow> string \<Rightarrow> (db_error, app_db, unit) stmt" where
  "delete_collection db i =
     (if \<not> is_valid_ident i then (Inl (InvalidIdentifier i), db)
      else let db' = drop_table db i in
        case need db' ''_collections'' of
          Inl e \<Rightarrow> (Inl e, db')
        | Inr _ \<Rightarrow>
            if sql_count (\<lambda>r. cr_id r = i) (ad_collections db') = 0 then (Inl (Sqlx RowNotFound), db')
            else (Inr (), db'\<lparr>ad_collections := sql_delete (\<lambda>r. cr_id r = i) (ad_collections db'),
                              ad_rules := sql_delete (\<lambda>r. ar_collection_id r = i) (ad_rules db')\<rparr>))"

record schema_diff =
  sd_added :: "string list"
  sd_dropped :: "string list"

definition set_cells :: "string \<Rightarrow> sql_val \<Rightarrow> db_row list \<Rightarrow> db_row list" where
  "set_cells name v rows = map (\<lambda>r. r\<lparr>dr_cols := (dr_cols r)(name := v)\<rparr>) rows"

text \<open>A new column is NULL in the rows that are there; a dropped one takes its values with it.\<close>

definition add_column :: "app_db \<Rightarrow> string \<Rightarrow> column \<Rightarrow> (db_error, app_db, unit) stmt" where
  "add_column db t col =
     (case ad_tables db t of
        None \<Rightarrow> (Inl (Sqlx (NoSuchTable t)), db)
      | Some cols \<Rightarrow>
          if col_unique col then (Inl (Sqlx (OtherSqlx ''Cannot add a UNIQUE column'')), db)
          else if col_name col \<in> col_name ` set cols then (Inl (Sqlx (DuplicateColumn (col_name col))), db)
          else (Inr (), db\<lparr>ad_tables := (ad_tables db)(t \<mapsto> cols @ [col]),
                            ad_rows := (ad_rows db)(t := set_cells (col_name col) SNull (ad_rows db t))\<rparr>))"

definition drop_column :: "app_db \<Rightarrow> string \<Rightarrow> string \<Rightarrow> (db_error, app_db, unit) stmt" where
  "drop_column db t name =
     (case ad_tables db t of
        None \<Rightarrow> (Inl (Sqlx (NoSuchTable t)), db)
      | Some cols \<Rightarrow>
          (case List.find (\<lambda>c. col_name c = name) cols of
             None \<Rightarrow> (Inl (Sqlx (OtherSqlx (''no such column: '' @ name))), db)
           | Some col \<Rightarrow>
               if col_unique col then (Inl (Sqlx (OtherSqlx (''cannot drop UNIQUE column: '' @ name))), db)
               else (Inr (), db\<lparr>ad_tables := (ad_tables db)(t \<mapsto> filter (\<lambda>c. col_name c \<noteq> name) cols),
                                 ad_rows := (ad_rows db)(t := set_cells name SNull (ad_rows db t))\<rparr>)))"

fun add_columns :: "app_db \<Rightarrow> string \<Rightarrow> field list \<Rightarrow> (db_error, app_db, unit) stmt" where
  "add_columns db t [] = (Inr (), db)"
| "add_columns db t (f # fs) =
     (case add_column db t \<lparr>col_name = fname f, col_type = sql_type (fty f), col_not_null = False, col_unique = funique f\<rparr> of
        (Inl e, db') \<Rightarrow> (Inl e, db')
      | (Inr _, db') \<Rightarrow> add_columns db' t fs)"

fun drop_columns :: "app_db \<Rightarrow> string \<Rightarrow> field list \<Rightarrow> (db_error, app_db, unit) stmt" where
  "drop_columns db t [] = (Inr (), db)"
| "drop_columns db t (f # fs) =
     (case drop_column db t (fname f) of
        (Inl e, db') \<Rightarrow> (Inl e, db')
      | (Inr _, db') \<Rightarrow> drop_columns db' t fs)"

text \<open>The kept fields are visited in name order (\<open>BTreeMap\<close>); \<open>show_usize\<close> prints a count.\<close>

definition incompatible_field :: "schema \<Rightarrow> schema \<Rightarrow> string option" where
  "incompatible_field old new =
     List.find (\<lambda>name. \<exists>f \<in> set (schema_fields old). \<exists>g \<in> set (schema_fields new).
         fname f = name \<and> fname g = name \<and> \<not> field_types_compatible (fty f) (fty g))
       (sort (map fname (schema_fields new)))"

definition patch_collection ::
  "(nat \<Rightarrow> string) \<Rightarrow> time \<Rightarrow> app_db \<Rightarrow> schema \<Rightarrow> bool \<Rightarrow> (db_error, app_db, collection \<times> schema_diff) stmt" where
  "patch_collection show_usize now db desired force =
     (let i = collection_str (schema_id desired) in
      case rbind (validate_schema desired) (\<lambda>_. find_collection db i) of
        Inl e \<Rightarrow> (Inl e, db)
      | Inr None \<Rightarrow> (Inl (Sqlx RowNotFound), db)
      | Inr (Some existing) \<Rightarrow>
          if c_kind existing \<noteq> schema_kind desired
          then (Inl (InvalidIdentifier ''changing collection kind is not supported''), db)
          else case incompatible_field (c_schema existing) desired of
            Some name \<Rightarrow> (Inl (InvalidIdentifier (''changing the type of field '' @ [CHR 0x27] @ name @ [CHR 0x27] @ '' is not supported'')), db)
          | None \<Rightarrow>
              let added = filter (\<lambda>f. fname f \<notin> fname ` set (schema_fields (c_schema existing))) (schema_fields desired);
                  dropped = filter (\<lambda>f. fname f \<notin> fname ` set (schema_fields desired)) (schema_fields (c_schema existing))
              in if dropped \<noteq> [] \<and> \<not> force
                 then (Inl (InvalidIdentifier (''schema patch would drop '' @ show_usize (length dropped) @
                         '' field(s); pass force=true to confirm'')), db)
                 else case add_columns db i added of
                   (Inl e, db1) \<Rightarrow> (Inl e, db1)
                 | (Inr _, db1) \<Rightarrow>
                     (case drop_columns db1 i dropped of
                        (Inl e, db2) \<Rightarrow> (Inl e, db2)
                      | (Inr _, db2) \<Rightarrow>
                          (Inr (\<lparr>c_id = c_id existing, c_kind = c_kind existing, c_schema = desired,
                                 c_created_at = c_created_at existing, c_updated_at = now\<rparr>,
                                \<lparr>sd_added = map fname added, sd_dropped = map fname dropped\<rparr>),
                           db2\<lparr>ad_collections := sql_update (\<lambda>r. cr_id r = i)
                             (\<lambda>r. r\<lparr>cr_schema_json := Inr desired, cr_updated_at := now\<rparr>) (ad_collections db2)\<rparr>)))"

section \<open>Access rules\<close>

datatype access_action = AList | AView | ACreate | AUpdate | ADelete

fun action_str :: "access_action \<Rightarrow> string" where
  "action_str AList = ''list''"
| "action_str AView = ''view''"
| "action_str ACreate = ''create''"
| "action_str AUpdate = ''update''"
| "action_str ADelete = ''delete''"

definition action_from_str :: "string \<Rightarrow> access_action option" where
  "action_from_str s =
     (if s = ''list'' then Some AList else if s = ''view'' then Some AView
      else if s = ''create'' then Some ACreate else if s = ''update'' then Some AUpdate
      else if s = ''delete'' then Some ADelete else None)"

record access_rule =
  rule_collection :: string
  rule_action :: access_action
  rule_filter :: "string option"

definition get_rule :: "app_db \<Rightarrow> string \<Rightarrow> access_action \<Rightarrow> db_error + string option option" where
  "get_rule db coll action =
     rbind (need db ''_access_rules'') (\<lambda>_.
       Inr (map_option ar_filter (List.find (\<lambda>r. ar_collection_id r = coll \<and> ar_action r = action_str action) (ad_rules db))))"

text \<open>\<open>_access_rules\<close> references \<open>_collections(id)\<close>.\<close>

definition set_rule :: "app_db \<Rightarrow> string \<Rightarrow> access_action \<Rightarrow> string option \<Rightarrow> (db_error, app_db, unit) stmt" where
  "set_rule db coll action flt =
     (case rbind (need db ''_access_rules'') (\<lambda>_. need db ''_collections'') of
        Inl e \<Rightarrow> (Inl e, db)
      | Inr _ \<Rightarrow>
          if coll \<notin> cr_id ` set (ad_collections db)
             \<and> (coll, action_str action) \<notin> (\<lambda>r. (ar_collection_id r, ar_action r)) ` set (ad_rules db)
          then (Inl (Sqlx ForeignKeyViolation), db)
          else (Inr (), db\<lparr>ad_rules := sql_upsert (\<lambda>r. (ar_collection_id r, ar_action r))
                 \<lparr>ar_collection_id = coll, ar_action = action_str action, ar_filter = flt\<rparr>
                 (\<lambda>r. r\<lparr>ar_filter := flt\<rparr>) (ad_rules db)\<rparr>))"

definition list_rules :: "app_db \<Rightarrow> string \<Rightarrow> db_error + access_rule list" where
  "list_rules db coll =
     rbind (need db ''_access_rules'') (\<lambda>_.
       Inr (List.map_filter (\<lambda>r. map_option (\<lambda>a. \<lparr>rule_collection = coll, rule_action = a, rule_filter = ar_filter r\<rparr>)
              (action_from_str (ar_action r)))
         (sort_key ar_action (filter (\<lambda>r. ar_collection_id r = coll) (ad_rules db)))))"

datatype rule_decision = Deny | Allow | Evaluate string

definition classify_rule :: "string option option \<Rightarrow> rule_decision" where
  "classify_rule rule = (case rule of
      None \<Rightarrow> Deny
    | Some None \<Rightarrow> Deny
    | Some (Some s) \<Rightarrow>
        (let trimmed = trim s in
         if trimmed = [] \<or> eq_ignore_ascii_case trimmed ''true'' then Allow else Evaluate s))"

definition rule_allows_user :: "string option option \<Rightarrow> bool" where
  "rule_allows_user rule = (classify_rule rule = Allow)"

section \<open>Files\<close>

definition insert_file ::
  "string \<Rightarrow> time \<Rightarrow> app_db \<Rightarrow> string \<Rightarrow> string option \<Rightarrow> int \<Rightarrow> (db_error, app_db, file_meta) stmt" where
  "insert_file i now db filename mime sz =
     (case need db ''_files'' of
        Inl e \<Rightarrow> (Inl e, db)
      | Inr _ \<Rightarrow>
          let f = \<lparr>f_id = i, f_filename = filename, f_mime = mime, f_size = sz, f_created_at = now\<rparr>
          in if i \<in> f_id ` set (ad_files db) then (Inl (Sqlx UniqueViolation), db)
             else (Inr f, db\<lparr>ad_files := ad_files db @ [f]\<rparr>))"

definition find_file :: "app_db \<Rightarrow> string \<Rightarrow> db_error + file_meta option" where
  "find_file db i = rbind (need db ''_files'') (\<lambda>_. Inr (List.find (\<lambda>f. f_id f = i) (ad_files db)))"

definition list_files :: "app_db \<Rightarrow> db_error + file_meta list" where
  "list_files db = rbind (need db ''_files'') (\<lambda>_. Inr (sort_key (\<lambda>f. - f_created_at f) (ad_files db)))"

definition delete_file :: "app_db \<Rightarrow> string \<Rightarrow> (db_error, app_db, unit) stmt" where
  "delete_file db i =
     (case need db ''_files'' of
        Inl e \<Rightarrow> (Inl e, db)
      | Inr _ \<Rightarrow>
          if sql_count (\<lambda>f. f_id f = i) (ad_files db) = 0 then (Inl (Sqlx RowNotFound), db)
          else (Inr (), db\<lparr>ad_files := sql_delete (\<lambda>f. f_id f = i) (ad_files db)\<rparr>))"

definition empty_app_db :: app_db where
  "empty_app_db = \<lparr>ad_collections = [], ad_rules = [], ad_files = [], ad_policies = [],
     ad_audit = \<lparr>au_rows = [], au_last_id = 0\<rparr>, ad_tables = Map.empty, ad_missing = {}, ad_rows = (\<lambda>_. [])\<rparr>"


section \<open>Validated schemas\<close>

lemma validate_fields_ok:
  "validate_fields seen fs = Inr () \<longleftrightarrow>
     (\<forall>f \<in> set fs. is_valid_ident (fname f) \<and> fname f \<notin> set RESERVED_FIELD_NAMES \<and> fname f \<notin> seen)
     \<and> distinct (map fname fs)"
  by (induction fs arbitrary: seen) (auto simp: not_in_image)

lemma schema_columns_distinct:
  assumes "validate_schema s = Inr ()"
  shows "distinct (map col_name (schema_columns s))"
proof -
  have v: "distinct (map fname (schema_fields s))" "\<forall>f \<in> set (schema_fields s). fname f \<notin> set RESERVED_FIELD_NAMES"
    using assms by (auto simp: validate_schema_def validate_fields_ok split: if_splits)
  have "col_name \<circ> field_column = fname" by (simp add: field_column_def fun_eq_iff)
  with v show ?thesis by (auto simp: schema_columns_def RESERVED_FIELD_NAMES_def)
qed

text \<open>a schema that passes validation has names that are plain lower-case identifiers (so that
  quoting them in DDL is safe), no field shadows a built-in column, and its table has no column
  twice.\<close>

theorem validated_schema_is_safe:
  assumes "validate_schema s = Inr ()"
  shows "distinct (map col_name (schema_columns s))
    \<and> (\<forall>name \<in> insert (collection_str (schema_id s)) (fname ` set (schema_fields s)).
         2 \<le> length name \<and> length name \<le> 50 \<and> CHR 0x22 \<notin> set name
         \<and> (\<forall>c \<in> set name. is_ascii_lowercase c \<or> is_ascii_digit c \<or> c = CHR ''_''))"
proof -
  have ident: "2 \<le> length n \<and> length n \<le> 50 \<and> CHR 0x22 \<notin> set n
      \<and> (\<forall>c \<in> set n. is_ascii_lowercase c \<or> is_ascii_digit c \<or> c = CHR ''_'')" if "is_valid_ident n" for n
  proof -
    have all: "\<forall>c \<in> set n. is_ascii_lowercase c \<or> is_ascii_digit c \<or> c = CHR ''_''"
      using that by (auto simp: is_valid_ident_def Let_def list_all_iff split: list.splits)
    then have small: "\<forall>c \<in> set n. (of_char c :: nat) < 128"
      by (auto simp: is_ascii_lowercase_def is_ascii_digit_def less_eq_char_def)
    have "length (as_bytes n) = length n" using small
      by (induction n) (auto simp: as_bytes_def utf8_def)
    moreover have "CHR 0x22 \<notin> set n"
      using all by (auto simp: is_ascii_lowercase_def is_ascii_digit_def less_eq_char_def)
    ultimately show ?thesis using that all by (auto simp: is_valid_ident_def Let_def)
  qed
  have "is_valid_ident (collection_str (schema_id s))" "\<forall>f \<in> set (schema_fields s). is_valid_ident (fname f)"
    using assms by (auto simp: validate_schema_def validate_fields_ok split: if_splits)
  then show ?thesis using ident schema_columns_distinct [OF assms] by auto
qed

definition posts :: schema where
  "posts = \<lparr>schema_id = CollectionId ''posts'', schema_kind = Base,
     schema_fields = [\<lparr>fname = ''title'', fty = Text None None, frequired = True, funique = False\<rparr>]\<rparr>"

lemma posts_valid: "validate_schema posts = Inr ()"
  by (simp add: posts_def validate_schema_def is_valid_ident_def as_bytes_def utf8_def RESERVED_FIELD_NAMES_def
      is_ascii_lowercase_def less_eq_char_def)

theorem validated_schema_is_safe_witness:
  "distinct (map col_name (schema_columns posts))"
  using validated_schema_is_safe [OF posts_valid] by simp

section \<open>The catalog and the metadata\<close>

text \<open>Every collection has its table with the columns of its schema, and every table a collection.\<close>

definition same_columns :: "column list \<Rightarrow> schema \<Rightarrow> bool" where
  "same_columns cols s = (map (\<lambda>c. (col_name c, col_type c)) cols =
     map (\<lambda>c. (col_name c, col_type c)) (schema_columns s))"

definition catalog_ok :: "app_db \<Rightarrow> bool" where
  "catalog_ok db =
     (unique_on cr_id (ad_collections db)
      \<and> (\<forall>r \<in> set (ad_collections db). cr_name r = cr_id r
           \<and> (\<exists>s cols. cr_schema_json r = Inr s \<and> ad_tables db (cr_id r) = Some cols
                \<and> collection_str (schema_id s) = cr_id r
                \<and> (\<forall>f \<in> set (schema_fields s). fname f \<in> col_name ` set cols)))
      \<and> dom (ad_tables db) = cr_id ` set (ad_collections db))"

lemma create_collection_cases:
  assumes "create_collection now db s = (Inr c, db')"
  shows "validate_schema s = Inr () \<and> ad_tables db (collection_str (schema_id s)) = None
    \<and> collection_str (schema_id s) \<notin> cr_id ` set (ad_collections db)
    \<and> ad_missing db' = ad_missing db
    \<and> ad_tables db' = (ad_tables db)(collection_str (schema_id s) \<mapsto> schema_columns s)
    \<and> ad_collections db' = ad_collections db @
        [\<lparr>cr_id = collection_str (schema_id s), cr_name = collection_str (schema_id s),
          cr_kind = collection_kind_str (schema_kind s), cr_schema_json = Inr s, cr_created_at = now, cr_updated_at = now\<rparr>]
    \<and> c = \<lparr>c_id = collection_str (schema_id s), c_kind = schema_kind s, c_schema = s, c_created_at = now, c_updated_at = now\<rparr>"
  using assms
  by (auto simp: create_collection_def create_table_def Let_def split: sum.splits if_splits)

lemma create_collection_error_catalog:
  assumes "catalog_ok db" and "''_collections'' \<notin> ad_missing db" and "create_collection now db s = (Inl e, db')"
  shows "db' = db"
proof -
  let ?i = "collection_str (schema_id s)"
  have "?i \<notin> cr_id ` set (ad_collections db) \<and> ?i \<notin> cr_name ` set (ad_collections db)" if "ad_tables db ?i = None"
  proof -
    have "?i \<notin> dom (ad_tables db)" using that by auto
    then have "?i \<notin> cr_id ` set (ad_collections db)" using assms(1) by (simp add: catalog_ok_def)
    moreover have "cr_name ` set (ad_collections db) = cr_id ` set (ad_collections db)"
      using assms(1) by (intro image_cong) (auto simp: catalog_ok_def)
    ultimately show ?thesis by simp
  qed
  then show ?thesis using assms(2,3)
    by (auto simp: create_collection_def create_table_def need_def Let_def split: sum.splits if_splits)
qed

lemma parse_kind_str [simp]: "parse_collection_kind (collection_kind_str k) = Some k"
  by (cases k) (simp_all add: parse_collection_kind_def)

lemma create_collection_catalog:
  assumes "catalog_ok db" and "create_collection now db s = (Inr c, db')"
  shows "catalog_ok db'"
proof -
  let ?i = "collection_str (schema_id s)"
  note c = create_collection_cases [OF assms(2)]
  have cols: "\<forall>f \<in> set (schema_fields s). fname f \<in> col_name ` set (schema_columns s)"
    by (force simp: schema_columns_def field_column_def)
  have old: "\<exists>s cols. cr_schema_json r = Inr s \<and> ad_tables db' (cr_id r) = Some cols
      \<and> collection_str (schema_id s) = cr_id r \<and> (\<forall>f \<in> set (schema_fields s). fname f \<in> col_name ` set cols)"
    if "r \<in> set (ad_collections db)" for r
  proof -
    have "cr_id r \<noteq> ?i" using that c by (auto simp: not_in_image)
    then show ?thesis using that c assms(1) by (auto simp: catalog_ok_def)
  qed
  show ?thesis unfolding catalog_ok_def
    using c assms(1) old cols by (auto simp: catalog_ok_def)
qed

text \<open>creating a collection in a sound database either succeeds, and then the collection is found
  with its schema, its table has the schema's columns and the database is sound again, or fails and
  changes nothing.\<close>

theorem create_collection_atomic:
  assumes "catalog_ok db" and "''_collections'' \<notin> ad_missing db" and "create_collection now db s = (r, db')"
  shows "case r of
      Inl e \<Rightarrow> db' = db
    | Inr c \<Rightarrow> catalog_ok db' \<and> find_collection db' (collection_str (schema_id s)) = Inr (Some c) \<and> c_schema c = s
        \<and> ad_tables db' (collection_str (schema_id s)) = Some (schema_columns s)"
proof (cases r)
  case (Inl e)
  then show ?thesis using create_collection_error_catalog assms by auto
next
  case (Inr c)
  let ?i = "collection_str (schema_id s)"
  note ok = assms(3) [unfolded Inr]
  note c = create_collection_cases [OF ok]
  have none: "List.find (\<lambda>r. cr_id r = ?i) (ad_collections db) = None"
    using c unfolding find_None by (simp add: not_in_image)
  then have "find_collection db' ?i = Inr (Some c)"
    using c assms(2) by (simp add: find_collection_def need_def find_append decode_collection_def)
  then show ?thesis using Inr c create_collection_catalog [OF assms(1) ok] by simp
qed

theorem create_collection_atomic_witness:
  "find_collection (snd (create_collection 7 empty_app_db posts)) ''posts'' =
     Inr (Some \<lparr>c_id = ''posts'', c_kind = Base, c_schema = posts, c_created_at = 7, c_updated_at = 7\<rparr>)"
  using create_collection_atomic [of empty_app_db 7 posts "fst (create_collection 7 empty_app_db posts)"
      "snd (create_collection 7 empty_app_db posts)"] posts_valid
  by (simp add: create_collection_def create_table_def need_def Let_def empty_app_db_def catalog_ok_def
      BUILTIN_TABLES_def RESERVED_COLLECTION_IDS_def posts_def)

section \<open>Where the agreement is lost\<close>

text \<open>deleting a collection by the name of a built-in table drops that table, although the request
  is answered with an error: afterwards every read of the audit log, the policies, the files, the
  access rules or the collections of the app fails.\<close>

theorem delete_collection_drops_builtin_tables:
  assumes "i \<in> {''_collections'', ''_access_rules'', ''policies'', ''audit_log'', ''_files'', ''_migrations''}"
    and "i \<notin> cr_id ` set (ad_collections db)"
  shows "isl (fst (delete_collection db i)) \<and> need (snd (delete_collection db i)) i = Inl (Sqlx (NoSuchTable i))"
proof -
  have v: "is_valid_ident i"
    using assms(1) by (auto simp: is_valid_ident_def as_bytes_def utf8_def is_ascii_lowercase_def less_eq_char_def)
  have "sql_count (\<lambda>r. cr_id r = i) (ad_collections (drop_table db i)) = 0"
    using assms(2) by (auto simp: sql_count_eq_0 drop_table_def)
  moreover have "i \<in> ad_missing (drop_table db i)" using assms(1) by (auto simp: drop_table_def BUILTIN_TABLES_def)
  ultimately show ?thesis using v by (auto simp: delete_collection_def Let_def need_def)
qed

theorem delete_collection_drops_builtin_tables_witness:
  "need (snd (delete_collection empty_app_db ''audit_log'')) ''audit_log'' = Inl (Sqlx (NoSuchTable ''audit_log''))"
  using delete_collection_drops_builtin_tables [of "''audit_log''" empty_app_db] by (simp add: empty_app_db_def)

text \<open>a patch that adds a unique field always fails, and the columns added before it stay: the table
  then has a column its schema does not know, so that patching in the same field again fails too.\<close>

theorem patch_unique_field_leaves_columns:
  assumes "find_collection db (collection_str (schema_id desired)) = Inr (Some existing)"
    and "validate_schema desired = Inr ()" and "c_kind existing = schema_kind desired"
    and "schema_fields desired = schema_fields (c_schema existing) @ [f, u]"
    and "fname f \<notin> fname ` set (schema_fields (c_schema existing))"
    and "fname u \<notin> fname ` set (schema_fields (c_schema existing))"
    and "funique u" and "\<not> funique f"
    and "incompatible_field (c_schema existing) desired = None"
    and "ad_tables db (collection_str (schema_id desired)) = Some cols" and "fname f \<notin> col_name ` set cols"
  shows "\<exists>e cols' db'. patch_collection show_usize now db desired force = (Inl (Sqlx e), db')
    \<and> ad_collections db' = ad_collections db
    \<and> ad_tables db' (collection_str (schema_id desired)) = Some cols'
    \<and> fname f \<in> col_name ` set cols'"
proof -
  let ?S = "fname ` set (schema_fields (c_schema existing))"
  have added: "filter (\<lambda>g. fname g \<notin> ?S) (schema_fields desired) = [f, u]"
    using assms(4-6) by (auto simp: filter_empty_conv)
  have dropped: "filter (\<lambda>g. fname g \<notin> fname ` set (schema_fields desired)) (schema_fields (c_schema existing)) = []"
    using assms(4) by (auto simp: filter_empty_conv)
  show ?thesis
    using assms(1-3,7-) added dropped
    by (simp add: patch_collection_def Let_def add_column_def)
qed

theorem patch_unique_field_leaves_columns_witness:
  "\<exists>e cols' db'. patch_collection (\<lambda>_. ''1'') 8 (snd (create_collection 7 empty_app_db posts))
       (posts\<lparr>schema_fields := schema_fields posts @
          [\<lparr>fname = ''body'', fty = Text None None, frequired = False, funique = False\<rparr>,
           \<lparr>fname = ''slug'', fty = Text None None, frequired = False, funique = True\<rparr>]\<rparr>) False = (Inl (Sqlx e), db')
     \<and> ad_collections db' = ad_collections (snd (create_collection 7 empty_app_db posts))
     \<and> ad_tables db' ''posts'' = Some cols' \<and> ''body'' \<in> col_name ` set cols'"
  using patch_unique_field_leaves_columns [where db = "snd (create_collection 7 empty_app_db posts)"
      and desired = "posts\<lparr>schema_fields := schema_fields posts @
          [\<lparr>fname = ''body'', fty = Text None None, frequired = False, funique = False\<rparr>,
           \<lparr>fname = ''slug'', fty = Text None None, frequired = False, funique = True\<rparr>]\<rparr>"
      and existing = "\<lparr>c_id = ''posts'', c_kind = Base, c_schema = posts, c_created_at = 7, c_updated_at = 7\<rparr>"
      and f = "\<lparr>fname = ''body'', fty = Text None None, frequired = False, funique = False\<rparr>"
      and u = "\<lparr>fname = ''slug'', fty = Text None None, frequired = False, funique = True\<rparr>"
      and cols = "schema_columns posts" and show_usize = "\<lambda>_. ''1''" and now = 8 and force = False] posts_valid
  by (simp add: create_collection_def create_table_def need_def Let_def empty_app_db_def
      BUILTIN_TABLES_def RESERVED_COLLECTION_IDS_def posts_def find_collection_def decode_collection_def
      validate_schema_def is_valid_ident_def as_bytes_def utf8_def RESERVED_FIELD_NAMES_def parse_collection_kind_def
      is_ascii_lowercase_def less_eq_char_def incompatible_field_def field_types_compatible_def
      schema_columns_def field_column_def find_None_iff)

section \<open>Access rules fail closed\<close>

lemma action_str_inj: "action_str a = action_str b \<longleftrightarrow> a = b"
  by (cases a; cases b) simp_all

lemma action_roundtrip: "action_from_str s = Some a \<longleftrightarrow> s = action_str a"
  by (cases a) (auto simp: action_from_str_def)

lemma get_rule_key:
  "get_rule db coll action = rbind (need db ''_access_rules'') (\<lambda>_.
     Inr (map_option ar_filter (List.find (\<lambda>r. (ar_collection_id r, ar_action r) = (coll, action_str action)) (ad_rules db))))"
  by (simp add: get_rule_def)

lemma set_rule_get:
  assumes "set_rule db coll action flt = (Inr (), db')"
  shows "get_rule db' c a = (if c = coll \<and> a = action then Inr (Some flt) else get_rule db c a)"
proof -
  let ?k = "\<lambda>r. (ar_collection_id r, ar_action r)"
  let ?new = "\<lparr>ar_collection_id = coll, ar_action = action_str action, ar_filter = flt\<rparr>"
  have ok: "need db ''_access_rules'' = Inr ()" and
    db': "db' = db\<lparr>ad_rules := sql_upsert ?k ?new (\<lambda>r. r\<lparr>ar_filter := flt\<rparr>) (ad_rules db)\<rparr>"
    using assms by (auto simp: set_rule_def rbind_def split: sum.splits if_splits)
  have same: "List.find (\<lambda>r. ?k r = ?k ?new) (ad_rules db') =
      Some (case List.find (\<lambda>r. ?k r = ?k ?new) (ad_rules db) of None \<Rightarrow> ?new | Some r \<Rightarrow> r\<lparr>ar_filter := flt\<rparr>)"
    unfolding db' by (simp add: find_sql_upsert_same [of ?k ?new "\<lambda>r. r\<lparr>ar_filter := flt\<rparr>", simplified])
  have other: "List.find (\<lambda>r. ?k r = k') (ad_rules db') = List.find (\<lambda>r. ?k r = k') (ad_rules db)"
    if "k' \<noteq> ?k ?new" for k'
    unfolding db' using find_sql_upsert_other [of ?k ?new "\<lambda>r. r\<lparr>ar_filter := flt\<rparr>" k' "ad_rules db"] that by simp
  have need: "need db' ''_access_rules'' = Inr ()" using ok db' by (simp add: need_def)
  show ?thesis
  proof (cases "c = coll \<and> a = action")
    case True
    then show ?thesis using same need by (auto simp: get_rule_key split: option.splits)
  next
    case False
    then have "(c, action_str a) \<noteq> ?k ?new" by (auto simp: action_str_inj)
    from other [OF this] show ?thesis using False need ok unfolding get_rule_key by auto
  qed
qed

lemma delete_collection_rules:
  assumes "delete_collection db i = (Inr (), db')"
  shows "get_rule db' c a = (if c = i then rbind (need db' ''_access_rules'') (\<lambda>_. Inr None)
    else rbind (need db' ''_access_rules'') (\<lambda>_. get_rule (db\<lparr>ad_missing := {}\<rparr>) c a))"
proof -
  have r: "ad_rules db' = sql_delete (\<lambda>r. ar_collection_id r = i) (ad_rules (drop_table db i))"
    and n: "i \<noteq> ''_collections''"
    using assms by (auto simp: delete_collection_def Let_def need_def drop_table_def BUILTIN_TABLES_def split: sum.splits if_splits)
  have d: "ad_rules (drop_table db i) = ad_rules db" using n by (simp add: drop_table_def)
  have "List.find (\<lambda>x. ar_collection_id x = c \<and> ar_action x = action_str a) (ad_rules db') =
      (if c = i then None else List.find (\<lambda>x. ar_collection_id x = c \<and> ar_action x = action_str a) (ad_rules db))"
  proof (cases "c = i")
    case True
    then show ?thesis unfolding r d by (auto simp: find_None_iff)
  next
    case False
    then show ?thesis unfolding r d using find_sql_delete_other
        [of "\<lambda>x. ar_collection_id x = c \<and> ar_action x = action_str a" "\<lambda>r. ar_collection_id r = i" "ad_rules db"] by auto
  qed
  then show ?thesis by (simp add: get_rule_def need_def)
qed

text \<open>access rules fail closed. Setting a rule changes the decision for its collection and action
  alone; an action without a rule, or with a null filter, is for admins only; and deleting a
  collection takes its rules with it, so that a new collection of the same name starts with every
  action closed.\<close>

theorem access_rules_fail_closed:
  assumes "set_rule db coll action flt = (Inr (), db1)" and "delete_collection db1 coll = (Inr (), db2)"
    and "create_collection now db2 s = (Inr c, db3)" and "collection_str (schema_id s) = coll"
    and "''_access_rules'' \<notin> ad_missing db2"
  shows "(\<forall>c a. get_rule db1 c a = (if c = coll \<and> a = action then Inr (Some flt) else get_rule db c a))
    \<and> (\<forall>a. rbind (get_rule db3 coll a) (\<lambda>r. Inr (classify_rule r)) = Inr Deny)
    \<and> classify_rule (Some None) = Deny"
proof -
  have "ad_rules db3 = ad_rules db2" "ad_missing db3 = ad_missing db2"
    using assms(3) by (auto simp: create_collection_def create_table_def Let_def split: sum.splits if_splits)
  then have "get_rule db3 coll a = get_rule db2 coll a" for a by (simp add: get_rule_def need_def)
  then show ?thesis
    using set_rule_get [OF assms(1)] delete_collection_rules [OF assms(2), of coll] assms(5)
    by (simp add: need_def classify_rule_def)
qed

definition posts_db :: "time \<Rightarrow> app_db" where
  "posts_db now = empty_app_db\<lparr>ad_tables := [''posts'' \<mapsto> schema_columns posts],
     ad_collections := [\<lparr>cr_id = ''posts'', cr_name = ''posts'', cr_kind = ''base'', cr_schema_json = Inr posts,
       cr_created_at = now, cr_updated_at = now\<rparr>]\<rparr>"

lemma create_posts:
  "create_collection now empty_app_db posts =
     (Inr \<lparr>c_id = ''posts'', c_kind = Base, c_schema = posts, c_created_at = now, c_updated_at = now\<rparr>, posts_db now)"
  using posts_valid
  by (simp add: create_collection_def create_table_def need_def Let_def posts_db_def empty_app_db_def
      BUILTIN_TABLES_def RESERVED_COLLECTION_IDS_def posts_def fun_eq_iff)

lemma open_posts:
  "set_rule (posts_db now) ''posts'' AList (Some []) =
     (Inr (), (posts_db now)\<lparr>ad_rules := [\<lparr>ar_collection_id = ''posts'', ar_action = ''list'', ar_filter = Some []\<rparr>]\<rparr>)"
  by (simp add: set_rule_def need_def posts_db_def empty_app_db_def sql_upsert_def)

lemma delete_posts:
  "delete_collection ((posts_db now)\<lparr>ad_rules := [\<lparr>ar_collection_id = ''posts'', ar_action = ''list'', ar_filter = Some []\<rparr>]\<rparr>) ''posts'' =
     (Inr (), empty_app_db)"
  by (simp add: delete_collection_def drop_table_def need_def posts_db_def empty_app_db_def Let_def BUILTIN_TABLES_def
      sql_delete_def is_valid_ident_def as_bytes_def utf8_def is_ascii_lowercase_def less_eq_char_def fun_eq_iff)

theorem access_rules_fail_closed_witness:
  "\<forall>a. rbind (get_rule (posts_db 9) ''posts'' a) (\<lambda>r. Inr (classify_rule r)) = Inr Deny"
  using access_rules_fail_closed [OF open_posts delete_posts create_posts, of 9]
  by (simp add: posts_def empty_app_db_def)

end
