(* ===== verification/Records.thy ===== *)
theory Records
  imports App_Tables Filter_Sql
begin

text \<open>
  Records of a collection, \<^verbatim>\<open>rustbase-db/src/records.rs\<close>: the statements are built from the stored
  schema and run against the collection's table. What the code leaves to SQLite and \<open>serde_json\<close> is the
  record \<open>sql_engine\<close>: reading a \<open>WHERE\<close> text, comparing values that are not both text, the text of a
  value and of a time stamp, what a quoted name that is no column means, and JSON text. The connectives
  of SQL's three-valued logic, comparison of text and \<open>NULL\<close>, and \<open>IN\<close> are written out.
\<close>

section \<open>Values\<close>

record sql_engine =
  read_where :: "string \<Rightarrow> sql_expr"
  other_cmp :: "string \<Rightarrow> sql_val \<Rightarrow> sql_val \<Rightarrow> bool"
  text_of_val :: "sql_val \<Rightarrow> string"
  time_text :: "time \<Rightarrow> string"
  missing_column :: "string \<Rightarrow> sqlx_error + sql_val"
  json_text :: "json \<Rightarrow> string"
  json_parse :: "string \<Rightarrow> json option"

fun as_i64 :: "json_number \<Rightarrow> int option" where
  "as_i64 (PosInt n) = (if n < 2 ^ 63 then Some (int n) else None)"
| "as_i64 (NegInt i) = Some i"
| "as_i64 (Float _) = None"

fun bind_filter_value :: "sql_engine \<Rightarrow> json \<Rightarrow> sql_val" where
  "bind_filter_value eng (JString s) = SText s"
| "bind_filter_value eng (JBool b) = SInt (if b then 1 else 0)"
| "bind_filter_value eng (JNumber n) = (case as_i64 n of Some i \<Rightarrow> SInt i | None \<Rightarrow> SReal (as_f64 n))"
| "bind_filter_value eng JNull = SNull"
| "bind_filter_value eng v = SText (json_text eng v)"

fun push_field_value :: "sql_engine \<Rightarrow> json option \<Rightarrow> field_type \<Rightarrow> sql_val" where
  "push_field_value eng v Bool = (case v of Some (JBool b) \<Rightarrow> SInt (if b then 1 else 0) | _ \<Rightarrow> SNull)"
| "push_field_value eng v (Number _ _) = (case v of Some (JNumber n) \<Rightarrow> SReal (as_f64 n) | _ \<Rightarrow> SNull)"
| "push_field_value eng v Json = (case v of None \<Rightarrow> SNull | Some JNull \<Rightarrow> SNull | Some x \<Rightarrow> SText (json_text eng x))"
| "push_field_value eng v _ = (case v of
      None \<Rightarrow> SNull | Some (JString s) \<Rightarrow> SText s | Some JNull \<Rightarrow> SNull | Some x \<Rightarrow> SText (json_text eng x))"

fun extract_field :: "sql_engine \<Rightarrow> sql_val \<Rightarrow> field_type \<Rightarrow> json" where
  "extract_field eng v Bool = (case v of SInt i \<Rightarrow> JBool (i \<noteq> 0) | _ \<Rightarrow> JNull)"
| "extract_field eng v (Number _ _) = (case v of SReal x \<Rightarrow> JNumber (Float x) | _ \<Rightarrow> JNull)"
| "extract_field eng v Json = (case v of
      SText s \<Rightarrow> (case json_parse eng s of Some x \<Rightarrow> x | None \<Rightarrow> JNull) | _ \<Rightarrow> JNull)"
| "extract_field eng v _ = (case v of SText s \<Rightarrow> JString s | _ \<Rightarrow> JNull)"

fun row_fields :: "sql_engine \<Rightarrow> db_row \<Rightarrow> field list \<Rightarrow> fields" where
  "row_fields eng r [] = Map.empty"
| "row_fields eng r (f # fs) =
     (if fname f \<in> fname ` set fs then row_fields eng r fs
      else (row_fields eng r fs)(fname f \<mapsto> extract_field eng (dr_cols r (fname f)) (fty f)))"

definition row_to_record :: "sql_engine \<Rightarrow> schema \<Rightarrow> db_row \<Rightarrow> rec" where
  "row_to_record eng s r =
     \<lparr>rec_id = RecordId (dr_id r), rec_collection = schema_id s, rec_fields = row_fields eng r (schema_fields s),
      rec_created_at = dr_created_at r, rec_updated_at = dr_updated_at r\<rparr>"

section \<open>The WHERE clause\<close>

definition sql_and :: "bool option \<Rightarrow> bool option \<Rightarrow> bool option" where
  "sql_and a b = (if a = Some False \<or> b = Some False then Some False
     else if a = Some True \<and> b = Some True then Some True else None)"

definition sql_or :: "bool option \<Rightarrow> bool option \<Rightarrow> bool option" where
  "sql_or a b = (if a = Some True \<or> b = Some True then Some True
     else if a = Some False \<and> b = Some False then Some False else None)"

definition text_cmp :: "string \<Rightarrow> string \<Rightarrow> string \<Rightarrow> bool" where
  "text_cmp op a b =
     (if op = ''='' then a = b else if op = ''<>'' then a \<noteq> b else if op = ''<'' then a < b
      else if op = ''<='' then a \<le> b else if op = ''>'' then b < a else b \<le> a)"

definition sql_cmp :: "sql_engine \<Rightarrow> string \<Rightarrow> sql_val \<Rightarrow> sql_val \<Rightarrow> bool option" where
  "sql_cmp eng op a b =
     (case a of
        SNull \<Rightarrow> None
      | SText x \<Rightarrow> (case b of SNull \<Rightarrow> None | SText y \<Rightarrow> Some (text_cmp op x y) | _ \<Rightarrow> Some (other_cmp eng op a b))
      | _ \<Rightarrow> if b = SNull then None else Some (other_cmp eng op a b))"

definition like_val :: "sql_engine \<Rightarrow> sql_val \<Rightarrow> sql_val \<Rightarrow> bool option" where
  "like_val eng a p = (if a = SNull \<or> p = SNull then None else Some (sql_like (text_of_val eng p) (text_of_val eng a)))"

fun truth :: "sql_engine \<Rightarrow> (string \<Rightarrow> sql_val) \<Rightarrow> sql_expr \<Rightarrow> sql_val list \<Rightarrow> bool option" where
  "truth eng row (SBin l op r) bs =
     (if op = ''AND'' then sql_and (truth eng row l (take (params l) bs)) (truth eng row r (drop (params l) bs))
      else sql_or (truth eng row l (take (params l) bs)) (truth eng row r (drop (params l) bs)))"
| "truth eng row (SNot e) bs = map_option (\<lambda>b. \<not> b) (truth eng row e bs)"
| "truth eng row (SCmp c op) bs = (case bs of b # _ \<Rightarrow> sql_cmp eng op (row c) b | [] \<Rightarrow> None)"
| "truth eng row (SLike c) bs = (case bs of b # _ \<Rightarrow> like_val eng (row c) b | [] \<Rightarrow> None)"
| "truth eng row (SIn c n) bs = fold (\<lambda>b acc. sql_or acc (sql_cmp eng ''='' (row c) b)) (take n bs) (Some False)"

fun columns_in :: "sql_expr \<Rightarrow> string list" where
  "columns_in (SBin l _ r) = columns_in l @ columns_in r"
| "columns_in (SNot e) = columns_in e"
| "columns_in (SCmp c _) = [c]"
| "columns_in (SLike c) = [c]"
| "columns_in (SIn c _) = [c]"

definition cell :: "sql_engine \<Rightarrow> column list \<Rightarrow> db_row \<Rightarrow> string \<Rightarrow> sql_val" where
  "cell eng cols r c =
     (if c = ''id'' then SText (dr_id r)
      else if c = ''created_at'' then SText (time_text eng (dr_created_at r))
      else if c = ''updated_at'' then SText (time_text eng (dr_updated_at r))
      else if c \<in> col_name ` set cols then dr_cols r c
      else case missing_column eng c of Inl _ \<Rightarrow> SNull | Inr v \<Rightarrow> v)"

definition bad_column :: "sql_engine \<Rightarrow> column list \<Rightarrow> sql_expr \<Rightarrow> sqlx_error option" where
  "bad_column eng cols e =
     (case List.find (\<lambda>c. c \<notin> col_name ` set cols \<and> isl (missing_column eng c)) (columns_in e) of
        None \<Rightarrow> None
      | Some c \<Rightarrow> (case missing_column eng c of Inl x \<Rightarrow> Some x | Inr _ \<Rightarrow> None))"

definition selected :: "sql_engine \<Rightarrow> column list \<Rightarrow> sql_fragment \<Rightarrow> db_row \<Rightarrow> bool" where
  "selected eng cols frag r =
     (truth eng (cell eng cols r) (read_where eng (sql_text frag)) (map (bind_filter_value eng) (bindings frag)) = Some True)"

section \<open>Statements\<close>

record list_page =
  lp_page :: nat
  lp_per_page :: nat

record listed_records =
  lr_items :: "rec list"
  lr_page :: nat
  lr_per_page :: nat
  lr_total_items :: nat

definition table_of :: "app_db \<Rightarrow> schema \<Rightarrow> db_error + column list" where
  "table_of db s =
     (let t = collection_str (schema_id s) in
      case ad_tables db t of None \<Rightarrow> Inl (Sqlx (NoSuchTable t)) | Some cols \<Rightarrow> Inr cols)"

definition rows_of :: "app_db \<Rightarrow> schema \<Rightarrow> db_row list" where
  "rows_of db s = ad_rows db (collection_str (schema_id s))"

definition set_rows :: "app_db \<Rightarrow> schema \<Rightarrow> db_row list \<Rightarrow> app_db" where
  "set_rows db s rows = db\<lparr>ad_rows := (ad_rows db)(collection_str (schema_id s) := rows)\<rparr>"

text \<open>The constraints of a row against the other rows: \<open>NOT NULL\<close>, then the primary key and \<open>UNIQUE\<close>.\<close>

definition violates :: "column list \<Rightarrow> db_row list \<Rightarrow> db_row \<Rightarrow> sqlx_error option" where
  "violates cols others r =
     (if \<exists>c \<in> set cols. col_not_null c \<and> col_name c \<notin> set RESERVED_FIELD_NAMES \<and> dr_cols r (col_name c) = SNull
      then Some NotNullViolation
      else if dr_id r \<in> dr_id ` set others
        \<or> (\<exists>c \<in> set cols. col_unique c \<and> col_name c \<notin> set RESERVED_FIELD_NAMES \<and> dr_cols r (col_name c) \<noteq> SNull
             \<and> dr_cols r (col_name c) \<in> (\<lambda>x. dr_cols x (col_name c)) ` set others)
      then Some UniqueViolation
      else None)"

definition unknown_column :: "column list \<Rightarrow> field list \<Rightarrow> field option" where
  "unknown_column cols fs = List.find (\<lambda>f. fname f \<notin> col_name ` set cols) fs"

fun field_values :: "sql_engine \<Rightarrow> fields \<Rightarrow> field list \<Rightarrow> (string \<Rightarrow> sql_val) \<Rightarrow> (string \<Rightarrow> sql_val)" where
  "field_values eng m [] base = base"
| "field_values eng m (f # fs) base =
     field_values eng m fs (base(fname f := push_field_value eng (m (fname f)) (fty f)))"

definition create_record ::
  "sql_engine \<Rightarrow> string \<Rightarrow> time \<Rightarrow> app_db \<Rightarrow> schema \<Rightarrow> fields \<Rightarrow> (db_error, app_db, rec) stmt" where
  "create_record eng i now db s flds =
     (case table_of db s of
        Inl e \<Rightarrow> (Inl e, db)
      | Inr cols \<Rightarrow>
          (case unknown_column cols (schema_fields s) of
             Some f \<Rightarrow> (Inl (Sqlx (OtherSqlx (''table has no column named '' @ fname f))), db)
           | None \<Rightarrow>
               let r = \<lparr>dr_id = i, dr_created_at = now, dr_updated_at = now,
                        dr_cols = field_values eng flds (schema_fields s) (\<lambda>_. SNull)\<rparr>
               in case violates cols (rows_of db s) r of
                    Some e \<Rightarrow> (Inl (Sqlx e), db)
                  | None \<Rightarrow>
                      (Inr \<lparr>rec_id = RecordId i, rec_collection = schema_id s, rec_fields = flds,
                            rec_created_at = now, rec_updated_at = now\<rparr>,
                       set_rows db s (rows_of db s @ [r]))))"

definition find_record :: "sql_engine \<Rightarrow> app_db \<Rightarrow> schema \<Rightarrow> string \<Rightarrow> db_error + rec option" where
  "find_record eng db s i =
     rbind (table_of db s) (\<lambda>_. Inr (map_option (row_to_record eng s) (List.find (\<lambda>r. dr_id r = i) (rows_of db s))))"

definition list_records ::
  "sql_engine \<Rightarrow> app_db \<Rightarrow> schema \<Rightarrow> list_page \<Rightarrow> filter_node option \<Rightarrow> db_error + listed_records" where
  "list_records eng db s page flt =
     (let per = min (max (lp_per_page page) 1) 200;
          page_num = max (lp_page page) 1;
          offset = (int page_num - 1) * int per;
          answer = (\<lambda>rows. \<lparr>lr_items = map (row_to_record eng s) (sql_limit (int per) offset (sort_key (\<lambda>r. - dr_created_at r) rows)),
                       lr_page = page_num, lr_per_page = per, lr_total_items = length rows\<rparr>)
      in case flt of
        None \<Rightarrow> rbind (table_of db s) (\<lambda>_. Inr (answer (rows_of db s)))
      | Some f \<Rightarrow>
          rbind (filter_to_sql f) (\<lambda>frag.
          rbind (table_of db s) (\<lambda>cols.
            case bad_column eng cols (read_where eng (sql_text frag)) of
              Some e \<Rightarrow> Inl (Sqlx e)
            | None \<Rightarrow> Inr (answer (filter (selected eng cols frag) (rows_of db s))))))"

definition update_record ::
  "sql_engine \<Rightarrow> time \<Rightarrow> app_db \<Rightarrow> schema \<Rightarrow> string \<Rightarrow> fields \<Rightarrow> (db_error, app_db, rec) stmt" where
  "update_record eng now db s i patch =
     (let touched = filter (\<lambda>f. patch (fname f) \<noteq> None) (schema_fields s) in
      case table_of db s of
        Inl e \<Rightarrow> (Inl e, db)
      | Inr cols \<Rightarrow>
          (case unknown_column cols touched of
             Some f \<Rightarrow> (Inl (Sqlx (OtherSqlx (''no such column: '' @ fname f))), db)
           | None \<Rightarrow>
               (case List.find (\<lambda>r. dr_id r = i) (rows_of db s) of
                  None \<Rightarrow> (Inl (Sqlx RowNotFound), db)
                | Some r \<Rightarrow>
                    let r' = r\<lparr>dr_updated_at := now, dr_cols := field_values eng patch touched (dr_cols r)\<rparr>
                    in case violates cols (sql_delete (\<lambda>x. dr_id x = i) (rows_of db s)) r' of
                         Some e \<Rightarrow> (Inl (Sqlx e), db)
                       | None \<Rightarrow>
                           let db' = set_rows db s (sql_update (\<lambda>x. dr_id x = i) (\<lambda>_. r') (rows_of db s))
                           in (case find_record eng db' s i of
                                 Inl e \<Rightarrow> (Inl e, db')
                               | Inr None \<Rightarrow> (Inl (Sqlx RowNotFound), db')
                               | Inr (Some rc) \<Rightarrow> (Inr rc, db')))))"

definition delete_record :: "app_db \<Rightarrow> schema \<Rightarrow> string \<Rightarrow> (db_error, app_db, unit) stmt" where
  "delete_record db s i =
     (case table_of db s of
        Inl e \<Rightarrow> (Inl e, db)
      | Inr _ \<Rightarrow>
          if sql_count (\<lambda>r. dr_id r = i) (rows_of db s) = 0 then (Inl (Sqlx RowNotFound), db)
          else (Inr (), set_rows db s (sql_delete (\<lambda>r. dr_id r = i) (rows_of db s))))"

section \<open>Reading back what was written\<close>

lemma field_values_other: "name \<notin> fname ` set fs \<Longrightarrow> field_values eng m fs base name = base name"
  by (induction fs arbitrary: base) auto

lemma field_values_in:
  "f \<in> set fs \<Longrightarrow> unique_on fname fs \<Longrightarrow> field_values eng m fs base (fname f) = push_field_value eng (m (fname f)) (fty f)"
  by (induction fs arbitrary: base) (auto simp: field_values_other)

lemma row_fields_in:
  "f \<in> set fs \<Longrightarrow> unique_on fname fs \<Longrightarrow> row_fields eng r fs (fname f) = Some (extract_field eng (dr_cols r (fname f)) (fty f))"
proof (induction fs)
  case (Cons a fs)
  then have "fname a \<noteq> fname f" if "f \<noteq> a" using that by force
  with Cons show ?case by (cases "f = a") auto
qed simp

lemma dom_row_fields: "dom (row_fields eng r fs) = fname ` set fs"
  by (induction fs) auto

text \<open>The values a column of the type keeps as they are; an integer comes back as the float of the same
  value.\<close>

fun fits :: "field_type \<Rightarrow> json \<Rightarrow> bool" where
  "fits Bool v = (v = JNull \<or> (\<exists>b. v = JBool b))"
| "fits (Number _ _) v = (v = JNull \<or> (\<exists>x. v = JNumber (Float x)))"
| "fits Json v = True"
| "fits _ v = (v = JNull \<or> (\<exists>s. v = JString s))"

lemma extract_push:
  assumes "json_parse eng (json_text eng v) = Some v"
  shows "fits ty v \<Longrightarrow> extract_field eng (push_field_value eng (Some v) ty) ty = v"
  using assms by (cases ty; cases v; auto)+

lemma extract_push_none: "extract_field eng (push_field_value eng None ty) ty = JNull"
  by (cases ty) auto

lemma extract_push_number:
  "ty = Number mn mx \<Longrightarrow> extract_field eng (push_field_value eng (Some (JNumber n)) ty) ty = JNumber (Float (as_f64 n))"
  by simp

lemma create_record_cases:
  assumes "create_record eng i now db s flds = (Inr rc, db')"
  shows "\<exists>cols r. table_of db s = Inr cols \<and> violates cols (rows_of db s) r = None
    \<and> r = \<lparr>dr_id = i, dr_created_at = now, dr_updated_at = now, dr_cols = field_values eng flds (schema_fields s) (\<lambda>_. SNull)\<rparr>
    \<and> db' = set_rows db s (rows_of db s @ [r])"
  using assms by (auto simp: create_record_def Let_def split: sum.splits option.splits)

lemma rows_of_set_rows [simp]: "rows_of (set_rows db s rows) s = rows" "table_of (set_rows db s rows) s = table_of db s"
  by (simp_all add: rows_of_def set_rows_def table_of_def)

lemma violates_fresh_id: "violates cols others r = None \<Longrightarrow> dr_id r \<notin> dr_id ` set others"
  by (auto simp: violates_def split: if_splits)

text \<open>C31: A record reads back as it was created. The lookup of a record just created finds it, with the
  time stamps of its creation and exactly the fields of the schema: a value that fits the type of its
  field comes back unchanged, an integer as the float it rounds to, a field that was not given as null;
  every other record of the collection reads back as before.\<close>

theorem record_roundtrip:
  assumes "create_record eng i now db s flds = (Inr rc, db')"
    and "unique_on fname (schema_fields s)"
    and "\<And>v. v \<in> ran flds \<Longrightarrow> json_parse eng (json_text eng v) = Some v"
  shows "\<exists>r. find_record eng db' s i = Inr (Some r) \<and> rec_created_at r = now \<and> rec_updated_at r = now
      \<and> dom (rec_fields r) = fname ` set (schema_fields s)
      \<and> (\<forall>f \<in> set (schema_fields s). \<exists>v. rec_fields r (fname f) = Some v
          \<and> (case flds (fname f) of
               None \<Rightarrow> v = JNull
             | Some x \<Rightarrow> (fits (fty f) x \<longrightarrow> v = x)
                 \<and> (\<forall>mn mx n. fty f = Number mn mx \<and> x = JNumber n \<longrightarrow> v = JNumber (Float (as_f64 n)))))
      \<and> (\<forall>j. j \<noteq> i \<longrightarrow> find_record eng db' s j = find_record eng db s j)"
proof -
  obtain cols r where t: "table_of db s = Inr cols" and v: "violates cols (rows_of db s) r = None"
    and r: "r = \<lparr>dr_id = i, dr_created_at = now, dr_updated_at = now, dr_cols = field_values eng flds (schema_fields s) (\<lambda>_. SNull)\<rparr>"
    and db': "db' = set_rows db s (rows_of db s @ [r])"
    using create_record_cases [OF assms(1)] by blast
  have "List.find (\<lambda>x. dr_id x = i) (rows_of db s) = None"
    using violates_fresh_id [OF v] r by (auto simp: find_None)
  then have f: "find_record eng db' s i = Inr (Some (row_to_record eng s r))"
    using t db' r by (simp add: find_record_def find_append)
  have other: "find_record eng db' s j = find_record eng db s j" if "j \<noteq> i" for j
    using t db' r that by (auto simp: find_record_def find_append split: option.splits)
  have "rec_fields (row_to_record eng s r) (fname f) =
      Some (extract_field eng (push_field_value eng (flds (fname f)) (fty f)) (fty f))" if "f \<in> set (schema_fields s)" for f
    using that assms(2) r by (simp add: row_to_record_def row_fields_in field_values_in)
  then show ?thesis using f other r assms(3)
    by (intro exI [of _ "row_to_record eng s r"])
      (auto simp: row_to_record_def dom_row_fields extract_push_none ranI intro!: extract_push(1) split: option.splits)
qed

text \<open>A concrete engine for evaluation: one JSON value has a text, and a quoted name that is no column is
  an error.\<close>

definition demo_engine :: sql_engine where
  "demo_engine = \<lparr>read_where = (\<lambda>_. SCmp ''id'' ''=''), other_cmp = (\<lambda>_ _ _. False),
     text_of_val = (\<lambda>v. case v of SText s \<Rightarrow> s | _ \<Rightarrow> []), time_text = (\<lambda>_. []),
     missing_column = (\<lambda>c. Inl (OtherSqlx c)), json_text = (\<lambda>_. []), json_parse = (\<lambda>_. Some (JString ''hello''))\<rparr>"

definition hello :: "string \<Rightarrow> fields" where
  "hello title = [''title'' \<mapsto> JString title]"

lemma create_hello:
  "\<exists>rc db'. create_record demo_engine ''r1'' 5 (posts_db 0) posts (hello ''hello'') = (Inr rc, db')"
  by (simp add: create_record_def table_of_def posts_db_def posts_def schema_columns_def field_column_def unknown_column_def
      violates_def rows_of_def empty_app_db_def RESERVED_FIELD_NAMES_def hello_def)

theorem record_roundtrip_witness:
  "\<exists>rc db' r. create_record demo_engine ''r1'' 5 (posts_db 0) posts (hello ''hello'') = (Inr rc, db')
     \<and> find_record demo_engine db' posts ''r1'' = Inr (Some r) \<and> rec_fields r ''title'' = Some (JString ''hello'')"
proof -
  obtain rc db' where c: "create_record demo_engine ''r1'' 5 (posts_db 0) posts (hello ''hello'') = (Inr rc, db')"
    using create_hello by blast
  have "json_parse demo_engine (json_text demo_engine v) = Some v" if "v \<in> ran (hello ''hello'')" for v
    using that by (simp add: demo_engine_def hello_def)
  from record_roundtrip [OF c _ this] c show ?thesis by (auto simp: posts_def hello_def)
qed

lemma find_update_const: "List.find p rows = Some r \<Longrightarrow> p r' \<Longrightarrow> List.find p (sql_update p (\<lambda>_. r') rows) = Some r'"
  by (induction rows) (auto split: if_splits)

lemma find_update_other:
  "(\<And>x. p x \<Longrightarrow> \<not> q x) \<Longrightarrow> \<not> q r' \<Longrightarrow> List.find q (sql_update p (\<lambda>_. r') rows) = List.find q rows"
  by (induction rows) auto

lemma touched_field_values:
  assumes "f \<in> set fs" and "unique_on fname fs"
  shows "field_values eng patch (filter (\<lambda>f. \<exists>y. patch (fname f) = Some y) fs) base (fname f) =
    (case patch (fname f) of None \<Rightarrow> base (fname f) | Some v \<Rightarrow> push_field_value eng (Some v) (fty f))"
proof -
  let ?t = "filter (\<lambda>f. \<exists>y. patch (fname f) = Some y) fs"
  have u: "unique_on fname ?t" using assms(2) by (rule distinct_map_filter)
  show ?thesis
  proof (cases "patch (fname f)")
    case None
    then have "fname f \<notin> fname ` set ?t" by auto
    with None show ?thesis by (simp add: field_values_other)
  next
    case (Some v)
    then have "f \<in> set ?t" using assms(1) by simp
    from field_values_in [OF this u] Some show ?thesis by simp
  qed
qed

text \<open>A patch writes exactly the fields it names that the schema has: they read back as for a creation,
  every other field of the record keeps its value, so does the creation time, and every other record of
  the collection is as before.\<close>

theorem update_record_merges:
  assumes "update_record eng now db s i patch = (Inr rc, db')" and "unique_on fname (schema_fields s)"
    and "find_record eng db s i = Inr (Some old)"
  shows "find_record eng db' s i = Inr (Some rc) \<and> rec_created_at rc = rec_created_at old \<and> rec_updated_at rc = now
      \<and> (\<forall>f \<in> set (schema_fields s). rec_fields rc (fname f) =
           (case patch (fname f) of
              None \<Rightarrow> rec_fields old (fname f)
            | Some v \<Rightarrow> Some (extract_field eng (push_field_value eng (Some v) (fty f)) (fty f))))
      \<and> (\<forall>j. j \<noteq> i \<longrightarrow> find_record eng db' s j = find_record eng db s j)"
proof -
  let ?touched = "filter (\<lambda>f. patch (fname f) \<noteq> None) (schema_fields s)"
  obtain r where r: "List.find (\<lambda>r. dr_id r = i) (rows_of db s) = Some r" and old: "old = row_to_record eng s r"
    using assms(3) by (auto simp: find_record_def rbind_eq_Inr)
  then have id: "dr_id r = i" by (auto dest: find_SomeD)
  let ?r = "r\<lparr>dr_updated_at := now, dr_cols := field_values eng patch ?touched (dr_cols r)\<rparr>"
  have db': "db' = set_rows db s (sql_update (\<lambda>x. dr_id x = i) (\<lambda>_. ?r) (rows_of db s))"
    and f: "find_record eng db' s i = Inr (Some rc)"
    using assms(1) r by (auto simp: update_record_def Let_def split: sum.splits option.splits)
  have rc: "rc = row_to_record eng s ?r"
    using f find_update_const [OF r, of ?r] id by (auto simp: db' find_record_def rbind_eq_Inr)
  have other: "find_record eng db' s j = find_record eng db s j" if "j \<noteq> i" for j
    using find_update_other [of "\<lambda>x. dr_id x = i" "\<lambda>x. dr_id x = j" ?r "rows_of db s"] that id
    by (simp add: db' find_record_def)
  have "rec_fields rc (fname g) = (case patch (fname g) of None \<Rightarrow> rec_fields old (fname g)
      | Some v \<Rightarrow> Some (extract_field eng (push_field_value eng (Some v) (fty g)) (fty g)))" if "g \<in> set (schema_fields s)" for g
    using that assms(2) by (simp add: rc old row_to_record_def row_fields_in touched_field_values split: option.splits)
  then show ?thesis using f other rc old by (simp add: row_to_record_def)
qed

theorem update_record_merges_witness:
  "\<exists>db rc db'. update_record demo_engine 9 db posts ''r1'' (hello ''bye'') = (Inr rc, db')
     \<and> rec_created_at rc = 5 \<and> rec_updated_at rc = 9 \<and> rec_fields rc ''title'' = Some (JString ''bye'')"
proof -
  let ?db = "(posts_db 0)\<lparr>ad_rows := (\<lambda>_. [])(''posts'' := [\<lparr>dr_id = ''r1'', dr_created_at = 5, dr_updated_at = 5,
     dr_cols = (\<lambda>_. SNull)(''title'' := SText ''hello'')\<rparr>])\<rparr>"
  have f: "\<exists>old. find_record demo_engine ?db posts ''r1'' = Inr (Some old) \<and> rec_created_at old = 5"
    by (simp add: find_record_def table_of_def posts_db_def posts_def rows_of_def row_to_record_def)
  have "\<exists>rc db'. update_record demo_engine 9 ?db posts ''r1'' (hello ''bye'') = (Inr rc, db')"
    by (simp add: update_record_def Let_def table_of_def posts_db_def posts_def schema_columns_def field_column_def unknown_column_def
        violates_def rows_of_def RESERVED_FIELD_NAMES_def hello_def find_record_def set_rows_def sql_delete_def)
  then obtain rc db' where u: "update_record demo_engine 9 ?db posts ''r1'' (hello ''bye'') = (Inr rc, db')" by blast
  from f obtain old where o: "find_record demo_engine ?db posts ''r1'' = Inr (Some old)" "rec_created_at old = 5" by blast
  have "unique_on fname (schema_fields posts)" by (simp add: posts_def)
  from update_record_merges [OF u this o(1)] u o(2) show ?thesis
    by (intro exI [of _ ?db] exI [of _ rc] exI [of _ db']) (simp add: posts_def hello_def)
qed

end
