(* ===== verification/Hook_Runtime.thy ===== *)
theory Hook_Runtime
  imports Core_Types
begin

text \<open>
  The hook runtime, \<^verbatim>\<open>rustbase-runtime/src/lib.rs\<close> and \<^verbatim>\<open>sandbox.rs\<close>: the loops that run an app's
  handlers for an event, and what becomes of their errors.

  A handler is JavaScript, run by QuickJS. All it can do to the server is call a bridge, so a handler is
  a tree: it ends, or it calls a bridge and goes on with the answer. It may keep state of its own in the
  JavaScript heap, which every run takes and returns. A run that QuickJS aborts (an uncatchable error,
  the memory limit, the interrupt at the CPU deadline) ends in \<open>JsAbort\<close>, with whether the deadline had
  passed. Loading a source file is such a
  tree, too. Payloads go through JSON text; what a round trip through \<open>JSON.parse\<close> makes of one is a parameter.
\<close>

section \<open>Requests, events and errors\<close>

datatype runtime_error =
    RtIo string
  | Js string
  | Veto string
  | Timeout nat
  | RtForbidden string
  | RtInternal string

fun runtime_error_str :: "(int \<Rightarrow> string) \<Rightarrow> runtime_error \<Rightarrow> string" where
  "runtime_error_str show_int (RtIo m) = ''io error: '' @ m"
| "runtime_error_str show_int (Js m) = ''js error: '' @ m"
| "runtime_error_str show_int (Veto m) = ''vetoed by hook: '' @ m"
| "runtime_error_str show_int (Timeout ms) = ''hook exceeded cpu deadline ('' @ show_int (int ms) @ '' ms)''"
| "runtime_error_str show_int (RtForbidden m) = ''forbidden by hook policy: '' @ m"
| "runtime_error_str show_int (RtInternal m) = ''hook bridge error: '' @ m"

record hook_auth =
  ha_id :: string
  ha_role :: string
  ha_workspace :: "string option"

record hook_request =
  hr_auth :: "hook_auth option"
  hr_workspace :: string
  hr_app :: string
  hr_collection :: string

definition system_request :: "string \<Rightarrow> string \<Rightarrow> string \<Rightarrow> hook_request" where
  "system_request w a coll = \<lparr>hr_auth = None, hr_workspace = w, hr_app = a, hr_collection = coll\<rparr>"

datatype hook_event =
    AfterCreate | AfterUpdate | AfterDelete | BeforeCreate | BeforeUpdate | BeforeDelete
  | UserBeforeLogin | UserAfterLogin | UserAfterRegister

definition USER_HOOK_COLLECTION :: string where
  "USER_HOOK_COLLECTION = ''_user''"

fun event_str :: "hook_event \<Rightarrow> string" where
  "event_str AfterCreate = ''after_create''"
| "event_str AfterUpdate = ''after_update''"
| "event_str AfterDelete = ''after_delete''"
| "event_str BeforeCreate = ''before_create''"
| "event_str BeforeUpdate = ''before_update''"
| "event_str BeforeDelete = ''before_delete''"
| "event_str UserBeforeLogin = ''user_before_login''"
| "event_str UserAfterLogin = ''user_after_login''"
| "event_str UserAfterRegister = ''user_after_register''"

definition hook_key :: "string \<Rightarrow> hook_event \<Rightarrow> string" where
  "hook_key coll event = coll @ '':'' @ event_str event"

section \<open>Handlers\<close>

record fetch_request =
  fr_method :: string
  fr_url :: string
  fr_headers :: "string \<rightharpoonup> string"
  fr_body :: "char list"

record fetch_response =
  fp_status :: nat
  fp_headers :: "string \<rightharpoonup> string"
  fp_body :: string

datatype js_call =
    FindOne string string
  | FindByFilter string string nat
  | CreateRecord string fields
  | UpdateRecord string string fields
  | DeleteRecord string string
  | MailerSend email_message
  | AuditWrite string string json
  | Fetch fetch_request

datatype js_answer =
    NullAnswer
  | RecordAnswer rec
  | RecordsAnswer "rec list"
  | ResponseAnswer fetch_response
  | ThrownAnswer string

datatype hook_payload = FieldsPayload fields | RecordPayload rec | IdPayload string | UserPayload json | MessagePayload json

type_synonym js_heap = string

text \<open>How a call ends: it returns and leaves its arguments changed, it throws (the error as text, its message, and the
  argument as it is then), or the engine stops it.\<close>

datatype js_result =
    JsReturn hook_payload "hook_payload option"
  | JsThrow string string hook_payload
  | JsAbort string bool

datatype js_prog =
    JsDone js_heap js_result
  | JsCall js_call "js_answer \<Rightarrow> js_prog"

type_synonym js_fn = "js_heap \<Rightarrow> hook_request \<Rightarrow> hook_payload option \<Rightarrow> hook_payload \<Rightarrow> js_prog"

primrec run_js :: "(js_call \<Rightarrow> 's \<Rightarrow> js_answer \<times> 's) \<Rightarrow> js_prog \<Rightarrow> 's \<Rightarrow> (js_heap \<times> js_result) \<times> 's" where
  "run_js bridge (JsDone h r) s = ((h, r), s)"
| "run_js bridge (JsCall c k) s = (case bridge c s of (ans, s') \<Rightarrow> run_js bridge (k ans) s')"

record sandbox_limits =
  memory_bytes :: "nat option"
  stack_bytes :: "nat option"
  cpu_time_ms :: "nat option"

definition default_limits :: sandbox_limits where
  "default_limits = \<lparr>memory_bytes = Some (64 * 1024 * 1024), stack_bytes = Some (1024 * 1024), cpu_time_ms = Some 1000\<rparr>"

definition unlimited :: sandbox_limits where
  "unlimited = \<lparr>memory_bytes = None, stack_bytes = None, cpu_time_ms = None\<rparr>"

record app_hooks =
  ah_handlers :: "string \<Rightarrow> js_fn list"
  ah_heap :: js_heap
  ah_errors :: "string list"
  ah_limits :: sandbox_limits

definition classify :: "sandbox_limits \<Rightarrow> bool \<Rightarrow> runtime_error \<Rightarrow> runtime_error" where
  "classify limits crossed e = (case e of
      Js _ \<Rightarrow> (case cpu_time_ms limits of Some ms \<Rightarrow> if crossed then Timeout ms else e | None \<Rightarrow> e)
    | _ \<Rightarrow> e)"

section \<open>Dispatch\<close>

text \<open>The driver of the before-hooks: the first throw is a veto, and the payload as the handlers left it is
  the answer. They share one payload and one secondary argument.\<close>

fun before_loop ::
  "(js_call \<Rightarrow> 's \<Rightarrow> js_answer \<times> 's) \<Rightarrow> sandbox_limits \<Rightarrow> js_fn list \<Rightarrow> js_heap \<Rightarrow> hook_request
    \<Rightarrow> hook_payload option \<Rightarrow> hook_payload \<Rightarrow> 's \<Rightarrow> (runtime_error + hook_payload) \<times> js_heap \<times> 's" where
  "before_loop bridge limits [] h req sec p s = (Inr p, h, s)"
| "before_loop bridge limits (fn # fns) h req sec p s =
     (case run_js bridge (fn h req sec p) s of
        ((h', JsReturn p' sec'), s') \<Rightarrow> before_loop bridge limits fns h' req sec' p' s'
      | ((h', JsThrow shown m p'), s') \<Rightarrow> (Inl (Veto m), h', s')
      | ((h', JsAbort m crossed), s') \<Rightarrow> (Inl (classify limits crossed (Js (''dispatch_before: '' @ m))), h', s'))"

definition run_before ::
  "(js_call \<Rightarrow> 's \<Rightarrow> js_answer \<times> 's) \<Rightarrow> (hook_payload \<Rightarrow> hook_payload) \<Rightarrow> app_hooks \<Rightarrow> string \<Rightarrow> hook_request
    \<Rightarrow> hook_payload option \<Rightarrow> hook_payload \<Rightarrow> 's \<Rightarrow> (runtime_error + hook_payload) \<times> app_hooks \<times> 's" where
  "run_before bridge parse hk key req sec p s =
     (case before_loop bridge (ah_limits hk) (ah_handlers hk key) (ah_heap hk) req (map_option parse sec) (parse p) s of
        (r, h, s') \<Rightarrow> (r, hk\<lparr>ah_heap := h\<rparr>, s'))"

text \<open>The driver of the observers: a throw is recorded, and the next handler runs.\<close>

fun after_loop ::
  "(js_call \<Rightarrow> 's \<Rightarrow> js_answer \<times> 's) \<Rightarrow> sandbox_limits \<Rightarrow> js_fn list \<Rightarrow> js_heap \<Rightarrow> string list \<Rightarrow> hook_request
    \<Rightarrow> hook_payload \<Rightarrow> 's \<Rightarrow> (runtime_error + unit) \<times> js_heap \<times> string list \<times> 's" where
  "after_loop bridge limits [] h errs req p s = (Inr (), h, errs, s)"
| "after_loop bridge limits (fn # fns) h errs req p s =
     (case run_js bridge (fn h req None p) s of
        ((h', JsReturn p' _), s') \<Rightarrow> after_loop bridge limits fns h' errs req p' s'
      | ((h', JsThrow shown m p'), s') \<Rightarrow> after_loop bridge limits fns h' (errs @ [shown]) req p' s'
      | ((h', JsAbort m crossed), s') \<Rightarrow> (Inl (classify limits crossed (Js (''dispatch: '' @ m))), h', errs, s'))"

definition run_dispatch ::
  "(js_call \<Rightarrow> 's \<Rightarrow> js_answer \<times> 's) \<Rightarrow> (hook_payload \<Rightarrow> hook_payload) \<Rightarrow> app_hooks \<Rightarrow> string \<Rightarrow> hook_request
    \<Rightarrow> hook_payload \<Rightarrow> 's \<Rightarrow> (runtime_error + unit) \<times> app_hooks \<times> 's" where
  "run_dispatch bridge parse hk key req p s =
     (case after_loop bridge (ah_limits hk) (ah_handlers hk key) (ah_heap hk) (ah_errors hk) req (parse p) s of
        (r, h, errs, s') \<Rightarrow> (r, hk\<lparr>ah_heap := h, ah_errors := errs\<rparr>, s'))"

definition drain_errors :: "app_hooks \<Rightarrow> string list \<times> app_hooks" where
  "drain_errors hk = (ah_errors hk, hk\<lparr>ah_errors := []\<rparr>)"

section \<open>Loading\<close>

text \<open>A source file of an app's hooks; \<open>hf_text\<close> is its text, or the error of reading it as UTF-8.\<close>

record hook_file =
  hf_name :: string
  hf_text :: "string + string"
  hf_size :: nat
  hf_mtime :: time

text \<open>Evaluating a source registers handlers and may call bridges, too. It ends with the handlers, the heap
  and the recorded errors as it leaves them, and with the error it raised, if any.\<close>

datatype js_load =
    LoadDone "string \<Rightarrow> js_fn list" js_heap "string list" "(string \<times> bool) option"
  | LoadCall js_call "js_answer \<Rightarrow> js_load"

record js_engine =
  js_eval :: "string \<Rightarrow> (string \<Rightarrow> js_fn list) \<Rightarrow> js_heap \<Rightarrow> string list \<Rightarrow> js_load"
  js_transpile :: "string \<Rightarrow> string + string"
  js_bootstrap :: js_heap

primrec run_load ::
  "(js_call \<Rightarrow> 's \<Rightarrow> js_answer \<times> 's) \<Rightarrow> app_hooks \<Rightarrow> js_load \<Rightarrow> 's \<Rightarrow> (string \<times> bool) option \<times> app_hooks \<times> 's" where
  "run_load bridge hk (LoadDone hs h errs r) s = (r, hk\<lparr>ah_handlers := hs, ah_heap := h, ah_errors := errs\<rparr>, s)"
| "run_load bridge hk (LoadCall c k) s = (case bridge c s of (ans, s') \<Rightarrow> run_load bridge hk (k ans) s')"

definition eval_source ::
  "(js_call \<Rightarrow> 's \<Rightarrow> js_answer \<times> 's) \<Rightarrow> js_engine \<Rightarrow> app_hooks \<Rightarrow> string \<Rightarrow> string \<Rightarrow> 's \<Rightarrow> (runtime_error + unit) \<times> app_hooks \<times> 's" where
  "eval_source bridge eng hk src label s =
     (case run_load bridge hk (js_eval eng src (ah_handlers hk) (ah_heap hk) (ah_errors hk)) s of
        (None, hk', s') \<Rightarrow> (Inr (), hk', s')
      | (Some (m, crossed), hk', s') \<Rightarrow> (Inl (classify (ah_limits hk) crossed (Js (label @ '': '' @ m))), hk', s'))"

definition record_load_error :: "app_hooks \<Rightarrow> string \<Rightarrow> string \<Rightarrow> app_hooks" where
  "record_load_error hk file msg = hk\<lparr>ah_errors := ah_errors hk @ [''hook load failed: '' @ file @ '': '' @ msg]\<rparr>"

text \<open>\<open>Path::extension\<close>: what follows the last dot, unless the name has none or begins with it.\<close>

definition file_extension :: "string \<Rightarrow> string option" where
  "file_extension name =
     (let ext = rev (takeWhile (\<lambda>c. c \<noteq> CHR ''.'') (rev name))
      in if length name \<le> length ext + 1 then None else Some ext)"

text \<open>The files in the order the directory gives them.\<close>

fun load_dir ::
  "(js_call \<Rightarrow> 's \<Rightarrow> js_answer \<times> 's) \<Rightarrow> js_engine \<Rightarrow> (int \<Rightarrow> string) \<Rightarrow> (string \<Rightarrow> string) \<Rightarrow> hook_file list
    \<Rightarrow> app_hooks \<Rightarrow> nat \<Rightarrow> 's \<Rightarrow> (runtime_error + nat) \<times> app_hooks \<times> 's" where
  "load_dir bridge eng show_int label [] hk n s = (Inr n, hk, s)"
| "load_dir bridge eng show_int label (f # fs) hk n s =
     (let ext = file_extension (hf_name f); file = label (hf_name f) in
      if ext \<noteq> Some ''ts'' \<and> ext \<noteq> Some ''js'' then load_dir bridge eng show_int label fs hk n s
      else case hf_text f of
        Inl e \<Rightarrow> (Inl (RtIo e), hk, s)
      | Inr raw \<Rightarrow>
          (case if ext = Some ''ts'' then js_transpile eng raw else Inr raw of
             Inl e \<Rightarrow> load_dir bridge eng show_int label fs (record_load_error hk file (''ts transpile failed: '' @ e)) n s
           | Inr src \<Rightarrow>
               (case eval_source bridge eng hk src file s of
                  (Inl e, hk', s') \<Rightarrow> load_dir bridge eng show_int label fs (record_load_error hk' file (runtime_error_str show_int e)) n s'
                | (Inr _, hk', s') \<Rightarrow> load_dir bridge eng show_int label fs hk' (n + 1) s')))"

definition fresh_hooks :: "js_engine \<Rightarrow> sandbox_limits \<Rightarrow> app_hooks" where
  "fresh_hooks eng limits = \<lparr>ah_handlers = (\<lambda>_. []), ah_heap = js_bootstrap eng, ah_errors = [], ah_limits = limits\<rparr>"

section \<open>What a bridge guarantees, every hook keeps\<close>

locale js_host =
  fixes bridge :: "js_call \<Rightarrow> 's \<Rightarrow> js_answer \<times> 's"
    and R :: "'s \<Rightarrow> 's \<Rightarrow> bool"
  assumes R_refl: "R s s"
    and R_trans: "R s1 s2 \<Longrightarrow> R s2 s3 \<Longrightarrow> R s1 s3"
    and bridge_R: "R s (snd (bridge c s))"
begin

lemma run_js_R: "R s (snd (run_js bridge p s))"
proof (induction p arbitrary: s)
  case (JsDone h r)
  then show ?case by (simp add: R_refl)
next
  case (JsCall c k)
  have "R s (snd (bridge c s))" by (rule bridge_R)
  moreover have "R (snd (bridge c s)) (snd (run_js bridge (k (fst (bridge c s))) (snd (bridge c s))))" by (rule JsCall) simp
  ultimately show ?case by (auto simp: split_beta intro: R_trans)
qed

lemma before_loop_R: "before_loop bridge limits fns h req sec p s = (r, h', s') \<Longrightarrow> R s s'"
proof (induction fns arbitrary: h sec p s)
  case Nil
  then show ?case by (simp add: R_refl)
next
  case (Cons fn fns)
  obtain h1 res s1 where run: "run_js bridge (fn h req sec p) s = ((h1, res), s1)" by (metis surj_pair)
  have "R s s1" using run_js_R [of s "fn h req sec p"] run by simp
  with Cons run show ?case by (cases res) (auto intro: R_trans)
qed

lemma after_loop_R: "after_loop bridge limits fns h errs req p s = (r, h', errs', s') \<Longrightarrow> R s s'"
proof (induction fns arbitrary: h errs p s)
  case Nil
  then show ?case by (simp add: R_refl)
next
  case (Cons fn fns)
  obtain h1 res s1 where run: "run_js bridge (fn h req None p) s = ((h1, res), s1)" by (metis surj_pair)
  have "R s s1" using run_js_R [of s "fn h req None p"] run by simp
  with Cons run show ?case by (cases res) (auto intro: R_trans)
qed

lemma run_before_R: "run_before bridge parse hk key req sec p s = (r, hk', s') \<Longrightarrow> R s s'"
  by (auto simp: run_before_def split: prod.splits dest: before_loop_R)

lemma run_dispatch_R: "run_dispatch bridge parse hk key req p s = (r, hk', s') \<Longrightarrow> R s s'"
  by (auto simp: run_dispatch_def split: prod.splits dest: after_loop_R)

lemma run_load_R: "run_load bridge hk p s = (r, hk', s') \<Longrightarrow> R s s'"
proof (induction p arbitrary: s)
  case (LoadDone hs h errs x)
  then show ?case by (simp add: R_refl)
next
  case (LoadCall c k)
  obtain ans s1 where c: "bridge c s = (ans, s1)" by (metis surj_pair)
  have "R s s1" using bridge_R [of s c] c by simp
  moreover have "R s1 s'" using LoadCall.IH [OF rangeI] LoadCall.prems c by simp
  ultimately show ?case by (rule R_trans)
qed

lemma eval_source_R: "eval_source bridge eng hk src label s = (r, hk', s') \<Longrightarrow> R s s'"
  by (auto simp: eval_source_def split: prod.splits option.splits dest: run_load_R)

lemma load_dir_R: "load_dir bridge eng sh label fs hk n s = (r, hk', s') \<Longrightarrow> R s s'"
proof (induction fs arbitrary: hk n s)
  case Nil
  then show ?case by (simp add: R_refl)
next
  case (Cons f fs)
  from Cons.prems show ?case
    by (auto simp: Let_def R_refl split: if_splits sum.splits prod.splits dest: Cons.IH eval_source_R intro: R_trans)
qed

end

text \<open>A bridge that does not see a part of the state: its calls commute with changing that part.\<close>

locale blind_bridge =
  fixes bridge :: "js_call \<Rightarrow> 's \<Rightarrow> js_answer \<times> 's"
    and T :: "'s \<Rightarrow> 's"
  assumes bridge_T: "bridge c (T s) = (fst (bridge c s), T (snd (bridge c s)))"
begin

lemma run_js_T: "run_js bridge p (T s) = (fst (run_js bridge p s), T (snd (run_js bridge p s)))"
proof (induction p arbitrary: s)
  case (JsCall c k)
  then show ?case by (simp add: bridge_T split_beta)
qed simp

lemma before_loop_T:
  "before_loop bridge limits fns h req sec p (T s) =
     (case before_loop bridge limits fns h req sec p s of (r, h', s') \<Rightarrow> (r, h', T s'))"
proof (induction fns arbitrary: h sec p s)
  case (Cons fn fns)
  obtain h1 res s1 where run: "run_js bridge (fn h req sec p) s = ((h1, res), s1)" by (metis surj_pair)
  then have "run_js bridge (fn h req sec p) (T s) = ((h1, res), T s1)" by (simp add: run_js_T)
  with Cons run show ?case by (cases res) auto
qed simp

lemma after_loop_T:
  "after_loop bridge limits fns h errs req p (T s) =
     (case after_loop bridge limits fns h errs req p s of (r, h', errs', s') \<Rightarrow> (r, h', errs', T s'))"
proof (induction fns arbitrary: h errs p s)
  case (Cons fn fns)
  obtain h1 res s1 where run: "run_js bridge (fn h req None p) s = ((h1, res), s1)" by (metis surj_pair)
  then have "run_js bridge (fn h req None p) (T s) = ((h1, res), T s1)" by (simp add: run_js_T)
  with Cons run show ?case by (cases res) auto
qed simp

lemma run_before_T:
  "run_before bridge parse hk key req sec p (T s) =
     (case run_before bridge parse hk key req sec p s of (r, hk', s') \<Rightarrow> (r, hk', T s'))"
  by (auto simp: run_before_def before_loop_T split: prod.splits)

lemma run_dispatch_T:
  "run_dispatch bridge parse hk key req p (T s) =
     (case run_dispatch bridge parse hk key req p s of (r, hk', s') \<Rightarrow> (r, hk', T s'))"
  by (auto simp: run_dispatch_def after_loop_T split: prod.splits)

lemma run_load_T: "run_load bridge hk p (T s) = (case run_load bridge hk p s of (r, hk', s') \<Rightarrow> (r, hk', T s'))"
proof (induction p arbitrary: s)
  case (LoadCall c k)
  then show ?case by (simp add: bridge_T split_beta)
qed simp

lemma eval_source_T:
  "eval_source bridge eng hk src label (T s) = (case eval_source bridge eng hk src label s of (r, hk', s') \<Rightarrow> (r, hk', T s'))"
  by (auto simp: eval_source_def run_load_T split: prod.splits option.splits)

lemma load_dir_T:
  "load_dir bridge eng sh label fs hk n (T s) = (case load_dir bridge eng sh label fs hk n s of (r, hk', s') \<Rightarrow> (r, hk', T s'))"
proof (induction fs arbitrary: hk n s)
  case (Cons f fs)
  then show ?case by (auto simp: Let_def eval_source_T split: sum.splits prod.splits)
qed simp

end

end
