(* ===== verification/Auth_Core.thy ===== *)
theory Auth_Core
  imports Core_Types
begin

text \<open>
  The request-level security core: access-token claims and their verification
  (\<^verbatim>\<open>rustbase-auth/src/token.rs\<close>, \<^verbatim>\<open>jwt.rs\<close>, \<^verbatim>\<open>error.rs\<close>), the revocation set
  (\<^verbatim>\<open>revocation.rs\<close>), the failed-login tracker (\<^verbatim>\<open>rustbase-api/src/security.rs\<close>), the session
  cookies (\<^verbatim>\<open>auth/cookies.rs\<close>) and the extractors with their scope checks
  (\<^verbatim>\<open>auth/extract.rs\<close>).

  Signature checking is the record \<open>jwt_lib\<close> of the library's decoding functions. Instants are
  nanoseconds; \<open>timestamp\<close> is the Unix second a token carries.
\<close>

section \<open>Instants\<close>

definition timestamp :: "time \<Rightarrow> int" where
  "timestamp t = t div 1000000000"

definition seconds :: "int \<Rightarrow> time" where
  "seconds n = n * 1000000000"

definition minutes :: "int \<Rightarrow> time" where
  "minutes n = seconds (60 * n)"

definition hours :: "int \<Rightarrow> time" where
  "hours n = minutes (60 * n)"

definition days :: "int \<Rightarrow> time" where
  "days n = hours (24 * n)"

text \<open>\<open>Duration::num_seconds\<close>, which truncates towards zero.\<close>

definition num_seconds :: "time \<Rightarrow> int" where
  "num_seconds d = (if d < 0 then - ((- d) div 1000000000) else d div 1000000000)"

section \<open>Errors\<close>

datatype jwt_error = ExpiredSignature | OtherJwt string

datatype auth_error =
    InvalidCredentials
  | TokenExpired
  | InvalidToken string
  | PasswordHash string
  | Jwt jwt_error
  | AuthInternal string

fun core_error_of_auth :: "auth_error \<Rightarrow> core_error" where
  "core_error_of_auth InvalidCredentials = Unauthorized"
| "core_error_of_auth TokenExpired = Unauthorized"
| "core_error_of_auth (InvalidToken _) = Unauthorized"
| "core_error_of_auth (PasswordHash s) = Internal (''password hash: '' @ s)"
| "core_error_of_auth (Jwt _) = Unauthorized"
| "core_error_of_auth (AuthInternal s) = Internal (''auth: '' @ s)"

text \<open>The status and code of an error response, and its \<open>Retry-After\<close> seconds.\<close>

fun error_response :: "core_error \<Rightarrow> nat \<times> string \<times> nat option" where
  "error_response (NotFound _ _) = (404, ''not_found'', None)"
| "error_response (WorkspaceNotFound _) = (404, ''workspace_not_found'', None)"
| "error_response (AppNotFound _ _) = (404, ''app_not_found'', None)"
| "error_response (Validation _) = (400, ''validation'', None)"
| "error_response (PolicyViolation _ _ _) = (409, ''policy_violation'', None)"
| "error_response (Conflict _) = (409, ''conflict'', None)"
| "error_response (Unavailable _) = (503, ''unavailable'', None)"
| "error_response Unauthorized = (401, ''unauthorized'', None)"
| "error_response Forbidden = (403, ''forbidden'', None)"
| "error_response (TooManyRequests secs) = (429, ''too_many_requests'', Some secs)"
| "error_response (Internal _) = (500, ''internal'', None)"

section \<open>Claims\<close>

datatype token_role = MasterAdminRole | WorkspaceAdminRole | AppAdminRole | UserRole

record claims =
  sub :: string
  role :: token_role
  claim_workspace :: "string option"
  claim_app :: "string option"
  iat :: int
  exp :: int
  jti :: string

definition build_claims ::
  "string \<Rightarrow> time \<Rightarrow> string \<Rightarrow> token_role \<Rightarrow> string option \<Rightarrow> string option \<Rightarrow> time \<Rightarrow> claims" where
  "build_claims fresh_jti now subject r workspace app ttl =
     \<lparr>sub = subject, role = r, claim_workspace = workspace, claim_app = app,
      iat = timestamp now, exp = timestamp (now + ttl), jti = fresh_jti\<rparr>"

section \<open>Token verification\<close>

datatype algorithm = RS256 | HS256 | OtherAlg string

record jwt_lib =
  decode_header :: "string \<Rightarrow> jwt_error + algorithm \<times> string option"
  decode_rs256 :: "time \<Rightarrow> string \<Rightarrow> jwt_error + claims"
  decode_hs256 :: "char list \<Rightarrow> time \<Rightarrow> string \<Rightarrow> jwt_error + claims"
  sign_rs256 :: "string \<Rightarrow> claims \<Rightarrow> jwt_error + string"

record jwt_issuer =
  active_kid :: string
  legacy_hmac :: "char list option"

definition map_jwt_error :: "jwt_error \<Rightarrow> auth_error" where
  "map_jwt_error e = (case e of ExpiredSignature \<Rightarrow> TokenExpired | OtherJwt _ \<Rightarrow> Jwt e)"

definition map_decode :: "jwt_error + claims \<Rightarrow> auth_error + claims" where
  "map_decode r = (case r of Inl e \<Rightarrow> Inl (map_jwt_error e) | Inr c \<Rightarrow> Inr c)"

definition jwt_issue :: "jwt_lib \<Rightarrow> jwt_issuer \<Rightarrow> claims \<Rightarrow> auth_error + string" where
  "jwt_issue lib iss c =
     (case sign_rs256 lib (active_kid iss) c of Inl e \<Rightarrow> Inl (Jwt e) | Inr t \<Rightarrow> Inr t)"

definition jwt_verify :: "jwt_lib \<Rightarrow> jwt_issuer \<Rightarrow> time \<Rightarrow> string \<Rightarrow> auth_error + claims" where
  "jwt_verify lib iss now token =
     (case decode_header lib token of
        Inl e \<Rightarrow> Inl (map_jwt_error e)
      | Inr (alg, kid) \<Rightarrow>
          (case alg of
             RS256 \<Rightarrow>
               (case kid of
                  Some k \<Rightarrow> if k \<noteq> active_kid iss
                    then Inl (AuthInternal (''token kid '' @ [CHR 0x22] @ k @ [CHR 0x22] @ '' does not match active key''))
                    else map_decode (decode_rs256 lib now token)
                | None \<Rightarrow> map_decode (decode_rs256 lib now token))
           | HS256 \<Rightarrow>
               (case legacy_hmac iss of
                  None \<Rightarrow> Inl (AuthInternal ''HS256 token rejected: no legacy HMAC key in this issuer'')
                | Some key \<Rightarrow> map_decode (decode_hs256 lib key now token))
           | OtherAlg a \<Rightarrow> Inl (AuthInternal (''token algorithm '' @ a @ '' not accepted''))))"

section \<open>Revocations\<close>

record subject_key =
  key_workspace :: "string option"
  key_subject :: string

definition key_master :: "string \<Rightarrow> subject_key" where
  "key_master s = \<lparr>key_workspace = None, key_subject = s\<rparr>"

definition key_scoped :: "string \<Rightarrow> string \<Rightarrow> subject_key" where
  "key_scoped w s = \<lparr>key_workspace = Some w, key_subject = s\<rparr>"

record revocation_set =
  rv_inner :: "subject_key \<rightharpoonup> int"
  rv_ttl :: int

definition revocation_new :: "int \<Rightarrow> revocation_set" where
  "revocation_new ttl_seconds = \<lparr>rv_inner = Map.empty, rv_ttl = max ttl_seconds 0\<rparr>"

definition revocation_default :: revocation_set where
  "revocation_default = revocation_new (15 * 60)"

definition revoke :: "time \<Rightarrow> revocation_set \<Rightarrow> subject_key \<Rightarrow> revocation_set" where
  "revoke now s k = s\<lparr>rv_inner := (rv_inner s)(k \<mapsto> timestamp now)\<rparr>"

definition is_revoked :: "time \<Rightarrow> revocation_set \<Rightarrow> subject_key \<Rightarrow> int \<Rightarrow> bool \<times> revocation_set" where
  "is_revoked now s k token_iat =
     (case rv_inner s k of
        None \<Rightarrow> (False, s)
      | Some revoked_at \<Rightarrow>
          if timestamp now > revoked_at + rv_ttl s
          then (False, s\<lparr>rv_inner := (rv_inner s)(k := None)\<rparr>)
          else (token_iat \<le> revoked_at, s))"

definition purge_expired :: "time \<Rightarrow> revocation_set \<Rightarrow> revocation_set" where
  "purge_expired now s =
     s\<lparr>rv_inner := (\<lambda>k. case rv_inner s k of
          None \<Rightarrow> None
        | Some revoked_at \<Rightarrow> if revoked_at > timestamp now - rv_ttl s then Some revoked_at else None)\<rparr>"

section \<open>Failed logins\<close>

record lockout_policy =
  lp_enabled :: bool
  lp_max_failures :: nat
  lp_window :: time
  lp_lockout :: time

definition lockout_from_secs :: "bool \<Rightarrow> nat \<Rightarrow> nat \<Rightarrow> nat \<Rightarrow> lockout_policy" where
  "lockout_from_secs enabled max_failures window_secs lockout_secs =
     \<lparr>lp_enabled = enabled, lp_max_failures = max_failures,
      lp_window = seconds (min (int window_secs) (2 ^ 63 - 1)),
      lp_lockout = seconds (min (int lockout_secs) (2 ^ 63 - 1))\<rparr>"

definition lockout_default :: lockout_policy where
  "lockout_default = \<lparr>lp_enabled = True, lp_max_failures = 5,
     lp_window = seconds 300, lp_lockout = seconds 300\<rparr>"

record attempt_state =
  failures :: "time list"
  locked_until :: "time option"

type_synonym login_attempts = "string \<rightharpoonup> attempt_state"

definition remaining_secs :: "time \<Rightarrow> nat" where
  "remaining_secs d = nat (max (num_seconds d) 1)"

definition attempts_check :: "time \<Rightarrow> login_attempts \<Rightarrow> string \<Rightarrow> lockout_policy \<Rightarrow> core_error + unit" where
  "attempts_check now a subject policy =
     (if \<not> lp_enabled policy then Inr ()
      else case a subject of
        None \<Rightarrow> Inr ()
      | Some s \<Rightarrow>
          (case locked_until s of
             None \<Rightarrow> Inr ()
           | Some until \<Rightarrow> if until > now then Inl (TooManyRequests (remaining_secs (until - now))) else Inr ()))"

text \<open>\<open>failures.len() as u32\<close> is compared with the threshold.\<close>

definition note_failure ::
  "time \<Rightarrow> login_attempts \<Rightarrow> string \<Rightarrow> lockout_policy \<Rightarrow> (core_error + unit) \<times> login_attempts" where
  "note_failure now a subject policy =
     (if \<not> lp_enabled policy then (Inr (), a)
      else let entry = (case a subject of None \<Rightarrow> \<lparr>failures = [], locked_until = None\<rparr> | Some s \<Rightarrow> s)
           in case (case locked_until entry of Some until \<Rightarrow> if until > now then Some until else None | None \<Rightarrow> None) of
             Some until \<Rightarrow> (Inl (TooManyRequests (remaining_secs (until - now))), a(subject \<mapsto> entry))
           | None \<Rightarrow>
               let fs = (if locked_until entry = None then failures entry else []);
                   fs' = filter (\<lambda>t. t > now - lp_window policy) fs @ [now]
               in if length fs' mod 2 ^ 32 \<ge> lp_max_failures policy
                  then (Inl (TooManyRequests (remaining_secs (lp_lockout policy))),
                        a(subject \<mapsto> \<lparr>failures = fs', locked_until = Some (now + lp_lockout policy)\<rparr>))
                  else (Inr (), a(subject \<mapsto> \<lparr>failures = fs', locked_until = None\<rparr>)))"

definition note_success :: "login_attempts \<Rightarrow> string \<Rightarrow> login_attempts" where
  "note_success a subject = a(subject := None)"

section \<open>Cookies\<close>

definition ACCESS_COOKIE :: string where
  "ACCESS_COOKIE = ''rb_at''"

definition REFRESH_COOKIE :: string where
  "REFRESH_COOKIE = ''rb_rt''"

text \<open>\<open>{max_age_secs}\<close> is printed by \<open>show_i64\<close>; \<open>value_ok\<close> tells the texts a header value may have.\<close>

definition build_cookie :: "(int \<Rightarrow> string) \<Rightarrow> (string \<Rightarrow> bool) \<Rightarrow> string \<Rightarrow> string \<Rightarrow> string \<Rightarrow> int \<Rightarrow> bool \<Rightarrow> string" where
  "build_cookie show_i64 value_ok name val path max_age secure =
     (let out = name @ ''='' @ val @ ''; Path='' @ path @ ''; Max-Age='' @ show_i64 max_age @
        ''; HttpOnly; SameSite=Strict'' @ (if secure then ''; Secure'' else [])
      in if value_ok out then out else ''rb_invalid=; Max-Age=0; HttpOnly'')"

fun split_on :: "char \<Rightarrow> string \<Rightarrow> string list" where
  "split_on c [] = [[]]"
| "split_on c (x # xs) =
     (if x = c then [] # split_on c xs
      else case split_on c xs of [] \<Rightarrow> [[x]] | y # ys \<Rightarrow> (x # y) # ys)"

definition strip_prefix :: "string \<Rightarrow> string \<Rightarrow> string option" where
  "strip_prefix p s = (if take (length p) s = p then Some (drop (length p) s) else None)"

fun first_cookie :: "string \<Rightarrow> string list \<Rightarrow> string option" where
  "first_cookie name [] = None"
| "first_cookie name (pair # rest) =
     (case strip_prefix (name @ ''='') (trim pair) of Some v \<Rightarrow> Some v | None \<Rightarrow> first_cookie name rest)"

text \<open>The request headers the handlers read, as text where the header decodes as text.\<close>

record headers =
  authorization :: "string option"
  cookie_header :: "string option"

definition read_cookie :: "headers \<Rightarrow> string \<Rightarrow> string option" where
  "read_cookie h name =
     (case cookie_header h of None \<Rightarrow> None | Some raw \<Rightarrow> first_cookie name (split_on CHR '';'' raw))"

section \<open>Extractors\<close>

definition subject_key_of :: "claims \<Rightarrow> subject_key" where
  "subject_key_of c = (case claim_workspace c of Some w \<Rightarrow> key_scoped w (sub c) | None \<Rightarrow> key_master (sub c))"

definition verify_and_check ::
  "jwt_lib \<Rightarrow> jwt_issuer \<Rightarrow> time \<Rightarrow> revocation_set \<Rightarrow> string \<Rightarrow> (core_error + claims) \<times> revocation_set" where
  "verify_and_check lib iss now rv token =
     (case jwt_verify lib iss now token of
        Inl e \<Rightarrow> (Inl (core_error_of_auth e), rv)
      | Inr c \<Rightarrow>
          (case is_revoked now rv (subject_key_of c) (iat c) of
             (revoked, rv') \<Rightarrow> if revoked then (Inl Unauthorized, rv') else (Inr c, rv')))"

definition extract_claims ::
  "jwt_lib \<Rightarrow> jwt_issuer \<Rightarrow> time \<Rightarrow> revocation_set \<Rightarrow> headers \<Rightarrow> (core_error + claims option) \<times> revocation_set" where
  "extract_claims lib iss now rv h =
     (let token = (case (case authorization h of None \<Rightarrow> None | Some a \<Rightarrow> strip_prefix ''Bearer '' a) of
                     Some t \<Rightarrow> Some t
                   | None \<Rightarrow> read_cookie h ACCESS_COOKIE)
      in case token of
        None \<Rightarrow> (Inr None, rv)
      | Some t \<Rightarrow>
          (case verify_and_check lib iss now rv t of
             (Inl e, rv') \<Rightarrow> (Inl e, rv')
           | (Inr c, rv') \<Rightarrow> (Inr (Some c), rv')))"

definition admin_auth ::
  "jwt_lib \<Rightarrow> jwt_issuer \<Rightarrow> time \<Rightarrow> revocation_set \<Rightarrow> headers \<Rightarrow> (core_error + claims) \<times> revocation_set" where
  "admin_auth lib iss now rv h =
     (case extract_claims lib iss now rv h of
        (Inl e, rv') \<Rightarrow> (Inl e, rv')
      | (Inr None, rv') \<Rightarrow> (Inl Unauthorized, rv')
      | (Inr (Some c), rv') \<Rightarrow> if role c = UserRole then (Inl Forbidden, rv') else (Inr c, rv'))"

definition principal_auth ::
  "jwt_lib \<Rightarrow> jwt_issuer \<Rightarrow> time \<Rightarrow> revocation_set \<Rightarrow> headers \<Rightarrow> (core_error + claims) \<times> revocation_set" where
  "principal_auth lib iss now rv h =
     (case extract_claims lib iss now rv h of
        (Inl e, rv') \<Rightarrow> (Inl e, rv')
      | (Inr None, rv') \<Rightarrow> (Inl Unauthorized, rv')
      | (Inr (Some c), rv') \<Rightarrow> (Inr c, rv'))"

definition principal_from_token ::
  "jwt_lib \<Rightarrow> jwt_issuer \<Rightarrow> time \<Rightarrow> revocation_set \<Rightarrow> string \<Rightarrow> (core_error + claims) \<times> revocation_set" where
  "principal_from_token lib iss now rv token = verify_and_check lib iss now rv token"

section \<open>Scope checks\<close>

definition require_master :: "claims \<Rightarrow> core_error + unit" where
  "require_master c = (if role c = MasterAdminRole then Inr () else Inl Forbidden)"

definition require_workspace_access :: "claims \<Rightarrow> string \<Rightarrow> core_error + unit" where
  "require_workspace_access c workspace = (case role c of
      MasterAdminRole \<Rightarrow> Inr ()
    | WorkspaceAdminRole \<Rightarrow> if claim_workspace c = Some workspace then Inr () else Inl Forbidden
    | AppAdminRole \<Rightarrow> if claim_workspace c = Some workspace then Inr () else Inl Forbidden
    | UserRole \<Rightarrow> Inl Forbidden)"

definition require_app_access :: "claims \<Rightarrow> string \<Rightarrow> string \<Rightarrow> core_error + unit" where
  "require_app_access c workspace app = (case role c of
      MasterAdminRole \<Rightarrow> Inr ()
    | WorkspaceAdminRole \<Rightarrow> if claim_workspace c = Some workspace then Inr () else Inl Forbidden
    | AppAdminRole \<Rightarrow> if claim_workspace c = Some workspace \<and> claim_app c = Some app then Inr () else Inl Forbidden
    | UserRole \<Rightarrow> Inl Forbidden)"

definition is_admin_for_app :: "claims \<Rightarrow> string \<Rightarrow> string \<Rightarrow> bool" where
  "is_admin_for_app c workspace app = (case role c of
      MasterAdminRole \<Rightarrow> True
    | WorkspaceAdminRole \<Rightarrow> claim_workspace c = Some workspace
    | AppAdminRole \<Rightarrow> claim_workspace c = Some workspace \<and> claim_app c = Some app
    | UserRole \<Rightarrow> False)"

definition user_workspace :: "claims \<Rightarrow> string option" where
  "user_workspace c = (case role c of UserRole \<Rightarrow> claim_workspace c | _ \<Rightarrow> None)"

definition require_user_in_workspace :: "claims \<Rightarrow> string \<Rightarrow> core_error + unit" where
  "require_user_in_workspace c workspace =
     (case user_workspace c of
        Some w \<Rightarrow> if w = workspace then Inr () else Inl Forbidden
      | None \<Rightarrow> Inl Forbidden)"


section \<open>Which key vouches for a token\<close>

text \<open>a token is accepted only under the key its header's algorithm names: an RS256 token under
  the active RSA key, with no other key id in its header, and an HS256 token under the configured
  legacy key. A token of any other algorithm is refused, and without a legacy key so is every
  HS256 token.\<close>

theorem verify_key_matches_algorithm:
  assumes "jwt_verify lib iss now token = Inr c"
  shows "(\<exists>kid. decode_header lib token = Inr (RS256, kid) \<and> (kid = None \<or> kid = Some (active_kid iss))
        \<and> decode_rs256 lib now token = Inr c)
    \<or> (\<exists>kid key. decode_header lib token = Inr (HS256, kid) \<and> legacy_hmac iss = Some key
        \<and> decode_hs256 lib key now token = Inr c)"
  using assms
  by (auto simp: jwt_verify_def map_decode_def split: sum.splits algorithm.splits option.splits if_splits)

theorem verify_key_matches_algorithm_witness:
  "\<exists>c lib. jwt_verify lib \<lparr>active_kid = ''k'', legacy_hmac = None\<rparr> 0 ''t'' = Inr c \<and>
     (\<exists>kid. decode_header lib ''t'' = Inr (RS256, kid) \<and> (kid = None \<or> kid = Some ''k'') \<and> decode_rs256 lib 0 ''t'' = Inr c)"
proof (intro exI conjI)
  let ?c = "build_claims ''j'' 0 ''u'' UserRole None None 0"
  let ?lib = "\<lparr>decode_header = (\<lambda>_. Inr (RS256, Some ''k'')), decode_rs256 = (\<lambda>_ _. Inr ?c),
      decode_hs256 = (\<lambda>_ _ _. Inl ExpiredSignature), sign_rs256 = (\<lambda>_ _. Inr ''t'')\<rparr>"
  show v: "jwt_verify ?lib \<lparr>active_kid = ''k'', legacy_hmac = None\<rparr> 0 ''t'' = Inr ?c"
    by (simp add: jwt_verify_def map_decode_def)
  show "decode_header ?lib ''t'' = Inr (RS256, Some ''k'')" "Some ''k'' = None \<or> Some ''k'' = Some ''k''"
    using verify_key_matches_algorithm [OF v] by auto
  show "decode_rs256 ?lib 0 ''t'' = Inr ?c" by simp
qed

section \<open>Revocation\<close>

text \<open>What the requests of the server do to the revocation set, with the clock: a force-logout, and
  the check of some token.\<close>

inductive rv_run :: "time \<Rightarrow> revocation_set \<Rightarrow> time \<Rightarrow> revocation_set \<Rightarrow> bool" where
  start: "rv_run t s t s"
| tick: "rv_run t s u s' \<Longrightarrow> u \<le> v \<Longrightarrow> rv_run t s v s'"
| revoke: "rv_run t s u s' \<Longrightarrow> rv_run t s u (revoke u s' k)"
| check: "rv_run t s u s' \<Longrightarrow> rv_run t s u (snd (is_revoked u s' k i))"

lemma timestamp_mono: "t \<le> u \<Longrightarrow> timestamp t \<le> timestamp u"
  by (simp add: timestamp_def zdiv_mono1)

lemma rv_run_holds:
  assumes "rv_run t s u s'" and "rv_inner s k = Some r" and "r \<le> timestamp t"
  shows "rv_ttl s' = rv_ttl s \<and> t \<le> u \<and>
    (timestamp u > r + rv_ttl s \<or> (\<exists>r' \<ge> r. rv_inner s' k = Some r'))"
  using assms
proof (induction rule: rv_run.induct)
  case (start t s)
  then show ?case by auto
next
  case (tick t s u s' v)
  then show ?case using timestamp_mono [of u v] by auto
next
  case (revoke t s u s' k')
  then show ?case using timestamp_mono [of t u] by (auto simp: Auth_Core.revoke_def)
next
  case (check t s u s' k' i)
  then show ?case by (auto simp: is_revoked_def split: option.splits)
qed

text \<open>after a subject is revoked, no token issued to it before is accepted again, as long as
  tokens live (with the verifier's leeway) no longer than revocations: whatever revocations and checks
  happen in between, the token is rejected at every later time.\<close>

theorem revocation_outlives_tokens:
  assumes "\<And>now token c. jwt_verify lib iss now token = Inr c \<Longrightarrow> timestamp now \<le> exp c + leeway"
    and "rv_run t (revoke t s (subject_key_of c)) u s'"
    and "jwt_verify lib iss u token = Inr c"
    and "iat c \<le> timestamp t" and "exp c + leeway \<le> iat c + rv_ttl s"
  shows "fst (verify_and_check lib iss u s' token) = Inl Unauthorized"
proof -
  let ?k = "subject_key_of c"
  have "rv_inner (revoke t s ?k) ?k = Some (timestamp t)" by (simp add: Auth_Core.revoke_def)
  from rv_run_holds [OF assms(2) this]
  have r: "timestamp u > timestamp t + rv_ttl s \<or> (\<exists>r' \<ge> timestamp t. rv_inner s' ?k = Some r')"
    "rv_ttl s' = rv_ttl s" by (auto simp: Auth_Core.revoke_def)
  have "timestamp u \<le> timestamp t + rv_ttl s" using assms(1) [OF assms(3)] assms(4,5) by simp
  with r(1) obtain r' where "r' \<ge> timestamp t" "rv_inner s' ?k = Some r'" by auto
  then have "fst (is_revoked u s' ?k (iat c))"
    using r(2) \<open>timestamp u \<le> timestamp t + rv_ttl s\<close> assms(4) by (simp add: is_revoked_def)
  then show ?thesis using assms(3) by (simp add: verify_and_check_def case_prod_beta)
qed

definition demo_lib :: "claims \<Rightarrow> int \<Rightarrow> jwt_lib" where
  "demo_lib c leeway = \<lparr>decode_header = (\<lambda>_. Inr (RS256, None)),
     decode_rs256 = (\<lambda>now _. if timestamp now \<le> exp c + leeway then Inr c else Inl ExpiredSignature),
     decode_hs256 = (\<lambda>_ _ _. Inl ExpiredSignature), sign_rs256 = (\<lambda>_ _. Inr ''t'')\<rparr>"

theorem revocation_outlives_tokens_witness:
  "fst (verify_and_check (demo_lib (build_claims ''j'' 0 ''u'' UserRole None None (minutes 15)) 0)
     \<lparr>active_kid = ''k'', legacy_hmac = None\<rparr> (seconds 900) (revoke 0 revocation_default (key_master ''u'')) ''t'')
   = Inl Unauthorized"
proof (rule revocation_outlives_tokens [where t = 0 and leeway = 0 and s = revocation_default
      and c = "build_claims ''j'' 0 ''u'' UserRole None None (minutes 15)"])
  show "rv_run 0 (revoke 0 revocation_default (subject_key_of (build_claims ''j'' 0 ''u'' UserRole None None (minutes 15))))
      (seconds 900) (revoke 0 revocation_default (key_master ''u''))"
    using rv_run.tick [OF rv_run.start [of 0 "revoke 0 revocation_default (key_master ''u'')"], of "seconds 900"]
    by (simp add: subject_key_of_def build_claims_def seconds_def)
qed (auto simp: jwt_verify_def demo_lib_def map_decode_def build_claims_def timestamp_def seconds_def minutes_def
    revocation_default_def revocation_new_def split: if_splits)

text \<open>with a verifier that grants any leeway the promise fails at the end: a token with the full
  lifetime of a revocation, issued in the second the subject is revoked, is refused for exactly the
  lifetime of the revocation and accepted again during the leeway.\<close>

theorem revocation_gap_under_leeway:
  assumes "jwt_verify lib iss (seconds (timestamp t + rv_ttl s + 1)) token = Inr c"
    and "iat c = timestamp t"
  shows "fst (verify_and_check lib iss (seconds (timestamp t + rv_ttl s + 1)) (revoke t s (subject_key_of c)) token) = Inr c"
proof -
  have "timestamp (seconds (timestamp t + rv_ttl s + 1)) = timestamp t + rv_ttl s + 1"
    by (simp add: timestamp_def seconds_def)
  then show ?thesis using assms by (simp add: verify_and_check_def is_revoked_def Auth_Core.revoke_def)
qed

theorem revocation_gap_under_leeway_witness:
  "fst (verify_and_check (demo_lib (build_claims ''j'' 0 ''u'' UserRole None None (minutes 15)) 60)
     \<lparr>active_kid = ''k'', legacy_hmac = None\<rparr> (seconds 901) (revoke 0 revocation_default (key_master ''u'')) ''t'')
   = Inr (build_claims ''j'' 0 ''u'' UserRole None None (minutes 15))"
  using revocation_gap_under_leeway [of "demo_lib (build_claims ''j'' 0 ''u'' UserRole None None (minutes 15)) 60"
      "\<lparr>active_kid = ''k'', legacy_hmac = None\<rparr>" 0 revocation_default "''t''"
      "build_claims ''j'' 0 ''u'' UserRole None None (minutes 15)"]
  by (simp add: jwt_verify_def demo_lib_def map_decode_def build_claims_def timestamp_def seconds_def minutes_def
      revocation_default_def revocation_new_def subject_key_of_def)

section \<open>Tenant isolation\<close>

text \<open>C21: a principal that is no master admin and whose token names another workspace, or none, passes
  no check for a workspace, for an app in it or for its end users; an app admin of another app passes
  no check for an app, and an end user passes no admin check at all.\<close>

theorem tenant_isolation:
  "(role c \<noteq> MasterAdminRole \<and> claim_workspace c \<noteq> Some w \<longrightarrow>
      require_workspace_access c w = Inl Forbidden \<and> require_app_access c w a = Inl Forbidden
      \<and> \<not> is_admin_for_app c w a \<and> require_user_in_workspace c w = Inl Forbidden)
   \<and> (role c = AppAdminRole \<and> claim_app c \<noteq> Some a \<longrightarrow>
      require_app_access c w a = Inl Forbidden \<and> \<not> is_admin_for_app c w a)
   \<and> (role c = UserRole \<longrightarrow> require_master c = Inl Forbidden \<and> require_workspace_access c w = Inl Forbidden
      \<and> require_app_access c w a = Inl Forbidden \<and> \<not> is_admin_for_app c w a)
   \<and> (require_app_access c w a = Inr () \<longleftrightarrow> is_admin_for_app c w a)"
  by (cases "role c")
    (auto simp: require_workspace_access_def require_app_access_def is_admin_for_app_def require_master_def
      require_user_in_workspace_def user_workspace_def split: option.splits)

theorem tenant_isolation_witness:
  "require_app_access (build_claims ''j'' 0 ''bob'' AppAdminRole (Some ''acme'') (Some ''shop'') 900) ''globex'' ''shop'' = Inl Forbidden"
  using tenant_isolation [of "build_claims ''j'' 0 ''bob'' AppAdminRole (Some ''acme'') (Some ''shop'') 900" "''globex''" "''shop''"]
  by (simp add: build_claims_def)

section \<open>Lockout\<close>

definition note_failures :: "login_attempts \<Rightarrow> string \<Rightarrow> lockout_policy \<Rightarrow> time list \<Rightarrow> login_attempts" where
  "note_failures a subject policy ts = fold (\<lambda>now a. snd (note_failure now a subject policy)) ts a"

lemma note_failures_snoc:
  "note_failures a subject policy (ts @ [now]) = snd (note_failure now (note_failures a subject policy ts) subject policy)"
  by (simp add: note_failures_def)

lemma note_failures_below:
  assumes "lp_enabled policy" and "lp_max_failures policy < 2 ^ 32" and "a subject = None"
    and "length ts < lp_max_failures policy" and "ts \<noteq> []"
    and "\<And>t u. t \<in> set ts \<Longrightarrow> u \<in> set ts \<Longrightarrow> u - lp_window policy < t"
  shows "note_failures a subject policy ts subject = Some \<lparr>failures = ts, locked_until = None\<rparr>"
  using assms
proof (induction ts rule: rev_induct)
  case (snoc now ts)
  have len: "Suc (length ts) mod 2 ^ 32 = Suc (length ts)" using snoc.prems(2,4) by (intro mod_less) simp
  show ?case
  proof (cases "ts = []")
    case True
    then show ?thesis using snoc.prems len
      by (simp add: note_failures_def note_failure_def Let_def)
  next
    case False
    have "note_failures a subject policy ts subject = Some \<lparr>failures = ts, locked_until = None\<rparr>"
      using snoc.prems False by (intro snoc.IH) auto
    moreover have "filter (\<lambda>t. now - lp_window policy < t) ts = ts"
      using snoc.prems(6) [of _ now] by (auto intro: filter_True)
    ultimately show ?thesis using snoc.prems len
      by (simp add: note_failures_snoc note_failure_def Let_def)
  qed
qed simp

text \<open>the failed-login tracker locks a subject at the configured number of failures inside the
  window, counted from a clean slate: before that many failures the subject is not locked, at that
  many every further attempt is refused until the lockout has passed, and a verified login clears it.\<close>

theorem lockout_after_max_failures:
  assumes "lp_enabled policy" and "lp_max_failures policy < 2 ^ 32" and "a subject = None"
    and "Suc (length ts) = lp_max_failures policy"
    and "\<And>t u. t \<in> set (ts @ [t_last]) \<Longrightarrow> u \<in> set (ts @ [t_last]) \<Longrightarrow> u - lp_window policy < t"
  shows "attempts_check now (note_failures a subject policy ts) subject policy = Inr ()
    \<and> (t_last + lp_lockout policy > now \<longrightarrow>
        attempts_check now (note_failures a subject policy (ts @ [t_last])) subject policy
          = Inl (TooManyRequests (remaining_secs (t_last + lp_lockout policy - now))))
    \<and> attempts_check now (note_success (note_failures a subject policy (ts @ [t_last])) subject) subject policy = Inr ()"
proof -
  have len: "Suc (length ts) mod 2 ^ 32 = Suc (length ts)" using assms(2,4) by (intro mod_less) simp
  have before: "note_failures a subject policy ts subject = (if ts = [] then None else Some \<lparr>failures = ts, locked_until = None\<rparr>)"
    using assms note_failures_below [of policy a subject ts] by (auto simp: note_failures_def)
  have "filter (\<lambda>t. t_last - lp_window policy < t) ts = ts"
    using assms(5) [of _ t_last] by (auto intro: filter_True)
  then have "note_failures a subject policy (ts @ [t_last]) subject =
      Some \<lparr>failures = ts @ [t_last], locked_until = Some (t_last + lp_lockout policy)\<rparr>"
    using before assms(1) len assms(4) [symmetric]
    by (auto simp: note_failures_snoc note_failure_def Let_def)
  then show ?thesis using before assms(1) by (simp add: attempts_check_def note_success_def)
qed

theorem lockout_after_max_failures_witness:
  "attempts_check (seconds 10) (note_failures Map.empty ''master:admin'' lockout_default
     ([seconds 1, seconds 2, seconds 3, seconds 4] @ [seconds 5])) ''master:admin'' lockout_default
   = Inl (TooManyRequests 295)"
proof -
  have "attempts_check (seconds 10) (note_failures Map.empty ''master:admin'' lockout_default
     ([seconds 1, seconds 2, seconds 3, seconds 4] @ [seconds 5])) ''master:admin'' lockout_default
   = Inl (TooManyRequests (remaining_secs (seconds 5 + lp_lockout lockout_default - seconds 10)))"
    by (rule lockout_after_max_failures [THEN conjunct2, THEN conjunct1, rule_format])
      (auto simp: lockout_default_def seconds_def)
  then show ?thesis by (simp add: lockout_default_def seconds_def remaining_secs_def num_seconds_def)
qed

end
