(* ===== verification/Mailer.thy ===== *)
theory Mailer
  imports Scopes Auth_Core "HOL-Library.Word"
begin

text \<open>
  Outbound mail: the transports of \<^verbatim>\<open>rustbase-api/src/mailer.rs\<close> and the daily quota on what an app's
  hooks send. A transport is a function of the message and the state it writes. The message library is the
  record \<open>lettre\<close>: reading an address, building a message, and handing it to the relay.

  The quota counts in two steps, before and after the transport, so sends overlap; the lemmas say what holds
  under every interleaving.
\<close>

section \<open>Transports\<close>

datatype mailer_error = Transport string | Rejected string

fun mailer_error_str :: "mailer_error \<Rightarrow> string" where
  "mailer_error_str (Transport e) = ''transport error: '' @ e"
| "mailer_error_str (Rejected e) = ''rejected by remote server: '' @ e"

record lettre =
  parse_mailbox :: "string \<Rightarrow> string + string"
  multipart_message :: "string \<Rightarrow> string \<Rightarrow> string \<Rightarrow> string \<Rightarrow> string \<Rightarrow> string + char list"
  plain_message :: "string \<Rightarrow> string \<Rightarrow> string \<Rightarrow> string \<Rightarrow> string + char list"
  relay_send :: "char list \<Rightarrow> string + unit"

definition smtp_send :: "lettre \<Rightarrow> email_message \<Rightarrow> mailer_error + unit" where
  "smtp_send l m =
     (case parse_mailbox l (em_from m) of
        Inl e \<Rightarrow> Inl (Rejected (''invalid from address: '' @ e))
      | Inr from \<Rightarrow>
      (case parse_mailbox l (em_to m) of
        Inl e \<Rightarrow> Inl (Rejected (''invalid to address: '' @ e))
      | Inr to \<Rightarrow>
      (case (case em_html m of
               Some html \<Rightarrow>
                 (case multipart_message l from to (em_subject m) (em_text m) html of
                    Inl e \<Rightarrow> Inl (Rejected (''multipart: '' @ e)) | Inr x \<Rightarrow> Inr x)
             | None \<Rightarrow>
                 (case plain_message l from to (em_subject m) (em_text m) of
                    Inl e \<Rightarrow> Inl (Rejected (''plain body: '' @ e)) | Inr x \<Rightarrow> Inr x)) of
        Inl e \<Rightarrow> Inl e
      | Inr email \<Rightarrow>
      (case relay_send l email of Inl e \<Rightarrow> Inl (Transport e) | Inr _ \<Rightarrow> Inr ()))))"

text \<open>The in-memory mailer accepts every message; it is used when no relay is configured.\<close>

definition mailer_send :: "lettre option \<Rightarrow> email_message \<Rightarrow> email_message list \<Rightarrow> (mailer_error + unit) \<times> email_message list" where
  "mailer_send relay m sent =
     (case relay of
        None \<Rightarrow> (Inr (), sent @ [m])
      | Some l \<Rightarrow> (case smtp_send l m of Inl e \<Rightarrow> (Inl e, sent) | Inr _ \<Rightarrow> (Inr (), sent @ [m])))"

section \<open>The daily quota\<close>

definition MAILER_DAILY_QUOTA_FIELD :: string where
  "MAILER_DAILY_QUOTA_FIELD = ''mailer.daily_quota''"

text \<open>The cast of the upper bound to \<open>u32\<close> keeps its low 32 bits.\<close>

definition quota_of :: "policy_spec option \<Rightarrow> 32 word option" where
  "quota_of p = (case p of Some (Range r) \<Rightarrow> if range_max r \<ge> 0 then Some (word_of_int (range_max r)) else None | _ \<Rightarrow> None)"

definition current_quota :: "(db_error \<Rightarrow> string) \<Rightarrow> policies \<Rightarrow> mailer_error + 32 word option" where
  "current_quota show_error t =
     (case get_policy t MAILER_DAILY_QUOTA_FIELD of
        Inl e \<Rightarrow> Inl (Transport (''quota read: '' @ show_error e))
      | Inr p \<Rightarrow> Inr (quota_of p))"

type_synonym mail_counts = "int \<Rightarrow> 32 word"

text \<open>The UTC date of an instant, in days.\<close>

definition date_naive :: "time \<Rightarrow> int" where
  "date_naive t = t div days 1"

definition reserve :: "(32 word \<Rightarrow> string) \<Rightarrow> string \<Rightarrow> string \<Rightarrow> 32 word option \<Rightarrow> 32 word \<Rightarrow> mailer_error + 32 word" where
  "reserve show_u32 w a quota n =
     (case quota of
        Some q \<Rightarrow>
          if n + 1 > q then Inl (Rejected (''daily mail quota of '' @ show_u32 q @ '' reached for '' @ w @ ''/'' @ a))
          else Inr (n + 1)
      | None \<Rightarrow> Inr (n + 1))"

definition refund :: "32 word \<Rightarrow> 32 word" where
  "refund n = (if n > 0 then n - 1 else n)"

definition quoted_send ::
  "(32 word \<Rightarrow> string) \<Rightarrow> string \<Rightarrow> string \<Rightarrow> (email_message \<Rightarrow> 's \<Rightarrow> (mailer_error + unit) \<times> 's)
    \<Rightarrow> time \<Rightarrow> mailer_error + 32 word option \<Rightarrow> email_message \<Rightarrow> mail_counts \<times> 's \<Rightarrow> (mailer_error + unit) \<times> mail_counts \<times> 's" where
  "quoted_send show_u32 w a inner now quota m st =
     (let today = date_naive now; (counts, s) = st in
      case quota of
        Inl e \<Rightarrow> (Inl e, st)
      | Inr q \<Rightarrow>
          (case reserve show_u32 w a q (counts today) of
             Inl e \<Rightarrow> (Inl e, st)
           | Inr n \<Rightarrow>
               (case inner m s of
                  (Inr _, s') \<Rightarrow> (Inr (), counts(today := n), s')
                | (Inl e, s') \<Rightarrow> (Inl e, counts(today := refund n), s'))))"

section \<open>Overlapping sends\<close>

text \<open>One day of one app under a fixed quota: the counter, the sends between their two steps, and the messages
  the transport took.\<close>

record quota_state =
  qs_count :: "32 word"
  qs_inflight :: nat
  qs_delivered :: nat

inductive quota_step :: "32 word \<Rightarrow> quota_state \<Rightarrow> quota_state \<Rightarrow> bool" for q where
  reserved: "reserve sh w a (Some q) (qs_count s) = Inr n \<Longrightarrow>
    quota_step q s (s\<lparr>qs_count := n, qs_inflight := qs_inflight s + 1\<rparr>)"
| rejected: "reserve sh w a (Some q) (qs_count s) = Inl e \<Longrightarrow> quota_step q s s"
| delivered: "qs_inflight s = Suc i \<Longrightarrow> quota_step q s (s\<lparr>qs_inflight := i, qs_delivered := qs_delivered s + 1\<rparr>)"
| failed: "qs_inflight s = Suc i \<Longrightarrow> quota_step q s (s\<lparr>qs_inflight := i, qs_count := refund (qs_count s)\<rparr>)"

definition quota_inv :: "32 word \<Rightarrow> quota_state \<Rightarrow> bool" where
  "quota_inv q s \<longleftrightarrow> unat (qs_count s) = qs_inflight s + qs_delivered s \<and> qs_count s \<le> q"

lemma reserve_within:
  assumes "reserve sh w a (Some q) n = Inr m" and "n \<le> q" and "q \<noteq> - 1"
  shows "unat m = Suc (unat n) \<and> m \<le> q"
proof -
  have m: "m = n + 1" and le: "n + 1 \<le> q" using assms(1) by (auto simp: reserve_def split: if_splits)
  have "n \<noteq> - 1" using assms(2,3) by (metis word_order.extremum_unique)
  then have "unat (n + 1) = Suc (unat n)" by (metis Word.unatSuc add.commute add_eq_0_iff)
  with m le show ?thesis by simp
qed

lemma unat_refund: "unat (refund n) = unat n - 1"
  by (auto simp: refund_def unat_minus_one word_gt_0)

lemma refund_le: "refund n \<le> n"
  by (auto simp: refund_def word_le_nat_alt unat_minus_one word_gt_0)

lemma quota_inv_step: "quota_step q s s' \<Longrightarrow> q \<noteq> - 1 \<Longrightarrow> quota_inv q s \<Longrightarrow> quota_inv q s'"
  by (induction rule: quota_step.induct)
    (auto simp: quota_inv_def unat_refund dest: reserve_within intro: order.trans [OF refund_le])

lemma quota_inv_steps: "(quota_step q)\<^sup>*\<^sup>* s s' \<Longrightarrow> q \<noteq> - 1 \<Longrightarrow> quota_inv q s \<Longrightarrow> quota_inv q s'"
  by (induction rule: rtranclp_induct) (auto intro: quota_inv_step)

text \<open>A send with nothing in between is a path of steps: the answer says which.\<close>

lemma quoted_send_steps:
  assumes "quoted_send sh w a inner now (Inr (Some q)) m (counts, x) = (r, counts', x')"
  shows "(quota_step q)\<^sup>*\<^sup>*
      \<lparr>qs_count = counts (date_naive now), qs_inflight = i, qs_delivered = d\<rparr>
      \<lparr>qs_count = counts' (date_naive now), qs_inflight = i, qs_delivered = (if isl r then d else d + 1)\<rparr>"
proof (cases "reserve sh w a (Some q) (counts (date_naive now))")
  case (Inl e)
  then show ?thesis using assms by (auto simp: quoted_send_def)
next
  case (Inr n)
  let ?s0 = "\<lparr>qs_count = counts (date_naive now), qs_inflight = i, qs_delivered = d\<rparr>"
  let ?s1 = "\<lparr>qs_count = n, qs_inflight = Suc i, qs_delivered = d\<rparr>"
  have 1: "quota_step q ?s0 ?s1" using quota_step.reserved [of sh w a q ?s0 n] Inr by simp
  have "quota_step q ?s1 \<lparr>qs_count = n, qs_inflight = i, qs_delivered = Suc d\<rparr>"
    using quota_step.delivered [of ?s1 i q] by simp
  moreover have "quota_step q ?s1 \<lparr>qs_count = refund n, qs_inflight = i, qs_delivered = d\<rparr>"
    using quota_step.failed [of ?s1 i q] by simp
  ultimately show ?thesis using 1 assms Inr
    by (auto simp: quoted_send_def Let_def split: prod.splits sum.splits intro: rtranclp.rtrancl_into_rtrancl [OF r_into_rtranclp])
qed

text \<open>C15: The daily quota holds under every interleaving, for every quota below the largest 32-bit number. However the sends of an app overlap, and whichever of them
  the transport fails, the messages delivered in a day never exceed the quota, and a refused or failed send
  leaves its slot free: the counter is exactly the number of messages delivered or under way.\<close>

theorem quota_holds_under_interleaving:
  assumes "(quota_step q)\<^sup>*\<^sup>* \<lparr>qs_count = 0, qs_inflight = 0, qs_delivered = 0\<rparr> s" and "q \<noteq> - 1"
  shows "qs_delivered s \<le> unat q \<and> unat (qs_count s) = qs_inflight s + qs_delivered s"
proof -
  have "quota_inv q s" using quota_inv_steps [OF assms] by (simp add: quota_inv_def)
  then show ?thesis by (simp add: quota_inv_def word_le_nat_alt)
qed

theorem quota_holds_under_interleaving_witness:
  "qs_delivered \<lparr>qs_count = 1, qs_inflight = 0, qs_delivered = 1\<rparr> \<le> unat (1 :: 32 word)"
proof -
  let ?s0 = "\<lparr>qs_count = 0, qs_inflight = 0, qs_delivered = 0\<rparr>"
  let ?s1 = "\<lparr>qs_count = 1, qs_inflight = 1, qs_delivered = 0\<rparr>"
  let ?s2 = "\<lparr>qs_count = 1, qs_inflight = 0, qs_delivered = 1\<rparr>"
  have "quota_step 1 ?s0 ?s1" using quota_step.reserved [of "\<lambda>_. []" "[]" "[]" 1 ?s0 1] by (simp add: reserve_def)
  moreover have "quota_step 1 ?s1 ?s2" using quota_step.delivered [of ?s1 0 1] by simp
  ultimately have "(quota_step 1)\<^sup>*\<^sup>* ?s0 ?s2" by (meson converse_rtranclp_into_rtranclp r_into_rtranclp)
  from quota_holds_under_interleaving [OF this] show ?thesis by simp
qed

text \<open>A quota of a multiple of 2^32 blocks all mail. The policy's upper bound is 64 bits wide and is cut
  to its low 32 bits, so under a bound of 4294967296 messages the first send of the day is refused, as
  under a bound of 0.\<close>

theorem huge_quota_blocks_mail:
  assumes "get_policy t MAILER_DAILY_QUOTA_FIELD = Inr (Some (Range r))" and "range_max r = 2 ^ 32 * k" and "k \<ge> 0"
  shows "quoted_send sh w a inner now (current_quota se t) m (\<lambda>_. 0, x) =
    (Inl (Rejected (''daily mail quota of '' @ sh 0 @ '' reached for '' @ w @ ''/'' @ a)), \<lambda>_. 0, x)"
proof -
  have "word_of_int (2 ^ 32 * k) = (0 :: 32 word)"
    by (transfer, simp only: take_bit_eq_mod) simp
  then have "current_quota se t = Inr (Some 0)" using assms by (simp only: current_quota_def quota_of_def) simp
  then show ?thesis by (simp add: quoted_send_def reserve_def)
qed

theorem huge_quota_blocks_mail_witness:
  "quoted_send (\<lambda>_. ''0'') ''acme'' ''blog'' (\<lambda>_ n. (Inr (), Suc n)) 0
     (current_quota (\<lambda>_. []) [\<lparr>pol_field = ''mailer.daily_quota'', pol_json = Inr (Range \<lparr>range_min = 0, range_max = 4294967296\<rparr>), pol_updated_at = 0\<rparr>])
     (email_message_new ''a'' ''b'' ''c'' ''d'') (\<lambda>_. 0, 0) =
   (Inl (Rejected ''daily mail quota of 0 reached for acme/blog''), \<lambda>_. 0, 0)"
  using huge_quota_blocks_mail [of "[\<lparr>pol_field = ''mailer.daily_quota'', pol_json = Inr (Range \<lparr>range_min = 0, range_max = 4294967296\<rparr>), pol_updated_at = 0\<rparr>]"
      "\<lparr>range_min = 0, range_max = 4294967296\<rparr>" 1 "\<lambda>_. ''0''" "''acme''" "''blog''" "\<lambda>_ n. (Inr (), Suc n)" 0 "\<lambda>_. []"
      "email_message_new ''a'' ''b'' ''c'' ''d''" 0]
  by (simp add: get_policy_def decode_policy_def MAILER_DAILY_QUOTA_FIELD_def)
end
