(* ===== verification/Storage.thy ===== *)
theory Storage
  imports Core_Types
begin

text \<open>
  File contents, \<^verbatim>\<open>rustbase-storage/src/lib.rs\<close>: the wrapper around the \<open>object_store\<close> library and the
  checks of an S3 configuration. The library is the record \<open>object_store\<close>: how it reads a key and what a
  request does to the stored objects.
\<close>

type_synonym objects = "string \<rightharpoonup> char list"

record object_store =
  object_path :: "string \<Rightarrow> string"
  store_put :: "string \<Rightarrow> char list \<Rightarrow> objects \<Rightarrow> (string + unit) \<times> objects"
  store_get :: "string \<Rightarrow> objects \<Rightarrow> string + char list"
  store_delete :: "string \<Rightarrow> objects \<Rightarrow> (string + unit) \<times> objects"

datatype storage_error = Store string | StorageIo string | StorageConfig string

fun storage_error_str :: "storage_error \<Rightarrow> string" where
  "storage_error_str (Store e) = ''object_store error: '' @ e"
| "storage_error_str (StorageIo e) = ''io error: '' @ e"
| "storage_error_str (StorageConfig e) = ''storage config: '' @ e"

definition storage_put :: "object_store \<Rightarrow> string \<Rightarrow> char list \<Rightarrow> objects \<Rightarrow> (storage_error + unit) \<times> objects" where
  "storage_put st key bytes os =
     (case store_put st (object_path st key) bytes os of (Inl e, os') \<Rightarrow> (Inl (Store e), os') | (Inr _, os') \<Rightarrow> (Inr (), os'))"

definition storage_get :: "object_store \<Rightarrow> string \<Rightarrow> objects \<Rightarrow> storage_error + char list" where
  "storage_get st key os = (case store_get st (object_path st key) os of Inl e \<Rightarrow> Inl (Store e) | Inr b \<Rightarrow> Inr b)"

definition storage_delete :: "object_store \<Rightarrow> string \<Rightarrow> objects \<Rightarrow> (storage_error + unit) \<times> objects" where
  "storage_delete st key os =
     (case store_delete st (object_path st key) os of (Inl e, os') \<Rightarrow> (Inl (Store e), os') | (Inr _, os') \<Rightarrow> (Inr (), os'))"

record s3_config =
  s3_bucket :: string
  s3_region :: string
  s3_endpoint :: "string option"
  s3_access_key_id :: string
  s3_secret_access_key :: string
  s3_virtual_hosted :: bool

text \<open>The builder of the library gets the configuration and whether plain HTTP is allowed.\<close>

definition storage_s3 :: "(s3_config \<Rightarrow> bool \<Rightarrow> string + object_store) \<Rightarrow> s3_config \<Rightarrow> storage_error + object_store" where
  "storage_s3 build cfg =
     (if s3_bucket cfg = [] then Inl (StorageConfig ''s3 bucket is empty'')
      else if s3_region cfg = []
      then Inl (StorageConfig (''s3 region is required (use '' @ [CHR 0x22] @ ''auto'' @ [CHR 0x22] @ '' for R2)''))
      else case build cfg (case s3_endpoint cfg of Some ep \<Rightarrow> take 7 ep = ''http://'' | None \<Rightarrow> False) of
        Inl e \<Rightarrow> Inl (StorageConfig (''build s3: '' @ e))
      | Inr st \<Rightarrow> Inr st)"

text \<open>What the library documents: a read returns what was last written under its path, requests under other
  paths do not disturb it, and a deleted object is gone.\<close>

definition store_ok :: "object_store \<Rightarrow> bool" where
  "store_ok st \<longleftrightarrow>
     (\<forall>p b os os'. store_put st p b os = (Inr (), os') \<longrightarrow> store_get st p os' = Inr b)
     \<and> (\<forall>p q b r os os'. store_put st p b os = (r, os') \<longrightarrow> p \<noteq> q \<longrightarrow> store_get st q os' = store_get st q os)
     \<and> (\<forall>p q r os os'. store_delete st p os = (r, os') \<longrightarrow> p \<noteq> q \<longrightarrow> store_get st q os' = store_get st q os)
     \<and> (\<forall>p os os'. store_delete st p os = (Inr (), os') \<longrightarrow> (\<exists>e. store_get st p os' = Inl e))"

definition map_store :: object_store where
  "map_store = \<lparr>object_path = (\<lambda>k. k), store_put = (\<lambda>p b os. (Inr (), os(p \<mapsto> b))),
     store_get = (\<lambda>p os. case os p of None \<Rightarrow> Inl ''not found'' | Some b \<Rightarrow> Inr b),
     store_delete = (\<lambda>p os. (Inr (), os(p := None)))\<rparr>"

lemma map_store_ok: "store_ok map_store"
  by (auto simp: store_ok_def map_store_def)

end
