(* ===== verification/Server.thy ===== *)
theory Server
  imports Accounts Records Rule_Template Realtime Hook_Runtime Auth_Core Mailer Storage
begin

text \<open>
  The state the handlers share: the system database, one workspace database per workspace, one app
  database per app, and the in-process parts of \<open>AppState\<close> (\<^verbatim>\<open>rustbase-api/src/state.rs\<close>). A
  workspace or app whose database has not been migrated has none of its tables, so the first statement
  against it fails; opening a pool never fails in the model.

  What the server takes from outside is the record \<open>env\<close>: the clock, the random values a request
  draws, password hashing, token signing, the email check of the request validator and its rendering
  of rejected fields, the mail relay, the cipher and the TOTP algorithm, SQLite's part of a records
  query, the library parsers, JSON text, and what an HTTP request of a hook answers. One request reads
  one clock value; record ids come from a sequence of which \<open>sv_drawn\<close> are used. The messages the
  record handlers publish are kept in order in \<open>sv_published\<close>; \<open>Realtime\<close> says what the broker does with
  them.

  Here too are the statements that span tables: the cascade of \<open>delete_user\<close> and \<open>delete_app\<close>, the
  transaction \<open>commit_user_login\<close>, and the audit record of a login.
\<close>

section \<open>Databases\<close>

record system_db =
  sys_workspaces :: workspaces
  sys_master_admins :: master_admins
  sys_policies :: policies
  sys_audit :: audit_log
  sys_secrets :: secrets
  sys_tokens :: refresh_tokens

record workspace_db =
  ws_apps :: apps
  ws_workspace_admins :: workspace_admins
  ws_app_admins :: app_admins
  ws_tokens :: refresh_tokens
  ws_policies :: policies
  ws_audit :: audit_log
  ws_users :: users
  ws_providers :: oauth_providers
  ws_links :: oauth_links
  ws_verifications :: one_shots
  ws_resets :: one_shots
  ws_otps :: email_otps
  ws_states :: oauth_states
  ws_totps :: totps
  ws_challenges :: one_shots

record server =
  sv_system :: system_db
  sv_workspaces :: "string \<Rightarrow> workspace_db option"
  sv_apps :: "string \<times> string \<Rightarrow> app_db option"
  sv_revocations :: revocation_set
  sv_attempts :: login_attempts
  sv_lockout :: lockout_policy
  sv_initialized :: bool
  sv_outbox :: "email_message list"
  sv_mail_counts :: "string \<times> string \<Rightarrow> mail_counts"
  sv_published :: "(subscription_key \<times> realtime_event) list"
  sv_hooks :: "string \<times> string \<Rightarrow> app_hooks option"
  sv_drawn :: nat
  sv_hook_files :: "string \<times> string \<Rightarrow> hook_file list option"
  sv_objects :: objects

record env =
  clock :: time
  sha256 :: "char list \<Rightarrow> char list"
  verify_password :: "string \<Rightarrow> string \<Rightarrow> auth_error + bool"
  hash_password :: "string \<Rightarrow> auth_error + string"
  jwt :: jwt_lib
  issuer :: jwt_issuer
  valid_email :: "string \<Rightarrow> bool"
  validation_message :: "(string \<times> bool) list \<Rightarrow> string"
  fresh_uuid :: string
  fresh_jti :: string
  fresh_refresh :: string
  fresh_secret :: string
  fresh_code :: string
  smtp_relay :: "lettre option"
  show_u32 :: "32 word \<Rightarrow> string"
  kek :: "char list option"
  encrypt :: "char list \<Rightarrow> char list \<Rightarrow> string + char list"
  decrypt :: "char list \<Rightarrow> char list \<Rightarrow> string + char list"
  from_utf8 :: "char list \<Rightarrow> string + string"
  check_totp :: "string \<Rightarrow> string \<Rightarrow> string \<Rightarrow> time \<Rightarrow> string \<Rightarrow> string + bool"
  totp_url :: "string \<Rightarrow> string \<Rightarrow> string \<Rightarrow> string + string"
  show_sqlx :: "sqlx_error \<Rightarrow> string"
  show_i64 :: "int \<Rightarrow> string"
  show_spec :: "policy_spec \<Rightarrow> string"
  store_spec :: spec_store
  spec_json :: "policy_spec \<Rightarrow> json"
  engine :: sql_engine
  nom_lib :: nom
  json_str :: "string \<Rightarrow> string"
  record_ids :: "nat \<Rightarrow> string"
  js_parse :: "hook_payload \<Rightarrow> hook_payload"
  allowed_hosts :: "string list"
  http_execute :: "fetch_request \<Rightarrow> string + nat \<times> (string \<times> string) list \<times> (string + char list) list"
  utf8_lossy :: "char list \<Rightarrow> string"
  data_dir :: string
  js_engine :: js_engine
  storage :: object_store
  header_ok :: "string \<Rightarrow> bool"
  remove_dir :: "string \<Rightarrow> objects \<Rightarrow> objects"

section \<open>Handlers\<close>

text \<open>\<open>Validate\<close>: the named checks of a request body; \<open>length\<close> counts characters.\<close>

definition valid_length :: "nat \<Rightarrow> nat option \<Rightarrow> string \<Rightarrow> bool" where
  "valid_length mn mx x = (mn \<le> length x \<and> (case mx of None \<Rightarrow> True | Some m \<Rightarrow> length x \<le> m))"

definition validate_request :: "env \<Rightarrow> (string \<times> bool) list \<Rightarrow> core_error + unit" where
  "validate_request env checks =
     (if list_all snd checks then Inr () else Inl (Validation (validation_message env checks)))"

text \<open>A handler maps the state to its answer and the new state. \<open>hbind\<close> is \<open>?\<close>: an error is the
  answer, with the writes made so far.\<close>

type_synonym 'a handler = "server \<Rightarrow> (core_error + 'a) \<times> server"

definition hret :: "'a \<Rightarrow> 'a handler" where
  "hret x s = (Inr x, s)"

definition hfail :: "core_error \<Rightarrow> 'a handler" where
  "hfail e s = (Inl e, s)"

definition hbind :: "'a handler \<Rightarrow> ('a \<Rightarrow> 'b handler) \<Rightarrow> 'b handler" where
  "hbind m f s = (case m s of (Inl e, s') \<Rightarrow> (Inl e, s') | (Inr x, s') \<Rightarrow> f x s')"

definition lift :: "core_error + 'a \<Rightarrow> 'a handler" where
  "lift r s = (r, s)"

definition lift_db :: "env \<Rightarrow> db_error + 'a \<Rightarrow> 'a handler" where
  "lift_db env r s = (case r of Inl e \<Rightarrow> (Inl (core_error_of_db (show_sqlx env) e), s) | Inr x \<Rightarrow> (Inr x, s))"

definition lift_auth :: "auth_error + 'a \<Rightarrow> 'a handler" where
  "lift_auth r s = (case r of Inl e \<Rightarrow> (Inl (core_error_of_auth e), s) | Inr x \<Rightarrow> (Inr x, s))"

definition on_system :: "(system_db \<Rightarrow> (core_error + 'a) \<times> system_db) \<Rightarrow> 'a handler" where
  "on_system f s = (case f (sv_system s) of (r, db) \<Rightarrow> (r, s\<lparr>sv_system := db\<rparr>))"

text \<open>\<open>pool_for\<close> and the first statement on the pool, against the named table.\<close>

definition on_workspace ::
  "env \<Rightarrow> string \<Rightarrow> string \<Rightarrow> (workspace_db \<Rightarrow> (core_error + 'a) \<times> workspace_db) \<Rightarrow> 'a handler" where
  "on_workspace env w table f s =
     (case sv_workspaces s w of
        None \<Rightarrow> (Inl (core_error_of_db (show_sqlx env) (Sqlx (NoSuchTable table))), s)
      | Some db \<Rightarrow>
          (case f db of (r, db') \<Rightarrow> (r, s\<lparr>sv_workspaces := (sv_workspaces s)(w \<mapsto> db')\<rparr>)))"

definition on_app ::
  "env \<Rightarrow> string \<Rightarrow> string \<Rightarrow> string \<Rightarrow> (app_db \<Rightarrow> (core_error + 'a) \<times> app_db) \<Rightarrow> 'a handler" where
  "on_app env w a table f s =
     (case sv_apps s (w, a) of
        None \<Rightarrow> (Inl (core_error_of_db (show_sqlx env) (Sqlx (NoSuchTable table))), s)
      | Some db \<Rightarrow>
          (case f db of (r, db') \<Rightarrow> (r, s\<lparr>sv_apps := (sv_apps s)((w, a) \<mapsto> db')\<rparr>)))"

definition db_stmt :: "env \<Rightarrow> (db_error + 'a) \<times> 't \<Rightarrow> (core_error + 'a) \<times> 't" where
  "db_stmt env p = (case p of (Inl e, t) \<Rightarrow> (Inl (core_error_of_db (show_sqlx env) e), t) | (Inr x, t) \<Rightarrow> (Inr x, t))"

definition require_workspace_exists :: "string \<Rightarrow> unit handler" where
  "require_workspace_exists w s =
     (case find_workspace (sys_workspaces (sv_system s)) w of
        None \<Rightarrow> (Inl (WorkspaceNotFound w), s) | Some _ \<Rightarrow> (Inr (), s))"

definition require_app_exists :: "env \<Rightarrow> string \<Rightarrow> string \<Rightarrow> unit handler" where
  "require_app_exists env w a =
     hbind (require_workspace_exists w) (\<lambda>_.
       on_workspace env w ''apps'' (\<lambda>db.
         (case find_app (ws_apps db) a of None \<Rightarrow> Inl (AppNotFound w a) | Some _ \<Rightarrow> Inr (), db)))"

named_theorems handler \<open>what a successful run of a handler says about its parts\<close>

lemma hbind_simps [simp]:
  "hbind (hret x) f = f x"
  "hbind (hfail e) f = hfail e"
  by (simp_all add: hbind_def hret_def hfail_def fun_eq_iff)

lemma hbind_Inr [handler]:
  "hbind m f s = (Inr y, s') \<longleftrightarrow> (\<exists>x s1. m s = (Inr x, s1) \<and> f x s1 = (Inr y, s'))"
  by (auto simp: hbind_def split: prod.splits sum.splits)

lemma hret_Inr [handler]: "hret x s = (Inr y, s') \<longleftrightarrow> y = x \<and> s' = s"
  by (auto simp: hret_def)

lemma hfail_Inr [handler]: "hfail e s = (Inr y, s') \<longleftrightarrow> False"
  by (simp add: hfail_def)

lemma lift_Inr [handler]: "lift r s = (Inr y, s') \<longleftrightarrow> r = Inr y \<and> s' = s"
  by (auto simp: lift_def)

lemma lift_auth_Inr [handler]: "lift_auth r s = (Inr y, s') \<longleftrightarrow> r = Inr y \<and> s' = s"
  by (auto simp: lift_auth_def split: sum.splits)

lemma on_workspace_Inr [handler]:
  "on_workspace env w t f s = (Inr y, s') \<longleftrightarrow>
   (\<exists>db db'. sv_workspaces s w = Some db \<and> f db = (Inr y, db') \<and> s' = s\<lparr>sv_workspaces := (sv_workspaces s)(w \<mapsto> db')\<rparr>)"
  by (auto simp: on_workspace_def split: option.splits prod.splits)

lemma on_app_Inr [handler]:
  "on_app env w a t f s = (Inr y, s') \<longleftrightarrow>
   (\<exists>db db'. sv_apps s (w, a) = Some db \<and> f db = (Inr y, db') \<and> s' = s\<lparr>sv_apps := (sv_apps s)((w, a) \<mapsto> db')\<rparr>)"
  by (auto simp: on_app_def split: option.splits prod.splits)

lemma on_system_Inr [handler]:
  "on_system f s = (Inr y, s') \<longleftrightarrow> (\<exists>db'. f (sv_system s) = (Inr y, db') \<and> s' = s\<lparr>sv_system := db'\<rparr>)"
  by (auto simp: on_system_def split: prod.splits)

lemma require_workspace_exists_Inr [handler]:
  "require_workspace_exists w s = (Inr y, s') \<longleftrightarrow> find_workspace (sys_workspaces (sv_system s)) w \<noteq> None \<and> s' = s"
  by (auto simp: require_workspace_exists_def split: option.splits)

lemma db_stmt_Inr [handler]: "db_stmt env p = (Inr y, t) \<longleftrightarrow> p = (Inr y, t)"
  by (auto simp: db_stmt_def split: prod.splits sum.splits)

lemma case_option_Inr [handler]:
  "(case x of None \<Rightarrow> m | Some y \<Rightarrow> f y) s = (Inr r, s') \<longleftrightarrow>
   x = None \<and> m s = (Inr r, s') \<or> (\<exists>y. x = Some y \<and> f y s = (Inr r, s'))"
  by (cases x) auto

lemma if_Inr [handler]:
  "(if c then m else m') s = (Inr r, s') \<longleftrightarrow> c \<and> m s = (Inr r, s') \<or> \<not> c \<and> m' s = (Inr r, s')"
  by simp

lemma case_sum_Inr [handler]:
  "(case x of Inl a \<Rightarrow> f a | Inr b \<Rightarrow> g b) s = (Inr r, s') \<longleftrightarrow>
   (\<exists>a. x = Inl a \<and> f a s = (Inr r, s')) \<or> (\<exists>b. x = Inr b \<and> g b s = (Inr r, s'))"
  by (cases x) auto

lemma case_pair_Inr [handler]:
  "(case p of (r, t) \<Rightarrow> (r, g t)) = (Inr y, d) \<longleftrightarrow> (\<exists>t. p = (Inr y, t) \<and> d = g t)"
  by (cases p) auto

lemma on_workspace_read:
  "on_workspace env w t (\<lambda>db. (f db, db)) s =
     (case sv_workspaces s w of
        None \<Rightarrow> (Inl (core_error_of_db (show_sqlx env) (Sqlx (NoSuchTable t))), s)
      | Some db \<Rightarrow> (f db, s))"
  by (auto simp: on_workspace_def fun_upd_idem split: option.splits)

section \<open>Statements that span tables\<close>

text \<open>The foreign keys of \<open>_email_verifications\<close>, \<open>_password_resets\<close>, \<open>_user_totp\<close>,
  \<open>_mfa_challenges\<close> and \<open>user_oauth_links\<close> cascade; \<open>_email_otps\<close> and \<open>_refresh_tokens\<close> have none.\<close>

definition delete_user :: "workspace_db \<Rightarrow> string \<Rightarrow> nat \<times> workspace_db" where
  "delete_user db i =
     (let n = sql_count (\<lambda>u. u_id u = i) (ws_users db) in
      (n, if n = 0 then db
          else db\<lparr>ws_users := sql_delete (\<lambda>u. u_id u = i) (ws_users db),
                  ws_links := sql_delete (\<lambda>l. ol_user_id l = i) (ws_links db),
                  ws_verifications := sql_delete (\<lambda>r. os_user_id r = i) (ws_verifications db),
                  ws_resets := sql_delete (\<lambda>r. os_user_id r = i) (ws_resets db),
                  ws_totps := sql_delete (\<lambda>r. tp_user_id r = i) (ws_totps db),
                  ws_challenges := sql_delete (\<lambda>r. os_user_id r = i) (ws_challenges db)\<rparr>))"

text \<open>Deleting an app's row cascades to its admins.\<close>

definition ws_delete_app :: "workspace_db \<Rightarrow> string \<Rightarrow> (db_error, workspace_db, unit) stmt" where
  "ws_delete_app db a =
     (case delete_app (ws_apps db) a of
        (Inl e, t) \<Rightarrow> (Inl e, db)
      | (Inr _, t) \<Rightarrow> (Inr (), db\<lparr>ws_apps := t, ws_app_admins := sql_delete (\<lambda>r. aa_app_id r = a) (ws_app_admins db)\<rparr>))"

text \<open>One transaction: if the insertion fails, \<open>last_login\<close> is rolled back with it.\<close>

definition commit_user_login ::
  "(char list \<Rightarrow> char list) \<Rightarrow> time \<Rightarrow> workspace_db \<Rightarrow> string \<Rightarrow> string \<Rightarrow> time
    \<Rightarrow> (db_error, workspace_db, refresh_token) stmt" where
  "commit_user_login H now db user token ttl =
     (case insert_row (fresh_token H now token UserKind user ttl) (ws_tokens db) of
        (Inl e, _) \<Rightarrow> (Inl e, db)
      | (Inr r, t) \<Rightarrow>
          (Inr r, db\<lparr>ws_users := sql_update (\<lambda>u. u_id u = user) (\<lambda>u. u\<lparr>u_last_login := Some now\<rparr>) (ws_users db),
                     ws_tokens := t\<rparr>))"

datatype auth_outcome = LoginSuccess | LoginFailed | LoginLocked

fun outcome_action :: "auth_outcome \<Rightarrow> string" where
  "outcome_action LoginSuccess = ''login_success''"
| "outcome_action LoginFailed = ''login_failed''"
| "outcome_action LoginLocked = ''login_locked''"

datatype scope = MasterScope | WorkspaceScope string

text \<open>Best effort: a workspace without an audit table loses the record, and nothing fails.\<close>

definition record_audit ::
  "env \<Rightarrow> auth_outcome \<Rightarrow> scope \<Rightarrow> string \<Rightarrow> string option \<Rightarrow> json \<Rightarrow> server \<Rightarrow> server" where
  "record_audit env out sc subject target details s =
     (case sc of
        MasterScope \<Rightarrow>
          s\<lparr>sv_system := (sv_system s)\<lparr>sys_audit := snd (audit_append (clock env) (sys_audit (sv_system s))
              (Some subject) (outcome_action out) target details)\<rparr>\<rparr>
      | WorkspaceScope w \<Rightarrow>
          (case sv_workspaces s w of
             None \<Rightarrow> s
           | Some db \<Rightarrow>
               s\<lparr>sv_workspaces := (sv_workspaces s)(w \<mapsto> db\<lparr>ws_audit := snd (audit_append (clock env) (ws_audit db)
                   (Some subject) (outcome_action out) target details)\<rparr>)\<rparr>))"

text \<open>The mailer of the server, whose messages no quota counts.\<close>

definition send_mail :: "env \<Rightarrow> email_message \<Rightarrow> server \<Rightarrow> (mailer_error + unit) \<times> server" where
  "send_mail env m s = (case mailer_send (smtp_relay env) m (sv_outbox s) of (r, sent) \<Rightarrow> (r, s\<lparr>sv_outbox := sent\<rparr>))"

definition default_access_ttl :: time where
  "default_access_ttl = minutes 15"

definition default_refresh_ttl :: time where
  "default_refresh_ttl = days 30"

section \<open>A small server\<close>

text \<open>One workspace with one user, for evaluating the handlers: hashing is the identity, every
  token is signed, and the TOTP code is always \<open>000000\<close>.\<close>

definition demo_nom :: nom where
  "demo_nom = \<lparr>double = (\<lambda>_. None), show_error = (\<lambda>i. i), show_debug = (\<lambda>i. i)\<rparr>"

definition demo_env :: "time \<Rightarrow> env" where
  "demo_env now = \<lparr>clock = now, sha256 = (\<lambda>x. x), verify_password = (\<lambda>p h. Inr (p = h)), hash_password = Inr,
     jwt = demo_lib (build_claims ''j'' 0 ''alice'' UserRole (Some ''acme'') None 0) 0,
     issuer = \<lparr>active_kid = ''k'', legacy_hmac = None\<rparr>, valid_email = (\<lambda>_. True), validation_message = (\<lambda>_. []),
     fresh_uuid = ''bob'', fresh_jti = ''j2'', fresh_refresh = ''r2'', fresh_secret = ''s2'', fresh_code = ''123456'',
     smtp_relay = None, show_u32 = (\<lambda>_. ''0''), kek = None,
     encrypt = (\<lambda>p _. Inr p), decrypt = (\<lambda>c _. Inr c), from_utf8 = Inr,
     check_totp = (\<lambda>_ _ _ _ code. Inr (code = ''000000'')), totp_url = (\<lambda>_ _ _. Inr []),
     show_sqlx = (\<lambda>_. []), show_i64 = (\<lambda>_. []), show_spec = (\<lambda>_. []), store_spec = (\<lambda>s. Inr (Inr s)),
     spec_json = (\<lambda>_. JNull), engine = demo_engine, nom_lib = demo_nom, json_str = (\<lambda>s. [CHR 0x22] @ s @ [CHR 0x22]),
     record_ids = (\<lambda>n. CHR ''r'' # replicate n CHR ''x''), js_parse = (\<lambda>p. p), allowed_hosts = [''api.test''],
     http_execute = (\<lambda>_. Inr (200, [], [Inr ''ok''])), utf8_lossy = (\<lambda>b. b),
     data_dir = ''data'',
     js_engine = \<lparr>js_eval = (\<lambda>_ hs h errs. LoadDone hs h errs None), js_transpile = Inr, js_bootstrap = []\<rparr>, storage = map_store, header_ok = (\<lambda>_. True),
     remove_dir = (\<lambda>_ os. os)\<rparr>"

definition demo_user :: user where
  "demo_user = \<lparr>u_id = ''alice'', u_email = ''a@b.c'', u_password_hash = Some ''password'', u_verified = True,
     u_last_login = None, u_created_at = 0\<rparr>"

definition demo_totp :: "bool \<Rightarrow> totps" where
  "demo_totp enabled = [\<lparr>tp_user_id = ''alice'', tp_secret_b32 = Some ''JBSW'', tp_secret_enc = None,
     tp_enrolled_at = 0, tp_confirmed_at = None, tp_enabled = enabled\<rparr>]"

definition demo_workspace :: workspace_db where
  "demo_workspace = \<lparr>ws_apps = [], ws_workspace_admins = [], ws_app_admins = [],
     ws_tokens = [fresh_token (\<lambda>x. x) 0 ''r1'' UserKind ''alice'' (days 30)], ws_policies = [],
     ws_audit = \<lparr>au_rows = [], au_last_id = 0\<rparr>, ws_users = [demo_user], ws_providers = [], ws_links = [],
     ws_verifications = [], ws_resets = [one_shot_row (\<lambda>x. x) 0 ''s1'' ''alice'' (minutes 60)],
     ws_otps = snd (otp_issue (\<lambda>x. x) 0 \<lparr>otp_rows = [], otp_last_id = 0\<rparr> ''123456'' ''a@b.c'' (minutes 10)), ws_states = [], ws_totps = demo_totp True, ws_challenges = []\<rparr>"

definition demo_server :: server where
  "demo_server = \<lparr>sv_system = \<lparr>sys_workspaces = [\<lparr>w_id = ''acme'', w_name = ''Acme'', w_is_master = False, w_created_at = 0\<rparr>],
       sys_master_admins = [], sys_policies = [], sys_audit = \<lparr>au_rows = [], au_last_id = 0\<rparr>, sys_secrets = [], sys_tokens = []\<rparr>,
     sv_workspaces = [''acme'' \<mapsto> demo_workspace], sv_apps = Map.empty, sv_revocations = revocation_default,
     sv_attempts = Map.empty, sv_lockout = lockout_default, sv_initialized = True, sv_outbox = [], sv_mail_counts = (\<lambda>_ _. 0),
     sv_published = [], sv_hooks = Map.empty, sv_drawn = 0,
     sv_hook_files = Map.empty, sv_objects = Map.empty\<rparr>"

lemmas demo_simps = demo_env_def demo_nom_def demo_user_def demo_totp_def demo_workspace_def demo_server_def

end
