(* ===== verification/Hook_Bridge.thy ===== *)
theory Hook_Bridge
  imports Server
begin

text \<open>
  What a hook can reach: the bridges of \<^verbatim>\<open>rustbase-api/src/hook_bridge.rs\<close>, bound to one app, and the
  entry points of \<open>HookEngine\<close> in \<^verbatim>\<open>rustbase-runtime/src/lib.rs\<close>, which find the app's hooks and run
  them. A native reports an error to JavaScript as a thrown value.
\<close>

section \<open>Records\<close>

definition show_db :: "env \<Rightarrow> db_error \<Rightarrow> string" where
  "show_db env e = db_error_str (show_sqlx env) (show_i64 env) e"

definition bridge_collection :: "env \<Rightarrow> app_db option \<Rightarrow> string \<Rightarrow> runtime_error + app_db \<times> schema" where
  "bridge_collection env adb coll =
     (case adb of
        None \<Rightarrow> Inl (Js (''find_collection: '' @ show_db env (Sqlx (NoSuchTable ''_collections''))))
      | Some db \<Rightarrow>
          (case find_collection db coll of
             Inl e \<Rightarrow> Inl (Js (''find_collection: '' @ show_db env e))
           | Inr None \<Rightarrow> Inl (Js (''unknown collection: '' @ coll))
           | Inr (Some c) \<Rightarrow> Inr (db, c_schema c)))"

definition bridge_find_one :: "env \<Rightarrow> app_db option \<Rightarrow> string \<Rightarrow> string \<Rightarrow> runtime_error + rec option" where
  "bridge_find_one env adb coll i =
     rbind (bridge_collection env adb coll) (\<lambda>(db, sch).
       case find_record (engine env) db sch i of
         Inl e \<Rightarrow> Inl (Js (''find_record: '' @ show_db env e)) | Inr r \<Rightarrow> Inr r)"

definition bridge_find_by_filter :: "env \<Rightarrow> app_db option \<Rightarrow> string \<Rightarrow> string \<Rightarrow> nat \<Rightarrow> runtime_error + rec list" where
  "bridge_find_by_filter env adb coll flt per_page =
     rbind (bridge_collection env adb coll) (\<lambda>(db, sch).
     rbind (if trim flt = [] then Inr None
            else case parse_filter (nom_lib env) flt of
              Inl e \<Rightarrow> Inl (Js (''filter: '' @ core_error_str (show_i64 env) e)) | Inr n \<Rightarrow> Inr (Some n)) (\<lambda>node.
       case list_records (engine env) db sch \<lparr>lp_page = 1, lp_per_page = min (max per_page 1) 200\<rparr> node of
         Inl e \<Rightarrow> Inl (Js (''list_records: '' @ show_db env e)) | Inr l \<Rightarrow> Inr (lr_items l)))"

text \<open>A write of a hook: the app's database, if it opens, is replaced.\<close>

definition put_app :: "string \<Rightarrow> string \<Rightarrow> app_db \<Rightarrow> server \<Rightarrow> server" where
  "put_app w a db s = s\<lparr>sv_apps := (sv_apps s)((w, a) \<mapsto> db)\<rparr>"

definition bridge_create :: "env \<Rightarrow> string \<Rightarrow> string \<Rightarrow> string \<Rightarrow> fields \<Rightarrow> server \<Rightarrow> (runtime_error + rec) \<times> server" where
  "bridge_create env w a coll flds s =
     (case bridge_collection env (sv_apps s (w, a)) coll of
        Inl e \<Rightarrow> (Inl e, s)
      | Inr (db, sch) \<Rightarrow>
          (case create_record (engine env) (record_ids env (sv_drawn s)) (clock env) db sch flds of
             (Inl e, db') \<Rightarrow> (Inl (Js (''create_record: '' @ show_db env e)), put_app w a db' (s\<lparr>sv_drawn := sv_drawn s + 1\<rparr>))
           | (Inr r, db') \<Rightarrow> (Inr r, put_app w a db' (s\<lparr>sv_drawn := sv_drawn s + 1\<rparr>))))"

definition bridge_write_error :: "env \<Rightarrow> string \<Rightarrow> string \<Rightarrow> string \<Rightarrow> db_error \<Rightarrow> runtime_error" where
  "bridge_write_error env op coll i e =
     Js (if e = Sqlx RowNotFound then ''not found: '' @ coll @ ''/'' @ i else op @ '': '' @ show_db env e)"

definition bridge_update ::
  "env \<Rightarrow> string \<Rightarrow> string \<Rightarrow> string \<Rightarrow> string \<Rightarrow> fields \<Rightarrow> server \<Rightarrow> (runtime_error + rec) \<times> server" where
  "bridge_update env w a coll i patch s =
     (case bridge_collection env (sv_apps s (w, a)) coll of
        Inl e \<Rightarrow> (Inl e, s)
      | Inr (db, sch) \<Rightarrow>
          (case update_record (engine env) (clock env) db sch i patch of
             (Inl e, db') \<Rightarrow> (Inl (bridge_write_error env ''update_record'' coll i e), put_app w a db' s)
           | (Inr r, db') \<Rightarrow> (Inr r, put_app w a db' s)))"

definition bridge_delete :: "env \<Rightarrow> string \<Rightarrow> string \<Rightarrow> string \<Rightarrow> string \<Rightarrow> server \<Rightarrow> (runtime_error + unit) \<times> server" where
  "bridge_delete env w a coll i s =
     (case bridge_collection env (sv_apps s (w, a)) coll of
        Inl e \<Rightarrow> (Inl e, s)
      | Inr (db, sch) \<Rightarrow>
          (case delete_record db sch i of
             (Inl e, db') \<Rightarrow> (Inl (bridge_write_error env ''delete_record'' coll i e), put_app w a db' s)
           | (Inr r, db') \<Rightarrow> (Inr r, put_app w a db' s)))"

section \<open>Mail, audit and fetch\<close>

text \<open>The mailer of an app's hooks counts its messages against the app's quota.\<close>

definition hook_quota :: "env \<Rightarrow> app_db option \<Rightarrow> mailer_error + 32 word option" where
  "hook_quota env adb =
     (case adb of
        None \<Rightarrow> Inl (Transport (''quota read: '' @ show_db env (Sqlx (NoSuchTable ''policies''))))
      | Some db \<Rightarrow>
          (case need db ''policies'' of
             Inl e \<Rightarrow> Inl (Transport (''quota read: '' @ show_db env e))
           | Inr _ \<Rightarrow> current_quota (show_db env) (ad_policies db)))"

definition bridge_mail :: "env \<Rightarrow> string \<Rightarrow> string \<Rightarrow> email_message \<Rightarrow> server \<Rightarrow> (mailer_error + unit) \<times> server" where
  "bridge_mail env w a m s =
     (case quoted_send (show_u32 env) w a (mailer_send (smtp_relay env)) (clock env) (hook_quota env (sv_apps s (w, a))) m
             (sv_mail_counts s (w, a), sv_outbox s) of
        (r, counts, sent) \<Rightarrow> (r, s\<lparr>sv_outbox := sent, sv_mail_counts := (sv_mail_counts s)((w, a) := counts)\<rparr>))"

definition bridge_audit ::
  "env \<Rightarrow> string \<Rightarrow> string \<Rightarrow> string \<Rightarrow> string option \<Rightarrow> json \<Rightarrow> server \<Rightarrow> (runtime_error + unit) \<times> server" where
  "bridge_audit env w a action target details s =
     (let failed = (\<lambda>e. Inl (RtInternal (''audit append: '' @ show_db env e)))
      in case sv_apps s (w, a) of
        None \<Rightarrow> (failed (Sqlx (NoSuchTable ''audit_log'')), s)
      | Some db \<Rightarrow>
          (case need db ''audit_log'' of
             Inl e \<Rightarrow> (failed e, s)
           | Inr _ \<Rightarrow>
               (Inr (), put_app w a (db\<lparr>ad_audit := snd (audit_append (clock env) (ad_audit db) (Some ''hook'') action target details)\<rparr>) s)))"

text \<open>\<open>split_once\<close>: the text before and after the first occurrence of the pattern.\<close>

fun split_once :: "string \<Rightarrow> string \<Rightarrow> (string \<times> string) option" where
  "split_once p [] = (if p = [] then Some ([], []) else None)"
| "split_once p (c # cs) =
     (if take (length p) (c # cs) = p then Some ([], drop (length p) (c # cs))
      else map_option (\<lambda>(x, y). (c # x, y)) (split_once p cs))"

definition host_allowed :: "string list \<Rightarrow> string \<Rightarrow> string option" where
  "host_allowed hosts url =
     (let after_scheme = (case split_once ''://'' url of Some (_, r) \<Rightarrow> r | None \<Rightarrow> url);
          host = takeWhile (\<lambda>c. c \<noteq> CHR ''/'' \<and> c \<noteq> CHR ''?'' \<and> c \<noteq> CHR ''#'') after_scheme;
          bare = (case split_once '':'' host of Some (h, _) \<Rightarrow> h | None \<Rightarrow> host)
      in if bare \<in> set hosts then Some bare else None)"

definition MAX_FETCH_BODY_BYTES :: nat where
  "MAX_FETCH_BODY_BYTES = 8 * 1024 * 1024"

text \<open>The chunks of the body as they arrive; a chunk may fail to arrive.\<close>

fun read_body :: "char list \<Rightarrow> (string + char list) list \<Rightarrow> runtime_error + char list" where
  "read_body acc [] = Inr acc"
| "read_body acc (Inl e # _) = Inl (RtInternal (''read body: '' @ e))"
| "read_body acc (Inr chunk # cs) =
     (if length acc + length chunk > MAX_FETCH_BODY_BYTES
      then Inl (RtInternal ''fetch: response body too large (over 8388608 bytes)'')
      else read_body (acc @ chunk) cs)"

text \<open>A repeated header keeps its last value.\<close>

definition response_headers :: "(string \<times> string) list \<Rightarrow> string \<rightharpoonup> string" where
  "response_headers hs = map_of (rev (map (\<lambda>(k, v). (map to_ascii_lowercase k, v)) hs))"

definition bridge_fetch :: "env \<Rightarrow> fetch_request \<Rightarrow> runtime_error + fetch_response" where
  "bridge_fetch env req =
     (if host_allowed (allowed_hosts env) (fr_url req) = None
      then Inl (RtForbidden (''host for '' @ show_debug (nom_lib env) (fr_url req) @ '' not on workspace fetch allowlist''))
      else case http_execute env req of
        Inl e \<Rightarrow> Inl (RtInternal e)
      | Inr (status, headers, chunks) \<Rightarrow>
          rbind (read_body [] chunks) (\<lambda>body.
            Inr \<lparr>fp_status = status, fp_headers = response_headers headers, fp_body = utf8_lossy env body\<rparr>))"

section \<open>The natives\<close>

definition native_answer :: "env \<Rightarrow> ('a \<Rightarrow> js_answer) \<Rightarrow> runtime_error + 'a \<Rightarrow> js_answer" where
  "native_answer env f r = (case r of Inl e \<Rightarrow> ThrownAnswer (runtime_error_str (show_i64 env) e) | Inr x \<Rightarrow> f x)"

fun bridge :: "env \<Rightarrow> string \<Rightarrow> string \<Rightarrow> js_call \<Rightarrow> server \<Rightarrow> js_answer \<times> server" where
  "bridge env w a (FindOne coll i) s =
     (native_answer env (case_option NullAnswer RecordAnswer) (bridge_find_one env (sv_apps s (w, a)) coll i), s)"
| "bridge env w a (FindByFilter coll flt n) s =
     (native_answer env RecordsAnswer (bridge_find_by_filter env (sv_apps s (w, a)) coll flt n), s)"
| "bridge env w a (CreateRecord coll flds) s =
     (case bridge_create env w a coll flds s of (r, s') \<Rightarrow> (native_answer env RecordAnswer r, s'))"
| "bridge env w a (UpdateRecord coll i patch) s =
     (case bridge_update env w a coll i patch s of (r, s') \<Rightarrow> (native_answer env RecordAnswer r, s'))"
| "bridge env w a (DeleteRecord coll i) s =
     (case bridge_delete env w a coll i s of (r, s') \<Rightarrow> (native_answer env (\<lambda>_. NullAnswer) r, s'))"
| "bridge env w a (MailerSend m) s =
     (case bridge_mail env w a m s of
        (Inl e, s') \<Rightarrow> (ThrownAnswer (mailer_error_str e), s')
      | (Inr _, s') \<Rightarrow> (NullAnswer, s'))"
| "bridge env w a (AuditWrite action target details) s =
     (case bridge_audit env w a action (if target = [] then None else Some target) details s of
        (r, s') \<Rightarrow> (native_answer env (\<lambda>_. NullAnswer) r, s'))"
| "bridge env w a (Fetch req) s = (native_answer env ResponseAnswer (bridge_fetch env req), s)"

section \<open>The engine\<close>

text \<open>\<open>get\<close>, then a run of the app's hooks; an app without hooks answers at once.\<close>

definition on_hooks ::
  "string \<Rightarrow> string \<Rightarrow> 'a \<Rightarrow> (app_hooks \<Rightarrow> server \<Rightarrow> (runtime_error + 'a) \<times> app_hooks \<times> server)
    \<Rightarrow> server \<Rightarrow> (runtime_error + 'a) \<times> server" where
  "on_hooks w a otherwise f s =
     (case sv_hooks s (w, a) of
        None \<Rightarrow> (Inr otherwise, s)
      | Some hk \<Rightarrow> (case f hk s of (r, hk', s') \<Rightarrow> (r, s'\<lparr>sv_hooks := (sv_hooks s')((w, a) \<mapsto> hk')\<rparr>)))"

definition hook_dispatch ::
  "env \<Rightarrow> string \<Rightarrow> string \<Rightarrow> string \<Rightarrow> hook_event \<Rightarrow> hook_request \<Rightarrow> hook_payload \<Rightarrow> server \<Rightarrow> (runtime_error + unit) \<times> server" where
  "hook_dispatch env w a coll event req p =
     on_hooks w a () (\<lambda>hk. run_dispatch (bridge env w a) (js_parse env) hk (hook_key coll event) req p)"

definition payload_fields :: "string \<Rightarrow> runtime_error + hook_payload \<Rightarrow> runtime_error + fields" where
  "payload_fields what r = rbind r (\<lambda>p. case p of FieldsPayload f \<Rightarrow> Inr f | _ \<Rightarrow> Inl (Js (''deserialise mutated '' @ what)))"

definition dispatch_before_create ::
  "env \<Rightarrow> string \<Rightarrow> string \<Rightarrow> string \<Rightarrow> hook_request \<Rightarrow> fields \<Rightarrow> server \<Rightarrow> (runtime_error + fields) \<times> server" where
  "dispatch_before_create env w a coll req flds =
     on_hooks w a flds (\<lambda>hk s.
       case run_before (bridge env w a) (js_parse env) hk (hook_key coll BeforeCreate) req None (FieldsPayload flds) s of
         (r, hk', s') \<Rightarrow> (payload_fields ''payload'' r, hk', s'))"

definition dispatch_before_update ::
  "env \<Rightarrow> string \<Rightarrow> string \<Rightarrow> string \<Rightarrow> hook_request \<Rightarrow> rec \<Rightarrow> fields \<Rightarrow> server \<Rightarrow> (runtime_error + fields) \<times> server" where
  "dispatch_before_update env w a coll req existing patch =
     on_hooks w a patch (\<lambda>hk s.
       case run_before (bridge env w a) (js_parse env) hk (hook_key coll BeforeUpdate) req (Some (RecordPayload existing)) (FieldsPayload patch) s of
         (r, hk', s') \<Rightarrow> (payload_fields ''patch'' r, hk', s'))"

definition dispatch_before_delete ::
  "env \<Rightarrow> string \<Rightarrow> string \<Rightarrow> string \<Rightarrow> hook_request \<Rightarrow> rec \<Rightarrow> server \<Rightarrow> (runtime_error + unit) \<times> server" where
  "dispatch_before_delete env w a coll req existing =
     on_hooks w a () (\<lambda>hk s.
       case run_before (bridge env w a) (js_parse env) hk (hook_key coll BeforeDelete) req None (RecordPayload existing) s of
         (r, hk', s') \<Rightarrow> (rbind r (\<lambda>_. Inr ()), hk', s'))"

definition dispatch_user_before_login ::
  "env \<Rightarrow> string \<Rightarrow> string \<Rightarrow> hook_request \<Rightarrow> json \<Rightarrow> server \<Rightarrow> (runtime_error + unit) \<times> server" where
  "dispatch_user_before_login env w a req user =
     on_hooks w a () (\<lambda>hk s.
       case run_before (bridge env w a) (js_parse env) hk (hook_key USER_HOOK_COLLECTION UserBeforeLogin) req None (UserPayload user) s of
         (r, hk', s') \<Rightarrow> (rbind r (\<lambda>_. Inr ()), hk', s'))"

definition dispatch_user_after_login ::
  "env \<Rightarrow> string \<Rightarrow> string \<Rightarrow> hook_request \<Rightarrow> json \<Rightarrow> server \<Rightarrow> (runtime_error + unit) \<times> server" where
  "dispatch_user_after_login env w a req user = hook_dispatch env w a USER_HOOK_COLLECTION UserAfterLogin req (UserPayload user)"

definition dispatch_user_after_register ::
  "env \<Rightarrow> string \<Rightarrow> string \<Rightarrow> hook_request \<Rightarrow> json \<Rightarrow> server \<Rightarrow> (runtime_error + unit) \<times> server" where
  "dispatch_user_after_register env w a req user = hook_dispatch env w a USER_HOOK_COLLECTION UserAfterRegister req (UserPayload user)"

text \<open>The conversion of a hook's error at the API boundary.\<close>

definition core_error_of_runtime :: "env \<Rightarrow> runtime_error \<Rightarrow> core_error" where
  "core_error_of_runtime env e =
     (case e of Veto m \<Rightarrow> Validation m | other \<Rightarrow> Internal (''hook: '' @ runtime_error_str (show_i64 env) other))"

definition hook_handler :: "env \<Rightarrow> (server \<Rightarrow> (runtime_error + 'a) \<times> server) \<Rightarrow> 'a handler" where
  "hook_handler env m s =
     (case m s of (Inl e, s') \<Rightarrow> (Inl (core_error_of_runtime env e), s') | (Inr x, s') \<Rightarrow> (Inr x, s'))"

text \<open>An observer's error is logged and nothing else.\<close>

definition observe :: "(server \<Rightarrow> (runtime_error + unit) \<times> server) \<Rightarrow> unit handler" where
  "observe m s = (Inr (), snd (m s))"

section \<open>Confinement\<close>

text \<open>What a hook of an app can change: the rows of the app's collections and its audit log, the outbox with
  the app's mail counter, and the record ids in use.\<close>

definition records_only :: "app_db \<Rightarrow> app_db \<Rightarrow> bool" where
  "records_only db db' \<longleftrightarrow> (\<exists>rows log. db' = db\<lparr>ad_rows := rows, ad_audit := log\<rparr>)"

definition confined :: "string \<Rightarrow> string \<Rightarrow> server \<Rightarrow> server \<Rightarrow> bool" where
  "confined w a s s' \<longleftrightarrow> (\<exists>ad out counts n.
     s' = s\<lparr>sv_apps := (sv_apps s)((w, a) := ad), sv_outbox := sv_outbox s @ out,
            sv_mail_counts := (sv_mail_counts s)((w, a) := counts), sv_drawn := sv_drawn s + n\<rparr>
     \<and> rel_option records_only (sv_apps s (w, a)) ad)"

lemma records_only_refl [simp, intro]: "records_only db db"
  unfolding records_only_def by (intro exI [of _ "ad_rows db"] exI [of _ "ad_audit db"]) simp

lemma records_only_trans: "records_only db1 db2 \<Longrightarrow> records_only db2 db3 \<Longrightarrow> records_only db1 db3"
  unfolding records_only_def by (auto, metis app_db.fold_congs app_db.surjective app_db.update_convs)

lemma set_rows_records_only [intro]: "records_only db (set_rows db sch rows)"
  unfolding records_only_def set_rows_def by (intro exI [of _ "(ad_rows db)(collection_str (schema_id sch) := rows)"] exI [of _ "ad_audit db"]) simp

lemma create_record_records_only: "create_record eng i now db sch f = (r, db') \<Longrightarrow> records_only db db'"
  by (auto simp: create_record_def Let_def split: sum.splits option.splits)

lemma update_record_records_only: "update_record eng now db sch i f = (r, db') \<Longrightarrow> records_only db db'"
  by (auto simp: update_record_def Let_def split: sum.splits option.splits)

lemma delete_record_records_only: "delete_record db sch i = (r, db') \<Longrightarrow> records_only db db'"
  by (auto simp: delete_record_def split: sum.splits if_splits)

text \<open>The parts a hook can write, given one by one.\<close>

definition hook_write :: "string \<Rightarrow> string \<Rightarrow> app_db option \<Rightarrow> email_message list \<Rightarrow> mail_counts \<Rightarrow> nat \<Rightarrow> server \<Rightarrow> server" where
  "hook_write w a ad out counts n s =
     s\<lparr>sv_apps := (sv_apps s)((w, a) := ad), sv_outbox := sv_outbox s @ out,
       sv_mail_counts := (sv_mail_counts s)((w, a) := counts), sv_drawn := sv_drawn s + n\<rparr>"

lemma confined_hook_write: "rel_option records_only (sv_apps s (w, a)) ad \<Longrightarrow> confined w a s (hook_write w a ad out counts n s)"
  unfolding confined_def hook_write_def by blast

lemma confinedE:
  assumes "confined w a s s'"
  obtains ad out counts n where "s' = hook_write w a ad out counts n s" and "rel_option records_only (sv_apps s (w, a)) ad"
  using assms unfolding confined_def hook_write_def by blast

lemma hook_write_hook_write:
  "hook_write w a ad' out' c' n' (hook_write w a ad out c n s) = hook_write w a ad' (out @ out') c' (n + n') s"
  by (simp add: hook_write_def add.assoc)

lemma confined_put_app:
  assumes "sv_apps s (w, a) = Some db" and "records_only db db'"
  shows "confined w a s (put_app w a db' s)"
  using confined_hook_write [of s w a "Some db'" "[]" "sv_mail_counts s (w, a)" 0] assms by (simp add: hook_write_def put_app_def)

lemma confined_put_app_drawn:
  assumes "sv_apps s (w, a) = Some db" and "records_only db db'"
  shows "confined w a s (put_app w a db' (s\<lparr>sv_drawn := Suc (sv_drawn s)\<rparr>))"
proof -
  have "put_app w a db' (s\<lparr>sv_drawn := Suc (sv_drawn s)\<rparr>) = hook_write w a (Some db') [] (sv_mail_counts s (w, a)) 1 s"
    by (simp add: hook_write_def put_app_def)
  then show ?thesis using assms by (simp add: confined_hook_write)
qed

lemma confined_mail: "confined w a s (s\<lparr>sv_outbox := sv_outbox s @ out, sv_mail_counts := (sv_mail_counts s)((w, a) := counts)\<rparr>)"
  using confined_hook_write [of s w a "sv_apps s (w, a)" out counts 0] by (simp add: hook_write_def option.rel_refl)

lemma confined_refl [simp, intro]: "confined w a s s"
  using confined_mail [where w = w and a = a and s = s and out = "[]" and counts = "sv_mail_counts s (w, a)"] by simp

lemma confined_trans:
  assumes "confined w a s1 s2" and "confined w a s2 s3"
  shows "confined w a s1 s3"
proof -
  obtain ad out c n where 1: "s2 = hook_write w a ad out c n s1" "rel_option records_only (sv_apps s1 (w, a)) ad"
    using assms(1) by (rule confinedE)
  obtain ad' out' c' n' where 2: "s3 = hook_write w a ad' out' c' n' s2" "rel_option records_only (sv_apps s2 (w, a)) ad'"
    using assms(2) by (rule confinedE)
  have "sv_apps s2 (w, a) = ad" using 1(1) by (simp add: hook_write_def)
  then have "rel_option records_only (sv_apps s1 (w, a)) ad'"
    using 1(2) 2(2) by (auto elim!: option.rel_cases intro: records_only_trans)
  then show ?thesis unfolding 2(1) 1(1) hook_write_hook_write by (rule confined_hook_write)
qed

lemma mailer_send_appends: "\<exists>out. snd (mailer_send relay m sent) = sent @ out"
  by (auto simp: mailer_send_def split: option.splits sum.splits)

lemma bridge_mail_confined: "confined w a s (snd (bridge_mail env w a m s))"
proof -
  obtain out where out: "snd (mailer_send (smtp_relay env) m (sv_outbox s)) = sv_outbox s @ out" using mailer_send_appends by blast
  then show ?thesis
    by (auto simp: bridge_mail_def quoted_send_def Let_def split: prod.splits sum.splits intro: confined_mail)
qed

lemma bridge_collection_Inr: "bridge_collection env adb coll = Inr (db, sch) \<Longrightarrow> adb = Some db"
  by (auto simp: bridge_collection_def split: option.splits sum.splits)

lemma bridge_confined: "confined w a s (snd (bridge env w a c s))"
proof (cases c)
  case (CreateRecord coll f)
  then show ?thesis
    by (auto simp: bridge_create_def split: sum.splits prod.splits
        intro!: confined_put_app_drawn dest!: bridge_collection_Inr create_record_records_only)
next
  case (UpdateRecord coll i f)
  then show ?thesis
    by (auto simp: bridge_update_def split: sum.splits prod.splits
        intro!: confined_put_app dest!: bridge_collection_Inr update_record_records_only)
next
  case (DeleteRecord coll i)
  then show ?thesis
    by (auto simp: bridge_delete_def split: sum.splits prod.splits
        intro!: confined_put_app dest!: bridge_collection_Inr delete_record_records_only)
next
  case (MailerSend m)
  then show ?thesis using bridge_mail_confined [of w a s env m] by (auto split: prod.splits sum.splits)
next
  case (AuditWrite action target details)
  have "records_only db (db\<lparr>ad_audit := log\<rparr>)" for db log
    unfolding records_only_def by (intro exI [of _ "ad_rows db"] exI [of _ log]) simp
  then show ?thesis using AuditWrite
    by (auto simp: bridge_audit_def Let_def split: option.splits sum.splits intro!: confined_put_app)
qed auto

interpretation hook_host: js_host "bridge env w a" "confined w a" for env w a
  by unfold_locales (auto intro: confined_trans bridge_confined)

text \<open>An engine call: besides the confined effect, the JavaScript state of the app.\<close>

definition hook_effect :: "string \<Rightarrow> string \<Rightarrow> server \<Rightarrow> server \<Rightarrow> bool" where
  "hook_effect w a s s' \<longleftrightarrow> (\<exists>s1 hk. confined w a s s1 \<and> s' = s1\<lparr>sv_hooks := (sv_hooks s)((w, a) := hk)\<rparr>)"

lemma confined_hooks: "confined w a s s' \<Longrightarrow> sv_hooks s' = sv_hooks s"
  by (auto simp: confined_def)

lemma on_hooks_effect:
  assumes "\<And>hk r hk' s'. f hk s = (r, hk', s') \<Longrightarrow> confined w a s s'"
  shows "hook_effect w a s (snd (on_hooks w a d f s))"
proof (cases "sv_hooks s (w, a)")
  case None
  then have "s = s\<lparr>sv_hooks := (sv_hooks s)((w, a) := None)\<rparr>" by (simp add: fun_upd_idem)
  with None show ?thesis unfolding hook_effect_def on_hooks_def by (auto intro!: exI [of _ s] exI [of _ None])
next
  case (Some hk)
  obtain r hk' s' where f: "f hk s = (r, hk', s')" by (metis surj_pair)
  with assms [OF f] Some confined_hooks [OF assms [OF f]] show ?thesis
    unfolding hook_effect_def on_hooks_def by (auto intro!: exI [of _ s'] exI [of _ "Some hk'"])
qed

lemma engine_effects:
  "hook_effect w a s (snd (hook_dispatch env w a coll ev req p s))"
  "hook_effect w a s (snd (dispatch_before_create env w a coll req flds s))"
  "hook_effect w a s (snd (dispatch_before_update env w a coll req r flds s))"
  "hook_effect w a s (snd (dispatch_before_delete env w a coll req r s))"
  "hook_effect w a s (snd (dispatch_user_before_login env w a req u s))"
  "hook_effect w a s (snd (dispatch_user_after_login env w a req u s))"
  "hook_effect w a s (snd (dispatch_user_after_register env w a req u s))"
  unfolding hook_dispatch_def dispatch_before_create_def dispatch_before_update_def dispatch_before_delete_def
    dispatch_user_before_login_def dispatch_user_after_login_def dispatch_user_after_register_def
  by (rule on_hooks_effect; auto split: prod.splits dest: hook_host.run_before_R hook_host.run_dispatch_R)+

lemma hook_effect_workspaces: "hook_effect w a s s' \<Longrightarrow> sv_workspaces s' = sv_workspaces s"
  by (auto simp: hook_effect_def confined_def)



section \<open>The fetch allowlist\<close>

lemma split_once_first: "c \<notin> set h \<Longrightarrow> split_once [c] (h @ c # t) = Some (h, t)"
  by (induction h) auto

lemma split_once_none: "c \<notin> set h \<Longrightarrow> split_once [c] h = None"
  by (induction h) auto

lemma takeWhile_all: "(\<And>x. x \<in> set xs \<Longrightarrow> P x) \<Longrightarrow> takeWhile P xs = xs"
  by (induction xs) auto

text \<open>The allowlist does not see the user information of a URL. A URL whose authority is
  \<open>h:p@e\<close>, which addresses the host \<open>e\<close> with the credentials \<open>h:p\<close>, passes the check as soon
  as \<open>h\<close> is on the list, whatever \<open>e\<close> is, and the request is then sent.\<close>

theorem allowlist_bypassed_by_userinfo:
  assumes "h \<in> set (allowed_hosts env)"
    and "set h \<inter> set ''/?#:'' = {}" and "set pw \<inter> set ''/?#'' = {}" and "set e \<inter> set ''/?#'' = {}"
    and "fr_url req = ''http://'' @ h @ '':'' @ pw @ ''@'' @ e @ ''/'' @ path"
  shows "host_allowed (allowed_hosts env) (fr_url req) = Some h
    \<and> (http_execute env req = Inr (200, [], [Inr body]) \<and> length body \<le> MAX_FETCH_BODY_BYTES \<longrightarrow>
        bridge_fetch env req = Inr \<lparr>fp_status = 200, fp_headers = response_headers [], fp_body = utf8_lossy env body\<rparr>)"
proof -
  let ?host = "h @ '':'' @ pw @ ''@'' @ e"
  have "split_once ''://'' (fr_url req) = Some (''http'', ?host @ ''/'' @ path)" using assms(5) by simp
  moreover have "takeWhile (\<lambda>c. c \<noteq> CHR ''/'' \<and> c \<noteq> CHR ''?'' \<and> c \<noteq> CHR ''#'') (?host @ ''/'' @ path) = ?host"
    using assms(2-4) by (simp add: takeWhile_append takeWhile_all disjoint_iff)
  moreover have "split_once '':'' ?host = Some (h, pw @ ''@'' @ e)"
    using split_once_first [of "CHR '':''" h "pw @ ''@'' @ e"] assms(2) by auto
  ultimately have "host_allowed (allowed_hosts env) (fr_url req) = Some h"
    using assms(1) by (simp add: host_allowed_def Let_def)
  then show ?thesis by (auto simp: bridge_fetch_def)
qed

theorem allowlist_bypassed_by_userinfo_witness:
  "host_allowed (allowed_hosts (demo_env 1)) ''http://api.test:x@169.254.169.254/latest'' = Some ''api.test''"
  using allowlist_bypassed_by_userinfo [of "''api.test''" "demo_env 1" "''x''" "''169.254.169.254''"
      "\<lparr>fr_method = ''GET'', fr_url = ''http://api.test:x@169.254.169.254/latest'', fr_headers = Map.empty, fr_body = []\<rparr>" "''latest''"]
  by (simp add: demo_env_def)

section \<open>What a hook cannot see\<close>

definition map_workspaces :: "((string \<Rightarrow> workspace_db option) \<Rightarrow> string \<Rightarrow> workspace_db option) \<Rightarrow> server \<Rightarrow> server" where
  "map_workspaces f s = s\<lparr>sv_workspaces := f (sv_workspaces s)\<rparr>"

lemma bridge_map_workspaces:
  "bridge env w a c (map_workspaces f s) = (fst (bridge env w a c s), map_workspaces f (snd (bridge env w a c s)))"
  by (cases c) (auto simp: map_workspaces_def bridge_create_def bridge_update_def bridge_delete_def bridge_audit_def
      bridge_mail_def put_app_def Let_def split: sum.splits prod.splits option.splits)

interpretation ws_blind: blind_bridge "bridge env w a" "map_workspaces f" for env w a f
  by unfold_locales (rule bridge_map_workspaces)

lemma on_hooks_map_workspaces:
  assumes "\<And>hk. g hk (map_workspaces f s) = (case g hk s of (r, hk', s') \<Rightarrow> (r, hk', map_workspaces f s'))"
  shows "on_hooks w a d g (map_workspaces f s) = (fst (on_hooks w a d g s), map_workspaces f (snd (on_hooks w a d g s)))"
  using assms by (auto simp: on_hooks_def split: option.splits prod.splits) (auto simp: map_workspaces_def)

lemma engine_map_workspaces:
  "hook_dispatch env w a coll ev req p (map_workspaces f s) =
     (fst (hook_dispatch env w a coll ev req p s), map_workspaces f (snd (hook_dispatch env w a coll ev req p s)))"
  "dispatch_user_before_login env w a req u (map_workspaces f s) =
     (fst (dispatch_user_before_login env w a req u s), map_workspaces f (snd (dispatch_user_before_login env w a req u s)))"
  unfolding hook_dispatch_def dispatch_user_before_login_def
  by (rule on_hooks_map_workspaces; auto simp: ws_blind.run_dispatch_T ws_blind.run_before_T split: prod.splits)+

end
