(* ===== verification/Hook_Files.thy ===== *)
theory Hook_Files
  imports Hook_Bridge
begin

text \<open>
  Hook sources, the handlers of \<^verbatim>\<open>rustbase-api/src/hooks.rs\<close>, with \<open>load_app_with\<close> of
  \<^verbatim>\<open>rustbase-runtime/src/lib.rs\<close>: names that are accepted, reading and writing files, and the reload after
  every write, which runs the code of all files against the app. A failing file system is not modelled.

  The lemmas show that a load reaches no more than the hooks it loads, that a file reads back, that a
  name stays in its directory, and two consequences of how a reload works.
\<close>

section \<open>File names\<close>

fun contains :: "string \<Rightarrow> string \<Rightarrow> bool" where
  "contains p [] = (p = [])"
| "contains p (c # cs) = (take (length p) (c # cs) = p \<or> contains p cs)"

definition is_ascii_alphanumeric :: "char \<Rightarrow> bool" where
  "is_ascii_alphanumeric c = (is_ascii_lowercase c \<or> is_ascii_uppercase c \<or> is_ascii_digit c)"

definition ends_with :: "string \<Rightarrow> string \<Rightarrow> bool" where
  "ends_with suf s = (drop (length s - length suf) s = suf)"

definition validate_filename :: "string \<Rightarrow> core_error + unit" where
  "validate_filename name =
     (let lower = map to_ascii_lowercase name in
      if name = [] \<or> length (as_bytes name) > 255 then Inl (Validation ''filename must be 1-255 characters'')
      else if CHR ''/'' \<in> set name \<or> CHR 0x5C \<in> set name \<or> contains ''..'' name
      then Inl (Validation (''filename must not contain path separators or '' @ [CHR 0x27] @ ''..'' @ [CHR 0x27]))
      else if \<not> (ends_with ''.js'' lower \<or> ends_with ''.ts'' lower)
      then Inl (Validation ''filename must end in .js or .ts'')
      else if \<not> is_ascii_alphanumeric (hd (as_bytes name)) \<and> hd (as_bytes name) \<noteq> CHR ''_''
      then Inl (Validation (''filename must start with a letter, digit, or '' @ [CHR 0x27] @ ''_'' @ [CHR 0x27]))
      else if \<not> list_all (\<lambda>c. is_ascii_alphanumeric c \<or> c = CHR ''.'' \<or> c = CHR ''_'' \<or> c = CHR ''-'') name
      then Inl (Validation (''filename may only contain letters, digits, '' @ [CHR 0x27] @ ''.'' @ [CHR 0x27] @ '', '' @
             [CHR 0x27] @ ''_'' @ [CHR 0x27] @ '' and '' @ [CHR 0x27] @ ''-'' @ [CHR 0x27]))
      else Inr ())"

definition is_hook_file :: "string \<Rightarrow> bool" where
  "is_hook_file name =
     (case file_extension name of None \<Rightarrow> False | Some ext \<Rightarrow> map to_ascii_lowercase ext \<in> {''js'', ''ts''})"

definition hooks_dir :: "env \<Rightarrow> string \<Rightarrow> string \<Rightarrow> string" where
  "hooks_dir env w a = data_dir env @ ''/hooks/'' @ w @ ''/'' @ a"

section \<open>Loading an app's hooks\<close>

text \<open>A load builds a fresh context with a fresh mailer, whose counter starts at zero, and evaluates the files in
  it; only when no file fails to be read does the context replace the one in use.\<close>

definition load_app_with :: "env \<Rightarrow> string \<Rightarrow> string \<Rightarrow> server \<Rightarrow> (runtime_error + nat) \<times> server" where
  "load_app_with env w a s =
     (let files = (case sv_hook_files s (w, a) of None \<Rightarrow> [] | Some fs \<Rightarrow> fs);
          s0 = s\<lparr>sv_mail_counts := (sv_mail_counts s)((w, a) := (\<lambda>_. 0))\<rparr> in
      case load_dir (bridge env w a) (js_engine env) (show_i64 env) (\<lambda>f. hooks_dir env w a @ ''/'' @ f) files
             (fresh_hooks (js_engine env) default_limits) 0 s0 of
        (Inl e, _, s') \<Rightarrow> (Inl e, s'\<lparr>sv_mail_counts := (sv_mail_counts s')((w, a) := sv_mail_counts s (w, a))\<rparr>)
      | (Inr n, hk, s') \<Rightarrow> (Inr n, s'\<lparr>sv_hooks := (sv_hooks s')((w, a) \<mapsto> hk)\<rparr>))"

record reload_outcome =
  ro_loaded :: nat
  ro_errors :: "string list"

definition reload_app :: "env \<Rightarrow> string \<Rightarrow> string \<Rightarrow> reload_outcome handler" where
  "reload_app env w a s =
     (case load_app_with env w a s of
        (Inl e, s') \<Rightarrow> (Inl (Internal (''hook reload failed: '' @ runtime_error_str (show_i64 env) e)), s')
      | (Inr n, s') \<Rightarrow>
          (case sv_hooks s' (w, a) of
             None \<Rightarrow> (Inr \<lparr>ro_loaded = n, ro_errors = []\<rparr>, s')
           | Some hk \<Rightarrow>
               (case drain_errors hk of
                  (errs, hk') \<Rightarrow> (Inr \<lparr>ro_loaded = n, ro_errors = errs\<rparr>, s'\<lparr>sv_hooks := (sv_hooks s')((w, a) \<mapsto> hk')\<rparr>))))"

section \<open>Handlers\<close>

text \<open>A directory is the list of its files, a new file coming last.\<close>

definition hook_path :: "string \<Rightarrow> string \<Rightarrow> string \<Rightarrow> server \<Rightarrow> hook_file option" where
  "hook_path w a name s =
     (case sv_hook_files s (w, a) of None \<Rightarrow> None | Some fs \<Rightarrow> List.find (\<lambda>f. hf_name f = name) fs)"

definition write_file :: "hook_file \<Rightarrow> hook_file list \<Rightarrow> hook_file list" where
  "write_file f fs =
     (if hf_name f \<in> hf_name ` set fs then map (\<lambda>g. if hf_name g = hf_name f then f else g) fs else fs @ [f])"

definition hooks_list :: "env \<Rightarrow> claims \<Rightarrow> string \<Rightarrow> string \<Rightarrow> (string \<times> nat \<times> time) list handler" where
  "hooks_list env c w a =
     hbind (lift (require_app_access c w a)) (\<lambda>_.
     hbind (require_app_exists env w a) (\<lambda>_.
     \<lambda>s. (Inr (sort_key fst (map (\<lambda>f. (hf_name f, hf_size f, hf_mtime f))
                (filter (\<lambda>f. is_hook_file (hf_name f)) (case sv_hook_files s (w, a) of None \<Rightarrow> [] | Some fs \<Rightarrow> fs)))), s)))"

definition hooks_get :: "env \<Rightarrow> claims \<Rightarrow> string \<Rightarrow> string \<Rightarrow> string \<Rightarrow> (string \<times> nat \<times> time \<times> string) handler" where
  "hooks_get env c w a name =
     hbind (lift (require_app_access c w a)) (\<lambda>_.
     hbind (require_app_exists env w a) (\<lambda>_.
     hbind (lift (validate_filename name)) (\<lambda>_.
     \<lambda>s. (case hook_path w a name s of
            None \<Rightarrow> Inl (NotFound ''hook'' name)
          | Some f \<Rightarrow>
              (case hf_text f of
                 Inl e \<Rightarrow> Inl (Internal (''hook is not utf-8: '' @ e))
               | Inr src \<Rightarrow> Inr (name, hf_size f, hf_mtime f, src)), s))))"

definition hooks_put :: "env \<Rightarrow> claims \<Rightarrow> string \<Rightarrow> string \<Rightarrow> string \<Rightarrow> string \<Rightarrow> ((string \<times> nat \<times> time \<times> string) \<times> reload_outcome) handler" where
  "hooks_put env c w a name src =
     (let f = \<lparr>hf_name = name, hf_text = Inr src, hf_size = length (as_bytes src), hf_mtime = clock env\<rparr> in
     hbind (lift (require_app_access c w a)) (\<lambda>_.
     hbind (require_app_exists env w a) (\<lambda>_.
     hbind (lift (validate_filename name)) (\<lambda>_.
     hbind (\<lambda>s. (Inr (), s\<lparr>sv_hook_files := (sv_hook_files s)((w, a) \<mapsto>
              write_file f (case sv_hook_files s (w, a) of None \<Rightarrow> [] | Some fs \<Rightarrow> fs))\<rparr>)) (\<lambda>_.
     hbind (reload_app env w a) (\<lambda>out.
     hret ((name, hf_size f, hf_mtime f, src), out)))))))"

definition hooks_delete :: "env \<Rightarrow> claims \<Rightarrow> string \<Rightarrow> string \<Rightarrow> string \<Rightarrow> reload_outcome handler" where
  "hooks_delete env c w a name =
     hbind (lift (require_app_access c w a)) (\<lambda>_.
     hbind (require_app_exists env w a) (\<lambda>_.
     hbind (lift (validate_filename name)) (\<lambda>_.
     hbind (\<lambda>s. case hook_path w a name s of
              None \<Rightarrow> (Inl (NotFound ''hook'' name), s)
            | Some _ \<Rightarrow> (Inr (), s\<lparr>sv_hook_files := (sv_hook_files s)((w, a) :=
                map_option (filter (\<lambda>f. hf_name f \<noteq> name)) (sv_hook_files s (w, a)))\<rparr>)) (\<lambda>_.
     reload_app env w a))))"

definition hooks_reload :: "env \<Rightarrow> claims \<Rightarrow> string \<Rightarrow> string \<Rightarrow> reload_outcome handler" where
  "hooks_reload env c w a =
     hbind (lift (require_app_access c w a)) (\<lambda>_.
     hbind (require_app_exists env w a) (\<lambda>_.
     reload_app env w a))"

section \<open>What a load can change\<close>

lemma hook_effect_set_hooks:
  "hook_effect w a s s' \<Longrightarrow> hook_effect w a s (s'\<lparr>sv_hooks := (sv_hooks s')((w, a) := hk)\<rparr>)"
  unfolding hook_effect_def by (auto simp: confined_hooks) blast

lemma confined_hook_effect: "confined w a s s' \<Longrightarrow> hook_effect w a s s'"
  unfolding hook_effect_def
  by (intro exI [of _ s'] exI [of _ "sv_hooks s' (w, a)"]) (simp add: confined_hooks fun_upd_idem)

lemma load_app_with_effect: "hook_effect w a s (snd (load_app_with env w a s))"
proof -
  let ?s0 = "s\<lparr>sv_mail_counts := (sv_mail_counts s)((w, a) := (\<lambda>_. 0))\<rparr>"
  obtain r hk s' where l: "load_dir (bridge env w a) (js_engine env) (show_i64 env) (\<lambda>f. hooks_dir env w a @ ''/'' @ f)
      (case sv_hook_files s (w, a) of None \<Rightarrow> [] | Some fs \<Rightarrow> fs) (fresh_hooks (js_engine env) default_limits) 0 ?s0 = (r, hk, s')"
    by (metis surj_pair)
  have "confined w a s ?s0" using confined_mail [where out = "[]" and counts = "\<lambda>_. 0" and w = w and a = a and s = s] by simp
  with hook_host.load_dir_R [OF l] have c: "confined w a s s'" by (rule confined_trans [rotated])
  moreover have "confined w a s (s'\<lparr>sv_mail_counts := (sv_mail_counts s')((w, a) := sv_mail_counts s (w, a))\<rparr>)"
    using confined_trans [OF c confined_mail [where out = "[]" and counts = "sv_mail_counts s (w, a)" and s = s']] by simp
  ultimately show ?thesis
    unfolding load_app_with_def Let_def l
    by (auto split: sum.splits intro: confined_hook_effect hook_effect_set_hooks)
qed

lemma reload_app_effect: "hook_effect w a s (snd (reload_app env w a s))"
  using load_app_with_effect [of w a s env]
  by (auto simp: reload_app_def drain_errors_def split: prod.splits sum.splits option.splits intro: hook_effect_set_hooks)

lemma hook_effect_files: "hook_effect w a s s' \<Longrightarrow> sv_hook_files s' = sv_hook_files s"
  by (auto simp: hook_effect_def confined_def)

lemma hook_effect_system: "hook_effect w a s s' \<Longrightarrow> sv_system s' = sv_system s"
  by (auto simp: hook_effect_def confined_def)

lemma require_app_exists_same:
  "sv_system s' = sv_system s \<Longrightarrow> sv_workspaces s' = sv_workspaces s \<Longrightarrow>
   require_app_exists env w a s = (Inr (), s1) \<Longrightarrow> require_app_exists env w a s' = (Inr (), s')"
  by (auto simp: require_app_exists_def hbind_def require_workspace_exists_def on_workspace_read split: option.splits prod.splits)

lemma require_app_exists_state: "require_app_exists env w a s = (Inr (), s1) \<Longrightarrow> s1 = s"
  by (auto simp: require_app_exists_def hbind_def require_workspace_exists_def on_workspace_read split: option.splits prod.splits sum.splits)

lemma find_replace_file:
  "List.find (\<lambda>g. hf_name g = n) (map (\<lambda>g. if hf_name g = hf_name f then f else g) fs) =
   (if n = hf_name f then if n \<in> hf_name ` set fs then Some f else None else List.find (\<lambda>g. hf_name g = n) fs)"
  by (induction fs) (simp_all split: if_splits)

lemma find_file_None: "n \<notin> hf_name ` set fs \<Longrightarrow> List.find (\<lambda>g. hf_name g = n) fs = None"
  by (auto simp: find_None_iff)

lemma find_write_file:
  "List.find (\<lambda>g. hf_name g = n) (write_file f fs) = (if n = hf_name f then Some f else List.find (\<lambda>g. hf_name g = n) fs)"
proof (cases "hf_name f \<in> hf_name ` set fs")
  case True
  then show ?thesis by (simp add: write_file_def find_replace_file)
next
  case False
  then show ?thesis by (auto simp: write_file_def find_append find_file_None split: option.splits)
qed

lemma hooks_put_Inr:
  assumes "hooks_put env c w a name src s = (Inr r, s')"
  shows "require_app_access c w a = Inr ()" and "require_app_exists env w a s = (Inr (), s)"
    and "validate_filename name = Inr ()"
    and "\<exists>out. r = ((name, length (as_bytes src), clock env, src), out) \<and>
      reload_app env w a (s\<lparr>sv_hook_files := (sv_hook_files s)((w, a) \<mapsto>
        write_file \<lparr>hf_name = name, hf_text = Inr src, hf_size = length (as_bytes src), hf_mtime = clock env\<rparr>
          (case sv_hook_files s (w, a) of None \<Rightarrow> [] | Some fs \<Rightarrow> fs))\<rparr>) = (Inr out, s')"
  using assms by (auto simp: hooks_put_def Let_def handler dest: require_app_exists_state)

text \<open>A hook file reads back as it was written. After a successful write of a file, reading it answers the
  source that was written and its size in bytes, whatever the code of the hooks did while it was
  loaded, and every other file of every app is unchanged.\<close>

theorem hook_file_roundtrip:
  assumes "hooks_put env c w a name src s = (Inr r, s')"
  shows "hooks_get env c w a name s' = (Inr (name, length (as_bytes src), clock env, src), s')
    \<and> (\<forall>w' a' n. (w', a', n) \<noteq> (w, a, name) \<longrightarrow> hook_path w' a' n s' = hook_path w' a' n s)"
proof -
  note put = hooks_put_Inr [OF assms]
  let ?f = "\<lparr>hf_name = name, hf_text = Inr src, hf_size = length (as_bytes src), hf_mtime = clock env\<rparr>"
  let ?fs = "case sv_hook_files s (w, a) of None \<Rightarrow> [] | Some fs \<Rightarrow> fs"
  let ?s1 = "s\<lparr>sv_hook_files := (sv_hook_files s)((w, a) \<mapsto> write_file ?f ?fs)\<rparr>"
  obtain out where reload: "reload_app env w a ?s1 = (Inr out, s')" using put(4) by blast
  have e: "hook_effect w a ?s1 s'" using reload_app_effect [of w a ?s1 env] reload by simp
  note same = hook_effect_files [OF e] hook_effect_system [OF e] hook_effect_workspaces [OF e]
  have "require_app_exists env w a s' = (Inr (), s')"
    using require_app_exists_same [OF _ _ put(2)] same by simp
  moreover have path: "hook_path w' a' n s' = (if (w', a', n) = (w, a, name) then Some ?f else hook_path w' a' n s)" for w' a' n
    using same by (auto simp: hook_path_def find_write_file split: option.splits)
  ultimately show ?thesis using put(1,3) by (auto simp: hooks_get_def hbind_def lift_def)
qed

lemma split_on_ne [simp]: "split_on c x \<noteq> []"
  by (induction x) (auto split: list.splits)

lemma split_on_snoc: "c \<notin> set y \<Longrightarrow> split_on c (x @ c # y) = split_on c x @ [y]"
proof (induction x)
  case Nil
  then have "split_on c y = [y]" by (induction y) auto
  then show ?case by simp
next
  case (Cons z x)
  then show ?case using split_on_ne [of c x] by (cases "split_on c x") auto
qed

lemma validate_filename_Inr:
  assumes "validate_filename name = Inr ()"
  shows "name \<noteq> []" and "CHR ''/'' \<notin> set name" and "CHR 0x5C \<notin> set name" and "\<not> contains ''..'' name"
    and "is_ascii_alphanumeric (hd name) \<or> hd name = CHR ''_''"
proof -
  note v = assms [unfolded validate_filename_def Let_def]
  show "name \<noteq> []" "CHR ''/'' \<notin> set name" "CHR 0x5C \<notin> set name" "\<not> contains ''..'' name"
    using v by (auto split: if_splits)
  show "is_ascii_alphanumeric (hd name) \<or> hd name = CHR ''_''"
  proof (cases name)
    case (Cons c cs)
    then have "is_ascii_alphanumeric c \<or> c = CHR ''.'' \<or> c = CHR ''_'' \<or> c = CHR ''-''" using v by (auto split: if_splits)
    then have "utf8 c = [c]"
      by (auto simp: utf8_def is_ascii_alphanumeric_def is_ascii_lowercase_def is_ascii_uppercase_def is_ascii_digit_def less_eq_char_def)
    then show ?thesis using v Cons by (auto simp: as_bytes_def split: if_splits)
  qed (use v in auto)
qed

text \<open>C40: A file name stays in its directory. An accepted name is one component of the path it is joined to:
  splitting the path at the separators gives the components of the directory and the name, which is
  neither empty nor made of dots, does not begin with a dot and has no backslash.\<close>

theorem hook_filename_stays_inside:
  assumes "validate_filename name = Inr ()"
  shows "split_on CHR ''/'' (hooks_dir env w a @ ''/'' @ name) = split_on CHR ''/'' (hooks_dir env w a) @ [name]
    \<and> name \<notin> {[], ''.'', ''..''} \<and> hd name \<noteq> CHR ''.'' \<and> CHR 0x5C \<notin> set name"
proof -
  note v = validate_filename_Inr [OF assms]
  have "hd name \<noteq> CHR ''.''" using v(5)
    by (auto simp: is_ascii_alphanumeric_def is_ascii_lowercase_def is_ascii_uppercase_def is_ascii_digit_def less_eq_char_def)
  then show ?thesis using v split_on_snoc [of "CHR ''/''" name "hooks_dir env w a"] by auto
qed

theorem hook_filename_stays_inside_witness:
  "split_on CHR ''/'' (hooks_dir (demo_env 1) ''acme'' ''blog'' @ ''/'' @ ''cron.ts'') = [''data'', ''hooks'', ''acme'', ''blog'', ''cron.ts'']"
proof -
  have "validate_filename ''cron.ts'' = Inr ()"
    by (simp add: validate_filename_def as_bytes_def utf8_def is_ascii_alphanumeric_def is_ascii_lowercase_def is_ascii_uppercase_def
        is_ascii_digit_def less_eq_char_def to_ascii_lowercase_def ends_with_def)
  from hook_filename_stays_inside [OF this, of "demo_env 1" "''acme''" "''blog''"] show ?thesis
    by (simp add: hooks_dir_def demo_env_def)
qed

lemma load_dir_skips:
  "file_extension (hf_name f) \<noteq> Some ''js'' \<Longrightarrow> file_extension (hf_name f) \<noteq> Some ''ts'' \<Longrightarrow>
   load_dir br eng sh label (fs @ [f]) hk n s = load_dir br eng sh label fs hk n s"
  by (induction fs arbitrary: hk n s) (auto simp: Let_def split: sum.splits prod.splits)

definition set_hook_files :: "string \<Rightarrow> string \<Rightarrow> hook_file list \<Rightarrow> server \<Rightarrow> server" where
  "set_hook_files w a fs s = s\<lparr>sv_hook_files := (sv_hook_files s)((w, a) \<mapsto> fs)\<rparr>"

lemma set_hook_files_simps [simp]:
  "sv_apps (set_hook_files w a fs s) = sv_apps s" "sv_hooks (set_hook_files w a fs s) = sv_hooks s"
  "sv_mail_counts (set_hook_files w a fs s) = sv_mail_counts s" "sv_outbox (set_hook_files w a fs s) = sv_outbox s"
  "sv_drawn (set_hook_files w a fs s) = sv_drawn s" "sv_system (set_hook_files w a fs s) = sv_system s"
  "sv_workspaces (set_hook_files w a fs s) = sv_workspaces s"
  "sv_hook_files (set_hook_files w a fs s) = (sv_hook_files s)((w, a) \<mapsto> fs)"
  "(set_hook_files w a fs s)\<lparr>sv_hooks := hk\<rparr> = set_hook_files w a fs (s\<lparr>sv_hooks := hk\<rparr>)"
  "(set_hook_files w a fs s)\<lparr>sv_mail_counts := n\<rparr> = set_hook_files w a fs (s\<lparr>sv_mail_counts := n\<rparr>)"
  by (simp_all add: set_hook_files_def)

lemma bridge_set_hook_files:
  "bridge env w a c (set_hook_files w' a' fs s) = (fst (bridge env w a c s), set_hook_files w' a' fs (snd (bridge env w a c s)))"
  by (cases c) (auto simp: set_hook_files_def bridge_create_def bridge_update_def bridge_delete_def bridge_audit_def
      bridge_mail_def put_app_def Let_def split: sum.splits prod.splits option.splits)

interpretation files_blind: blind_bridge "bridge env w a" "set_hook_files w' a' fs" for env w a w' a' fs
  by unfold_locales (rule bridge_set_hook_files)

lemma reload_app_skips:
  assumes "file_extension (hf_name f) \<noteq> Some ''js''" and "file_extension (hf_name f) \<noteq> Some ''ts''"
    and "fs = (case sv_hook_files s (w, a) of None \<Rightarrow> [] | Some fs \<Rightarrow> fs)"
  shows "reload_app env w a (set_hook_files w a (fs @ [f]) s) =
    (case reload_app env w a s of (r, s') \<Rightarrow> (r, set_hook_files w a (fs @ [f]) s'))"
proof -
  have "load_app_with env w a (set_hook_files w a (fs @ [f]) s) =
    (case load_app_with env w a s of (r, s') \<Rightarrow> (r, set_hook_files w a (fs @ [f]) s'))"
    unfolding load_app_with_def Let_def
    using assms by (auto simp: load_dir_skips files_blind.load_dir_T split: prod.splits sum.splits)
  then show ?thesis
    by (auto simp: reload_app_def split: prod.splits sum.splits option.splits)
qed

text \<open>A hook file with a capital extension is accepted but never runs. A name such as \<open>a.JS\<close> passes the
  check of the endpoint, which ignores case, while the loader knows only the lower-case extensions: the
  answer to the write is the outcome of a reload without the file, and the same hooks are in use.\<close>

theorem capital_extension_never_loaded:
  assumes "file_extension name \<noteq> Some ''js''" and "file_extension name \<noteq> Some ''ts''"
    and "hook_path w a name s = None"
    and "hooks_put env c w a name src s = (Inr (file, out), s')"
  shows "\<exists>s2. hooks_reload env c w a s = (Inr out, s2) \<and> sv_hooks s' = sv_hooks s2"
proof -
  let ?f = "\<lparr>hf_name = name, hf_text = Inr src, hf_size = length (as_bytes src), hf_mtime = clock env\<rparr>"
  let ?fs = "case sv_hook_files s (w, a) of None \<Rightarrow> [] | Some fs \<Rightarrow> fs"
  note put = hooks_put_Inr [OF assms(4)]
  have "name \<notin> hf_name ` set ?fs" using assms(3) by (auto simp: hook_path_def find_None_iff split: option.splits)
  then have "write_file ?f ?fs = ?fs @ [?f]" by (simp add: write_file_def)
  then have r: "reload_app env w a (set_hook_files w a (?fs @ [?f]) s) = (Inr out, s')"
    using put(4) unfolding set_hook_files_def by auto
  have "file_extension (hf_name ?f) \<noteq> Some ''js''" and "file_extension (hf_name ?f) \<noteq> Some ''ts''" using assms(1,2) by simp_all
  from reload_app_skips [OF this refl, of env w a s] r
  obtain s2 where "reload_app env w a s = (Inr out, s2)" and "s' = set_hook_files w a (?fs @ [?f]) s2"
    by (auto split: prod.splits)
  then show ?thesis using put(1,2) by (simp add: hooks_reload_def hbind_def lift_def)
qed

text \<open>A reload starts the day's quota again. What a reload answers and does is the same whatever the app's
  mail counter stood at before, and when the app has no hook files the counter is zero afterwards.\<close>

theorem reload_resets_quota:
  assumes "hooks_reload env c w a s = (Inr out, s')"
  shows "hooks_reload env c w a (s\<lparr>sv_mail_counts := (sv_mail_counts s)((w, a) := n)\<rparr>) = (Inr out, s')
    \<and> (sv_hook_files s (w, a) = None \<longrightarrow> sv_mail_counts s' (w, a) = (\<lambda>_. 0))"
proof -
  let ?s = "s\<lparr>sv_mail_counts := (sv_mail_counts s)((w, a) := n)\<rparr>"
  have access: "require_app_access c w a = Inr ()" and ex: "require_app_exists env w a s = (Inr (), s)"
    and r: "reload_app env w a s = (Inr out, s')"
    using assms by (auto simp: hooks_reload_def handler dest: require_app_exists_state)
  have "reload_app env w a ?s = (Inr out, s')"
    using r by (auto simp: reload_app_def load_app_with_def Let_def split: prod.splits sum.splits)
  moreover have "require_app_exists env w a ?s = (Inr (), ?s)" by (rule require_app_exists_same [OF _ _ ex]) simp_all
  ultimately show ?thesis
    using access r by (auto simp: hooks_reload_def hbind_def lift_def reload_app_def load_app_with_def split: prod.splits sum.splits option.splits)
qed

section \<open>An app with hooks\<close>

definition root_admin :: claims where
  "root_admin = build_claims ''j'' 0 ''root'' MasterAdminRole None None 0"

definition hooks_server :: server where
  "hooks_server = demo_server\<lparr>
     sv_workspaces := [''acme'' \<mapsto> demo_workspace\<lparr>ws_apps := [\<lparr>a_id = ''blog'', a_name = ''Blog'', a_created_at = 0\<rparr>]\<rparr>],
     sv_apps := [(''acme'', ''blog'') \<mapsto> empty_app_db]\<rparr>"

lemmas hooks_server_simps = hooks_server_def root_admin_def build_claims_def require_app_access_def
  require_app_exists_def require_workspace_exists_def find_workspace_def find_app_def on_workspace_def hbind_def lift_def hret_def

lemma hooks_server_put:
  assumes "validate_filename name = Inr ()"
  shows "fst (hooks_put (demo_env 1) root_admin ''acme'' ''blog'' name ''x'' hooks_server) =
    Inr ((name, 1, 1, ''x''), \<lparr>ro_loaded = (if file_extension name \<in> {Some ''js'', Some ''ts''} then 1 else 0), ro_errors = []\<rparr>)"
  using assms by (simp add: hooks_put_def hooks_server_simps reload_app_def load_app_with_def Let_def eval_source_def
      write_file_def fresh_hooks_def drain_errors_def demo_simps as_bytes_def utf8_def)

lemmas filename_simps = validate_filename_def as_bytes_def utf8_def is_ascii_alphanumeric_def is_ascii_lowercase_def
  is_ascii_uppercase_def is_ascii_digit_def less_eq_char_def to_ascii_lowercase_def ends_with_def file_extension_def

theorem hook_file_roundtrip_witness:
  "fst (hooks_get (demo_env 1) root_admin ''acme'' ''blog'' ''a.js''
     (snd (hooks_put (demo_env 1) root_admin ''acme'' ''blog'' ''a.js'' ''x'' hooks_server))) = Inr (''a.js'', 1, 1, ''x'')"
proof -
  have "validate_filename ''a.js'' = Inr ()" by (simp add: filename_simps)
  from hooks_server_put [OF this]
  obtain r s' where p: "hooks_put (demo_env 1) root_admin ''acme'' ''blog'' ''a.js'' ''x'' hooks_server = (Inr r, s')"
    by (metis eq_fst_iff)
  from hook_file_roundtrip [OF p] show ?thesis unfolding p by (simp add: as_bytes_def utf8_def demo_env_def)
qed

theorem capital_extension_never_loaded_witness:
  "\<exists>s2. hooks_reload (demo_env 1) root_admin ''acme'' ''blog'' hooks_server = (Inr \<lparr>ro_loaded = 0, ro_errors = []\<rparr>, s2)"
proof -
  have "validate_filename ''a.JS'' = Inr ()" and ext: "file_extension ''a.JS'' = Some ''JS''"
    by code_simp+
  with hooks_server_put [OF this(1)]
  have "fst (hooks_put (demo_env 1) root_admin ''acme'' ''blog'' ''a.JS'' ''x'' hooks_server) =
    Inr ((''a.JS'', 1, 1, ''x''), \<lparr>ro_loaded = 0, ro_errors = []\<rparr>)" by simp
  then obtain s' where p: "hooks_put (demo_env 1) root_admin ''acme'' ''blog'' ''a.JS'' ''x'' hooks_server
      = (Inr ((''a.JS'', 1, 1, ''x''), \<lparr>ro_loaded = 0, ro_errors = []\<rparr>), s')" by (metis eq_fst_iff)
  have "hook_path ''acme'' ''blog'' ''a.JS'' hooks_server = None" by (simp add: hook_path_def hooks_server_def demo_server_def)
  from capital_extension_never_loaded [OF _ _ this p] ext show ?thesis by auto
qed

theorem reload_resets_quota_witness:
  "\<exists>s'. hooks_reload (demo_env 1) root_admin ''acme'' ''blog''
       (hooks_server\<lparr>sv_mail_counts := (sv_mail_counts hooks_server)((''acme'', ''blog'') := (\<lambda>_. 100))\<rparr>)
     = (Inr \<lparr>ro_loaded = 0, ro_errors = []\<rparr>, s') \<and> sv_mail_counts s' (''acme'', ''blog'') = (\<lambda>_. 0)"
proof -
  have "fst (hooks_reload (demo_env 1) root_admin ''acme'' ''blog'' hooks_server) = Inr \<lparr>ro_loaded = 0, ro_errors = []\<rparr>"
    by (simp add: hooks_reload_def hooks_server_simps reload_app_def load_app_with_def fresh_hooks_def drain_errors_def demo_simps)
  then obtain s' where r: "hooks_reload (demo_env 1) root_admin ''acme'' ''blog'' hooks_server = (Inr \<lparr>ro_loaded = 0, ro_errors = []\<rparr>, s')"
    by (metis eq_fst_iff)
  have "sv_hook_files hooks_server (''acme'', ''blog'') = None" by (simp add: hooks_server_def demo_server_def)
  with reload_resets_quota [OF r, of "\<lambda>_. 100"] show ?thesis by blast
qed
end
