(* ===== verification/Lifecycle_Api.thy ===== *)
theory Lifecycle_Api
  imports Hook_Files
begin

text \<open>
  Life cycles: the layout of the data directory (\<^verbatim>\<open>rustbase-db/src/paths.rs\<close>) and the handlers of
  \<^verbatim>\<open>workspaces.rs\<close>, \<^verbatim>\<open>apps.rs\<close>, \<^verbatim>\<open>workspace_admins.rs\<close> and \<^verbatim>\<open>setup.rs\<close> of \<^verbatim>\<open>rustbase-api\<close>, with the gate in
  front of a server that is not set up. Creating a workspace or an app migrates its database, which starts
  empty; deleting one removes its folder. Removing a folder always succeeds in the model.
\<close>

section \<open>Paths\<close>

definition system_db_path :: "string \<Rightarrow> string" where
  "system_db_path base = base @ ''/system.db''"

definition workspace_dir :: "string \<Rightarrow> string \<Rightarrow> string" where
  "workspace_dir base w = base @ ''/workspaces/'' @ w"

definition workspace_db_path :: "string \<Rightarrow> string \<Rightarrow> string" where
  "workspace_db_path base w = workspace_dir base w @ ''/workspace.db''"

definition workspace_storage_dir :: "string \<Rightarrow> string \<Rightarrow> string" where
  "workspace_storage_dir base w = workspace_dir base w @ ''/storage''"

definition app_dir :: "string \<Rightarrow> string \<Rightarrow> string \<Rightarrow> string" where
  "app_dir base w a = workspace_dir base w @ ''/apps/'' @ a"

definition app_db_path :: "string \<Rightarrow> string \<Rightarrow> string \<Rightarrow> string" where
  "app_db_path base w a = app_dir base w a @ ''/data.db''"

definition app_storage_dir :: "string \<Rightarrow> string \<Rightarrow> string \<Rightarrow> string" where
  "app_storage_dir base w a = app_dir base w a @ ''/storage''"

section \<open>Identifiers\<close>

definition slug_char :: "char \<Rightarrow> bool" where
  "slug_char c = (is_ascii_lowercase c \<or> is_ascii_digit c \<or> c = CHR ''-'')"

definition validate_slug :: "string \<Rightarrow> string \<Rightarrow> core_error + unit" where
  "validate_slug what i =
     (if \<not> (2 \<le> length (as_bytes i) \<and> length (as_bytes i) \<le> 50) then Inl (Validation (what @ '' id must be 2-50 characters''))
      else if take 1 i = ''-'' \<or> ends_with ''-'' i
      then Inl (Validation (what @ '' id must not start or end with '' @ [CHR 0x27] @ ''-'' @ [CHR 0x27]))
      else if \<not> list_all slug_char i
      then Inl (Validation (what @ '' id may only contain lowercase letters, digits, and '' @ [CHR 0x27] @ ''-'' @ [CHR 0x27]))
      else Inr ())"

definition validate_realm_id :: "string \<Rightarrow> core_error + unit" where
  "validate_realm_id i = validate_slug ''workspace'' i"

definition validate_app_id :: "string \<Rightarrow> core_error + unit" where
  "validate_app_id i = validate_slug ''app'' i"

section \<open>Workspaces\<close>

text \<open>The tables of a workspace after its migrations. Migrating a database again changes nothing.\<close>

definition empty_workspace_db :: workspace_db where
  "empty_workspace_db = \<lparr>ws_apps = [], ws_workspace_admins = [], ws_app_admins = [], ws_tokens = [], ws_policies = [],
     ws_audit = \<lparr>au_rows = [], au_last_id = 0\<rparr>, ws_users = [], ws_providers = [], ws_links = [], ws_verifications = [],
     ws_resets = [], ws_otps = \<lparr>otp_rows = [], otp_last_id = 0\<rparr>, ws_states = [], ws_totps = [], ws_challenges = []\<rparr>"

definition migrate_workspace :: "string \<Rightarrow> unit handler" where
  "migrate_workspace w s =
     (Inr (), case sv_workspaces s w of
        None \<Rightarrow> s\<lparr>sv_workspaces := (sv_workspaces s)(w \<mapsto> empty_workspace_db)\<rparr> | Some _ \<Rightarrow> s)"

definition migrate_app :: "string \<Rightarrow> string \<Rightarrow> unit handler" where
  "migrate_app w a s =
     (Inr (), case sv_apps s (w, a) of
        None \<Rightarrow> s\<lparr>sv_apps := (sv_apps s)((w, a) \<mapsto> empty_app_db)\<rparr> | Some _ \<Rightarrow> s)"

definition realms_list :: "claims \<Rightarrow> workspaces handler" where
  "realms_list c = hbind (lift (require_master c)) (\<lambda>_ s. (Inr (list_realms (sys_workspaces (sv_system s))), s))"

definition realms_create :: "env \<Rightarrow> claims \<Rightarrow> string \<Rightarrow> string \<Rightarrow> workspace handler" where
  "realms_create env c i name =
     hbind (lift (require_master c)) (\<lambda>_.
     hbind (lift (validate_realm_id i)) (\<lambda>_.
     hbind (lift (validate_request env [(''name'', valid_length 1 (Some 100) name)])) (\<lambda>_.
     if i = MASTER_WORKSPACE_ID
     then hfail (Conflict (''workspace id '' @ [CHR 0x27] @ ''master'' @ [CHR 0x27] @ '' is reserved''))
     else
     hbind (on_system (\<lambda>db. (if find_workspace (sys_workspaces db) i \<noteq> None
              then Inl (Conflict (''workspace '' @ [CHR 0x27] @ i @ [CHR 0x27] @ '' already exists'')) else Inr (), db))) (\<lambda>_.
     hbind (on_system (\<lambda>db. case db_stmt env (create_realm (clock env) (sys_workspaces db) i name) of
              (r, t) \<Rightarrow> (r, db\<lparr>sys_workspaces := t\<rparr>))) (\<lambda>workspace.
     hbind (migrate_workspace i) (\<lambda>_.
     hret workspace))))))"

definition realms_find :: "string \<Rightarrow> workspace handler" where
  "realms_find i s =
     (case find_workspace (sys_workspaces (sv_system s)) i of
        None \<Rightarrow> (Inl (WorkspaceNotFound i), s) | Some w \<Rightarrow> (Inr w, s))"

definition realms_get :: "claims \<Rightarrow> string \<Rightarrow> workspace handler" where
  "realms_get c i = hbind (lift (require_master c)) (\<lambda>_. realms_find i)"

definition realms_update :: "env \<Rightarrow> claims \<Rightarrow> string \<Rightarrow> string \<Rightarrow> workspace handler" where
  "realms_update env c i name =
     hbind (lift (require_master c)) (\<lambda>_.
     hbind (lift (validate_request env [(''name'', valid_length 1 (Some 100) name)])) (\<lambda>_.
     hbind (on_system (\<lambda>db. case rename_realm (sys_workspaces db) i name of
              (Inl e, t) \<Rightarrow> (Inl (if e = Sqlx RowNotFound then WorkspaceNotFound i else core_error_of_db (show_sqlx env) e),
                            db\<lparr>sys_workspaces := t\<rparr>)
            | (Inr _, t) \<Rightarrow> (Inr (), db\<lparr>sys_workspaces := t\<rparr>))) (\<lambda>_.
     realms_find i)))"

text \<open>The folder of a workspace holds its database, those of its apps and, with the local backend, their
  stored files; the sources of hooks are elsewhere.\<close>

definition remove_workspace_dir :: "env \<Rightarrow> string \<Rightarrow> unit handler" where
  "remove_workspace_dir env w s =
     (Inr (), s\<lparr>sv_workspaces := (sv_workspaces s)(w := None),
               sv_apps := (\<lambda>(w', a). if w' = w then None else sv_apps s (w', a)),
               sv_objects := remove_dir env (workspace_dir (data_dir env) w) (sv_objects s)\<rparr>)"

definition realms_delete :: "env \<Rightarrow> claims \<Rightarrow> string \<Rightarrow> unit handler" where
  "realms_delete env c i =
     hbind (lift (require_master c)) (\<lambda>_.
     if i = MASTER_WORKSPACE_ID then hfail Forbidden
     else
     hbind (realms_find i) (\<lambda>workspace.
     if w_is_master workspace then hfail Forbidden
     else
     hbind (on_system (\<lambda>db. case db_stmt env (delete_realm (sys_workspaces db) i) of
              (r, t) \<Rightarrow> (r, db\<lparr>sys_workspaces := t\<rparr>))) (\<lambda>_.
     remove_workspace_dir env i)))"

section \<open>Apps\<close>

definition apps_list :: "env \<Rightarrow> claims \<Rightarrow> string \<Rightarrow> apps handler" where
  "apps_list env c w =
     hbind (lift (require_workspace_access c w)) (\<lambda>_.
     hbind (require_workspace_exists w) (\<lambda>_.
     on_workspace env w ''apps'' (\<lambda>db. (Inr (list_apps (ws_apps db)), db))))"

text \<open>A failing load of hooks is logged and nothing else.\<close>

definition load_hooks :: "env \<Rightarrow> string \<Rightarrow> string \<Rightarrow> unit handler" where
  "load_hooks env w a s = (Inr (), snd (load_app_with env w a s))"

definition apps_create :: "env \<Rightarrow> claims \<Rightarrow> string \<Rightarrow> string \<Rightarrow> string \<Rightarrow> app handler" where
  "apps_create env c w i name =
     hbind (lift (require_workspace_access c w)) (\<lambda>_.
     hbind (lift (validate_app_id i)) (\<lambda>_.
     hbind (lift (validate_request env [(''name'', valid_length 1 (Some 100) name)])) (\<lambda>_.
     hbind (require_workspace_exists w) (\<lambda>_.
     hbind (on_workspace env w ''apps'' (\<lambda>db. (if find_app (ws_apps db) i \<noteq> None
              then Inl (Conflict (''app '' @ [CHR 0x27] @ i @ [CHR 0x27] @ '' already exists in workspace '' @
                     [CHR 0x27] @ w @ [CHR 0x27])) else Inr (), db))) (\<lambda>_.
     hbind (on_workspace env w ''apps'' (\<lambda>db. case db_stmt env (create_app (clock env) (ws_apps db) i name) of
              (r, t) \<Rightarrow> (r, db\<lparr>ws_apps := t\<rparr>))) (\<lambda>app.
     hbind (migrate_app w i) (\<lambda>_.
     hbind (load_hooks env w i) (\<lambda>_.
     hret app))))))))"

definition apps_find :: "env \<Rightarrow> string \<Rightarrow> string \<Rightarrow> app handler" where
  "apps_find env w a =
     on_workspace env w ''apps'' (\<lambda>db. (case find_app (ws_apps db) a of None \<Rightarrow> Inl (AppNotFound w a) | Some x \<Rightarrow> Inr x, db))"

definition apps_get :: "env \<Rightarrow> claims \<Rightarrow> string \<Rightarrow> string \<Rightarrow> app handler" where
  "apps_get env c w a =
     hbind (lift (require_workspace_access c w)) (\<lambda>_.
     hbind (require_workspace_exists w) (\<lambda>_.
     apps_find env w a))"

definition apps_update :: "env \<Rightarrow> claims \<Rightarrow> string \<Rightarrow> string \<Rightarrow> string \<Rightarrow> app handler" where
  "apps_update env c w a name =
     hbind (lift (require_workspace_access c w)) (\<lambda>_.
     hbind (lift (validate_request env [(''name'', valid_length 1 (Some 100) name)])) (\<lambda>_.
     hbind (require_workspace_exists w) (\<lambda>_.
     hbind (on_workspace env w ''apps'' (\<lambda>db. case rename_app (ws_apps db) a name of
              (Inl e, t) \<Rightarrow> (Inl (if e = Sqlx RowNotFound then AppNotFound w a else core_error_of_db (show_sqlx env) e),
                            db\<lparr>ws_apps := t\<rparr>)
            | (Inr _, t) \<Rightarrow> (Inr (), db\<lparr>ws_apps := t\<rparr>))) (\<lambda>_.
     apps_find env w a))))"

definition remove_app_dir :: "env \<Rightarrow> string \<Rightarrow> string \<Rightarrow> unit handler" where
  "remove_app_dir env w a s =
     (Inr (), s\<lparr>sv_apps := (sv_apps s)((w, a) := None), sv_objects := remove_dir env (app_dir (data_dir env) w a) (sv_objects s)\<rparr>)"

definition apps_delete :: "env \<Rightarrow> claims \<Rightarrow> string \<Rightarrow> string \<Rightarrow> unit handler" where
  "apps_delete env c w a =
     hbind (lift (require_workspace_access c w)) (\<lambda>_.
     hbind (require_workspace_exists w) (\<lambda>_.
     hbind (apps_find env w a) (\<lambda>_.
     hbind (on_workspace env w ''apps'' (\<lambda>db. db_stmt env (ws_delete_app db a))) (\<lambda>_.
     remove_app_dir env w a))))"

section \<open>Administrators and setup\<close>

definition workspace_admins_create ::
  "env \<Rightarrow> claims \<Rightarrow> string \<Rightarrow> string \<Rightarrow> string \<Rightarrow> string option \<Rightarrow> workspace_admin handler" where
  "workspace_admins_create env c w email password name =
     hbind (lift (require_master c)) (\<lambda>_.
     hbind (lift (validate_request env [(''email'', valid_email env email), (''password'', valid_length 8 (Some 256) password),
              (''name'', case name of None \<Rightarrow> True | Some n \<Rightarrow> valid_length 0 (Some 100) n)])) (\<lambda>_.
     hbind (require_workspace_exists w) (\<lambda>_.
     hbind (on_workspace env w ''workspace_admins'' (\<lambda>db.
              (if find_workspace_admin_by_email (ws_workspace_admins db) email \<noteq> None
               then Inl (Conflict (''workspace admin '' @ [CHR 0x27] @ email @ [CHR 0x27] @ '' already exists in workspace '' @
                      [CHR 0x27] @ w @ [CHR 0x27])) else Inr (), db))) (\<lambda>_.
     hbind (lift_auth (hash_password env password)) (\<lambda>hash.
     on_workspace env w ''workspace_admins'' (\<lambda>db.
       case db_stmt env (insert_realm_admin (fresh_uuid env) (clock env) (ws_workspace_admins db) email hash name) of
         (r, t) \<Rightarrow> (r, db\<lparr>ws_workspace_admins := t\<rparr>)))))))"

definition setup_master :: "env \<Rightarrow> string \<Rightarrow> (string \<times> string \<times> time) handler" where
  "setup_master env password =
     hbind (lift (validate_request env [(''password'', valid_length 8 (Some 256) password)])) (\<lambda>_.
     hbind (on_system (\<lambda>db. (if master_admin_is_initialized (sys_master_admins db)
              then Inl (Conflict ''server already initialized'') else Inr (), db))) (\<lambda>_.
     hbind (on_system (\<lambda>db. (case find_master_admin_by_username (sys_master_admins db) ''admin'' of
              None \<Rightarrow> Inl (Internal ''seed admin row missing; restart the server'') | Some a \<Rightarrow> Inr a, db))) (\<lambda>admin.
     hbind (lift_auth (hash_password env password)) (\<lambda>hash.
     hbind (on_system (\<lambda>db. case db_stmt env (set_master_admin_password (sys_master_admins db) (ma_id admin) hash) of
              (r, t) \<Rightarrow> (r, db\<lparr>sys_master_admins := t\<rparr>))) (\<lambda>_.
     \<lambda>s. (Inr (ma_id admin, ma_username admin, ma_created_at admin), s\<lparr>sv_initialized := True\<rparr>))))))"

definition is_allowed_before_setup :: "string \<Rightarrow> string \<Rightarrow> bool" where
  "is_allowed_before_setup method path =
     (if path = ''/healthz'' \<or> path = ''/_/setup'' then True
      else if method = ''GET'' \<and> (path = ''/.well-known/jwks.json'' \<or> path = ''/_/auth/jwks.json'') then True
      else method = ''GET'' \<and> (path = ''/_/'' \<or> take 3 path = ''/_/''))"

text \<open>The gate in front of every route: the request reaches it, or the answer is 503.\<close>

definition setup_gate :: "string \<Rightarrow> string \<Rightarrow> (server \<Rightarrow> 'a \<times> server) \<Rightarrow> server \<Rightarrow> 'a option \<times> server" where
  "setup_gate method path next s =
     (if sv_initialized s \<or> is_allowed_before_setup method path then case next s of (r, s') \<Rightarrow> (Some r, s') else (None, s))"

section \<open>Life cycles\<close>

lemma create_realm_Inr: "create_realm now t i n = (Inr r, t') \<Longrightarrow> r = \<lparr>w_id = i, w_name = n, w_is_master = False, w_created_at = now\<rparr> \<and> t' = t @ [r]"
  by (auto simp: create_realm_def Let_def split: if_splits)

lemma realms_create_Inr:
  assumes "realms_create env c i name s = (Inr r, s')"
  shows "w_id r = i" and "i \<noteq> MASTER_WORKSPACE_ID" and "require_master c = Inr ()" and "validate_realm_id i = Inr ()"
    and "s' = snd (migrate_workspace i (s\<lparr>sv_system := (sv_system s)\<lparr>sys_workspaces := sys_workspaces (sv_system s) @ [r]\<rparr>\<rparr>))"
    and "i \<notin> w_id ` set (sys_workspaces (sv_system s))"
  using assms
  by (auto simp: realms_create_def handler migrate_workspace_def find_workspace_def find_None_iff hfail_def split: if_splits prod.splits
      dest!: create_realm_Inr)

lemma realms_delete_Inr:
  assumes "realms_delete env c i s = (Inr (), s')"
  shows "i \<noteq> MASTER_WORKSPACE_ID" and "sv_workspaces s' = (sv_workspaces s)(i := None)"
    and "sv_apps s' = (\<lambda>(w, a). if w = i then None else sv_apps s (w, a))"
    and "sv_hooks s' = sv_hooks s" and "sv_hook_files s' = sv_hook_files s"
    and "sys_workspaces (sv_system s') = sql_delete (\<lambda>w. w_id w = i \<and> \<not> w_is_master w) (sys_workspaces (sv_system s))"
  using assms
  by (auto simp: realms_delete_def handler remove_workspace_dir_def realms_find_def delete_realm_def Let_def hfail_def
      split: if_splits prod.splits option.splits)

lemma slug_no_slash: "validate_slug what i = Inr () \<Longrightarrow> CHR ''/'' \<notin> set i"
  by (auto simp: validate_slug_def list_all_iff slug_char_def is_ascii_lowercase_def is_ascii_digit_def less_eq_char_def split: if_splits)

lemma same_component: "c \<notin> set x \<Longrightarrow> c \<notin> set y \<Longrightarrow> x @ c # p = y @ c # q \<longleftrightarrow> x = y \<and> p = q"
proof (induction x arbitrary: y)
  case Nil
  then show ?case by (cases y) auto
next
  case (Cons z x)
  then show ?case by (cases y) auto
qed

text \<open>C23: The folders of tenants do not overlap. For identifiers the server accepts, a path below the folder of
  an app is below the folder of no other app, and a path below the folder of a workspace is below that of no
  other workspace: removing one tenant's folder, or opening its database, touches no other tenant's files.\<close>

theorem tenant_folders_disjoint:
  assumes "validate_realm_id w = Inr ()" and "validate_realm_id w' = Inr ()"
  shows "(workspace_dir base w @ ''/'' @ p = workspace_dir base w' @ ''/'' @ q \<longleftrightarrow> w = w' \<and> p = q)
    \<and> (validate_app_id a = Inr () \<and> validate_app_id a' = Inr () \<longrightarrow>
        (app_dir base w a @ ''/'' @ p = app_dir base w' a' @ ''/'' @ q \<longleftrightarrow> w = w' \<and> a = a' \<and> p = q)
        \<and> (app_db_path base w a = app_db_path base w' a' \<longleftrightarrow> w = w' \<and> a = a')
        \<and> app_db_path base w a \<noteq> workspace_db_path base w' \<and> app_db_path base w a \<noteq> system_db_path base
        \<and> app_db_path base w a \<noteq> app_storage_dir base w' a')"
proof -
  have w: "CHR ''/'' \<notin> set w" "CHR ''/'' \<notin> set w'" using assms slug_no_slash by (auto simp: validate_realm_id_def)
  have a: "CHR ''/'' \<notin> set a \<and> CHR ''/'' \<notin> set a'" if "validate_app_id a = Inr () \<and> validate_app_id a' = Inr ()"
    using that slug_no_slash by (auto simp: validate_app_id_def)
  show ?thesis
    using a same_component [OF w]
    by (auto simp: same_component workspace_dir_def app_dir_def app_db_path_def workspace_db_path_def system_db_path_def app_storage_dir_def)
qed

theorem tenant_folders_disjoint_witness:
  "app_dir ''data'' ''acme'' ''blog'' @ ''/'' @ ''x'' \<noteq> app_dir ''data'' ''acme'' ''shop'' @ ''/'' @ ''x''"
proof -
  have "validate_realm_id ''acme'' = Inr ()" "validate_app_id ''blog'' = Inr ()" "validate_app_id ''shop'' = Inr ()"
    by code_simp+
  then show ?thesis using tenant_folders_disjoint [of "''acme''" "''acme''" "''data''" "''x''" "''x''" "''blog''" "''shop''"] by simp
qed

text \<open>A workspace that is deleted and created again starts empty. Its database has no row of the old
  workspace in any table, none of its apps has a database, and every other workspace and app is as it was
  before the deletion.\<close>

theorem recreated_workspace_is_empty:
  assumes "realms_delete env c w s = (Inr (), s1)" and "realms_create env' c' w name s1 = (Inr r, s2)"
  shows "sv_workspaces s2 w = Some empty_workspace_db \<and> (\<forall>a. sv_apps s2 (w, a) = None)
    \<and> (\<forall>v. v \<noteq> w \<longrightarrow> sv_workspaces s2 v = sv_workspaces s v \<and> (\<forall>a. sv_apps s2 (v, a) = sv_apps s (v, a)))"
  using realms_delete_Inr [OF assms(1)] realms_create_Inr(5) [OF assms(2)] by (simp add: migrate_workspace_def)

definition two_workspaces :: server where
  "two_workspaces = demo_server\<lparr>sv_workspaces := [''acme'' \<mapsto> demo_workspace, ''other'' \<mapsto> demo_workspace]\<rparr>"

lemmas lifecycle_simps = handler realms_delete_def realms_create_def root_admin_def build_claims_def require_master_def lift_def
  validate_request_def valid_length_def Let_def on_system_def realms_find_def find_workspace_def delete_realm_def create_realm_def
  remove_workspace_dir_def migrate_workspace_def db_stmt_def hbind_def hret_def MASTER_WORKSPACE_ID_def sql_count_def sql_delete_def

theorem recreated_workspace_is_empty_witness:
  "let s1 = snd (realms_delete (demo_env 1) root_admin ''acme'' two_workspaces);
       s2 = snd (realms_create (demo_env 1) root_admin ''acme'' ''New'' s1)
   in sv_workspaces s2 ''acme'' = Some empty_workspace_db \<and> sv_workspaces s2 ''other'' = Some demo_workspace"
proof -
  have v: "validate_realm_id ''acme'' = Inr ()" by code_simp
  let ?d = "realms_delete (demo_env 1) root_admin ''acme'' two_workspaces"
  let ?c = "realms_create (demo_env 1) root_admin ''acme'' ''New'' (snd ?d)"
  have "fst ?d = Inr ()" and "fst ?c = Inr \<lparr>w_id = ''acme'', w_name = ''New'', w_is_master = False, w_created_at = 1\<rparr>"
    using v by (simp_all add: lifecycle_simps two_workspaces_def demo_simps)
  then have "?d = (Inr (), snd ?d)" and "?c = (Inr \<lparr>w_id = ''acme'', w_name = ''New'', w_is_master = False, w_created_at = 1\<rparr>, snd ?c)"
    by (metis prod.collapse)+
  from recreated_workspace_is_empty [OF this] show ?thesis by (simp add: Let_def two_workspaces_def)
qed

lemma migrate_app_Inr [handler]: "migrate_app w a s = (Inr y, s') \<longleftrightarrow> s' = snd (migrate_app w a s)"
  by (auto simp: migrate_app_def)

lemma load_hooks_Inr [handler]: "load_hooks env w a s = (Inr y, s') \<longleftrightarrow> s' = snd (load_app_with env w a s)"
  by (auto simp: load_hooks_def)

lemma migrate_app_simps [simp]:
  "sv_hook_files (snd (migrate_app w a s)) = sv_hook_files s"
  "sv_apps (snd (migrate_app w a s)) (w, a) = (case sv_apps s (w, a) of None \<Rightarrow> Some empty_app_db | x \<Rightarrow> x)"
  by (simp_all add: migrate_app_def split: option.splits)

lemma apps_create_Inr:
  assumes "apps_create env c w a name s = (Inr r, s')"
  obtains s0 where "sv_hook_files s0 = sv_hook_files s" and "s' = snd (load_app_with env w a s0)"
    and "sv_apps s0 (w, a) = (case sv_apps s (w, a) of None \<Rightarrow> Some empty_app_db | x \<Rightarrow> x)"
proof -
  from assms obtain X where "s' = snd (load_app_with env w a (snd (migrate_app w a (s\<lparr>sv_workspaces := X\<rparr>))))"
    by (auto simp: apps_create_def handler)
  then show ?thesis by (rule that [rotated]) simp_all
qed

lemma apps_delete_Inr:
  assumes "apps_delete env c w a s = (Inr (), s')"
  shows "sv_apps s' = (sv_apps s)((w, a) := None)" and "sv_hooks s' = sv_hooks s" and "sv_hook_files s' = sv_hook_files s"
  using assms by (auto simp: apps_delete_def apps_find_def handler remove_app_dir_def)

text \<open>An app created under the name of a deleted one runs the hooks of the old app. Deleting an app leaves its
  hook sources on disk and its hooks loaded; creating an app of that name loads those sources, so that they run
  against the new, empty database.\<close>

theorem recreated_app_runs_old_hooks:
  assumes "apps_delete env c w a s = (Inr (), s1)" and "apps_create env' c' w a name s1 = (Inr r, s2)"
  shows "sv_hooks s1 (w, a) = sv_hooks s (w, a) \<and> sv_hook_files s2 (w, a) = sv_hook_files s (w, a)
    \<and> (\<exists>s0. sv_hook_files s0 (w, a) = sv_hook_files s (w, a) \<and> sv_apps s0 (w, a) = Some empty_app_db
          \<and> s2 = snd (load_app_with env' w a s0))"
proof -
  note d = apps_delete_Inr [OF assms(1)]
  obtain s0 where s0: "sv_hook_files s0 = sv_hook_files s1" "s2 = snd (load_app_with env' w a s0)"
      "sv_apps s0 (w, a) = (case sv_apps s1 (w, a) of None \<Rightarrow> Some empty_app_db | x \<Rightarrow> x)"
    using assms(2) by (rule apps_create_Inr)
  have "sv_hook_files s2 = sv_hook_files s0" unfolding s0(2) by (rule hook_effect_files [OF load_app_with_effect])
  then show ?thesis using d s0 by (intro conjI exI [of _ s0]) simp_all
qed

lemma find_master_admin_set_password:
  "find_master_admin_by_username t u = Some adm \<Longrightarrow>
   find_master_admin_by_username (sql_update (\<lambda>a. ma_id a = ma_id adm) (\<lambda>a. a\<lparr>ma_password_hash := Some h\<rparr>) t) u =
     Some (adm\<lparr>ma_password_hash := Some h\<rparr>)"
  unfolding find_master_admin_by_username_def sql_update_def by (induction t) auto


text \<open>An app administrator can delete the other apps of its workspace. The token of an administrator of one
  app passes the check of the whole workspace, so it deletes an app for which its own app check refuses
  it.\<close>

theorem app_admin_deletes_sibling_app:
  assumes "role c = AppAdminRole" and "claim_workspace c = Some w" and "claim_app c = Some b" and "b \<noteq> a"
    and "find_workspace (sys_workspaces (sv_system s)) w \<noteq> None"
    and "sv_workspaces s w = Some db" and "find_app (ws_apps db) a \<noteq> None"
  shows "require_app_access c w a = Inl Forbidden
    \<and> (\<exists>s'. apps_delete env c w a s = (Inr (), s') \<and> sv_apps s' (w, a) = None)"
proof -
  have "sql_count (\<lambda>x. a_id x = a) (ws_apps db) \<noteq> 0"
    using assms(7) by (auto simp: find_app_def find_Some_iff sql_count_def filter_empty_conv)
  then have "ws_delete_app db a = (Inr (), db\<lparr>ws_apps := sql_delete (\<lambda>x. a_id x = a) (ws_apps db),
      ws_app_admins := sql_delete (\<lambda>r. aa_app_id r = a) (ws_app_admins db)\<rparr>)"
    by (simp add: ws_delete_app_def delete_app_def)
  then show ?thesis
    using assms by (auto simp: apps_delete_def require_workspace_access_def require_app_access_def hbind_def lift_def
        require_workspace_exists_def apps_find_def on_workspace_def db_stmt_def remove_app_dir_def)
qed

text \<open>An app whose one hook file registers a handler.\<close>

definition hook_env :: env where
  "hook_env = (demo_env 1)\<lparr>js_engine := \<lparr>js_eval = (\<lambda>src hs h errs. LoadDone (\<lambda>_. [\<lambda>h _ sec p. JsDone h (JsThrow src src p)]) h errs None),
     js_transpile = Inr, js_bootstrap = []\<rparr>\<rparr>"

definition old_app_server :: server where
  "old_app_server = hooks_server\<lparr>sv_hook_files := [(''acme'', ''blog'') \<mapsto>
     [\<lparr>hf_name = ''a.js'', hf_text = Inr ''boo'', hf_size = 3, hf_mtime = 0\<rparr>]]\<rparr>"

lemmas apps_simps = apps_delete_def apps_create_def apps_find_def on_workspace_def require_workspace_access_def root_admin_def
  build_claims_def require_workspace_exists_def find_workspace_def find_app_def ws_delete_app_def delete_app_def create_app_def
  sql_count_def sql_delete_def remove_app_dir_def migrate_app_def load_hooks_def validate_request_def valid_length_def
  db_stmt_def hbind_def hret_def lift_def Let_def old_app_server_def hooks_server_def hook_env_def demo_simps

theorem recreated_app_runs_old_hooks_witness:
  "let s1 = snd (apps_delete hook_env root_admin ''acme'' ''blog'' old_app_server);
       s2 = snd (apps_create hook_env root_admin ''acme'' ''blog'' ''New'' s1)
   in \<exists>f s0. sv_hook_files s2 (''acme'', ''blog'') = Some [f] \<and> hf_text f = Inr ''boo'' \<and> s2 = snd (load_app_with hook_env ''acme'' ''blog'' s0)"
proof -
  have v: "validate_app_id ''blog'' = Inr ()" by code_simp
  let ?d = "apps_delete hook_env root_admin ''acme'' ''blog'' old_app_server"
  let ?c = "apps_create hook_env root_admin ''acme'' ''blog'' ''New'' (snd ?d)"
  have d: "fst ?d = Inr ()" by (simp add: apps_simps)
  have c: "fst ?c = Inr \<lparr>a_id = ''blog'', a_name = ''New'', a_created_at = 1\<rparr>" using v by (simp add: apps_simps)
  have "?d = (Inr (), snd ?d)" and "?c = (Inr \<lparr>a_id = ''blog'', a_name = ''New'', a_created_at = 1\<rparr>, snd ?c)"
    using d c by (metis prod.collapse)+
  from recreated_app_runs_old_hooks [OF this] show ?thesis by (auto simp: Let_def old_app_server_def)
qed

definition fresh_server :: server where
  "fresh_server = demo_server\<lparr>sv_initialized := False, sv_system := (sv_system demo_server)\<lparr>sys_master_admins :=
     [\<lparr>ma_id = ''m1'', ma_username = ''admin'', ma_email = None, ma_password_hash = None, ma_name = None, ma_created_at = 0\<rparr>]\<rparr>\<rparr>"


theorem app_admin_deletes_sibling_app_witness:
  "\<exists>s'. apps_delete (demo_env 1) (build_claims ''j'' 0 ''x'' AppAdminRole (Some ''acme'') (Some ''shop'') 0) ''acme'' ''blog'' hooks_server
     = (Inr (), s') \<and> sv_apps s' (''acme'', ''blog'') = None"
  using app_admin_deletes_sibling_app [of "build_claims ''j'' 0 ''x'' AppAdminRole (Some ''acme'') (Some ''shop'') 0" "''acme''" "''shop''" "''blog''"
      hooks_server "demo_workspace\<lparr>ws_apps := [\<lparr>a_id = ''blog'', a_name = ''Blog'', a_created_at = 0\<rparr>]\<rparr>" "demo_env 1"]
  by (simp add: build_claims_def hooks_server_def demo_server_def find_workspace_def find_app_def)
end
