(* ===== verification/Pools.thy ===== *)
theory Pools
  imports Lifecycle_Api
begin

text \<open>
  The connection pools of \<^verbatim>\<open>rustbase-db/src/pool.rs\<close>: the bounded caches of workspace and app pools and the
  overlapping requests that fill them. The \<open>lru\<close> crate is a parameter with the laws \<open>lru_ok\<close>; a pool is the
  path it was opened at and the number of the open call. The handlers of the other theories reach a database
  by its workspace or app, as the locale \<open>pool_keys\<close> justifies.
\<close>

section \<open>The cache library\<close>

text \<open>The bounded map of the \<open>lru\<close> crate: a lookup may reorder the entries, an insertion may drop others.\<close>

record ('k, 'v, 'c) lru =
  lru_new :: "nat \<Rightarrow> 'c"
  lru_get :: "'k \<Rightarrow> 'c \<Rightarrow> 'v option \<times> 'c"
  lru_put :: "'k \<Rightarrow> 'v \<Rightarrow> 'c \<Rightarrow> 'c"
  lru_pop :: "'k \<Rightarrow> 'c \<Rightarrow> 'c"
  lru_iter :: "'c \<Rightarrow> ('k \<times> 'v) list"

text \<open>What its documentation promises of the caches \<open>good\<close> it builds with the given capacity.\<close>

definition lru_ok :: "('k, 'v, 'c) lru \<Rightarrow> nat \<Rightarrow> ('c \<Rightarrow> bool) \<Rightarrow> bool" where
  "lru_ok l cap good \<longleftrightarrow> good (lru_new l cap) \<and> lru_iter l (lru_new l cap) = []
     \<and> (\<forall>c. good c \<longrightarrow> distinct (map fst (lru_iter l c)) \<and> length (lru_iter l c) \<le> cap)
     \<and> (\<forall>c k. good c \<longrightarrow> good (snd (lru_get l k c)) \<and> set (lru_iter l (snd (lru_get l k c))) = set (lru_iter l c)
          \<and> fst (lru_get l k c) = map_of (lru_iter l c) k)
     \<and> (\<forall>c k v. good c \<longrightarrow> good (lru_put l k v c) \<and> (k, v) \<in> set (lru_iter l (lru_put l k v c))
          \<and> set (lru_iter l (lru_put l k v c)) \<subseteq> insert (k, v) (set (lru_iter l c)))
     \<and> (\<forall>c k. good c \<longrightarrow> good (lru_pop l k c) \<and> set (lru_iter l (lru_pop l k c)) = {e \<in> set (lru_iter l c). fst e \<noteq> k})"

lemma lru_okD:
  assumes "lru_ok l cap good"
  shows "good (lru_new l cap)" and "lru_iter l (lru_new l cap) = []"
    and "good c \<Longrightarrow> distinct (map fst (lru_iter l c))" and "good c \<Longrightarrow> length (lru_iter l c) \<le> cap"
    and "good c \<Longrightarrow> lru_get l k c = (r, c') \<Longrightarrow> good c' \<and> set (lru_iter l c') = set (lru_iter l c) \<and> r = map_of (lru_iter l c) k"
    and "good c \<Longrightarrow> good (lru_put l k v c)" and "good c \<Longrightarrow> (k, v) \<in> set (lru_iter l (lru_put l k v c))"
    and "good c \<Longrightarrow> set (lru_iter l (lru_put l k v c)) \<subseteq> insert (k, v) (set (lru_iter l c))"
    and "good c \<Longrightarrow> good (lru_pop l k c)" and "good c \<Longrightarrow> set (lru_iter l (lru_pop l k c)) = {e \<in> set (lru_iter l c). fst e \<noteq> k}"
proof -
  note l = assms [unfolded lru_ok_def]
  note l1 = conjunct2 [OF l] note l2 = conjunct2 [OF l1] note l3 = conjunct2 [OF l2] note l4 = conjunct2 [OF l3]
  have new: "good (lru_new l cap)" "lru_iter l (lru_new l cap) = []" by (rule conjunct1 [OF l], rule conjunct1 [OF l1])
  have iter: "distinct (map fst (lru_iter l c)) \<and> length (lru_iter l c) \<le> cap" if "good c" for c
    using conjunct1 [OF l2] that by simp
  have get: "good (snd (lru_get l k c)) \<and> set (lru_iter l (snd (lru_get l k c))) = set (lru_iter l c)
      \<and> fst (lru_get l k c) = map_of (lru_iter l c) k" if "good c" for c k
    using conjunct1 [OF l3] that by simp
  have put: "good (lru_put l k v c) \<and> (k, v) \<in> set (lru_iter l (lru_put l k v c))
      \<and> set (lru_iter l (lru_put l k v c)) \<subseteq> insert (k, v) (set (lru_iter l c))" if "good c" for c k v
    using conjunct1 [OF l4] that by simp
  have pop: "good (lru_pop l k c) \<and> set (lru_iter l (lru_pop l k c)) = {e \<in> set (lru_iter l c). fst e \<noteq> k}" if "good c" for c k
    using conjunct2 [OF l4] that by simp
  show "good (lru_new l cap)" "lru_iter l (lru_new l cap) = []" by (rule new)+
  show "distinct (map fst (lru_iter l c))" "length (lru_iter l c) \<le> cap" if "good c" using iter [OF that] by simp_all
  show "good c' \<and> set (lru_iter l c') = set (lru_iter l c) \<and> r = map_of (lru_iter l c) k" if "good c" "lru_get l k c = (r, c')"
    using get [OF that(1), of k] that(2) by simp
  show "good (lru_put l k v c)" "(k, v) \<in> set (lru_iter l (lru_put l k v c))"
    "set (lru_iter l (lru_put l k v c)) \<subseteq> insert (k, v) (set (lru_iter l c))" if "good c" using put [OF that] by simp_all
  show "good (lru_pop l k c)" "set (lru_iter l (lru_pop l k c)) = {e \<in> set (lru_iter l c). fst e \<noteq> k}" if "good c"
    using pop [OF that] by simp_all
qed

section \<open>Pools\<close>

text \<open>A pool is known by the path it was opened at and the number of the open call. Opening may fail.\<close>

datatype pool = Pool (pool_path: string) (pool_no: nat)

definition open_pool :: "(string \<Rightarrow> nat \<Rightarrow> db_error option) \<Rightarrow> string \<Rightarrow> nat \<Rightarrow> db_error + pool" where
  "open_pool connect path n = (case connect path n of Some e \<Rightarrow> Inl e | None \<Rightarrow> Inr (Pool path n))"

record 'c pool_manager =
  pm_cache :: 'c
  pm_opened :: nat

definition manager_new :: "('k, pool, 'c) lru \<Rightarrow> nat \<Rightarrow> 'c pool_manager" where
  "manager_new l cap = \<lparr>pm_cache = lru_new l (max cap 1), pm_opened = 0\<rparr>"

text \<open>The second look into the cache, after the pool has been opened.\<close>

definition pool_insert :: "('k, pool, 'c) lru \<Rightarrow> 'k \<Rightarrow> pool \<Rightarrow> 'c \<Rightarrow> pool \<times> 'c" where
  "pool_insert l k p c = (case lru_get l k c of (Some existing, c') \<Rightarrow> (existing, c') | (None, c') \<Rightarrow> (p, lru_put l k p c'))"

definition pool_for ::
  "('k, pool, 'c) lru \<Rightarrow> (string \<Rightarrow> nat \<Rightarrow> db_error option) \<Rightarrow> string \<Rightarrow> 'k \<Rightarrow> 'c pool_manager \<Rightarrow> (db_error + pool) \<times> 'c pool_manager" where
  "pool_for l connect path k m =
     (case lru_get l k (pm_cache m) of
        (Some p, c) \<Rightarrow> (Inr p, m\<lparr>pm_cache := c\<rparr>)
      | (None, c) \<Rightarrow>
          (case open_pool connect path (pm_opened m) of
             Inl e \<Rightarrow> (Inl e, m\<lparr>pm_cache := c, pm_opened := Suc (pm_opened m)\<rparr>)
           | Inr p \<Rightarrow> (case pool_insert l k p c of (q, c') \<Rightarrow> (Inr q, m\<lparr>pm_cache := c', pm_opened := Suc (pm_opened m)\<rparr>))))"

definition workspace_pool_for ::
  "(string, pool, 'c) lru \<Rightarrow> (string \<Rightarrow> nat \<Rightarrow> db_error option) \<Rightarrow> string \<Rightarrow> string \<Rightarrow> 'c pool_manager \<Rightarrow> (db_error + pool) \<times> 'c pool_manager" where
  "workspace_pool_for l connect base w = pool_for l connect (workspace_db_path base w) w"

definition app_pool_for ::
  "(string \<times> string, pool, 'c) lru \<Rightarrow> (string \<Rightarrow> nat \<Rightarrow> db_error option) \<Rightarrow> string \<Rightarrow> string \<Rightarrow> string \<Rightarrow> 'c pool_manager
    \<Rightarrow> (db_error + pool) \<times> 'c pool_manager" where
  "app_pool_for l connect base w a = pool_for l connect (app_db_path base w a) (w, a)"

definition evict_keys :: "('k, pool, 'c) lru \<Rightarrow> 'k list \<Rightarrow> 'c \<Rightarrow> 'c" where
  "evict_keys l ks c = foldl (\<lambda>c k. lru_pop l k c) c ks"

definition evict :: "('k, pool, 'c) lru \<Rightarrow> 'k \<Rightarrow> 'c pool_manager \<Rightarrow> 'c pool_manager" where
  "evict l k m = m\<lparr>pm_cache := lru_pop l k (pm_cache m)\<rparr>"

definition realm_keys :: "(string \<times> string, pool, 'c) lru \<Rightarrow> string \<Rightarrow> 'c \<Rightarrow> (string \<times> string) list" where
  "realm_keys l w c = map fst (filter (\<lambda>e. fst (fst e) = w) (lru_iter l c))"

definition evict_realm :: "(string \<times> string, pool, 'c) lru \<Rightarrow> string \<Rightarrow> 'c pool_manager \<Rightarrow> 'c pool_manager" where
  "evict_realm l w m = m\<lparr>pm_cache := evict_keys l (realm_keys l w (pm_cache m)) (pm_cache m)\<rparr>"

lemma evict_keys_iter:
  assumes "lru_ok l cap good" and "good c"
  shows "good (evict_keys l ks c) \<and> set (lru_iter l (evict_keys l ks c)) = {e \<in> set (lru_iter l c). fst e \<notin> set ks}"
  using assms(2)
proof (induction ks arbitrary: c)
  case (Cons k ks)
  then show ?case using lru_okD(9,10) [OF assms(1)] by (auto simp: evict_keys_def)
qed (simp add: evict_keys_def)

text \<open>Deleting a workspace drops its cached pools and no other.\<close>

lemma evict_realm_exact:
  assumes "lru_ok l cap good" and "good (pm_cache m)"
  shows "good (pm_cache (evict_realm l w m))
    \<and> set (lru_iter l (pm_cache (evict_realm l w m))) = {e \<in> set (lru_iter l (pm_cache m)). fst (fst e) \<noteq> w}"
  using evict_keys_iter [OF assms, of "realm_keys l w (pm_cache m)"] by (auto simp: evict_realm_def realm_keys_def)

section \<open>Overlapping requests\<close>

text \<open>The cache is locked twice by one \<open>pool_for\<close>: for the lookup and, after the pool was opened, for the
  insertion. In between other requests look up, open, insert and evict. \<open>Missed\<close> and \<open>Opened\<close> are the points
  where a request waits, \<open>Served\<close> is its answer.\<close>

datatype 'k request = Missed 'k | Opened 'k pool | Served 'k pool

record ('k, 'c) pool_run = "'c pool_manager" +
  pr_requests :: "nat \<Rightarrow> 'k request option"

inductive pool_step :: "('k, pool, 'c) lru \<Rightarrow> (string \<Rightarrow> nat \<Rightarrow> db_error option) \<Rightarrow> ('k \<Rightarrow> string) \<Rightarrow> ('k, 'c) pool_run \<Rightarrow> ('k, 'c) pool_run \<Rightarrow> bool"
  for l connect path_of where
  hit: "pr_requests s i = None \<Longrightarrow> lru_get l k (pm_cache s) = (Some p, c) \<Longrightarrow>
    pool_step l connect path_of s (s\<lparr>pm_cache := c, pr_requests := (pr_requests s)(i \<mapsto> Served k p)\<rparr>)"
| miss: "pr_requests s i = None \<Longrightarrow> lru_get l k (pm_cache s) = (None, c) \<Longrightarrow>
    pool_step l connect path_of s (s\<lparr>pm_cache := c, pr_requests := (pr_requests s)(i \<mapsto> Missed k)\<rparr>)"
| opens: "pr_requests s i = Some (Missed k) \<Longrightarrow> open_pool connect (path_of k) (pm_opened s) = Inr p \<Longrightarrow>
    pool_step l connect path_of s (s\<lparr>pm_opened := Suc (pm_opened s), pr_requests := (pr_requests s)(i \<mapsto> Opened k p)\<rparr>)"
| fails: "pr_requests s i = Some (Missed k) \<Longrightarrow> open_pool connect (path_of k) (pm_opened s) = Inl e \<Longrightarrow>
    pool_step l connect path_of s (s\<lparr>pm_opened := Suc (pm_opened s), pr_requests := (pr_requests s)(i := None)\<rparr>)"
| settles: "pr_requests s i = Some (Opened k p) \<Longrightarrow> pool_insert l k p (pm_cache s) = (q, c) \<Longrightarrow>
    pool_step l connect path_of s (s\<lparr>pm_cache := c, pr_requests := (pr_requests s)(i \<mapsto> Served k q)\<rparr>)"
| evicts: "pool_step l connect path_of s (s\<lparr>pm_cache := evict_keys l ks (pm_cache s)\<rparr>)"

text \<open>One request alone takes these steps and answers what \<open>pool_for\<close> answers.\<close>

lemma pool_for_steps:
  assumes "pr_requests s i = None" and "pool_for l connect (path_of k) k \<lparr>pm_cache = pm_cache s, pm_opened = pm_opened s\<rparr> = (Inr p, m)"
  shows "(pool_step l connect path_of)\<^sup>*\<^sup>* s
    (s\<lparr>pm_cache := pm_cache m, pm_opened := pm_opened m, pr_requests := (pr_requests s)(i \<mapsto> Served k p)\<rparr>)"
proof (cases "lru_get l k (pm_cache s)")
  case (Pair r c)
  show ?thesis
  proof (cases r)
    case (Some q)
    with Pair assms(2) have m: "q = p" "m = \<lparr>pm_cache = c, pm_opened = pm_opened s\<rparr>" by (auto simp: pool_for_def)
    with pool_step.hit [of s i l k p c connect path_of] Pair Some assms(1) show ?thesis by (auto simp: r_into_rtranclp)
  next
    case None
    with Pair assms(2) obtain q c' where q: "open_pool connect (path_of k) (pm_opened s) = Inr q" "pool_insert l k q c = (p, c')"
      and m: "m = \<lparr>pm_cache = c', pm_opened = Suc (pm_opened s)\<rparr>" by (auto simp: pool_for_def split: sum.splits prod.splits)
    let ?s1 = "s\<lparr>pm_cache := c, pr_requests := (pr_requests s)(i \<mapsto> Missed k)\<rparr>"
    let ?s2 = "?s1\<lparr>pm_opened := Suc (pm_opened ?s1), pr_requests := (pr_requests ?s1)(i \<mapsto> Opened k q)\<rparr>"
    let ?s3 = "?s2\<lparr>pm_cache := c', pr_requests := (pr_requests ?s2)(i \<mapsto> Served k p)\<rparr>"
    have "pool_step l connect path_of s ?s1" by (rule pool_step.miss) (use Pair None assms(1) in auto)
    moreover have "pool_step l connect path_of ?s1 ?s2" by (rule pool_step.opens) (use q in auto)
    moreover have "pool_step l connect path_of ?s2 ?s3" by (rule pool_step.settles) (use q in auto)
    ultimately have "(pool_step l connect path_of)\<^sup>*\<^sup>* s ?s3" by (meson converse_rtranclp_into_rtranclp r_into_rtranclp)
    then show ?thesis using m by (cases s) simp
  qed
qed

text \<open>Every pool, cached or in the hands of a request, was opened at the path of its key.\<close>

fun request_ok :: "('k \<Rightarrow> string) \<Rightarrow> 'k request \<Rightarrow> bool" where
  "request_ok path_of (Missed k) = True"
| "request_ok path_of (Opened k p) = (pool_path p = path_of k)"
| "request_ok path_of (Served k p) = (pool_path p = path_of k)"

definition pools_ok :: "('k, pool, 'c) lru \<Rightarrow> ('k \<Rightarrow> string) \<Rightarrow> ('c \<Rightarrow> bool) \<Rightarrow> ('k, 'c) pool_run \<Rightarrow> bool" where
  "pools_ok l path_of good s \<longleftrightarrow> good (pm_cache s) \<and> (\<forall>(k, p) \<in> set (lru_iter l (pm_cache s)). pool_path p = path_of k)
     \<and> (\<forall>i r. pr_requests s i = Some r \<longrightarrow> request_ok path_of r)"

lemma pool_insert_ok:
  assumes "lru_ok l cap good" and "good c" and "pool_insert l k p c = (q, c')"
  shows "good c' \<and> set (lru_iter l c') \<subseteq> insert (k, p) (set (lru_iter l c)) \<and> (k, q) \<in> set (lru_iter l c')
    \<and> (q = p \<or> (k, q) \<in> set (lru_iter l c))"
proof (cases "lru_get l k c")
  case (Pair r c1)
  note get = lru_okD(5) [OF assms(1,2) Pair]
  show ?thesis
  proof (cases r)
    case None
    then have "q = p" "c' = lru_put l k p c1" using assms(3) Pair by (auto simp: pool_insert_def)
    then show ?thesis using get lru_okD(6-8) [OF assms(1), of c1] by auto
  next
    case (Some e)
    then have q: "q = e" "c' = c1" using assms(3) Pair by (auto simp: pool_insert_def)
    have "map_of (lru_iter l c) k = Some e" using get Some by simp
    then show ?thesis using q get map_of_SomeD [of "lru_iter l c" k e] by blast
  qed
qed

lemma pools_ok_step:
  assumes "lru_ok l cap good" and "pool_step l connect path_of s s'" and "pools_ok l path_of good s"
  shows "pools_ok l path_of good s'"
  using assms(2,3)
proof (cases rule: pool_step.cases)
  case (hit i k p c)
  from assms(3) lru_okD(5) [OF assms(1) _ hit(3)]
  have c: "good c" "set (lru_iter l c) = set (lru_iter l (pm_cache s))" "map_of (lru_iter l (pm_cache s)) k = Some p"
    by (auto simp: pools_ok_def)
  then have "pool_path p = path_of k" using assms(3) map_of_SomeD [OF c(3)] by (auto simp: pools_ok_def)
  then show ?thesis using c(1,2) hit(1) assms(3) by (auto simp: pools_ok_def)
next
  case (miss i k c)
  then show ?thesis using assms(3) lru_okD(5) [OF assms(1) _ miss(3)] by (auto simp: pools_ok_def)
next
  case (opens i k p)
  then show ?thesis using assms(3) by (auto simp: pools_ok_def open_pool_def split: option.splits)
next
  case (fails i k e)
  then show ?thesis using assms(3) by (auto simp: pools_ok_def)
next
  case (settles i k p q c)
  have "good (pm_cache s)" and p: "pool_path p = path_of k" using assms(3) settles(2) by (force simp: pools_ok_def)+
  from pool_insert_ok [OF assms(1) this(1) settles(3)] p settles(1) assms(3) show ?thesis
    by (fastforce simp: pools_ok_def)
next
  case (evicts ks)
  then show ?thesis using assms(3) evict_keys_iter [OF assms(1), of "pm_cache s" ks] by (auto simp: pools_ok_def)
qed

definition run_new :: "('k, pool, 'c) lru \<Rightarrow> nat \<Rightarrow> ('k, 'c) pool_run" where
  "run_new l cap = \<lparr>pm_cache = lru_new l (max cap 1), pm_opened = 0, pr_requests = Map.empty\<rparr>"

lemma pools_ok_reach:
  assumes "lru_ok l (max cap 1) good" and "(pool_step l connect path_of)\<^sup>*\<^sup>* (run_new l cap) s"
  shows "pools_ok l path_of good s"
  using assms(2)
proof (induction rule: rtranclp_induct)
  case base
  then show ?case using lru_okD(1,2) [OF assms(1)] by (simp add: pools_ok_def run_new_def)
next
  case (step s s')
  then show ?case using pools_ok_step [OF assms(1)] by blast
qed

section \<open>Keys and paths\<close>

text \<open>What a manager needs of its keys: admissible keys have different paths.\<close>

locale pool_keys =
  fixes path_of :: "'k \<Rightarrow> string" and admissible :: "'k \<Rightarrow> bool"
  assumes path_inj: "admissible k \<Longrightarrow> admissible k' \<Longrightarrow> path_of k = path_of k' \<Longrightarrow> k = k'"
begin

lemma served_apart:
  assumes "lru_ok l (max cap 1) good" and "(pool_step l connect path_of)\<^sup>*\<^sup>* (run_new l cap) s"
    and "pr_requests s i = Some (Served k p)" and "pr_requests s j = Some (Served k' p')"
    and "admissible k" and "admissible k'" and "k \<noteq> k'"
  shows "pool_path p \<noteq> pool_path p'"
proof -
  have "pool_path p = path_of k" "pool_path p' = path_of k'"
    using pools_ok_reach [OF assms(1,2)] assms(3,4) by (force simp: pools_ok_def)+
  then show ?thesis using assms(5-7) path_inj by metis
qed

end

interpretation workspace_pools: pool_keys "workspace_db_path base" "\<lambda>w. validate_realm_id w = Inr ()" for base
proof
  fix w w'
  assume "validate_realm_id w = Inr ()" "validate_realm_id w' = Inr ()" "workspace_db_path base w = workspace_db_path base w'"
  then show "w = w'" using same_component [of "CHR ''/''" w w'] slug_no_slash
    by (auto simp: validate_realm_id_def workspace_db_path_def workspace_dir_def)
qed

interpretation app_pools: pool_keys "\<lambda>(w, a). app_db_path base w a" "\<lambda>(w, a). validate_realm_id w = Inr () \<and> validate_app_id a = Inr ()" for base
proof
  fix k k' :: "string \<times> string"
  obtain w a w' a' where k: "k = (w, a)" "k' = (w', a')" by (cases k, cases k')
  assume "case k of (w, a) \<Rightarrow> validate_realm_id w = Inr () \<and> validate_app_id a = Inr ()"
    "case k' of (w, a) \<Rightarrow> validate_realm_id w = Inr () \<and> validate_app_id a = Inr ()"
    "(case k of (w, a) \<Rightarrow> app_db_path base w a) = (case k' of (w, a) \<Rightarrow> app_db_path base w a)"
  then show "k = k'" using same_component [of "CHR ''/''" w w'] same_component [of "CHR ''/''" a a'] slug_no_slash
    by (auto simp: k validate_realm_id_def validate_app_id_def app_db_path_def app_dir_def workspace_dir_def)
qed


text \<open>An eviction can miss a pool that is being opened. When a request has found no pool, the pool it opens
  before the eviction of its key is inserted after it, and the next request is served that old pool: a tenant
  that is deleted and created again in between is served through a pool of its predecessor.\<close>

theorem eviction_misses_pool_in_flight:
  assumes "lru_ok l cap good" and "good (pm_cache s)" and "pr_requests s i = Some (Missed k)" and "pr_requests s j = None" and "i \<noteq> j"
    and "connect (path_of k) (pm_opened s) = None"
  shows "\<exists>s1 s2 s3. pool_step l connect path_of s s1 \<and> pool_step l connect path_of s1 s2 \<and> pm_cache s2 = lru_pop l k (pm_cache s1)
    \<and> (pool_step l connect path_of)\<^sup>*\<^sup>* s2 s3 \<and> pr_requests s3 j = Some (Served k (Pool (path_of k) (pm_opened s)))"
proof -
  let ?p = "Pool (path_of k) (pm_opened s)"
  let ?s1 = "s\<lparr>pm_opened := Suc (pm_opened s), pr_requests := (pr_requests s)(i \<mapsto> Opened k ?p)\<rparr>"
  let ?s2 = "?s1\<lparr>pm_cache := evict_keys l [k] (pm_cache ?s1)\<rparr>"
  have "pool_step l connect path_of s ?s1" by (rule pool_step.opens) (use assms in \<open>simp_all add: open_pool_def\<close>)
  moreover have "pool_step l connect path_of ?s1 ?s2" by (rule pool_step.evicts)
  moreover have e: "good (pm_cache ?s2)" "k \<notin> fst ` set (lru_iter l (pm_cache ?s2))"
    using evict_keys_iter [OF assms(1,2), of "[k]"] by auto
  moreover obtain q c where ins: "pool_insert l k ?p (pm_cache ?s2) = (q, c)" by fastforce
  let ?s3 = "?s2\<lparr>pm_cache := c, pr_requests := (pr_requests ?s2)(i \<mapsto> Served k q)\<rparr>"
  have "pool_step l connect path_of ?s2 ?s3" by (rule pool_step.settles) (use ins in auto)
  moreover have c: "good c" "(k, ?p) \<in> set (lru_iter l c)"
    using pool_insert_ok [OF assms(1) e(1) ins] e(2) by force+
  obtain r c' where get: "lru_get l k c = (r, c')" by fastforce
  have "r = Some ?p" using lru_okD(5) [OF assms(1) c(1) get] lru_okD(3) [OF assms(1) c(1)] c(2) by (simp add: map_of_eq_Some_iff)
  then have "pool_step l connect path_of ?s3 (?s3\<lparr>pm_cache := c', pr_requests := (pr_requests ?s3)(j \<mapsto> Served k ?p)\<rparr>)"
    by (intro pool_step.hit) (use assms(4,5) get in auto)
  ultimately show ?thesis
    by (intro exI [of _ ?s1] exI [of _ ?s2] exI [of _ "?s3\<lparr>pm_cache := c', pr_requests := (pr_requests ?s3)(j \<mapsto> Served k ?p)\<rparr>"])
      (auto simp: evict_keys_def intro: converse_rtranclp_into_rtranclp)
qed

section \<open>Examples\<close>

text \<open>A list with the most recently used entry first, and its capacity.\<close>

definition list_lru :: "('k, 'v, nat \<times> ('k \<times> 'v) list) lru" where
  "list_lru = \<lparr>lru_new = (\<lambda>cap. (cap, [])),
     lru_get = (\<lambda>k (cap, es). case map_of es k of None \<Rightarrow> (None, (cap, es)) | Some v \<Rightarrow> (Some v, (cap, (k, v) # filter (\<lambda>e. fst e \<noteq> k) es))),
     lru_put = (\<lambda>k v (cap, es). (cap, take cap ((k, v) # filter (\<lambda>e. fst e \<noteq> k) es))),
     lru_pop = (\<lambda>k (cap, es). (cap, filter (\<lambda>e. fst e \<noteq> k) es)), lru_iter = snd\<rparr>"

lemma moved_to_front:
  assumes "distinct (map fst es)" and "map_of es k = Some v"
  shows "set ((k, v) # filter (\<lambda>e. fst e \<noteq> k) es) = set es" and "length ((k, v) # filter (\<lambda>e. fst e \<noteq> k) es) = length es"
proof -
  show set: "set ((k, v) # filter (\<lambda>e. fst e \<noteq> k) es) = set es"
    using assms by (auto simp: map_of_eq_Some_iff) (metis eq_key_imp_eq_value map_of_is_SomeI)
  have "distinct ((k, v) # filter (\<lambda>e. fst e \<noteq> k) es)" and "distinct es" using assms(1) by (auto simp: distinct_map)
  then show "length ((k, v) # filter (\<lambda>e. fst e \<noteq> k) es) = length es" using set by (metis distinct_card)
qed

lemma list_lru_ok: "0 < cap \<Longrightarrow> lru_ok list_lru cap (\<lambda>(n, es). n = cap \<and> distinct (map fst es) \<and> length es \<le> cap)"
proof -
  assume "0 < cap"
  have filt: "distinct (map fst (filter P es))" if "distinct (map fst es)" for P and es :: "('a \<times> 'b) list"
    using that by (auto simp: distinct_map intro: inj_on_subset)
  have get: "distinct (map fst ((k, v) # filter (\<lambda>e. fst e \<noteq> k) es)) \<and> set ((k, v) # filter (\<lambda>e. fst e \<noteq> k) es) = set es
      \<and> length ((k, v) # filter (\<lambda>e. fst e \<noteq> k) es) = length es"
    if "distinct (map fst es)" "map_of es k = Some v" for k v and es :: "('a \<times> 'b) list"
    using moved_to_front [OF that] filt [OF that(1)] by auto
  have put: "distinct (map fst (take n ((k, v) # filter (\<lambda>e. fst e \<noteq> k) es)))" if "distinct (map fst es)" for n k v and es :: "('a \<times> 'b) list"
  proof -
    have "distinct (map fst ((k, v) # filter (\<lambda>e. fst e \<noteq> k) es))" using filt [OF that] by auto
    then have "distinct (take n (map fst ((k, v) # filter (\<lambda>e. fst e \<noteq> k) es)))" by (rule distinct_take)
    then show ?thesis by (simp only: take_map)
  qed
  have fresh: "e \<in> set (take cap (e # es))" for e and es :: "('a \<times> 'b) list" using \<open>0 < cap\<close> by (cases cap) auto
  show ?thesis
    unfolding lru_ok_def
    using get put filt fresh
    by (auto simp: list_lru_def take_map split: option.splits dest: in_set_takeD intro: le_trans [OF length_filter_le])
qed

definition two_keys :: "(string \<times> string, nat \<times> ((string \<times> string) \<times> pool) list) pool_run" where
  "two_keys = \<lparr>pm_cache = (1, [((''acme'', ''shop''), Pool ''data/workspaces/acme/apps/shop/data.db'' 1)]), pm_opened = 2,
     pr_requests = [0 \<mapsto> Served (''acme'', ''blog'') (Pool ''data/workspaces/acme/apps/blog/data.db'' 0),
                    1 \<mapsto> Served (''acme'', ''shop'') (Pool ''data/workspaces/acme/apps/shop/data.db'' 1)]\<rparr>"

lemma two_keys_reached:
  "(pool_step list_lru (\<lambda>_ _. None) (\<lambda>(w, a). app_db_path ''data'' w a))\<^sup>*\<^sup>* (run_new list_lru 0) two_keys"
proof -
  let ?step = "pool_step list_lru (\<lambda>_ _. None) (\<lambda>(w, a). app_db_path ''data'' w a)"
  let ?b = "Pool ''data/workspaces/acme/apps/blog/data.db'' 0"
  let ?s1 = "\<lparr>pm_cache = (1, [((''acme'', ''blog''), ?b)]), pm_opened = 1, pr_requests = [0 \<mapsto> Served (''acme'', ''blog'') ?b]\<rparr>"
  have first: "?step\<^sup>*\<^sup>* (run_new list_lru 0) ?s1"
    using pool_for_steps [of "run_new list_lru 0" 0 list_lru "\<lambda>_ _. None" "\<lambda>(w, a). app_db_path ''data'' w a" "(''acme'', ''blog'')" ?b]
    by (simp add: run_new_def list_lru_def pool_for_def open_pool_def pool_insert_def app_db_path_def app_dir_def workspace_dir_def)
  have "?step\<^sup>*\<^sup>* ?s1 two_keys"
    using pool_for_steps [of ?s1 1 list_lru "\<lambda>_ _. None" "\<lambda>(w, a). app_db_path ''data'' w a" "(''acme'', ''shop'')" "Pool ''data/workspaces/acme/apps/shop/data.db'' 1"]
    by (simp add: list_lru_def pool_for_def open_pool_def pool_insert_def app_db_path_def app_dir_def workspace_dir_def two_keys_def numeral_2_eq_2)
  with first show ?thesis by (rule rtranclp_trans)
qed


theorem eviction_misses_pool_in_flight_witness:
  "\<exists>s1 s2 s3. let step = pool_step list_lru (\<lambda>_ _. None) (workspace_db_path ''data'');
       s = \<lparr>pm_cache = (1, []), pm_opened = 0, pr_requests = [0 \<mapsto> Missed ''acme'']\<rparr>
     in step s s1 \<and> step s1 s2 \<and> pm_cache s2 = lru_pop list_lru ''acme'' (pm_cache s1) \<and> step\<^sup>*\<^sup>* s2 s3
       \<and> pr_requests s3 1 = Some (Served ''acme'' (Pool ''data/workspaces/acme/workspace.db'' 0))"
proof -
  let ?good = "\<lambda>(n, es :: (string \<times> pool) list). n = 1 \<and> distinct (map fst es) \<and> length es \<le> 1"
  let ?s = "\<lparr>pm_cache = (1 :: nat, [] :: (string \<times> pool) list), pm_opened = 0, pr_requests = [0 \<mapsto> Missed ''acme'']\<rparr>"
  have "lru_ok list_lru 1 ?good" by (rule list_lru_ok) simp
  from eviction_misses_pool_in_flight [OF this, of ?s 0 "''acme''" 1 "\<lambda>_ _. None" "workspace_db_path ''data''"]
  show ?thesis by (simp add: Let_def workspace_db_path_def workspace_dir_def)
qed

end
