(* ===== verification/Migrations.thy ===== *)
theory Migrations
  imports Core_Types
begin

text \<open>
  The migration runner of \<^verbatim>\<open>rustbase-db/src/migrations.rs\<close>. What a script does to a
  database is the parameter \<open>exec\<close>; the shipped scripts are in \<open>Schema\<close>.
\<close>

section \<open>The runner\<close>

datatype migration_scope = SystemScope | WorkspaceDbScope | AppDbScope

record 'q migration =
  mg_id :: string
  mg_scope :: migration_scope
  mg_sql :: "'q list"

text \<open>A database as the runner sees it: what the scripts change, and the ids in \<open>_migrations\<close>, if that table
  exists.\<close>

record 'd migrated =
  md_data :: 'd
  md_applied :: "string list option"

text \<open>A script is its list of statements, of a type \<open>'q\<close>; the runner puts it between \<open>BEGIN\<close> and \<open>COMMIT\<close>.
  \<open>exec\<close> runs a script in a transaction: on an error nothing of it stays. \<open>fault\<close> says which insertions into
  \<open>_migrations\<close> the database refuses for reasons of its own.\<close>

datatype 'q tx = TxBegin | TxStmt 'q | TxCommit

definition wrapped :: "'q migration \<Rightarrow> 'q tx list" where
  "wrapped m = TxBegin # map TxStmt (mg_sql m) @ [TxCommit]"

definition apply_one ::
  "('q tx list \<Rightarrow> 'd \<Rightarrow> sqlx_error + 'd) \<Rightarrow> (string \<Rightarrow> sqlx_error option) \<Rightarrow> 'q migration \<Rightarrow> 'd migrated \<Rightarrow> (db_error + unit) \<times> 'd migrated" where
  "apply_one exec fault m db =
     (case exec (wrapped m) (md_data db) of
        Inl e \<Rightarrow> (Inl (Migration (mg_id m) e), db)
      | Inr d \<Rightarrow>
          (case fault (mg_id m) of
             Some e \<Rightarrow> (Inl (Sqlx e), db\<lparr>md_data := d\<rparr>)
           | None \<Rightarrow>
               (case md_applied db of
                  None \<Rightarrow> (Inl (Sqlx (NoSuchTable ''_migrations'')), db\<lparr>md_data := d\<rparr>)
                | Some ids \<Rightarrow>
                    if mg_id m \<in> set ids then (Inl (Sqlx UniqueViolation), db\<lparr>md_data := d\<rparr>)
                    else (Inr (), db\<lparr>md_data := d, md_applied := Some (ids @ [mg_id m])\<rparr>))))"

text \<open>The loop over the migrations; \<open>already\<close> was read before it.\<close>

fun apply_pending ::
  "('q tx list \<Rightarrow> 'd \<Rightarrow> sqlx_error + 'd) \<Rightarrow> (string \<Rightarrow> sqlx_error option) \<Rightarrow> string set \<Rightarrow> 'q migration list \<Rightarrow> nat \<Rightarrow> 'd migrated
    \<Rightarrow> (db_error + nat) \<times> 'd migrated" where
  "apply_pending exec fault already [] applied db = (Inr applied, db)"
| "apply_pending exec fault already (m # ms) applied db =
     (if mg_id m \<in> already then apply_pending exec fault already ms applied db
      else case apply_one exec fault m db of
        (Inl e, db') \<Rightarrow> (Inl e, db')
      | (Inr _, db') \<Rightarrow> apply_pending exec fault already ms (Suc applied) db')"

definition recorded :: "'d migrated \<Rightarrow> string list" where
  "recorded db = (case md_applied db of None \<Rightarrow> [] | Some ids \<Rightarrow> ids)"

definition apply_migrations ::
  "('q tx list \<Rightarrow> 'd \<Rightarrow> sqlx_error + 'd) \<Rightarrow> (string \<Rightarrow> sqlx_error option) \<Rightarrow> 'q migration list \<Rightarrow> 'd migrated \<Rightarrow> (db_error + nat) \<times> 'd migrated" where
  "apply_migrations exec fault ms db =
     apply_pending exec fault (set (recorded db)) ms 0 (db\<lparr>md_applied := Some (recorded db)\<rparr>)"

section \<open>Reference\<close>

text \<open>Running the scripts one after the other.\<close>

fun run_scripts :: "('q tx list \<Rightarrow> 'd \<Rightarrow> sqlx_error + 'd) \<Rightarrow> 'q migration list \<Rightarrow> 'd \<Rightarrow> (string \<times> sqlx_error) + 'd" where
  "run_scripts exec [] d = Inr d"
| "run_scripts exec (m # ms) d = (case exec (wrapped m) d of Inl e \<Rightarrow> Inl (mg_id m, e) | Inr d' \<Rightarrow> run_scripts exec ms d')"

definition unapplied :: "'d migrated \<Rightarrow> 'q migration list \<Rightarrow> 'q migration list" where
  "unapplied db ms = filter (\<lambda>m. mg_id m \<notin> set (recorded db)) ms"

abbreviation no_fault :: "string \<Rightarrow> sqlx_error option" where
  "no_fault \<equiv> \<lambda>_. None"

lemma apply_pending_skips:
  "apply_pending exec fault already ms n db = apply_pending exec fault already (filter (\<lambda>m. mg_id m \<notin> already) ms) n db"
  by (induction ms arbitrary: n db) (auto split: prod.splits sum.splits)

lemma apply_pending_runs:
  assumes "md_applied db = Some ids" and "distinct (map mg_id ms)" and "set (map mg_id ms) \<inter> (already \<union> set ids) = {}"
  shows "apply_pending exec no_fault already ms n db =
     (case run_scripts exec ms (md_data db) of
        Inr d \<Rightarrow> (Inr (n + length ms), db\<lparr>md_data := d, md_applied := Some (ids @ map mg_id ms)\<rparr>)
      | Inl (i, e) \<Rightarrow> (Inl (Migration i e), snd (apply_pending exec no_fault already (takeWhile (\<lambda>m. mg_id m \<noteq> i) ms) n db)))"
  using assms
proof (induction ms arbitrary: n db ids)
  case (Cons m ms)
  show ?case
  proof (cases "exec (wrapped m) (md_data db)")
    case (Inl e)
    then show ?thesis using Cons.prems by (simp add: apply_one_def)
  next
    case (Inr d)
    let ?db = "db\<lparr>md_data := d, md_applied := Some (ids @ [mg_id m])\<rparr>"
    have one: "apply_one exec no_fault m db = (Inr (), ?db)" and new: "mg_id m \<notin> already"
      using Inr Cons.prems by (auto simp: apply_one_def)
    have "mg_id m \<noteq> i" if "run_scripts exec ms d = Inl (i, e)" for i e
    proof -
      have "run_scripts exec xs d = Inl (i, e) \<Longrightarrow> i \<in> mg_id ` set xs" for xs d
        by (induction xs arbitrary: d) (auto split: sum.splits)
      then show ?thesis using that Cons.prems(2) by auto
    qed
    moreover have "apply_pending exec no_fault already ms (Suc n) ?db = (case run_scripts exec ms d of
        Inr d' \<Rightarrow> (Inr (Suc n + length ms), ?db\<lparr>md_data := d', md_applied := Some ((ids @ [mg_id m]) @ map mg_id ms)\<rparr>)
      | Inl (i, e) \<Rightarrow> (Inl (Migration i e), snd (apply_pending exec no_fault already (takeWhile (\<lambda>m. mg_id m \<noteq> i) ms) (Suc n) ?db)))"
      using Cons.IH [of ?db "ids @ [mg_id m]" "Suc n"] Cons.prems by auto
    ultimately show ?thesis using Inr one new by (auto split: sum.splits)
  qed
qed simp

lemma apply_migrations_eq:
  assumes "distinct (map mg_id ms)"
  shows "apply_migrations exec no_fault ms db =
     (case run_scripts exec (unapplied db ms) (md_data db) of
        Inr d \<Rightarrow> (Inr (length (unapplied db ms)), db\<lparr>md_data := d, md_applied := Some (recorded db @ map mg_id (unapplied db ms))\<rparr>)
      | Inl (i, e) \<Rightarrow> (Inl (Migration i e), snd (apply_pending exec no_fault (set (recorded db))
            (takeWhile (\<lambda>m. mg_id m \<noteq> i) (unapplied db ms)) 0 (db\<lparr>md_applied := Some (recorded db)\<rparr>))))"
proof -
  have "distinct (map mg_id (unapplied db ms))" using assms by (simp add: unapplied_def distinct_map_filter)
  moreover have "set (map mg_id (unapplied db ms)) \<inter> (set (recorded db) \<union> set (recorded db)) = {}" by (auto simp: unapplied_def)
  ultimately show ?thesis
    using apply_pending_runs [of "db\<lparr>md_applied := Some (recorded db)\<rparr>" "recorded db" "unapplied db ms" "set (recorded db)" exec 0]
    by (simp add: apply_migrations_def apply_pending_skips [of _ _ _ ms] flip: unapplied_def split: sum.splits)
qed

text \<open>C13: Every pending migration runs exactly once, in order. When all its scripts succeed, a run leaves the data of
  running the pending scripts one after the other, records exactly their ids and answers their number; the
  next run, whatever the scripts would do, finds nothing pending and changes nothing.\<close>

theorem migrations_run_exactly_once:
  assumes "distinct (map mg_id ms)" and "run_scripts exec (unapplied db ms) (md_data db) = Inr d"
  shows "\<exists>db'. apply_migrations exec no_fault ms db = (Inr (length (unapplied db ms)), db')
    \<and> md_data db' = d \<and> recorded db' = recorded db @ map mg_id (unapplied db ms)
    \<and> (\<forall>exec' fault'. apply_migrations exec' fault' ms db' = (Inr 0, db'))"
proof -
  let ?db' = "db\<lparr>md_data := d, md_applied := Some (recorded db @ map mg_id (unapplied db ms))\<rparr>"
  have r: "recorded ?db' = recorded db @ map mg_id (unapplied db ms)" by (simp add: recorded_def)
  then have "filter (\<lambda>m. mg_id m \<notin> set (recorded ?db')) ms = []" by (auto simp: filter_empty_conv unapplied_def)
  then have "apply_migrations exec' fault' ms ?db' = (Inr 0, ?db')" for exec' fault'
    using r by (simp add: apply_migrations_def apply_pending_skips [of _ _ _ ms])
  then show ?thesis using apply_migrations_eq [OF assms(1), of exec db] assms(2) r by (intro exI [of _ ?db']) simp
qed

lemma run_scripts_prefix:
  "run_scripts exec ms d = Inl (i, e) \<Longrightarrow> distinct (map mg_id ms) \<Longrightarrow>
   \<exists>d'. run_scripts exec (takeWhile (\<lambda>m. mg_id m \<noteq> i) ms) d = Inr d'"
proof (induction ms arbitrary: d)
  case (Cons m ms)
  then show ?case by (cases "exec (wrapped m) d") auto
qed simp

text \<open>C14: A failed run resumes where it stopped. When the script of a migration fails, the run reports it, the
  migrations before it are done and recorded, nothing of the failed one and of those after it is, and exactly
  these are pending for the next run.\<close>

theorem failed_migration_resumes:
  assumes "distinct (map mg_id ms)" and "run_scripts exec (unapplied db ms) (md_data db) = Inl (i, e)"
  shows "\<exists>db'. apply_migrations exec no_fault ms db = (Inl (Migration i e), db')
    \<and> run_scripts exec (takeWhile (\<lambda>m. mg_id m \<noteq> i) (unapplied db ms)) (md_data db) = Inr (md_data db')
    \<and> recorded db' = recorded db @ map mg_id (takeWhile (\<lambda>m. mg_id m \<noteq> i) (unapplied db ms))
    \<and> unapplied db' ms = dropWhile (\<lambda>m. mg_id m \<noteq> i) (unapplied db ms)"
proof -
  let ?pre = "takeWhile (\<lambda>m. mg_id m \<noteq> i) (unapplied db ms)" and ?post = "dropWhile (\<lambda>m. mg_id m \<noteq> i) (unapplied db ms)"
  have dist: "distinct (map mg_id (unapplied db ms))" using assms(1) by (simp add: unapplied_def distinct_map_filter)
  then obtain d' where d': "run_scripts exec ?pre (md_data db) = Inr d'" using run_scripts_prefix [OF assms(2)] by blast
  let ?db' = "db\<lparr>md_data := d', md_applied := Some (recorded db @ map mg_id ?pre)\<rparr>"
  have pre: "set ?pre \<subseteq> set (unapplied db ms)" by (auto dest: set_takeWhileD)
  have "distinct (map mg_id ?pre)" using dist by (metis distinct_append map_append takeWhile_dropWhile_id)
  moreover have "set (map mg_id ?pre) \<inter> (set (recorded db) \<union> set (recorded db)) = {}" using pre by (auto simp: unapplied_def)
  ultimately have "apply_pending exec no_fault (set (recorded db)) ?pre 0 (db\<lparr>md_applied := Some (recorded db)\<rparr>) = (Inr (length ?pre), ?db')"
    using apply_pending_runs [of "db\<lparr>md_applied := Some (recorded db)\<rparr>" "recorded db" ?pre "set (recorded db)" exec 0] d' by simp
  moreover have "unapplied ?db' ms = ?post"
  proof -
    have "unapplied ?db' ms = filter (\<lambda>m. mg_id m \<notin> set (map mg_id ?pre)) (unapplied db ms)" by (auto simp: unapplied_def recorded_def intro: filter_cong)
    also have "\<dots> = filter (\<lambda>m. mg_id m \<notin> set (map mg_id ?pre)) (?pre @ ?post)" by simp
    also have "\<dots> = ?post"
    proof -
      have "distinct (map mg_id (?pre @ ?post))" using dist by simp
      then have "mg_id ` set ?pre \<inter> mg_id ` set ?post = {}"
        by (simp only: map_append distinct_append list.set_map)
      then show ?thesis by (auto simp del: takeWhile_dropWhile_id simp: filter_empty_conv intro!: filter_True)
    qed
    finally show ?thesis .
  qed
  moreover have "recorded ?db' = recorded db @ map mg_id ?pre" by (simp add: recorded_def)
  ultimately show ?thesis using apply_migrations_eq [OF assms(1), of exec db] assms(2) d' by (intro exI [of _ ?db']) simp
qed

text \<open>A migration that ran but was not recorded blocks the database. When its script succeeds and the insertion
  into \<open>_migrations\<close> fails, the script stays applied and counts as pending; unless it can run twice, every
  later run fails on it and gets no further.\<close>

theorem unrecorded_migration_blocks:
  assumes "mg_id m \<notin> set (recorded db)" and "exec (wrapped m) (md_data db) = Inr d" and "fault (mg_id m) = Some e"
    and "exec (wrapped m) d = Inl e'"
  shows "\<exists>db'. apply_migrations exec fault (m # ms) db = (Inl (Sqlx e), db') \<and> md_data db' = d
    \<and> (\<forall>fault'. apply_migrations exec fault' (m # ms) db' = (Inl (Migration (mg_id m) e'), db'))"
proof -
  let ?db' = "db\<lparr>md_applied := Some (recorded db), md_data := d\<rparr>"
  have "recorded ?db' = recorded db" by (simp add: recorded_def)
  then show ?thesis using assms by (intro exI [of _ ?db']) (simp add: apply_migrations_def apply_one_def)
qed

section \<open>Concrete instances\<close>

text \<open>Scripts that create one table each.\<close>

definition create_once :: "string tx list \<Rightarrow> string list \<Rightarrow> sqlx_error + string list" where
  "create_once script ts = (case script of
      [TxBegin, TxStmt t, TxCommit] \<Rightarrow> if t \<in> set ts then Inl (TableExists t) else Inr (ts @ [t])
    | _ \<Rightarrow> Inl (OtherSqlx ''syntax''))"

definition scripted :: "string list \<Rightarrow> string migration list" where
  "scripted ids = map (\<lambda>i. \<lparr>mg_id = i, mg_scope = WorkspaceDbScope, mg_sql = [i]\<rparr>) ids"

definition new_database :: "string list migrated" where
  "new_database = \<lparr>md_data = [], md_applied = None\<rparr>"

theorem migrations_run_exactly_once_witness:
  "\<exists>db'. apply_migrations create_once no_fault (scripted [''apps'', ''users'']) new_database = (Inr 2, db')
    \<and> recorded db' = [''apps'', ''users'']
    \<and> apply_migrations create_once no_fault (scripted [''apps'', ''users'']) db' = (Inr 0, db')"
proof -
  let ?ms = "scripted [''apps'', ''users'']"
  have un: "unapplied new_database ?ms = ?ms" by (simp add: unapplied_def recorded_def new_database_def)
  have "run_scripts create_once (unapplied new_database ?ms) (md_data new_database) = Inr [''apps'', ''users'']"
    unfolding un by (simp add: scripted_def create_once_def wrapped_def new_database_def)
  from migrations_run_exactly_once [OF _ this] show ?thesis unfolding un
    by (force simp: new_database_def recorded_def scripted_def)
qed

theorem failed_migration_resumes_witness:
  "let ms = scripted [''a'', ''b'', ''b2'', ''c'']; ms = map (\<lambda>m. if mg_id m = ''b2'' then m\<lparr>mg_sql := [''b'']\<rparr> else m) ms
   in \<exists>db'. apply_migrations create_once no_fault ms new_database = (Inl (Migration ''b2'' (TableExists ''b'')), db')
        \<and> recorded db' = [''a'', ''b''] \<and> map mg_id (unapplied db' ms) = [''b2'', ''c'']"
proof -
  let ?ms = "map (\<lambda>m. if mg_id m = ''b2'' then m\<lparr>mg_sql := [''b'']\<rparr> else m) (scripted [''a'', ''b'', ''b2'', ''c''])"
  have un: "unapplied new_database ?ms = ?ms" by (simp add: unapplied_def recorded_def new_database_def)
  have "run_scripts create_once ?ms (md_data new_database) = Inl (''b2'', TableExists ''b'')"
    by (simp add: scripted_def wrapped_def create_once_def new_database_def)
  moreover have "distinct (map mg_id ?ms)" by (simp add: scripted_def)
  ultimately show ?thesis using failed_migration_resumes [of ?ms create_once new_database "''b2''" "TableExists ''b''"]
    unfolding un Let_def by (fastforce simp: scripted_def recorded_def new_database_def)
qed

theorem unrecorded_migration_blocks_witness:
  "\<exists>db'. apply_migrations create_once (\<lambda>_. Some (OtherSqlx ''disk I/O error'')) (scripted [''apps'', ''users'']) new_database =
        (Inl (Sqlx (OtherSqlx ''disk I/O error'')), db')
    \<and> (\<forall>fault'. fst (apply_migrations create_once fault' (scripted [''apps'', ''users'']) db') =
        Inl (Migration ''apps'' (TableExists ''apps'')))"
  using unrecorded_migration_blocks [of "hd (scripted [''apps''])" new_database create_once "[''apps'']"
      "\<lambda>_. Some (OtherSqlx ''disk I/O error'')" "OtherSqlx ''disk I/O error''" "TableExists ''apps''" "scripted [''users'']"]
  by (auto simp: scripted_def new_database_def recorded_def create_once_def wrapped_def)

end
