(* ===== verification/Schema.thy ===== *)
theory Schema
  imports Migrations
begin

text \<open>
  The shipped migrations of \<open>rustbase-db/src/migrations.rs\<close>, statement by statement, and the part of SQLite their scripts use:
  tables with their constraints, indexes, renaming and copying. Every script succeeds on a new database, and an upgrade of an
  existing workspace keeps its accounts.
\<close>

section \<open>Tables\<close>

datatype cell = CNull | CText string | CInt int | CBlob "char list"

datatype affinity = TEXT | INTEGER | BLOB

record column =
  col_name :: string
  col_type :: affinity
  col_not_null :: bool
  col_default :: cell
  col_refs :: "(string \<times> string) option"

text \<open>\<open>td_one_of\<close> holds the constraints \<open>CHECK ((a IS NULL) <> (b IS NULL))\<close>. Every reference is one \<open>ON DELETE
  CASCADE\<close>.\<close>

record table_def =
  td_cols :: "column list"
  td_key :: "string list"
  td_autoincrement :: bool
  td_unique :: "string list list"
  td_one_of :: "(string \<times> string) list"

record stored_table =
  tb_name :: string
  tb_def :: table_def
  tb_rows :: "cell list list"

record index_def =
  ix_unique :: bool
  ix_name :: string
  ix_table :: string
  ix_cols :: "string list"
  ix_where :: "(string \<times> cell) option"

record catalog =
  ct_tables :: "stored_table list"
  ct_indexes :: "index_def list"

definition col :: "string \<Rightarrow> affinity \<Rightarrow> column" where
  "col n ty = \<lparr>col_name = n, col_type = ty, col_not_null = False, col_default = CNull, col_refs = None\<rparr>"

definition not_null :: "column \<Rightarrow> column" where
  "not_null c = c\<lparr>col_not_null := True\<rparr>"

definition default_0 :: "column \<Rightarrow> column" where
  "default_0 c = c\<lparr>col_default := CInt 0\<rparr>"

definition references :: "string \<Rightarrow> string \<Rightarrow> column \<Rightarrow> column" where
  "references t k c = c\<lparr>col_refs := Some (t, k)\<rparr>"

definition table :: "column list \<Rightarrow> string list \<Rightarrow> table_def" where
  "table cols key = \<lparr>td_cols = cols, td_key = key, td_autoincrement = False, td_unique = [], td_one_of = []\<rparr>"

definition autoincrement :: "table_def \<Rightarrow> table_def" where
  "autoincrement d = d\<lparr>td_autoincrement := True\<rparr>"

definition unique :: "string list \<Rightarrow> table_def \<Rightarrow> table_def" where
  "unique cs d = d\<lparr>td_unique := cs # td_unique d\<rparr>"

definition one_of :: "string \<Rightarrow> string \<Rightarrow> table_def \<Rightarrow> table_def" where
  "one_of a b d = d\<lparr>td_one_of := (a, b) # td_one_of d\<rparr>"

definition index :: "bool \<Rightarrow> string \<Rightarrow> string \<Rightarrow> string list \<Rightarrow> (string \<times> cell) option \<Rightarrow> index_def" where
  "index u n t cs w = \<lparr>ix_unique = u, ix_name = n, ix_table = t, ix_cols = cs, ix_where = w\<rparr>"

lemmas schema_defs = col_def not_null_def default_0_def references_def table_def autoincrement_def unique_def one_of_def index_def

section \<open>Statements\<close>

text \<open>The statements of the scripts, as SQLite runs them with foreign keys on. Column types are not enforced. The
  fragment has no deletion that cascades: deleting from or dropping a table that another one refers to
  is an error of the model.\<close>

datatype sql_stmt =
    CreateTable string table_def
  | CreateIndex index_def
  | DeleteFrom string
  | RenameColumn string string string
  | RenameTable string string
  | DropTable string
  | InsertSelect string "string list" string "string option list"

definition find_table :: "catalog \<Rightarrow> string \<Rightarrow> stored_table option" where
  "find_table c n = List.find (\<lambda>t. tb_name t = n) (ct_tables c)"

definition columns :: "table_def \<Rightarrow> string list" where
  "columns d = map col_name (td_cols d)"

definition cell_of :: "table_def \<Rightarrow> cell list \<Rightarrow> string \<Rightarrow> cell" where
  "cell_of d r c = (case map_of (zip (columns d) r) c of None \<Rightarrow> CNull | Some v \<Rightarrow> v)"

definition names :: "catalog \<Rightarrow> string list" where
  "names c = map tb_name (ct_tables c) @ map ix_name (ct_indexes c)"

definition refers :: "string \<Rightarrow> stored_table \<Rightarrow> bool" where
  "refers n t \<longleftrightarrow> list_ex (\<lambda>c. case col_refs c of None \<Rightarrow> False | Some (p, _) \<Rightarrow> p = n) (td_cols (tb_def t))"

definition referenced :: "catalog \<Rightarrow> string \<Rightarrow> bool" where
  "referenced c n \<longleftrightarrow> list_ex (\<lambda>t. tb_name t \<noteq> n \<and> refers n t) (ct_tables c)"

text \<open>The values of a key in a row, unless one is null: null is equal to nothing.\<close>

definition key_values :: "table_def \<Rightarrow> string list \<Rightarrow> cell list \<Rightarrow> cell list option" where
  "key_values d ks r = (let vs = map (cell_of d r) ks in if CNull \<in> set vs then None else Some vs)"

definition keys_of :: "table_def \<Rightarrow> string list list" where
  "keys_of d = td_key d # td_unique d"

definition clashes :: "table_def \<Rightarrow> cell list list \<Rightarrow> cell list \<Rightarrow> bool" where
  "clashes d rows r \<longleftrightarrow> list_ex (\<lambda>ks. key_values d ks r \<noteq> None \<and> list_ex (\<lambda>r'. key_values d ks r' = key_values d ks r) rows) (keys_of d)"

definition no_nulls :: "table_def \<Rightarrow> cell list \<Rightarrow> bool" where
  "no_nulls d r \<longleftrightarrow> list_all (\<lambda>c. col_not_null c \<longrightarrow> cell_of d r (col_name c) \<noteq> CNull) (td_cols d)"

definition checks :: "table_def \<Rightarrow> cell list \<Rightarrow> bool" where
  "checks d r \<longleftrightarrow> list_all (\<lambda>(a, b). (cell_of d r a = CNull) \<noteq> (cell_of d r b = CNull)) (td_one_of d)"

fun insert_rows :: "table_def \<Rightarrow> cell list list \<Rightarrow> cell list list \<Rightarrow> sqlx_error + cell list list" where
  "insert_rows d rows [] = Inr rows"
| "insert_rows d rows (r # rs) =
     (if \<not> no_nulls d r then Inl NotNullViolation
      else if \<not> checks d r then Inl (OtherSqlx ''CHECK constraint failed'')
      else if clashes d rows r then Inl UniqueViolation
      else insert_rows d (rows @ [r]) rs)"

definition parent_exists :: "catalog \<Rightarrow> string \<times> string \<Rightarrow> cell \<Rightarrow> bool" where
  "parent_exists c ref v \<longleftrightarrow> v = CNull \<or> (case find_table c (fst ref) of
      None \<Rightarrow> False | Some t \<Rightarrow> v \<in> (\<lambda>r. cell_of (tb_def t) r (snd ref)) ` set (tb_rows t))"

definition parents_exist :: "catalog \<Rightarrow> table_def \<Rightarrow> cell list list \<Rightarrow> bool" where
  "parents_exist c d rows \<longleftrightarrow> list_all (\<lambda>k. case col_refs k of
      None \<Rightarrow> True | Some ref \<Rightarrow> list_all (\<lambda>r. parent_exists c ref (cell_of d r (col_name k))) rows) (td_cols d)"

text \<open>The row an \<open>INSERT ... SELECT\<close> makes of a row of the source.\<close>

definition selected :: "table_def \<Rightarrow> table_def \<Rightarrow> string list \<Rightarrow> string option list \<Rightarrow> cell list \<Rightarrow> cell list" where
  "selected d from cs es r =
     (let given = zip cs (map (\<lambda>e. case e of None \<Rightarrow> CNull | Some c \<Rightarrow> cell_of from r c) es)
      in map (\<lambda>k. case map_of given (col_name k) of None \<Rightarrow> col_default k | Some v \<Rightarrow> v) (td_cols d))"

definition set_rows :: "string \<Rightarrow> cell list list \<Rightarrow> catalog \<Rightarrow> catalog" where
  "set_rows n rows c = c\<lparr>ct_tables := map (\<lambda>t. if tb_name t = n then t\<lparr>tb_rows := rows\<rparr> else t) (ct_tables c)\<rparr>"

definition renamed :: "string \<Rightarrow> string \<Rightarrow> string \<Rightarrow> string" where
  "renamed a b x = (if x = a then b else x)"

definition rename_in_def :: "string \<Rightarrow> string \<Rightarrow> table_def \<Rightarrow> table_def" where
  "rename_in_def a b d = d\<lparr>td_cols := map (\<lambda>k. k\<lparr>col_name := renamed a b (col_name k)\<rparr>) (td_cols d),
     td_key := map (renamed a b) (td_key d), td_unique := map (map (renamed a b)) (td_unique d),
     td_one_of := map (map_prod (renamed a b) (renamed a b)) (td_one_of d)\<rparr>"

definition map_refs :: "(string \<times> string \<Rightarrow> string \<times> string) \<Rightarrow> table_def \<Rightarrow> table_def" where
  "map_refs f d = d\<lparr>td_cols := map (\<lambda>k. k\<lparr>col_refs := map_option f (col_refs k)\<rparr>) (td_cols d)\<rparr>"

definition index_fits :: "catalog \<Rightarrow> index_def \<Rightarrow> stored_table \<Rightarrow> bool" where
  "index_fits c ix t \<longleftrightarrow> \<not> ix_unique ix
     \<or> (let rows = filter (\<lambda>r. case ix_where ix of None \<Rightarrow> True | Some (k, v) \<Rightarrow> cell_of (tb_def t) r k = v) (tb_rows t)
        in distinct (filter (\<lambda>v. v \<noteq> None) (map (key_values (tb_def t) (ix_cols ix)) rows)))"

fun exec_stmt :: "sql_stmt \<Rightarrow> catalog \<Rightarrow> sqlx_error + catalog" where
  "exec_stmt (CreateTable n d) c =
     (if n \<in> set (names c) then Inl (TableExists n)
      else if \<not> distinct (columns d) then Inl (OtherSqlx ''duplicate column name'')
      else Inr (c\<lparr>ct_tables := ct_tables c @ [\<lparr>tb_name = n, tb_def = d, tb_rows = []\<rparr>]\<rparr>))"
| "exec_stmt (CreateIndex ix) c =
     (case find_table c (ix_table ix) of
        None \<Rightarrow> Inl (NoSuchTable (ix_table ix))
      | Some t \<Rightarrow>
          if ix_name ix \<in> set (names c) then Inl (TableExists (ix_name ix))
          else if \<not> list_all (\<lambda>k. k \<in> set (columns (tb_def t))) (ix_cols ix) then Inl (OtherSqlx ''no such column'')
          else if \<not> index_fits c ix t then Inl UniqueViolation
          else Inr (c\<lparr>ct_indexes := ct_indexes c @ [ix]\<rparr>))"
| "exec_stmt (DeleteFrom n) c =
     (case find_table c n of
        None \<Rightarrow> Inl (NoSuchTable n)
      | Some _ \<Rightarrow> if referenced c n then Inl (OtherSqlx ''cascade'') else Inr (set_rows n [] c))"
| "exec_stmt (RenameColumn n a b) c =
     (case find_table c n of
        None \<Rightarrow> Inl (NoSuchTable n)
      | Some t \<Rightarrow>
          if a \<notin> set (columns (tb_def t)) then Inl (OtherSqlx ''no such column'')
          else if b \<in> set (columns (tb_def t)) then Inl (DuplicateColumn b)
          else Inr \<lparr>
            ct_tables = map (\<lambda>t. t\<lparr>tb_def := map_refs (\<lambda>(p, k). if p = n then (p, renamed a b k) else (p, k))
                (if tb_name t = n then rename_in_def a b (tb_def t) else tb_def t)\<rparr>) (ct_tables c),
            ct_indexes = map (\<lambda>ix. if ix_table ix = n
                then ix\<lparr>ix_cols := map (renamed a b) (ix_cols ix), ix_where := map_option (map_prod (renamed a b) id) (ix_where ix)\<rparr>
                else ix) (ct_indexes c)\<rparr>)"
| "exec_stmt (RenameTable a b) c =
     (case find_table c a of
        None \<Rightarrow> Inl (NoSuchTable a)
      | Some t \<Rightarrow>
          if b \<in> set (names c) then Inl (TableExists b)
          else Inr \<lparr>
            ct_tables = map (\<lambda>t. t\<lparr>tb_name := renamed a b (tb_name t), tb_def := map_refs (map_prod (renamed a b) id) (tb_def t)\<rparr>) (ct_tables c),
            ct_indexes = map (\<lambda>ix. ix\<lparr>ix_table := renamed a b (ix_table ix)\<rparr>) (ct_indexes c)\<rparr>)"
| "exec_stmt (DropTable n) c =
     (case find_table c n of
        None \<Rightarrow> Inl (NoSuchTable n)
      | Some _ \<Rightarrow>
          if referenced c n then Inl (OtherSqlx ''cascade'')
          else Inr \<lparr>ct_tables = filter (\<lambda>t. tb_name t \<noteq> n) (ct_tables c), ct_indexes = filter (\<lambda>ix. ix_table ix \<noteq> n) (ct_indexes c)\<rparr>)"
| "exec_stmt (InsertSelect n cs from es) c =
     (case (find_table c n, find_table c from) of
        (None, _) \<Rightarrow> Inl (NoSuchTable n)
      | (_, None) \<Rightarrow> Inl (NoSuchTable from)
      | (Some t, Some source) \<Rightarrow>
          (case insert_rows (tb_def t) (tb_rows t) (map (selected (tb_def t) (tb_def source) cs es) (tb_rows source)) of
             Inl e \<Rightarrow> Inl e
           | Inr rows \<Rightarrow> if parents_exist c (tb_def t) rows then Inr (set_rows n rows c) else Inl ForeignKeyViolation))"

text \<open>A script between \<open>BEGIN\<close> and \<open>COMMIT\<close>; the first error ends it.\<close>

fun sqlite :: "sql_stmt tx list \<Rightarrow> catalog \<Rightarrow> sqlx_error + catalog" where
  "sqlite [] c = Inr c"
| "sqlite (TxStmt st # script) c = (case exec_stmt st c of Inl e \<Rightarrow> Inl e | Inr c' \<Rightarrow> sqlite script c')"
| "sqlite (_ # script) c = sqlite script c"

section \<open>The migrations\<close>

definition initial_system :: "sql_stmt migration" where
  "initial_system = \<lparr>mg_id = ''20260520_000001_initial_system'', mg_scope = SystemScope, mg_sql = [
    CreateTable ''workspaces'' (table [col ''id'' TEXT, not_null (col ''name'' TEXT),
      default_0 (not_null (col ''is_master'' INTEGER)), not_null (col ''created_at'' TEXT)] [''id'']),
    CreateIndex (index True ''workspaces_one_master'' ''workspaces'' [''is_master''] (Some (''is_master'', CInt 1))),
    CreateTable ''master_admins'' (unique [''username''] (table [col ''id'' TEXT, not_null (col ''username'' TEXT),
      col ''email'' TEXT, col ''password_hash'' TEXT, col ''name'' TEXT,
      not_null (col ''created_at'' TEXT)] [''id''])),
    CreateTable ''policies'' (table [col ''field'' TEXT, not_null (col ''policy_json'' TEXT),
      not_null (col ''updated_at'' TEXT)] [''field'']),
    CreateTable ''audit_log'' (autoincrement (table [col ''id'' INTEGER, not_null (col ''ts'' TEXT),
      col ''actor'' TEXT, not_null (col ''action'' TEXT), col ''target'' TEXT, col ''details_json'' TEXT] [''id''])),
    CreateIndex (index False ''audit_log_ts'' ''audit_log'' [''ts''] None)]\<rparr>"

definition master_auth_storage :: "sql_stmt migration" where
  "master_auth_storage = \<lparr>mg_id = ''20260521_000001_master_auth_storage'', mg_scope = SystemScope, mg_sql = [
    CreateTable ''_secrets'' (table [col ''name'' TEXT, not_null (col ''value'' BLOB),
      not_null (col ''created_at'' TEXT)] [''name'']),
    CreateTable ''_refresh_tokens'' (table [col ''token'' TEXT, not_null (col ''subject_kind'' TEXT),
      not_null (col ''subject_id'' TEXT), not_null (col ''issued_at'' TEXT), not_null (col ''expires_at'' TEXT),
      default_0 (not_null (col ''revoked'' INTEGER))] [''token'']),
    CreateIndex (index False ''master_refresh_tokens_subject'' ''_refresh_tokens'' [''subject_kind'',
      ''subject_id''] None)]\<rparr>"

definition hash_refresh_tokens_system :: "sql_stmt migration" where
  "hash_refresh_tokens_system = \<lparr>mg_id = ''20260904_000001_hash_refresh_tokens'', mg_scope = SystemScope, mg_sql = [
    DeleteFrom ''_refresh_tokens'',
    RenameColumn ''_refresh_tokens'' ''token'' ''token_hash'']\<rparr>"

definition initial_workspace :: "sql_stmt migration" where
  "initial_workspace = \<lparr>mg_id = ''20260520_000001_initial_workspace'', mg_scope = WorkspaceDbScope, mg_sql = [
    CreateTable ''apps'' (table [col ''id'' TEXT, not_null (col ''name'' TEXT),
      not_null (col ''created_at'' TEXT)] [''id'']),
    CreateTable ''workspace_admins'' (unique [''email''] (table [col ''id'' TEXT, not_null (col ''email'' TEXT),
      not_null (col ''password_hash'' TEXT), col ''name'' TEXT, not_null (col ''created_at'' TEXT)] [''id''])),
    CreateTable ''app_admins'' (unique [''app_id'', ''email''] (table [col ''id'' TEXT,
      references ''apps'' ''id'' (not_null (col ''app_id'' TEXT)), not_null (col ''email'' TEXT),
      not_null (col ''password_hash'' TEXT), col ''name'' TEXT, not_null (col ''created_at'' TEXT)] [''id''])),
    CreateTable ''_refresh_tokens'' (table [col ''token'' TEXT, not_null (col ''subject_kind'' TEXT),
      not_null (col ''subject_id'' TEXT), not_null (col ''issued_at'' TEXT), not_null (col ''expires_at'' TEXT),
      default_0 (not_null (col ''revoked'' INTEGER))] [''token'']),
    CreateIndex (index False ''refresh_tokens_subject'' ''_refresh_tokens'' [''subject_kind'', ''subject_id''] None),
    CreateTable ''policies'' (table [col ''field'' TEXT, not_null (col ''policy_json'' TEXT),
      not_null (col ''updated_at'' TEXT)] [''field'']),
    CreateTable ''audit_log'' (autoincrement (table [col ''id'' INTEGER, not_null (col ''ts'' TEXT),
      col ''actor'' TEXT, not_null (col ''action'' TEXT), col ''target'' TEXT, col ''details_json'' TEXT] [''id''])),
    CreateIndex (index False ''audit_log_ts'' ''audit_log'' [''ts''] None)]\<rparr>"

definition workspace_user_identity :: "sql_stmt migration" where
  "workspace_user_identity = \<lparr>mg_id = ''20260606_000001_workspace_user_identity'', mg_scope = WorkspaceDbScope, mg_sql = [
    CreateTable ''users'' (unique [''email''] (table [col ''id'' TEXT, not_null (col ''email'' TEXT),
      col ''password_hash'' TEXT, default_0 (not_null (col ''verified'' INTEGER)), col ''last_login'' TEXT,
      not_null (col ''created_at'' TEXT)] [''id''])),
    CreateTable ''oauth_providers'' (table [col ''provider'' TEXT, not_null (col ''client_id'' TEXT),
      not_null (col ''client_secret_enc'' TEXT), col ''config_json'' TEXT] [''provider'']),
    CreateTable ''user_oauth_links'' (table [references ''users'' ''id'' (not_null (col ''user_id'' TEXT)),
      not_null (col ''provider'' TEXT), not_null (col ''provider_user_id'' TEXT)] [''user_id'', ''provider'']),
    CreateTable ''_email_verifications'' (table [col ''token'' TEXT,
      references ''users'' ''id'' (not_null (col ''user_id'' TEXT)), not_null (col ''issued_at'' TEXT),
      not_null (col ''expires_at'' TEXT), col ''consumed_at'' TEXT] [''token'']),
    CreateIndex (index False ''email_verifications_user'' ''_email_verifications'' [''user_id''] None),
    CreateTable ''_password_resets'' (table [col ''token'' TEXT,
      references ''users'' ''id'' (not_null (col ''user_id'' TEXT)), not_null (col ''issued_at'' TEXT),
      not_null (col ''expires_at'' TEXT), col ''consumed_at'' TEXT] [''token'']),
    CreateIndex (index False ''password_resets_user'' ''_password_resets'' [''user_id''] None),
    CreateTable ''_email_otps'' (autoincrement (table [col ''id'' INTEGER, not_null (col ''code'' TEXT),
      not_null (col ''email'' TEXT), not_null (col ''issued_at'' TEXT), not_null (col ''expires_at'' TEXT),
      col ''consumed_at'' TEXT, default_0 (not_null (col ''attempts'' INTEGER))] [''id''])),
    CreateIndex (index False ''email_otps_lookup'' ''_email_otps'' [''email'', ''consumed_at''] None),
    CreateTable ''_oauth_states'' (table [col ''state'' TEXT, not_null (col ''provider'' TEXT),
      not_null (col ''redirect_uri'' TEXT), not_null (col ''issued_at'' TEXT), not_null (col ''expires_at'' TEXT),
      col ''consumed_at'' TEXT, col ''code_verifier'' TEXT] [''state'']),
    CreateIndex (index False ''oauth_states_provider'' ''_oauth_states'' [''provider'', ''consumed_at''] None),
    CreateTable ''_user_totp'' (table [references ''users'' ''id'' (col ''user_id'' TEXT),
      not_null (col ''secret_b32'' TEXT), not_null (col ''enrolled_at'' TEXT), col ''confirmed_at'' TEXT,
      default_0 (not_null (col ''enabled'' INTEGER))] [''user_id'']),
    CreateTable ''_mfa_challenges'' (table [col ''token'' TEXT,
      references ''users'' ''id'' (not_null (col ''user_id'' TEXT)), not_null (col ''issued_at'' TEXT),
      not_null (col ''expires_at'' TEXT), col ''consumed_at'' TEXT] [''token'']),
    CreateIndex (index False ''mfa_challenges_user'' ''_mfa_challenges'' [''user_id'', ''consumed_at''] None)]\<rparr>"

definition hash_refresh_tokens_workspace :: "sql_stmt migration" where
  "hash_refresh_tokens_workspace = \<lparr>mg_id = ''20260904_000001_hash_refresh_tokens'', mg_scope = WorkspaceDbScope, mg_sql = [
    DeleteFrom ''_refresh_tokens'',
    RenameColumn ''_refresh_tokens'' ''token'' ''token_hash'']\<rparr>"

definition hash_one_shot_secrets :: "sql_stmt migration" where
  "hash_one_shot_secrets = \<lparr>mg_id = ''20260904_000002_hash_one_shot_secrets'', mg_scope = WorkspaceDbScope, mg_sql = [
    DeleteFrom ''_password_resets'',
    RenameColumn ''_password_resets'' ''token'' ''token_hash'',
    DeleteFrom ''_email_verifications'',
    RenameColumn ''_email_verifications'' ''token'' ''token_hash'',
    DeleteFrom ''_email_otps'',
    RenameColumn ''_email_otps'' ''code'' ''code_hash'',
    DeleteFrom ''_mfa_challenges'',
    RenameColumn ''_mfa_challenges'' ''token'' ''token_hash'',
    DeleteFrom ''_oauth_states'',
    RenameColumn ''_oauth_states'' ''state'' ''state_hash'']\<rparr>"

definition totp_secret_at_rest :: "sql_stmt migration" where
  "totp_secret_at_rest = \<lparr>mg_id = ''20260904_000003_totp_secret_at_rest'', mg_scope = WorkspaceDbScope, mg_sql = [
    CreateTable ''_user_totp_new'' (one_of ''secret_b32'' ''secret_enc'' (table [references ''users'' ''id'' (col ''user_id'' TEXT), col ''secret_b32'' TEXT, col ''secret_enc'' BLOB, not_null (col ''enrolled_at'' TEXT), col ''confirmed_at'' TEXT, default_0 (not_null (col ''enabled'' INTEGER))] [''user_id''])),
    InsertSelect ''_user_totp_new'' [''user_id'', ''secret_b32'', ''secret_enc'', ''enrolled_at'',
      ''confirmed_at'', ''enabled''] ''_user_totp'' [Some ''user_id'', Some ''secret_b32'', None,
      Some ''enrolled_at'', Some ''confirmed_at'', Some ''enabled''],
    DropTable ''_user_totp'',
    RenameTable ''_user_totp_new'' ''_user_totp'']\<rparr>"

definition pkce_verifier_at_rest :: "sql_stmt migration" where
  "pkce_verifier_at_rest = \<lparr>mg_id = ''20260904_000004_pkce_verifier_at_rest'', mg_scope = WorkspaceDbScope, mg_sql = [
    DeleteFrom ''_oauth_states'',
    CreateTable ''_oauth_states_new'' (one_of ''code_verifier'' ''code_verifier_enc'' (table [col ''state_hash'' TEXT, not_null (col ''provider'' TEXT), not_null (col ''redirect_uri'' TEXT), not_null (col ''issued_at'' TEXT), not_null (col ''expires_at'' TEXT), col ''consumed_at'' TEXT, col ''code_verifier'' TEXT, col ''code_verifier_enc'' BLOB] [''state_hash''])),
    DropTable ''_oauth_states'',
    RenameTable ''_oauth_states_new'' ''_oauth_states'',
    CreateIndex (index False ''oauth_states_provider'' ''_oauth_states'' [''provider'', ''consumed_at''] None)]\<rparr>"

definition initial_app :: "sql_stmt migration" where
  "initial_app = \<lparr>mg_id = ''20260520_000001_initial_app'', mg_scope = AppDbScope, mg_sql = [
    CreateTable ''_collections'' (unique [''name''] (table [col ''id'' TEXT, not_null (col ''name'' TEXT),
      not_null (col ''kind'' TEXT), not_null (col ''schema_json'' TEXT), not_null (col ''created_at'' TEXT),
      not_null (col ''updated_at'' TEXT)] [''id''])),
    CreateTable ''_access_rules'' (table [references ''_collections'' ''id'' (not_null (col ''collection_id'' TEXT)), not_null (col ''action'' TEXT), col ''filter'' TEXT] [''collection_id'', ''action'']),
    CreateTable ''policies'' (table [col ''field'' TEXT, not_null (col ''policy_json'' TEXT),
      not_null (col ''updated_at'' TEXT)] [''field'']),
    CreateTable ''audit_log'' (autoincrement (table [col ''id'' INTEGER, not_null (col ''ts'' TEXT),
      col ''actor'' TEXT, not_null (col ''action'' TEXT), col ''target'' TEXT, col ''details_json'' TEXT] [''id''])),
    CreateIndex (index False ''audit_log_ts'' ''audit_log'' [''ts''] None)]\<rparr>"

definition app_files :: "sql_stmt migration" where
  "app_files = \<lparr>mg_id = ''20260521_000002_app_files'', mg_scope = AppDbScope, mg_sql = [
    CreateTable ''_files'' (table [col ''id'' TEXT, not_null (col ''filename'' TEXT), col ''mime'' TEXT,
      not_null (col ''size'' INTEGER), not_null (col ''created_at'' TEXT)] [''id'']),
    CreateIndex (index False ''files_created_at'' ''_files'' [''created_at''] None)]\<rparr>"

definition SYSTEM_MIGRATIONS :: "sql_stmt migration list" where
  "SYSTEM_MIGRATIONS = [initial_system, master_auth_storage, hash_refresh_tokens_system]"

definition WORKSPACE_MIGRATIONS :: "sql_stmt migration list" where
  "WORKSPACE_MIGRATIONS = [initial_workspace, workspace_user_identity, hash_refresh_tokens_workspace, hash_one_shot_secrets, totp_secret_at_rest, pkce_verifier_at_rest]"

definition APP_MIGRATIONS :: "sql_stmt migration list" where
  "APP_MIGRATIONS = [initial_app, app_files]"

lemmas system_scripts = SYSTEM_MIGRATIONS_def initial_system_def master_auth_storage_def hash_refresh_tokens_system_def

lemmas workspace_scripts = WORKSPACE_MIGRATIONS_def initial_workspace_def workspace_user_identity_def hash_refresh_tokens_workspace_def
  hash_one_shot_secrets_def totp_secret_at_rest_def pkce_verifier_at_rest_def

lemmas app_scripts = APP_MIGRATIONS_def initial_app_def app_files_def

definition empty_catalog :: catalog where
  "empty_catalog = \<lparr>ct_tables = [], ct_indexes = []\<rparr>"

definition layout :: "catalog \<Rightarrow> (string \<times> string list) list" where
  "layout c = map (\<lambda>t. (tb_name t, columns (tb_def t))) (ct_tables c)"

section \<open>Tables without their rows\<close>

text \<open>What a script does to the tables does not depend on the rows, and what it does to the rows of each table is
  told without the tables.\<close>

definition emptied :: "stored_table \<Rightarrow> stored_table" where
  "emptied t = t\<lparr>tb_rows := []\<rparr>"

definition erase :: "catalog \<Rightarrow> catalog" where
  "erase c = c\<lparr>ct_tables := map emptied (ct_tables c)\<rparr>"

definition rows_of :: "catalog \<Rightarrow> string \<Rightarrow> cell list list" where
  "rows_of c n = (case find_table c n of None \<Rightarrow> [] | Some t \<Rightarrow> tb_rows t)"

fun row_effect :: "sql_stmt \<Rightarrow> (string \<Rightarrow> cell list list) \<Rightarrow> (string \<Rightarrow> cell list list)" where
  "row_effect (DeleteFrom n) rows = rows(n := [])"
| "row_effect (RenameTable a b) rows = rows(a := [], b := rows a)"
| "row_effect (DropTable n) rows = rows(n := [])"
| "row_effect _ rows = rows"

fun plain :: "sql_stmt \<Rightarrow> bool" where
  "plain (InsertSelect _ _ _ _) = False"
| "plain (CreateIndex ix) = (\<not> ix_unique ix)"
| "plain _ = True"

lemma find_map: "(\<And>x. P (f x) = Q x) \<Longrightarrow> List.find P (map f xs) = map_option f (List.find Q xs)"
  by (induction xs) auto

lemma find_table_emptied [simp]: "tb_name (emptied t) = tb_name t" "tb_def (emptied t) = tb_def t" "tb_rows (emptied t) = []"
  by (simp_all add: emptied_def)

lemma find_table_erase: "find_table (erase c) n = map_option emptied (find_table c n)"
  unfolding find_table_def erase_def by (simp add: find_map)

lemma names_erase [simp]: "names (erase c) = names c"
  by (simp add: names_def erase_def comp_def)

lemma referenced_erase [simp]: "referenced (erase c) n = referenced c n"
  by (simp add: referenced_def refers_def erase_def list_ex_iff)

lemma ct_indexes_erase [simp]: "ct_indexes (erase c) = ct_indexes c"
  by (simp add: erase_def)

lemma find_table_names: "find_table c n = Some t \<Longrightarrow> n \<in> set (names c)"
  by (auto simp: find_table_def names_def find_Some_iff)

lemma find_table_None: "n \<notin> set (names c) \<Longrightarrow> find_table c n = None"
  by (auto simp: find_table_def names_def find_None_iff)

lemma ct_tables_erase [simp]: "ct_tables (erase c) = map emptied (ct_tables c)"
  by (simp add: erase_def)

lemma erase_eqI: "map emptied (ct_tables c) = ct_tables e \<Longrightarrow> ct_indexes c = ct_indexes e \<Longrightarrow> erase c = e"
  by (simp add: erase_def)

lemma erase_set_rows [simp]: "erase (set_rows n rows c) = erase c"
  by (rule erase_eqI) (simp_all add: set_rows_def emptied_def)

lemma plain_erase:
  assumes "plain st" and "exec_stmt st (erase c) = Inr e"
  shows "\<exists>c'. exec_stmt st c = Inr c' \<and> erase c' = e"
  using assms
  by (cases st)
     (auto simp: find_table_erase index_fits_def set_rows_def filter_map comp_def emptied_def
        intro!: erase_eqI split: option.splits if_splits)

lemma rows_of_create: "n \<notin> set (names c) \<Longrightarrow> rows_of (c\<lparr>ct_tables := ct_tables c @ [\<lparr>tb_name = n, tb_def = d, tb_rows = []\<rparr>]\<rparr>) = rows_of c"
  by (rule ext) (simp add: rows_of_def find_table_def find_append split: option.splits)

lemma find_filter: "List.find P (filter Q xs) = List.find (\<lambda>x. P x \<and> Q x) xs"
  by (induction xs) auto

lemma find_never: "(\<And>x. x \<in> set xs \<Longrightarrow> \<not> P x) \<Longrightarrow> List.find P xs = None"
  by (induction xs) auto

lemma rows_of_drop: "rows_of \<lparr>ct_tables = filter (\<lambda>t. tb_name t \<noteq> n) (ct_tables c), ct_indexes = ixs\<rparr> = (rows_of c)(n := [])"
proof
  fix x
  have "List.find (\<lambda>t. tb_name t = x \<and> tb_name t \<noteq> n) (ct_tables c) = (if x = n then None else find_table c x)"
    unfolding find_table_def by (auto intro: find_never find_cong)
  then show "rows_of \<lparr>ct_tables = filter (\<lambda>t. tb_name t \<noteq> n) (ct_tables c), ct_indexes = ixs\<rparr> x = ((rows_of c)(n := [])) x"
    by (simp add: rows_of_def find_table_def find_filter)
qed

lemma rows_of_map:
  assumes "\<And>t. tb_name (f t) = tb_name t" "\<And>t. tb_rows (f t) = (if tb_name t = n then g (tb_rows t) else tb_rows t)" "g [] = [] \<or> find_table c n \<noteq> None"
    and "ct_tables c' = map f (ct_tables c)"
  shows "rows_of c' = (rows_of c)(n := g (rows_of c n))"
proof
  fix x
  have f: "find_table c' x = map_option f (find_table c x)" unfolding find_table_def using assms(1,4) by (simp add: find_map)
  have "tb_name t = x" if "find_table c x = Some t" for t using that by (auto simp: find_table_def find_Some_iff)
  then show "rows_of c' x = ((rows_of c)(n := g (rows_of c n))) x"
    using assms(2,3) by (auto simp: rows_of_def f split: option.splits)
qed

lemma rows_of_set: "find_table c n \<noteq> None \<Longrightarrow> rows_of (set_rows n rows c) = (rows_of c)(n := rows)"
  by (rule rows_of_map [where f = "\<lambda>t. if tb_name t = n then t\<lparr>tb_rows := rows\<rparr> else t" and g = "\<lambda>_. rows"]) (auto simp: set_rows_def)

lemma rows_of_rename:
  assumes "b \<notin> set (names c)" "find_table c a = Some t"
    and "ct_tables c' = map (\<lambda>t. t\<lparr>tb_name := renamed a b (tb_name t), tb_def := f (tb_def t)\<rparr>) (ct_tables c)"
  shows "rows_of c' = (rows_of c)(a := [], b := rows_of c a)"
proof
  fix x
  have ab: "a \<noteq> b" using assms(1,2) find_table_names by metis
  let ?m = "\<lambda>t. t\<lparr>tb_name := renamed a b (tb_name t), tb_def := f (tb_def t)\<rparr>"
  have "List.find (\<lambda>t. tb_name t = x) (map ?m (ct_tables c)) = map_option ?m (List.find (\<lambda>t. renamed a b (tb_name t) = x) (ct_tables c))"
    by (rule find_map) simp
  moreover have "List.find (\<lambda>t. renamed a b (tb_name t) = x) (ct_tables c) =
      (if x = b then find_table c a else if x = a then None else find_table c x)"
  proof -
    have "b \<notin> tb_name ` set (ct_tables c)" using assms(1) by (auto simp: names_def)
    then have *: "(renamed a b (tb_name t) = x) = (if x = b then tb_name t = a else x \<noteq> a \<and> tb_name t = x)" if "t \<in> set (ct_tables c)" for t
      using ab that by (auto simp: renamed_def)
    have "List.find (\<lambda>t. renamed a b (tb_name t) = x) (ct_tables c) =
        List.find (\<lambda>t. if x = b then tb_name t = a else x \<noteq> a \<and> tb_name t = x) (ct_tables c)"
      by (rule find_cong [OF refl]) (rule *)
    then show ?thesis by (auto simp: find_table_def intro: find_never)
  qed
  ultimately show "rows_of c' x = ((rows_of c)(a := [], b := rows_of c a)) x"
    using ab by (auto simp: rows_of_def find_table_def assms(3) split: option.splits)
qed

lemma plain_rows:
  assumes "plain st" and "exec_stmt st c = Inr c'"
  shows "rows_of c' = row_effect st (rows_of c)"
proof (cases st)
  case (CreateTable n d)
  then show ?thesis using assms(2) rows_of_create by (auto split: if_splits)
next
  case (CreateIndex ix)
  then show ?thesis using assms(2) by (auto simp: rows_of_def find_table_def split: option.splits if_splits)
next
  case (DeleteFrom n)
  then show ?thesis using assms(2) by (auto simp: rows_of_set split: option.splits if_splits)
next
  case (RenameColumn n a b)
  have "rows_of c' = (rows_of c)(n := id (rows_of c n))"
    using assms(2) unfolding RenameColumn
    by (intro rows_of_map [where f = "\<lambda>t. t\<lparr>tb_def := map_refs (\<lambda>(p, k). if p = n then (p, renamed a b k) else (p, k))
                (if tb_name t = n then rename_in_def a b (tb_def t) else tb_def t)\<rparr>"]) (auto split: option.splits if_splits)
  then show ?thesis using RenameColumn by simp
next
  case (RenameTable a b)
  then obtain t where "find_table c a = Some t" "b \<notin> set (names c)"
    "ct_tables c' = map (\<lambda>t. t\<lparr>tb_name := renamed a b (tb_name t), tb_def := map_refs (map_prod (renamed a b) id) (tb_def t)\<rparr>) (ct_tables c)"
    using assms(2) by (auto split: option.splits if_splits)
  from rows_of_rename [OF this(2,1,3)] show ?thesis using RenameTable by simp
next
  case (DropTable n)
  then show ?thesis using assms(2) rows_of_drop by (auto split: option.splits if_splits)
qed (use assms in simp)

fun run_stmts :: "sql_stmt list \<Rightarrow> catalog \<Rightarrow> sqlx_error + catalog" where
  "run_stmts [] c = Inr c"
| "run_stmts (st # sts) c = (case exec_stmt st c of Inl e \<Rightarrow> Inl e | Inr c' \<Rightarrow> run_stmts sts c')"

lemma run_stmts_append: "run_stmts (xs @ ys) c = (case run_stmts xs c of Inl e \<Rightarrow> Inl e | Inr c' \<Rightarrow> run_stmts ys c')"
  by (induction xs arbitrary: c) (auto split: sum.splits)

lemma sqlite_wrapped: "sqlite (wrapped m) c = run_stmts (mg_sql m) c"
proof -
  have "sqlite (map TxStmt sts @ [TxCommit]) c = run_stmts sts c" for sts
    by (induction sts arbitrary: c) (auto split: sum.splits)
  then show ?thesis by (simp add: wrapped_def)
qed

lemma run_scripts_stmts: "run_stmts (concat (map mg_sql ms)) c = Inr c' \<longleftrightarrow> run_scripts sqlite ms c = Inr c'"
  by (induction ms arbitrary: c) (auto simp: run_stmts_append sqlite_wrapped split: sum.splits)

lemma plain_script:
  assumes "list_all plain sts" and "run_stmts sts (erase c) = Inr e"
  shows "\<exists>c'. run_stmts sts c = Inr c' \<and> erase c' = e \<and> rows_of c' = fold row_effect sts (rows_of c)"
  using assms
proof (induction sts arbitrary: c)
  case (Cons st sts)
  then obtain e' where e: "exec_stmt st (erase c) = Inr e'" "run_stmts sts e' = Inr e" by (auto split: sum.splits)
  from plain_erase [OF _ e(1)] Cons.prems(1) obtain c' where c': "exec_stmt st c = Inr c'" "erase c' = e'" by auto
  with Cons.IH [of c'] Cons.prems(1) e plain_rows [OF _ c'(1)] show ?case by auto
qed simp

lemma insert_rows_ok:
  assumes "list_all (\<lambda>r. no_nulls d r \<and> checks d r) rs"
    and "\<forall>ks \<in> set (keys_of d). distinct (filter (\<lambda>v. v \<noteq> None) (map (key_values d ks) (rows @ rs)))"
  shows "insert_rows d rows rs = Inr (rows @ rs)"
  using assms
proof (induction rs arbitrary: rows)
  case (Cons r rs)
  have "\<not> (key_values d ks r \<noteq> None \<and> list_ex (\<lambda>r'. key_values d ks r' = key_values d ks r) rows)" if "ks \<in> set (keys_of d)" for ks
    using bspec [OF Cons.prems(2) that] by (auto simp: list_ex_iff)
  then have "\<not> clashes d rows r" by (auto simp: clashes_def list_ex_iff)
  moreover have "insert_rows d (rows @ [r]) rs = Inr ((rows @ [r]) @ rs)"
    using Cons.prems by (intro Cons.IH) simp_all
  ultimately show ?case using Cons.prems(1) by simp
qed simp

section \<open>Constraints\<close>

definition table_ok :: "catalog \<Rightarrow> stored_table \<Rightarrow> bool" where
  "table_ok c t \<longleftrightarrow> list_all (\<lambda>r. length r = length (td_cols (tb_def t)) \<and> no_nulls (tb_def t) r \<and> checks (tb_def t) r) (tb_rows t)
     \<and> list_all (\<lambda>ks. distinct (filter (\<lambda>v. v \<noteq> None) (map (key_values (tb_def t) ks) (tb_rows t)))) (keys_of (tb_def t))
     \<and> parents_exist c (tb_def t) (tb_rows t)"

definition catalog_ok :: "catalog \<Rightarrow> bool" where
  "catalog_ok c \<longleftrightarrow> list_all (table_ok c) (ct_tables c)"

lemma find_table_ok: "catalog_ok c \<Longrightarrow> find_table c n = Some t \<Longrightarrow> table_ok c t"
  by (auto simp: catalog_ok_def find_table_def find_Some_iff list_all_length)

lemma erased_table:
  assumes "find_table (erase c) n = Some t"
  shows "find_table c n = Some (t\<lparr>tb_rows := rows_of c n\<rparr>)"
  using assms by (auto simp: find_table_erase rows_of_def emptied_def)

section \<open>Upgrading a workspace\<close>

definition first_layout :: catalog where
  "first_layout = (case run_scripts sqlite (take 2 WORKSPACE_MIGRATIONS) empty_catalog of Inl _ \<Rightarrow> empty_catalog | Inr c \<Rightarrow> c)"

definition before_copy :: "sql_stmt list" where
  "before_copy = concat (map mg_sql [hash_refresh_tokens_workspace, hash_one_shot_secrets]) @ take 1 (mg_sql totp_secret_at_rest)"

definition after_copy :: "sql_stmt list" where
  "after_copy = drop 2 (mg_sql totp_secret_at_rest) @ mg_sql pkce_verifier_at_rest"

definition totp_copy :: sql_stmt where
  "totp_copy = mg_sql totp_secret_at_rest ! 1"

lemma upgrade_stmts: "concat (map mg_sql (drop 2 WORKSPACE_MIGRATIONS)) = before_copy @ [totp_copy] @ after_copy"
  by (simp add: before_copy_def after_copy_def totp_copy_def WORKSPACE_MIGRATIONS_def totp_secret_at_rest_def)

lemma upgrade_plain: "list_all plain before_copy" "list_all plain after_copy"
  by code_simp+

definition copied_layout :: catalog where
  "copied_layout = (case run_stmts before_copy first_layout of Inl _ \<Rightarrow> empty_catalog | Inr c \<Rightarrow> c)"

definition old_totp :: table_def where
  "old_totp = table [references ''users'' ''id'' (col ''user_id'' TEXT), not_null (col ''secret_b32'' TEXT), not_null (col ''enrolled_at'' TEXT),
     col ''confirmed_at'' TEXT, default_0 (not_null (col ''enabled'' INTEGER))] [''user_id'']"

definition new_totp :: table_def where
  "new_totp = one_of ''secret_b32'' ''secret_enc'' (table [references ''users'' ''id'' (col ''user_id'' TEXT), col ''secret_b32'' TEXT,
     col ''secret_enc'' BLOB, not_null (col ''enrolled_at'' TEXT), col ''confirmed_at'' TEXT, default_0 (not_null (col ''enabled'' INTEGER))] [''user_id''])"

lemma upgrade_layouts_hold:
  "let c = first_layout; d = copied_layout in run_stmts before_copy c = Inr d
    \<and> find_table c ''_user_totp'' = Some \<lparr>tb_name = ''_user_totp'', tb_def = old_totp, tb_rows = []\<rparr>
    \<and> find_table d ''_user_totp'' = Some \<lparr>tb_name = ''_user_totp'', tb_def = old_totp, tb_rows = []\<rparr>
    \<and> find_table d ''_user_totp_new'' = Some \<lparr>tb_name = ''_user_totp_new'', tb_def = new_totp, tb_rows = []\<rparr>
    \<and> map_option tb_def (find_table c ''users'') = map_option tb_def (find_table d ''users'')
    \<and> find_table c ''users'' \<noteq> None \<and> find_table c ''_user_totp_new'' = None \<and> find_table c ''_oauth_states_new'' = None"
  by code_simp

lemma upgrade_layouts:
  "run_stmts before_copy first_layout = Inr copied_layout"
  "find_table first_layout ''_user_totp'' = Some \<lparr>tb_name = ''_user_totp'', tb_def = old_totp, tb_rows = []\<rparr>"
  "find_table copied_layout ''_user_totp'' = Some \<lparr>tb_name = ''_user_totp'', tb_def = old_totp, tb_rows = []\<rparr>"
  "find_table copied_layout ''_user_totp_new'' = Some \<lparr>tb_name = ''_user_totp_new'', tb_def = new_totp, tb_rows = []\<rparr>"
  "map_option tb_def (find_table first_layout ''users'') = map_option tb_def (find_table copied_layout ''users'')"
  "find_table first_layout ''users'' \<noteq> None"
  "find_table first_layout ''_user_totp_new'' = None"
  "find_table first_layout ''_oauth_states_new'' = None"
  using upgrade_layouts_hold unfolding Let_def by blast+

definition final_layout :: catalog where
  "final_layout = (case run_scripts sqlite WORKSPACE_MIGRATIONS empty_catalog of Inl _ \<Rightarrow> empty_catalog | Inr c \<Rightarrow> c)"

lemma upgrade_end_runs: "let d = copied_layout; e = final_layout in run_stmts after_copy d = Inr e"
  by code_simp

lemma upgrade_end_scripts: "run_scripts sqlite WORKSPACE_MIGRATIONS empty_catalog = Inr final_layout"
proof -
  have "\<not> (case run_scripts sqlite WORKSPACE_MIGRATIONS empty_catalog of Inl _ \<Rightarrow> True | Inr _ \<Rightarrow> False)" by code_simp
  then show ?thesis by (simp add: final_layout_def split: sum.splits)
qed

lemma first_layout_holds: "run_scripts sqlite (take 2 WORKSPACE_MIGRATIONS) empty_catalog = Inr first_layout"
  by code_simp

lemmas upgrade_end = upgrade_end_runs [unfolded Let_def] upgrade_end_scripts first_layout_holds

text \<open>The copy of a row of \<open>_user_totp\<close>: the secret stays in clear, the encrypted one is null.\<close>

definition copied :: "cell list \<Rightarrow> cell list" where
  "copied r = [r ! 0, r ! 1, CNull, r ! 2, r ! 3, r ! 4]"

lemma copied_row:
  assumes "length r = length (td_cols old_totp)" "no_nulls old_totp r"
  shows "selected new_totp old_totp [''user_id'', ''secret_b32'', ''secret_enc'', ''enrolled_at'', ''confirmed_at'', ''enabled'']
      [Some ''user_id'', Some ''secret_b32'', None, Some ''enrolled_at'', Some ''confirmed_at'', Some ''enabled''] r = copied r"
    and "no_nulls new_totp (copied r)" "checks new_totp (copied r)"
    and "key_values new_totp [''user_id''] (copied r) = key_values old_totp [''user_id''] r"
    and "cell_of new_totp (copied r) ''user_id'' = cell_of old_totp r ''user_id''"
proof -
  from assms(1) obtain u b e f n where r: "r = [u, b, e, f, n]"
    by (auto simp: old_totp_def schema_defs length_Suc_conv)
  note defs = old_totp_def new_totp_def schema_defs r copied_def cell_of_def columns_def
  show "selected new_totp old_totp [''user_id'', ''secret_b32'', ''secret_enc'', ''enrolled_at'', ''confirmed_at'', ''enabled'']
      [Some ''user_id'', Some ''secret_b32'', None, Some ''enrolled_at'', Some ''confirmed_at'', Some ''enabled''] r = copied r"
    by (simp add: defs selected_def)
  show "no_nulls new_totp (copied r)" "checks new_totp (copied r)" using assms(2) by (simp_all add: defs no_nulls_def checks_def)
  show "key_values new_totp [''user_id''] (copied r) = key_values old_totp [''user_id''] r" by (simp add: defs key_values_def)
  show "cell_of new_totp (copied r) ''user_id'' = cell_of old_totp r ''user_id''" by (simp add: defs)
qed

lemma totp_parents:
  "parents_exist c old_totp R \<longleftrightarrow> (\<forall>r \<in> set R. parent_exists c (''users'', ''id'') (cell_of old_totp r ''user_id''))"
  "parents_exist c new_totp R \<longleftrightarrow> (\<forall>r \<in> set R. parent_exists c (''users'', ''id'') (cell_of new_totp r ''user_id''))"
  unfolding parents_exist_def list_all_iff by (simp_all add: old_totp_def new_totp_def schema_defs)

lemma totp_copied:
  assumes lay: "erase c = copied_layout" and new: "rows_of c ''_user_totp_new'' = []"
    and ok: "table_ok c \<lparr>tb_name = ''_user_totp'', tb_def = old_totp, tb_rows = rows_of c ''_user_totp''\<rparr>"
  shows "exec_stmt totp_copy c = Inr (set_rows ''_user_totp_new'' (map copied (rows_of c ''_user_totp'')) c)"
proof -
  let ?R = "rows_of c ''_user_totp''"
  let ?sel = "selected new_totp old_totp [''user_id'', ''secret_b32'', ''secret_enc'', ''enrolled_at'', ''confirmed_at'', ''enabled'']
      [Some ''user_id'', Some ''secret_b32'', None, Some ''enrolled_at'', Some ''confirmed_at'', Some ''enabled'']"
  have rows: "length r = length (td_cols old_totp) \<and> no_nulls old_totp r" if "r \<in> set ?R" for r
    using ok that by (auto simp: table_ok_def list_all_iff)
  note row = copied_row [OF conjunct1 [OF rows] conjunct2 [OF rows]]
  have t: "find_table c ''_user_totp'' = Some \<lparr>tb_name = ''_user_totp'', tb_def = old_totp, tb_rows = ?R\<rparr>"
    "find_table c ''_user_totp_new'' = Some \<lparr>tb_name = ''_user_totp_new'', tb_def = new_totp, tb_rows = []\<rparr>"
    using erased_table [of c] upgrade_layouts(3,4) lay new by fastforce+
  have sel: "map ?sel ?R = map copied ?R" using row(1) by simp
  have keys: "keys_of new_totp = [[''user_id'']]" "keys_of old_totp = [[''user_id'']]"
    by (simp_all add: keys_of_def new_totp_def old_totp_def schema_defs)
  have "map (key_values new_totp [''user_id'']) (map copied ?R) = map (key_values old_totp [''user_id'']) ?R" using row(4) by simp
  moreover have "distinct (filter (\<lambda>v. v \<noteq> None) (map (key_values old_totp [''user_id'']) ?R))"
    using ok by (simp add: table_ok_def keys)
  ultimately have "insert_rows new_totp [] (map copied ?R) = Inr ([] @ map copied ?R)"
    using row(2,3) by (intro insert_rows_ok) (simp_all add: list_all_iff keys del: map_map)
  moreover have "parents_exist c new_totp (map copied ?R)"
  proof -
    have "parents_exist c old_totp ?R" using ok by (simp add: table_ok_def)
    then show ?thesis using row(5) by (simp add: totp_parents)
  qed
  moreover have cp: "totp_copy = InsertSelect ''_user_totp_new'' [''user_id'', ''secret_b32'', ''secret_enc'', ''enrolled_at'', ''confirmed_at'', ''enabled'']
      ''_user_totp'' [Some ''user_id'', Some ''secret_b32'', None, Some ''enrolled_at'', Some ''confirmed_at'', Some ''enabled'']"
    by (simp add: totp_copy_def totp_secret_at_rest_def)
  ultimately show ?thesis unfolding cp using t sel by (simp del: map_eq_conv)
qed

lemma totp_keeps_ok:
  assumes "table_ok c \<lparr>tb_name = n, tb_def = old_totp, tb_rows = R\<rparr>" and "erase c = first_layout" "erase c' = copied_layout"
    and "rows_of c' ''users'' = rows_of c ''users''"
  shows "table_ok c' \<lparr>tb_name = n, tb_def = old_totp, tb_rows = R\<rparr>"
proof -
  from upgrade_layouts(6) obtain u where u: "find_table (erase c) ''users'' = Some u" using assms(2) by auto
  with upgrade_layouts(5) assms(2,3) obtain u' where u': "find_table (erase c') ''users'' = Some u'" "tb_def u' = tb_def u"
    by (cases "find_table (erase c') ''users''") auto
  from erased_table [OF u] erased_table [OF u'(1)] u'(2) assms(1,4) show ?thesis
    by (simp add: table_ok_def totp_parents parent_exists_def)
qed

text \<open>C11: Upgrading a workspace keeps its accounts. For every database with the tables of the first two migrations whose
  rows satisfy their constraints, the runner applies the other four, ends with the tables a new workspace
  gets, keeps the rows of every account, policy and audit table, copies every TOTP enrolment, and drops every
  session and every pending secret.\<close>

theorem workspace_upgrade_keeps_accounts:
  assumes "recorded db = map mg_id (take 2 WORKSPACE_MIGRATIONS)"
    and "run_scripts sqlite (take 2 WORKSPACE_MIGRATIONS) empty_catalog = Inr (erase (md_data db))" and "catalog_ok (md_data db)"
  shows "\<exists>db'. apply_migrations sqlite no_fault WORKSPACE_MIGRATIONS db = (Inr 4, db')
    \<and> run_scripts sqlite WORKSPACE_MIGRATIONS empty_catalog = Inr (erase (md_data db'))
    \<and> (\<forall>n \<in> {''apps'', ''workspace_admins'', ''app_admins'', ''policies'', ''audit_log'', ''users'', ''oauth_providers'', ''user_oauth_links''}.
          rows_of (md_data db') n = rows_of (md_data db) n)
    \<and> (\<forall>n \<in> {''_refresh_tokens'', ''_password_resets'', ''_email_verifications'', ''_email_otps'', ''_mfa_challenges'', ''_oauth_states''}.
          rows_of (md_data db') n = [])
    \<and> rows_of (md_data db') ''_user_totp'' = map (\<lambda>r. [r ! 0, r ! 1, CNull, r ! 2, r ! 3, r ! 4]) (rows_of (md_data db) ''_user_totp'')"
proof -
  let ?c = "md_data db"
  have lay: "erase ?c = first_layout" using assms(2) upgrade_end(3) by simp
  obtain c1 where c1: "run_stmts before_copy ?c = Inr c1" "erase c1 = copied_layout" "rows_of c1 = fold row_effect before_copy (rows_of ?c)"
    using plain_script [OF upgrade_plain(1), of ?c copied_layout] upgrade_layouts(1) unfolding lay by blast
  have eff1: "fold row_effect before_copy f = f(''_refresh_tokens'' := [], ''_password_resets'' := [], ''_email_verifications'' := [],
      ''_email_otps'' := [], ''_mfa_challenges'' := [], ''_oauth_states'' := [])" for f
    by (simp add: before_copy_def hash_refresh_tokens_workspace_def hash_one_shot_secrets_def totp_secret_at_rest_def)
  have "find_table ?c ''_user_totp_new'' = None" using upgrade_layouts(7) find_table_erase [of ?c "''_user_totp_new''"] unfolding lay by simp
  then have new: "rows_of c1 ''_user_totp_new'' = []" using c1(3) eff1 by (simp add: rows_of_def)
  have "table_ok ?c \<lparr>tb_name = ''_user_totp'', tb_def = old_totp, tb_rows = rows_of ?c ''_user_totp''\<rparr>"
    using find_table_ok [OF assms(3)] erased_table [of ?c "''_user_totp''"] upgrade_layouts(2) lay by fastforce
  from totp_keeps_ok [OF this lay c1(2)] c1(3) eff1
  have "table_ok c1 \<lparr>tb_name = ''_user_totp'', tb_def = old_totp, tb_rows = rows_of c1 ''_user_totp''\<rparr>" by simp
  note copy = totp_copied [OF c1(2) new this]
  let ?c2 = "set_rows ''_user_totp_new'' (map copied (rows_of c1 ''_user_totp'')) c1"
  have e2: "erase ?c2 = copied_layout" using c1(2) by simp
  have r2: "rows_of ?c2 = (rows_of c1)(''_user_totp_new'' := map copied (rows_of c1 ''_user_totp''))"
    using erased_table [of c1 "''_user_totp_new''"] upgrade_layouts(4) c1(2) by (intro rows_of_set) auto
  obtain c3 where c3: "run_stmts after_copy ?c2 = Inr c3" "erase c3 = final_layout" "rows_of c3 = fold row_effect after_copy (rows_of ?c2)"
    using plain_script [OF upgrade_plain(2), of ?c2 final_layout] upgrade_end(1) unfolding e2 by blast
  have eff2: "fold row_effect after_copy f = f(''_user_totp'' := f ''_user_totp_new'', ''_user_totp_new'' := [], ''_oauth_states'' := f ''_oauth_states_new'',
      ''_oauth_states_new'' := [])" for f
    by (simp add: after_copy_def totp_secret_at_rest_def pkce_verifier_at_rest_def fun_eq_iff)
  have "find_table ?c ''_oauth_states_new'' = None" using upgrade_layouts(8) find_table_erase [of ?c "''_oauth_states_new''"] unfolding lay by simp
  then have rows: "rows_of c3 = (rows_of ?c)(''_refresh_tokens'' := [], ''_password_resets'' := [], ''_email_verifications'' := [],
      ''_email_otps'' := [], ''_mfa_challenges'' := [], ''_oauth_states'' := [], ''_user_totp'' := map copied (rows_of ?c ''_user_totp''))"
    using \<open>find_table ?c ''_user_totp_new'' = None\<close> c3(3) r2 c1(3) by (auto simp: eff1 eff2 rows_of_def fun_eq_iff)
  have "run_stmts (concat (map mg_sql (drop 2 WORKSPACE_MIGRATIONS))) ?c = Inr c3"
    using c1(1) copy c3(1) by (simp add: upgrade_stmts run_stmts_append)
  then have run: "run_scripts sqlite (drop 2 WORKSPACE_MIGRATIONS) ?c = Inr c3" by (simp only: run_scripts_stmts)
  have un: "unapplied db WORKSPACE_MIGRATIONS = drop 2 WORKSPACE_MIGRATIONS" and dist: "distinct (map mg_id WORKSPACE_MIGRATIONS)"
    using assms(1) by (simp_all add: unapplied_def workspace_scripts)
  have "apply_migrations sqlite no_fault WORKSPACE_MIGRATIONS db =
      (Inr 4, db\<lparr>md_data := c3, md_applied := Some (recorded db @ map mg_id (drop 2 WORKSPACE_MIGRATIONS))\<rparr>)"
    using apply_migrations_eq [OF dist, of sqlite db] run by (simp add: un) (simp add: WORKSPACE_MIGRATIONS_def)
  then show ?thesis using c3(2) upgrade_end(2) by (simp add: rows copied_def [abs_def])
qed

section \<open>New databases\<close>

text \<open>The shipped scripts build the tables the other modules use. On a new database every script of the three lists
  succeeds, and the tables and columns that result are these.\<close>

theorem shipped_scripts_build_tables:
  "map_sum id layout (run_scripts sqlite SYSTEM_MIGRATIONS empty_catalog) = Inr [
    (''workspaces'', [''id'', ''name'', ''is_master'', ''created_at'']),
    (''master_admins'', [''id'', ''username'', ''email'', ''password_hash'', ''name'', ''created_at'']),
    (''policies'', [''field'', ''policy_json'', ''updated_at'']),
    (''audit_log'', [''id'', ''ts'', ''actor'', ''action'', ''target'', ''details_json'']),
    (''_secrets'', [''name'', ''value'', ''created_at'']),
    (''_refresh_tokens'', [''token_hash'', ''subject_kind'', ''subject_id'', ''issued_at'', ''expires_at'', ''revoked''])]
  \<and> map_sum id layout (run_scripts sqlite WORKSPACE_MIGRATIONS empty_catalog) = Inr [
    (''apps'', [''id'', ''name'', ''created_at'']),
    (''workspace_admins'', [''id'', ''email'', ''password_hash'', ''name'', ''created_at'']),
    (''app_admins'', [''id'', ''app_id'', ''email'', ''password_hash'', ''name'', ''created_at'']),
    (''_refresh_tokens'', [''token_hash'', ''subject_kind'', ''subject_id'', ''issued_at'', ''expires_at'', ''revoked'']),
    (''policies'', [''field'', ''policy_json'', ''updated_at'']),
    (''audit_log'', [''id'', ''ts'', ''actor'', ''action'', ''target'', ''details_json'']),
    (''users'', [''id'', ''email'', ''password_hash'', ''verified'', ''last_login'', ''created_at'']),
    (''oauth_providers'', [''provider'', ''client_id'', ''client_secret_enc'', ''config_json'']),
    (''user_oauth_links'', [''user_id'', ''provider'', ''provider_user_id'']),
    (''_email_verifications'', [''token_hash'', ''user_id'', ''issued_at'', ''expires_at'', ''consumed_at'']),
    (''_password_resets'', [''token_hash'', ''user_id'', ''issued_at'', ''expires_at'', ''consumed_at'']),
    (''_email_otps'', [''id'', ''code_hash'', ''email'', ''issued_at'', ''expires_at'', ''consumed_at'', ''attempts'']),
    (''_mfa_challenges'', [''token_hash'', ''user_id'', ''issued_at'', ''expires_at'', ''consumed_at'']),
    (''_user_totp'', [''user_id'', ''secret_b32'', ''secret_enc'', ''enrolled_at'', ''confirmed_at'', ''enabled'']),
    (''_oauth_states'', [''state_hash'', ''provider'', ''redirect_uri'', ''issued_at'', ''expires_at'', ''consumed_at'', ''code_verifier'',
      ''code_verifier_enc''])]
  \<and> map_sum id layout (run_scripts sqlite APP_MIGRATIONS empty_catalog) = Inr [
    (''_collections'', [''id'', ''name'', ''kind'', ''schema_json'', ''created_at'', ''updated_at'']),
    (''_access_rules'', [''collection_id'', ''action'', ''filter'']),
    (''policies'', [''field'', ''policy_json'', ''updated_at'']),
    (''audit_log'', [''id'', ''ts'', ''actor'', ''action'', ''target'', ''details_json'']),
    (''_files'', [''id'', ''filename'', ''mime'', ''size'', ''created_at''])]"
  by code_simp

text \<open>The shipped scripts do not run twice: the first of each list finds its tables, and the one that hashes the
  refresh tokens no longer finds its column.\<close>

theorem shipped_scripts_not_repeatable:
  "run_scripts sqlite [initial_system, initial_system] empty_catalog = Inl (mg_id initial_system, TableExists ''workspaces'')
  \<and> run_scripts sqlite [initial_workspace, initial_workspace] empty_catalog = Inl (mg_id initial_workspace, TableExists ''apps'')
  \<and> run_scripts sqlite [initial_app, initial_app] empty_catalog = Inl (mg_id initial_app, TableExists ''_collections'')
  \<and> run_scripts sqlite (take 3 WORKSPACE_MIGRATIONS @ [hash_refresh_tokens_workspace]) empty_catalog =
      Inl (mg_id hash_refresh_tokens_workspace, OtherSqlx ''no such column'')"
  by code_simp

definition old_workspace :: "catalog migrated" where
  "old_workspace = \<lparr>md_data = set_rows ''users'' [[CText ''alice'', CText ''a@b.c'', CNull, CInt 1, CNull, CText ''t'']]
       (set_rows ''_user_totp'' [[CText ''alice'', CText ''JBSW'', CText ''t'', CNull, CInt 1]]
       (set_rows ''_refresh_tokens'' [[CText ''r'', CText ''user'', CText ''alice'', CText ''t'', CText ''t'', CInt 0]] first_layout)),
     md_applied = Some (map mg_id (take 2 WORKSPACE_MIGRATIONS))\<rparr>"

theorem workspace_upgrade_keeps_accounts_witness:
  "\<exists>db'. apply_migrations sqlite no_fault WORKSPACE_MIGRATIONS old_workspace = (Inr 4, db')
    \<and> rows_of (md_data db') ''users'' = [[CText ''alice'', CText ''a@b.c'', CNull, CInt 1, CNull, CText ''t'']]
    \<and> rows_of (md_data db') ''_refresh_tokens'' = []
    \<and> rows_of (md_data db') ''_user_totp'' = [[CText ''alice'', CText ''JBSW'', CNull, CText ''t'', CNull, CInt 1]]"
proof -
  have r: "recorded old_workspace = map mg_id (take 2 WORKSPACE_MIGRATIONS)" by (simp add: recorded_def old_workspace_def)
  have e: "run_scripts sqlite (take 2 WORKSPACE_MIGRATIONS) empty_catalog = Inr (erase (md_data old_workspace))" by code_simp
  have ok: "catalog_ok (md_data old_workspace)" by code_simp
  have "rows_of (md_data old_workspace) ''users'' = [[CText ''alice'', CText ''a@b.c'', CNull, CInt 1, CNull, CText ''t'']]"
    "rows_of (md_data old_workspace) ''_user_totp'' = [[CText ''alice'', CText ''JBSW'', CText ''t'', CNull, CInt 1]]" by code_simp+
  with workspace_upgrade_keeps_accounts [OF r e ok] show ?thesis by auto
qed

end
