(* ===== verification/Custom_Routes.thy ===== *)
theory Custom_Routes
  imports Lifecycle_Api
begin

text \<open>
  Custom HTTP routes and scheduled jobs of an app: \<^verbatim>\<open>custom_routes.rs\<close> of \<^verbatim>\<open>rustbase-api\<close> and
  \<open>invoke_custom_route\<close> and \<open>invoke_cron\<close> of \<^verbatim>\<open>rustbase-runtime/src/lib.rs\<close> with the JavaScript they run. The
  registries live in the JavaScript heap and are read by the parameter \<open>route_lib\<close>; a handler is a tree of bridge
  calls, as in \<open>Hook_Runtime\<close>.
\<close>

section \<open>Route handlers\<close>

text \<open>What a handler of \<open>routerAdd\<close> is given and what it ends in: nothing, a primitive value, an object with its
  JSON properties and whether its \<open>status\<close> is a number, an array, an exception (as text, and its message), or an
  abort by the engine.\<close>

record route_context =
  rc_method :: string
  rc_path :: string
  rc_query :: "string \<rightharpoonup> string"
  rc_headers :: "string \<rightharpoonup> string"
  rc_body :: json

datatype route_result =
    RouteNothing
  | RoutePrimitive json
  | RouteObject "(string \<times> json) list" bool
  | RouteArray "json list"
  | RouteThrow string string
  | RouteAbort string bool

datatype route_prog =
    RouteDone js_heap route_result
  | RouteCall js_call "js_answer \<Rightarrow> route_prog"

primrec run_route :: "(js_call \<Rightarrow> 's \<Rightarrow> js_answer \<times> 's) \<Rightarrow> route_prog \<Rightarrow> 's \<Rightarrow> (js_heap \<times> route_result) \<times> 's" where
  "run_route br (RouteDone h r) s = ((h, r), s)"
| "run_route br (RouteCall c k) s = (case br c s of (ans, s') \<Rightarrow> run_route br (k ans) s')"

text \<open>The registries of an app's JavaScript, by \<open>METHOD path\<close> and by job number, and the libraries: the body as
  JSON, a response struct from a JSON array, header names in lower case.\<close>

record route_lib =
  js_routes :: "js_heap \<Rightarrow> string \<Rightarrow> (js_heap \<Rightarrow> route_context \<Rightarrow> route_prog) option"
  js_crons :: "js_heap \<Rightarrow> nat \<Rightarrow> (js_heap \<Rightarrow> route_prog) option"
  json_from_slice :: "char list \<Rightarrow> json option"
  response_from_seq :: "json list \<Rightarrow> string + nat \<times> (string \<times> string) list \<times> json"
  header_name :: "string \<Rightarrow> string option"

record route_response =
  rr_status :: nat
  rr_headers :: "(string \<times> string) list"
  rr_body :: json

definition status_json :: "nat \<Rightarrow> string \<times> json" where
  "status_json n = (''status'', JNumber (PosInt n))"

text \<open>\<open>__rb_invoke_route\<close>: what becomes of a result, as the JSON it returns.\<close>

fun route_json :: "route_result \<Rightarrow> json" where
  "route_json RouteNothing = JObject [status_json 204]"
| "route_json (RoutePrimitive v) = JObject [status_json 200, (''body'', v)]"
| "route_json (RouteObject kvs numeric) = JObject (if numeric then kvs else AList.update ''status'' (JNumber (PosInt 200)) kvs)"
| "route_json (RouteArray vs) = JArray vs"
| "route_json (RouteThrow shown message) = JObject [status_json 500, (''body'', JObject [(''error'', JString message)])]"
| "route_json (RouteAbort m crossed) = JNull"

text \<open>Reading the response struct; missing members take their defaults.\<close>

definition read_status :: "json option \<Rightarrow> string + nat" where
  "read_status v = (case v of
      None \<Rightarrow> Inr 200
    | Some (JNumber (PosInt n)) \<Rightarrow> if n < 65536 then Inr n else Inl ''invalid status''
    | Some _ \<Rightarrow> Inl ''invalid status'')"

fun read_headers :: "(string \<times> json) list \<Rightarrow> string + (string \<times> string) list" where
  "read_headers [] = Inr []"
| "read_headers ((k, JString v) # hs) = rbind (read_headers hs) (\<lambda>r. Inr ((k, v) # r))"
| "read_headers ((k, _) # hs) = Inl ''invalid header''"

definition read_header_map :: "json option \<Rightarrow> string + (string \<times> string) list" where
  "read_header_map v = (case v of
      None \<Rightarrow> Inr []
    | Some (JObject hs) \<Rightarrow> rbind (read_headers hs) (\<lambda>r. Inr (sort_key fst r))
    | Some _ \<Rightarrow> Inl ''invalid headers'')"

definition read_response :: "route_lib \<Rightarrow> json \<Rightarrow> string + route_response" where
  "read_response lib j = (case j of
      JObject kvs \<Rightarrow>
        rbind (read_status (map_of kvs ''status'')) (\<lambda>st.
        rbind (read_header_map (map_of kvs ''headers'')) (\<lambda>hs.
        Inr \<lparr>rr_status = st, rr_headers = hs, rr_body = (case map_of kvs ''body'' of None \<Rightarrow> JNull | Some b \<Rightarrow> b)\<rparr>))
    | JArray vs \<Rightarrow> rbind (response_from_seq lib vs) (\<lambda>(st, hs, b). Inr \<lparr>rr_status = st, rr_headers = hs, rr_body = b\<rparr>)
    | _ \<Rightarrow> Inl ''invalid type'')"

definition to_ascii_uppercase :: "char \<Rightarrow> char" where
  "to_ascii_uppercase c = (if is_ascii_lowercase c then char_of (of_char c - 32 :: nat) else c)"

definition route_key :: "string \<Rightarrow> string \<Rightarrow> string" where
  "route_key method path = map to_ascii_uppercase method @ '' '' @ path"

definition invoke_route ::
  "(js_call \<Rightarrow> 's \<Rightarrow> js_answer \<times> 's) \<Rightarrow> route_lib \<Rightarrow> app_hooks \<Rightarrow> string \<Rightarrow> string \<Rightarrow> route_context \<Rightarrow> 's
    \<Rightarrow> (runtime_error + route_response option) \<times> app_hooks \<times> 's" where
  "invoke_route br lib hk method path ctx s =
     (case js_routes lib (ah_heap hk) (route_key method path) of
        None \<Rightarrow> (Inr None, hk, s)
      | Some fn \<Rightarrow>
          (case run_route br (fn (ah_heap hk) ctx) s of
             ((h, RouteAbort m crossed), s') \<Rightarrow>
               (Inl (classify (ah_limits hk) crossed (Js (''invoke_route: '' @ m))), hk\<lparr>ah_heap := h\<rparr>, s')
           | ((h, res), s') \<Rightarrow>
               (case read_response lib (route_json res) of
                  Inl e \<Rightarrow> Inl (Js (''invoke_route response: '' @ e)) | Inr r \<Rightarrow> Inr (Some r),
                hk\<lparr>ah_heap := h, ah_errors := ah_errors hk @ (case res of RouteThrow shown _ \<Rightarrow> [shown] | _ \<Rightarrow> [])\<rparr>, s')))"

definition invoke_cron ::
  "(js_call \<Rightarrow> 's \<Rightarrow> js_answer \<times> 's) \<Rightarrow> route_lib \<Rightarrow> app_hooks \<Rightarrow> nat \<Rightarrow> 's \<Rightarrow> (runtime_error + unit) \<times> app_hooks \<times> 's" where
  "invoke_cron br lib hk i s =
     (case js_crons lib (ah_heap hk) i of
        None \<Rightarrow> (Inr (), hk, s)
      | Some fn \<Rightarrow>
          (case run_route br (fn (ah_heap hk)) s of
             ((h, RouteAbort m crossed), s') \<Rightarrow>
               (Inl (classify (ah_limits hk) crossed (Js (''invoke_cron: '' @ m))), hk\<lparr>ah_heap := h\<rparr>, s')
           | ((h, res), s') \<Rightarrow>
               (Inr (), hk\<lparr>ah_heap := h, ah_errors := ah_errors hk @ (case res of RouteThrow shown _ \<Rightarrow> [shown] | _ \<Rightarrow> [])\<rparr>, s')))"

section \<open>The endpoint\<close>

definition invoke_custom_route ::
  "route_lib \<Rightarrow> env \<Rightarrow> string \<Rightarrow> string \<Rightarrow> string \<Rightarrow> string \<Rightarrow> route_context \<Rightarrow> server \<Rightarrow> (runtime_error + route_response option) \<times> server" where
  "invoke_custom_route lib env w a method path ctx =
     on_hooks w a None (\<lambda>hk. invoke_route (bridge env w a) lib hk method path ctx)"

definition run_cron_job :: "route_lib \<Rightarrow> env \<Rightarrow> string \<Rightarrow> string \<Rightarrow> nat \<Rightarrow> server \<Rightarrow> (runtime_error + unit) \<times> server" where
  "run_cron_job lib env w a i = on_hooks w a () (\<lambda>hk. invoke_cron (bridge env w a) lib hk i)"

record http_response =
  hs_status :: nat
  hs_headers :: "string \<rightharpoonup> string"
  hs_body :: json

definition valid_status :: "nat \<Rightarrow> bool" where
  "valid_status n = (100 \<le> n \<and> n < 1000)"

fun put_headers :: "route_lib \<Rightarrow> env \<Rightarrow> (string \<times> string) list \<Rightarrow> (string \<rightharpoonup> string) \<Rightarrow> (string \<rightharpoonup> string)" where
  "put_headers lib env [] m = m"
| "put_headers lib env ((k, v) # hs) m =
     put_headers lib env hs (case header_name lib k of None \<Rightarrow> m | Some name \<Rightarrow> if header_ok env v then m(name \<mapsto> v) else m)"

definition header_map :: "(string \<times> string option) list \<Rightarrow> (string \<rightharpoonup> string)" where
  "header_map headers = map_of (rev (List.map_filter (\<lambda>(k, v). map_option (Pair (map to_ascii_lowercase k)) v) headers))"

definition request_json :: "route_lib \<Rightarrow> (string \<rightharpoonup> string) \<Rightarrow> char list \<Rightarrow> json" where
  "request_json lib hdrs body =
     (if (case hdrs ''content-type'' of None \<Rightarrow> False | Some v \<Rightarrow> take 16 v = ''application/json'') \<and> body \<noteq> []
      then (case json_from_slice lib body of None \<Rightarrow> JNull | Some j \<Rightarrow> j) else JNull)"

text \<open>\<open>headers\<close> are the header lines, with their value where it decodes as text.\<close>

definition custom_route ::
  "route_lib \<Rightarrow> env \<Rightarrow> string \<Rightarrow> string \<Rightarrow> string \<Rightarrow> string \<Rightarrow> (string \<times> string option) list \<Rightarrow> (string \<rightharpoonup> string) \<Rightarrow> char list
    \<Rightarrow> http_response handler" where
  "custom_route lib env w a rest method headers query body s =
     (let path = ''/'' @ rest; hdrs = header_map headers;
          ctx = \<lparr>rc_method = method, rc_path = path, rc_query = query, rc_headers = hdrs, rc_body = request_json lib hdrs body\<rparr>
      in case invoke_custom_route lib env w a method path ctx s of
        (Inl e, s') \<Rightarrow> (Inl (Internal (''custom route: '' @ runtime_error_str (show_i64 env) e)), s')
      | (Inr None, s') \<Rightarrow> (Inl (NotFound ''custom_route'' (method @ '' '' @ path)), s')
      | (Inr (Some r), s') \<Rightarrow>
          if \<not> valid_status (rr_status r) then (Inl (Internal ''bad status: invalid status code''), s')
          else (Inr \<lparr>hs_status = rr_status r, hs_headers = put_headers lib env (rr_headers r) [''content-type'' \<mapsto> ''application/json''],
                     hs_body = rr_body r\<rparr>, s'))"

section \<open>Confinement\<close>

context js_host
begin

lemma run_route_R: "R s (snd (run_route bridge p s))"
proof (induction p arbitrary: s)
  case (RouteDone h r)
  then show ?case by (simp add: R_refl)
next
  case (RouteCall c k)
  have "R s (snd (bridge c s))" by (rule bridge_R)
  moreover have "R (snd (bridge c s)) (snd (run_route bridge (k (fst (bridge c s))) (snd (bridge c s))))" by (rule RouteCall) simp
  ultimately show ?case by (auto simp: split_beta intro: R_trans)
qed

lemma invoke_route_R: "invoke_route bridge lib hk method path ctx s = (r, hk', s') \<Longrightarrow> R s s'"
proof (cases "js_routes lib (ah_heap hk) (route_key method path)")
  case (Some fn)
  obtain h res s1 where run: "run_route bridge (fn (ah_heap hk) ctx) s = ((h, res), s1)" by (metis surj_pair)
  then have "R s s1" using run_route_R [of s "fn (ah_heap hk) ctx"] by simp
  moreover assume "invoke_route bridge lib hk method path ctx s = (r, hk', s')"
  ultimately show ?thesis using Some run by (cases res) (auto simp: invoke_route_def)
qed (simp add: invoke_route_def R_refl)

lemma invoke_cron_R: "invoke_cron bridge lib hk i s = (r, hk', s') \<Longrightarrow> R s s'"
proof (cases "js_crons lib (ah_heap hk) i")
  case (Some fn)
  obtain h res s1 where run: "run_route bridge (fn (ah_heap hk)) s = ((h, res), s1)" by (metis surj_pair)
  then have "R s s1" using run_route_R [of s "fn (ah_heap hk)"] by simp
  moreover assume "invoke_cron bridge lib hk i s = (r, hk', s')"
  ultimately show ?thesis using Some run by (cases res) (auto simp: invoke_cron_def)
qed (simp add: invoke_cron_def R_refl)

end

lemma route_effects:
  "hook_effect w a s (snd (invoke_custom_route lib env w a method path ctx s))"
  "hook_effect w a s (snd (run_cron_job lib env w a i s))"
  unfolding invoke_custom_route_def run_cron_job_def
  by (rule on_hooks_effect; erule hook_host.invoke_route_R hook_host.invoke_cron_R)+

lemma custom_route_effect: "hook_effect w a s (snd (custom_route lib env w a rest method headers query body s))"
proof -
  let ?hdrs = "header_map headers"
  let ?ctx = "\<lparr>rc_method = method, rc_path = ''/'' @ rest, rc_query = query, rc_headers = ?hdrs, rc_body = request_json lib ?hdrs body\<rparr>"
  have "snd (custom_route lib env w a rest method headers query body s) = snd (invoke_custom_route lib env w a method (''/'' @ rest) ?ctx s)"
    by (auto simp: custom_route_def Let_def split: prod.splits sum.splits option.splits)
  then show ?thesis using route_effects(1) by metis
qed

text \<open>C9: Custom routes and jobs are confined to their app. Whatever a request to a custom route of an app, or a run of
  one of its scheduled jobs, does, the system and workspace databases, the other apps, the sign-in state, the
  stored files and the published events stay as they were; of the app's own database only the rows of
  collections and the audit log can differ, and the outbox only grows.\<close>

theorem custom_routes_are_confined:
  assumes "s' \<in> {snd (custom_route lib env w a rest method headers query body s), snd (run_cron_job lib env w a i s)}"
  shows "sv_system s' = sv_system s \<and> sv_workspaces s' = sv_workspaces s
    \<and> (\<forall>k. k \<noteq> (w, a) \<longrightarrow> sv_apps s' k = sv_apps s k \<and> sv_hooks s' k = sv_hooks s k)
    \<and> sv_revocations s' = sv_revocations s \<and> sv_attempts s' = sv_attempts s \<and> sv_published s' = sv_published s
    \<and> sv_objects s' = sv_objects s \<and> sv_hook_files s' = sv_hook_files s \<and> (\<exists>out. sv_outbox s' = sv_outbox s @ out)
    \<and> (case sv_apps s (w, a) of None \<Rightarrow> sv_apps s' (w, a) = None
       | Some db \<Rightarrow> \<exists>db'. sv_apps s' (w, a) = Some db' \<and> ad_collections db' = ad_collections db \<and> ad_rules db' = ad_rules db
           \<and> ad_tables db' = ad_tables db \<and> ad_policies db' = ad_policies db \<and> ad_files db' = ad_files db)"
proof -
  have "hook_effect w a s s'" using assms custom_route_effect route_effects(2) by auto
  then show ?thesis
    by (auto simp: hook_effect_def confined_def records_only_def option_rel_Some1 split: option.splits)
qed

text \<open>Every answer of a custom route is a well-formed HTTP response: its status has three digits and it has a
  content type. A request for a route that is not registered is a 404 and changes nothing.\<close>

lemma put_headers_keeps: "m k \<noteq> None \<Longrightarrow> put_headers lib env hs m k \<noteq> None"
  by (induction lib env hs m rule: put_headers.induct) (auto split: option.splits if_splits)

theorem custom_route_answers:
  "(case custom_route lib env w a rest verb headers query body s of
      (Inr r, _) \<Rightarrow> 100 \<le> hs_status r \<and> hs_status r < 1000 \<and> hs_headers r ''content-type'' \<noteq> None
    | (Inl e, s') \<Rightarrow> (\<exists>m. e = Internal m) \<or> e = NotFound ''custom_route'' (verb @ '' /'' @ rest))
   \<and> ((case sv_hooks s (w, a) of None \<Rightarrow> True | Some hk \<Rightarrow> js_routes lib (ah_heap hk) (route_key verb (''/'' @ rest)) = None) \<longrightarrow>
       custom_route lib env w a rest verb headers query body s = (Inl (NotFound ''custom_route'' (verb @ '' /'' @ rest)), s))"
proof (intro conjI impI)
  show "case custom_route lib env w a rest verb headers query body s of
      (Inr r, _) \<Rightarrow> 100 \<le> hs_status r \<and> hs_status r < 1000 \<and> hs_headers r ''content-type'' \<noteq> None
    | (Inl e, s') \<Rightarrow> (\<exists>m. e = Internal m) \<or> e = NotFound ''custom_route'' (verb @ '' /'' @ rest)"
    using put_headers_keeps [of "[''content-type'' \<mapsto> ''application/json'']" "''content-type''" lib env]
    by (auto simp: custom_route_def Let_def valid_status_def split: prod.splits sum.splits option.splits)
  assume "case sv_hooks s (w, a) of None \<Rightarrow> True | Some hk \<Rightarrow> js_routes lib (ah_heap hk) (route_key verb (''/'' @ rest)) = None"
  then show "custom_route lib env w a rest verb headers query body s = (Inl (NotFound ''custom_route'' (verb @ '' /'' @ rest)), s)"
    by (auto simp: custom_route_def invoke_custom_route_def on_hooks_def invoke_route_def Let_def fun_upd_idem split: option.splits)
qed

text \<open>The routes of a deleted app stay open. Deleting an app leaves its JavaScript loaded, so a request to one of its
  routes still runs the registered handler.\<close>

theorem deleted_app_keeps_its_routes:
  assumes "apps_delete env c w a s = (Inr (), s')" and "sv_hooks s (w, a) = Some hk"
    and "js_routes lib (ah_heap hk) (route_key method (''/'' @ rest)) = Some fn"
    and "\<And>ctx. fn (ah_heap hk) ctx = RouteDone (ah_heap hk) (RoutePrimitive v)"
  shows "\<exists>r. fst (custom_route lib env' w a rest method headers query body s') = Inr r \<and> hs_status r = 200 \<and> hs_body r = v"
  using assms apps_delete_Inr(2) [OF assms(1)]
  by (simp add: custom_route_def invoke_custom_route_def on_hooks_def invoke_route_def read_response_def read_status_def
      read_header_map_def status_json_def valid_status_def Let_def)

section \<open>Examples\<close>

text \<open>One route, \<open>GET /hello\<close>, that sends a mail and answers a text, and one job that throws.\<close>

definition demo_routes :: route_lib where
  "demo_routes = \<lparr>js_routes = (\<lambda>_ key. if key = ''GET /hello'' then Some (\<lambda>h ctx. RouteDone h (RoutePrimitive (JString ''hi''))) else None),
     js_crons = (\<lambda>_ i. if i = 1 then Some (\<lambda>h. RouteCall (MailerSend (email_message_new ''x'' ''y'' ''z'' [])) (\<lambda>_. RouteDone h (RouteThrow ''e'' ''e''))) else None),
     json_from_slice = (\<lambda>_. None), response_from_seq = (\<lambda>_. Inl ''seq''), header_name = (\<lambda>k. Some (map to_ascii_lowercase k))\<rparr>"

definition routed_server :: server where
  "routed_server = old_app_server\<lparr>sv_hooks := [(''acme'', ''blog'') \<mapsto> fresh_hooks (js_engine hook_env) default_limits]\<rparr>"

lemma demo_route_key: "route_key ''GET'' (''/'' @ ''hello'') = ''GET /hello''"
  by (simp add: route_key_def to_ascii_uppercase_def is_ascii_lowercase_def less_eq_char_def)

theorem custom_routes_are_confined_witness:
  "let s = routed_server; s' = snd (run_cron_job demo_routes hook_env ''acme'' ''blog'' 1 s)
   in sv_workspaces s' = sv_workspaces s \<and> sv_published s' = sv_published s \<and> (\<exists>out. sv_outbox s' = sv_outbox s @ out)"
  using custom_routes_are_confined [of "snd (run_cron_job demo_routes hook_env ''acme'' ''blog'' 1 routed_server)" demo_routes hook_env
      "''acme''" "''blog''" "''hello''" "''GET''" "[]" Map.empty "[]" routed_server 1]
  by (simp add: Let_def)

theorem custom_route_answers_witness:
  "custom_route demo_routes hook_env ''acme'' ''blog'' ''none'' ''GET'' [] Map.empty [] routed_server =
     (Inl (NotFound ''custom_route'' ''GET /none''), routed_server)"
  using custom_route_answers [where lib = demo_routes and env = hook_env and w = "''acme''" and a = "''blog''" and rest = "''none''" and verb = "''GET''"
      and headers = "[]" and query = Map.empty and body = "[]" and s = routed_server]
  by (auto simp: demo_routes_def route_key_def to_ascii_uppercase_def is_ascii_lowercase_def less_eq_char_def split: option.splits)

theorem deleted_app_keeps_its_routes_witness:
  "\<exists>r. fst (custom_route demo_routes hook_env ''acme'' ''blog'' ''hello'' ''GET'' [] Map.empty []
      (snd (apps_delete hook_env root_admin ''acme'' ''blog'' routed_server))) = Inr r \<and> hs_status r = 200 \<and> hs_body r = JString ''hi''"
proof -
  let ?d = "apps_delete hook_env root_admin ''acme'' ''blog'' routed_server"
  have "fst ?d = Inr ()" by (simp add: routed_server_def apps_simps)
  then have "?d = (Inr (), snd ?d)" by (metis prod.collapse)
  moreover obtain hk where "sv_hooks routed_server (''acme'', ''blog'') = Some hk" by (simp add: routed_server_def)
  ultimately show ?thesis
    using deleted_app_keeps_its_routes [of hook_env root_admin "''acme''" "''blog''" routed_server "snd ?d" hk demo_routes "''GET''" "''hello''"
        "\<lambda>h ctx. RouteDone h (RoutePrimitive (JString ''hi''))" "JString ''hi''"] demo_route_key
    by (simp add: demo_routes_def)
qed

end
