(* ===== verification/App_Registry.thy ===== *)
theory App_Registry
  imports Custom_Routes
begin

text \<open>
  The registry an app's JavaScript keeps, as the bootstrap script of \<open>rustbase-runtime/src/lib.rs\<close> builds it: handlers by event, routes,
  scheduled jobs and the log, and the tasks the scheduler starts for the jobs of a load.
\<close>

section \<open>The registry\<close>

text \<open>What the bootstrap script keeps in \<open>globalThis\<close>, next to the handlers' own state. Arguments of the
  \<open>$app\<close> functions that are not of the type the function asks for are \<open>None\<close>.\<close>

record 'f js_globals =
  g_handlers :: "string \<Rightarrow> 'f list"
  g_errors :: "string list"
  g_log :: "string list"
  g_routes :: "string \<rightharpoonup> 'f"
  g_cron_jobs :: "nat \<rightharpoonup> 'f"
  g_pending_crons :: "(nat \<times> string) list"
  g_cron_next_id :: nat

definition bootstrap :: "'f js_globals" where
  "bootstrap = \<lparr>g_handlers = (\<lambda>_. []), g_errors = [], g_log = [], g_routes = Map.empty, g_cron_jobs = Map.empty,
     g_pending_crons = [], g_cron_next_id = 0\<rparr>"

definition register :: "string \<Rightarrow> string \<Rightarrow> 'f option \<Rightarrow> 'f js_globals \<Rightarrow> (string + unit) \<times> 'f js_globals" where
  "register kind coll fn g = (case fn of
      None \<Rightarrow> (Inl ''handler must be a function'', g)
    | Some f \<Rightarrow> (let key = coll @ '':'' @ kind in
        (Inr (), g\<lparr>g_handlers := (g_handlers g)(key := g_handlers g key @ [f])\<rparr>)))"

definition router_add :: "string option \<Rightarrow> string option \<Rightarrow> 'f option \<Rightarrow> 'f js_globals \<Rightarrow> (string + unit) \<times> 'f js_globals" where
  "router_add verb path fn g = (case verb of
      None \<Rightarrow> (Inl ''routerAdd: method must be a string'', g)
    | Some v \<Rightarrow>
        (case path of
           None \<Rightarrow> (Inl (''routerAdd: path must start with '' @ [CHR 0x22, CHR ''/'', CHR 0x22]), g)
         | Some p \<Rightarrow>
             if take 1 p \<noteq> ''/'' then (Inl (''routerAdd: path must start with '' @ [CHR 0x22, CHR ''/'', CHR 0x22]), g)
             else case fn of
                None \<Rightarrow> (Inl ''routerAdd: handler must be a function'', g)
              | Some f \<Rightarrow> (Inr (), g\<lparr>g_routes := (g_routes g)(route_key v p \<mapsto> f)\<rparr>)))"

definition cron_add :: "string option \<Rightarrow> 'f option \<Rightarrow> 'f js_globals \<Rightarrow> (string + nat) \<times> 'f js_globals" where
  "cron_add ex fn g = (case ex of
      None \<Rightarrow> (Inl ''cron: expression must be a string'', g)
    | Some e \<Rightarrow>
        (case fn of
           None \<Rightarrow> (Inl ''cron: handler must be a function'', g)
         | Some f \<Rightarrow>
             (let i = g_cron_next_id g + 1 in
              (Inr i, g\<lparr>g_cron_next_id := i, g_cron_jobs := (g_cron_jobs g)(i \<mapsto> f), g_pending_crons := g_pending_crons g @ [(i, e)]\<rparr>))))"

definition log_js :: "string \<Rightarrow> 'f js_globals \<Rightarrow> 'f js_globals" where
  "log_js msg g = g\<lparr>g_log := g_log g @ [msg]\<rparr>"

definition drain_logs :: "'f js_globals \<Rightarrow> string list \<times> 'f js_globals" where
  "drain_logs g = (g_log g, g\<lparr>g_log := []\<rparr>)"

text \<open>\<open>start_cron_tasks\<close>: the pending jobs are taken out of the registry, and every job with a readable expression
  gets a task.\<close>

fun start_jobs :: "(string \<Rightarrow> string + 'c) \<Rightarrow> (nat \<times> string) list \<Rightarrow> (nat \<times> 'c) list" where
  "start_jobs schedule [] = []"
| "start_jobs schedule ((i, e) # jobs) = (case schedule e of
      Inl _ \<Rightarrow> start_jobs schedule jobs
    | Inr sc \<Rightarrow> (i, sc) # start_jobs schedule jobs)"

definition start_cron_tasks ::
  "(string \<Rightarrow> string + 'c) \<Rightarrow> 'f js_globals \<times> (nat \<times> 'c) list \<Rightarrow> nat \<times> 'f js_globals \<times> (nat \<times> 'c) list" where
  "start_cron_tasks schedule gt = (case gt of (g, tasks) \<Rightarrow>
     (let started = start_jobs schedule (g_pending_crons g)
      in (length started, g\<lparr>g_pending_crons := []\<rparr>, tasks @ started)))"

text \<open>A task wakes at each of the times its schedule gives, and ends when the hooks it belongs to are gone.\<close>

definition sleep_for :: "time \<Rightarrow> time \<Rightarrow> time" where
  "sleep_for next now = max 0 (next - now)"

fun cron_task :: "(time \<Rightarrow> bool) \<Rightarrow> (time \<Rightarrow> 's \<Rightarrow> 's) \<Rightarrow> time list \<Rightarrow> 's \<Rightarrow> 's" where
  "cron_task alive tick [] s = s"
| "cron_task alive tick (t # ts) s = (if alive t then cron_task alive tick ts (tick t s) else s)"

lemma cron_task_ticks: "cron_task alive tick ts s = fold tick (takeWhile alive ts) s"
  by (induction ts arbitrary: s) auto

text \<open>What a hook file can do with the registry, and the load that follows.\<close>

datatype 'f app_op =
    OnRecord hook_event string 'f
  | OnUser hook_event 'f
  | OnMailerBeforeSend 'f
  | OnMailerAfterSend 'f
  | RouterAdd string string 'f
  | Cron string 'f
  | StartCronTasks

fun app_step :: "(string \<Rightarrow> string + 'c) \<Rightarrow> 'f app_op \<Rightarrow> 'f js_globals \<times> (nat \<times> 'c) list \<Rightarrow> 'f js_globals \<times> (nat \<times> 'c) list" where
  "app_step schedule (OnRecord e coll f) (g, ts) = (snd (register (event_str e) coll (Some f) g), ts)"
| "app_step schedule (OnUser e f) (g, ts) = (snd (register (event_str e) USER_HOOK_COLLECTION (Some f) g), ts)"
| "app_step schedule (OnMailerBeforeSend f) (g, ts) = (snd (register ''mailer_before_send'' ''_mail'' (Some f) g), ts)"
| "app_step schedule (OnMailerAfterSend f) (g, ts) = (snd (register ''mailer_after_send'' ''_mail'' (Some f) g), ts)"
| "app_step schedule (RouterAdd v p f) (g, ts) = (snd (router_add (Some v) (Some p) (Some f) g), ts)"
| "app_step schedule (Cron e f) (g, ts) = (snd (cron_add (Some e) (Some f) g), ts)"
| "app_step schedule StartCronTasks gt = snd (start_cron_tasks schedule gt)"

definition app_run :: "(string \<Rightarrow> string + 'c) \<Rightarrow> 'f app_op list \<Rightarrow> 'f js_globals \<times> (nat \<times> 'c) list" where
  "app_run schedule ops = fold (app_step schedule) ops (bootstrap, [])"

section \<open>Scheduled jobs\<close>

fun cron_regs :: "'f app_op list \<Rightarrow> (string \<times> 'f) list" where
  "cron_regs [] = []"
| "cron_regs (Cron e f # ops) = (e, f) # cron_regs ops"
| "cron_regs (_ # ops) = cron_regs ops"

lemma cron_regs_append: "cron_regs (xs @ ys) = cron_regs xs @ cron_regs ys"
  by (induction xs rule: cron_regs.induct) auto

definition jobs_of :: "(string \<times> 'f) list \<Rightarrow> (nat \<times> string) list" where
  "jobs_of regs = zip (map Suc [0..<length regs]) (map fst regs)"

lemma jobs_of_snoc: "jobs_of (regs @ [(e, f)]) = jobs_of regs @ [(Suc (length regs), e)]"
  by (simp add: jobs_of_def)

lemma in_jobs_of: "(i, e) \<in> set (jobs_of regs) \<longleftrightarrow> (\<exists>k < length regs. i = Suc k \<and> e = fst (regs ! k))"
proof
  assume "\<exists>k < length regs. i = Suc k \<and> e = fst (regs ! k)"
  then obtain k where "k < length regs" "i = Suc k" "e = fst (regs ! k)" by blast
  then show "(i, e) \<in> set (jobs_of regs)" by (auto simp: jobs_of_def set_zip intro!: exI [of _ k])
qed (auto simp: jobs_of_def set_zip)

lemma start_jobs_append: "start_jobs sc (xs @ ys) = start_jobs sc xs @ start_jobs sc ys"
  by (induction sc xs rule: start_jobs.induct) (auto split: sum.splits)

text \<open>The registry after the operations so far: jobs are numbered in the order of their registration, the jobs
  started and the jobs pending are together all of them.\<close>

definition crons_ok :: "(string \<Rightarrow> string + 'c) \<Rightarrow> (string \<times> 'f) list \<Rightarrow> 'f js_globals \<times> (nat \<times> 'c) list \<Rightarrow> bool" where
  "crons_ok sc regs gt \<longleftrightarrow> g_cron_next_id (fst gt) = length regs
     \<and> (\<forall>i. g_cron_jobs (fst gt) i = (if 1 \<le> i \<and> i \<le> length regs then Some (snd (regs ! (i - 1))) else None))
     \<and> (\<exists>dn. jobs_of regs = dn @ g_pending_crons (fst gt) \<and> snd gt = start_jobs sc dn)"

lemma app_step_crons: "crons_ok sc regs gt \<Longrightarrow> crons_ok sc (regs @ cron_regs [op]) (app_step sc op gt)"
proof (cases gt; cases op)
  fix g ts e f
  assume a: "crons_ok sc regs gt" "gt = (g, ts)" "op = Cron e f"
  then obtain dn where d: "jobs_of regs = dn @ g_pending_crons g" "ts = start_jobs sc dn" by (auto simp: crons_ok_def)
  have "jobs_of (regs @ [(e, f)]) = dn @ (g_pending_crons g @ [(Suc (length regs), e)])" using d(1) by (simp add: jobs_of_snoc)
  moreover have "g_cron_next_id g = length regs" using a by (simp add: crons_ok_def)
  ultimately show ?thesis using a d(2)
    by (auto simp: crons_ok_def cron_add_def Let_def nth_append intro!: exI [of _ "dn"])
next
  fix g ts
  assume a: "crons_ok sc regs gt" "gt = (g, ts)" "op = StartCronTasks"
  then obtain dn where d: "jobs_of regs = dn @ g_pending_crons g" "ts = start_jobs sc dn" by (auto simp: crons_ok_def)
  then show ?thesis using a by (auto simp: crons_ok_def start_cron_tasks_def Let_def start_jobs_append intro!: exI [of _ "jobs_of regs"])
qed (auto simp: crons_ok_def register_def router_add_def Let_def)


lemma app_run_snoc: "app_run sc (ops @ [x]) = app_step sc x (app_run sc ops)"
  by (simp add: app_run_def)

lemma app_run_crons: "crons_ok sc (cron_regs ops) (app_run sc ops)"
proof (induction ops rule: rev_induct)
  case Nil
  show ?case by (simp add: crons_ok_def app_run_def bootstrap_def jobs_of_def)
next
  case (snoc x ops)
  then show ?case by (simp add: app_run_snoc cron_regs_append app_step_crons)
qed

text \<open>Every job is started once. However registrations and loads interleave, after a load the tasks are those of the
  jobs with a readable expression, one each and in the order of registration, the number of a job finds the
  function registered with its expression, and nothing is left to start.\<close>

theorem cron_jobs_start_once:
  "case app_run sc (ops @ [StartCronTasks]) of (g, tasks) \<Rightarrow>
     tasks = start_jobs sc (jobs_of (cron_regs ops)) \<and> distinct (map fst tasks) \<and> g_pending_crons g = []
     \<and> (\<forall>i e. (i, e) \<in> set (jobs_of (cron_regs ops)) = (\<exists>f. g_cron_jobs g i = Some f \<and> i - 1 < length (cron_regs ops) \<and> cron_regs ops ! (i - 1) = (e, f)))"
proof -
  obtain g tasks where r: "app_run sc (ops @ [StartCronTasks]) = (g, tasks)" by fastforce
  have ok: "crons_ok sc (cron_regs ops) (g, tasks)" using app_run_crons [of sc "ops @ [StartCronTasks]"] r by (simp add: cron_regs_append)
  have p: "g_pending_crons g = []" using r by (auto simp: app_run_snoc start_cron_tasks_def Let_def split: prod.splits)
  have t: "tasks = start_jobs sc (jobs_of (cron_regs ops))" using ok p by (auto simp: crons_ok_def)
  have "set (map fst (start_jobs sc js)) \<subseteq> set (map fst js) \<and> (distinct (map fst js) \<longrightarrow> distinct (map fst (start_jobs sc js)))" for js
    by (induction sc js rule: start_jobs.induct) (auto split: sum.splits)
  moreover have "distinct (map fst (jobs_of (cron_regs ops)))" by (simp add: jobs_of_def distinct_map)
  ultimately have "distinct (map fst tasks)" using t by blast
  moreover have "((i, e) \<in> set (jobs_of (cron_regs ops))) = (\<exists>f. g_cron_jobs g i = Some f \<and> i - 1 < length (cron_regs ops) \<and> cron_regs ops ! (i - 1) = (e, f))" for i e
    using ok unfolding in_jobs_of by (cases i) (auto simp: crons_ok_def prod_eq_iff)
  ultimately show ?thesis using r t p by simp
qed

section \<open>Handlers\<close>

text \<open>The handlers registered for an event of a collection, in order.\<close>

fun registered_for :: "string \<Rightarrow> hook_event \<Rightarrow> 'f app_op list \<Rightarrow> 'f list" where
  "registered_for coll ev [] = []"
| "registered_for coll ev (OnRecord e c f # ops) = (if e = ev \<and> c = coll then [f] else []) @ registered_for coll ev ops"
| "registered_for coll ev (OnUser e f # ops) = (if e = ev \<and> coll = USER_HOOK_COLLECTION then [f] else []) @ registered_for coll ev ops"
| "registered_for coll ev (_ # ops) = registered_for coll ev ops"

lemma registered_for_append: "registered_for coll ev (xs @ ys) = registered_for coll ev xs @ registered_for coll ev ys"
  by (induction coll ev xs rule: registered_for.induct) auto

lemma colon_free: "CHR '':'' \<notin> set (event_str e)" "CHR '':'' \<notin> set ''mailer_before_send''" "CHR '':'' \<notin> set ''mailer_after_send''"
  by (cases e) simp_all

lemma last_colon:
  assumes "x \<notin> set k" and "x \<notin> set k'"
  shows "c @ x # k = c' @ x # k' \<longleftrightarrow> c = c' \<and> k = k'"
proof
  assume "c @ x # k = c' @ x # k'"
  then have "rev k @ x # rev c = rev k' @ x # rev c'" by (metis append.assoc append_Cons append_Nil rev.simps(2) rev_append)
  then have "takeWhile (\<lambda>y. y \<noteq> x) (rev k @ x # rev c) = takeWhile (\<lambda>y. y \<noteq> x) (rev k' @ x # rev c')" by simp
  moreover have "takeWhile (\<lambda>y. y \<noteq> x) (rev l @ x # r) = rev l" if "x \<notin> set l" for l r
    using that by (subst takeWhile_append2) auto
  ultimately have "k = k'" using assms by simp
  then show "c = c' \<and> k = k'" using \<open>c @ x # k = c' @ x # k'\<close> by simp
qed simp

lemma last_colon_str: "CHR '':'' \<notin> set k \<Longrightarrow> CHR '':'' \<notin> set k' \<Longrightarrow> c @ '':'' @ k = c' @ '':'' @ k' \<longleftrightarrow> c = c' \<and> k = k'"
  by (simp add: last_colon)

lemma event_str_inj: "event_str e = event_str e' \<longleftrightarrow> e = e'"
  by (cases e; cases e') simp_all

lemma event_not_mailer: "event_str e \<noteq> ''mailer_before_send''" "event_str e \<noteq> ''mailer_after_send''"
  by (cases e; simp)+

definition handler_key :: "string \<Rightarrow> string \<Rightarrow> string" where
  "handler_key coll kind = coll @ '':'' @ kind"

lemma register_handlers:
  "g_handlers (snd (register kind c (Some f) g)) key = g_handlers g key @ (if key = handler_key c kind then [f] else [])"
  by (simp add: register_def Let_def handler_key_def)

lemma key_eq: "hook_key coll ev = handler_key c (event_str e) \<longleftrightarrow> c = coll \<and> e = ev"
  unfolding hook_key_def handler_key_def by (auto simp only: last_colon_str [OF colon_free(1) colon_free(1)] event_str_inj)

lemma key_not_mailer: "hook_key coll ev \<noteq> handler_key c ''mailer_before_send''" "hook_key coll ev \<noteq> handler_key c ''mailer_after_send''"
  unfolding hook_key_def handler_key_def
  by (simp_all only: last_colon_str [OF colon_free(1) colon_free(2)] last_colon_str [OF colon_free(1) colon_free(3)] event_not_mailer simp_thms)

text \<open>No registration reaches another event. Whatever an app registers, the handlers of an event of a collection are
  the functions registered for exactly that event and collection, in the order of registration; a name cannot be
  chosen so that another event runs them.\<close>

theorem handlers_are_those_registered:
  "g_handlers (fst (app_run sc ops)) (hook_key coll ev) = registered_for coll ev ops"
proof (induction ops rule: rev_induct)
  case Nil
  show ?case by (simp add: app_run_def bootstrap_def)
next
  case (snoc x ops)
  obtain g ts where g: "app_run sc ops = (g, ts)" by fastforce
  then have IH: "g_handlers g (hook_key coll ev) = registered_for coll ev ops" using snoc by simp
  show ?case
  proof (cases x)
    case (OnRecord e c f)
    then show ?thesis using IH g by (simp add: app_run_snoc registered_for_append register_handlers key_eq conj_commute)
  next
    case (OnUser e f)
    then show ?thesis using IH g by (simp add: app_run_snoc registered_for_append register_handlers key_eq eq_commute [of coll])
  next
    case (OnMailerBeforeSend f)
    then show ?thesis using IH g by (simp add: app_run_snoc registered_for_append register_handlers key_not_mailer)
  next
    case (OnMailerAfterSend f)
    then show ?thesis using IH g by (simp add: app_run_snoc registered_for_append register_handlers key_not_mailer)
  next
    case (RouterAdd v p f)
    then show ?thesis using IH g by (simp add: app_run_snoc registered_for_append router_add_def)
  next
    case (Cron e f)
    then show ?thesis using IH g by (simp add: app_run_snoc registered_for_append cron_add_def Let_def)
  next
    case StartCronTasks
    then show ?thesis using IH g by (simp add: app_run_snoc registered_for_append start_cron_tasks_def Let_def)
  qed
qed

end
