(* ===== verification/App_Api.thy ===== *)
theory App_Api
  imports Hook_Bridge
begin

text \<open>
The functions of \<open>$app\<close> that reach the server, \<open>rustbase-runtime/src/lib.rs\<close>: the natives and their texts, the JavaScript shim
  around them, and \<open>$app.mailer.send\<close> with its hooks. The shim and the natives together are the calls of \<open>Hook_Bridge.bridge\<close>, which the handlers of
  the other theories use.
\<close>

section \<open>The wire\<close>

text \<open>JSON as text, on both sides, and what serde makes of it. \<open>rec_value\<close> and \<open>response_value\<close> are the JSON of a
  record and of a response; \<open>fields_of\<close>, \<open>headers_of\<close> and \<open>message_of_seq\<close> read a map and a struct.\<close>

record wire =
  stringify :: "json \<Rightarrow> string"
  parse_text :: "string \<Rightarrow> string + json"
  rec_value :: "rec \<Rightarrow> json"
  response_value :: "fetch_response \<Rightarrow> json"
  fields_of :: "json \<Rightarrow> string + fields"
  headers_of :: "json \<Rightarrow> string + (string \<rightharpoonup> string)"
  message_of_seq :: "json list \<Rightarrow> string + email_message"

text \<open>The bridges an app's hooks are built with.\<close>

record app_hooks_config =
  hc_records :: bool
  hc_mailer :: bool
  hc_audit :: bool
  hc_fetcher :: bool

definition ERR :: string where
  "ERR = ''__rb_err:''"

section \<open>Natives\<close>

definition native_result :: "env \<Rightarrow> ('a \<Rightarrow> string) \<Rightarrow> runtime_error + 'a \<Rightarrow> string" where
  "native_result env f r = (case r of Inl e \<Rightarrow> ERR @ runtime_error_str (show_i64 env) e | Inr x \<Rightarrow> f x)"

definition native_find_one :: "wire \<Rightarrow> env \<Rightarrow> string \<Rightarrow> string \<Rightarrow> string \<Rightarrow> string \<Rightarrow> server \<Rightarrow> string \<times> server" where
  "native_find_one lib env w a coll i s =
     (native_result env (\<lambda>r. case r of Some r \<Rightarrow> stringify lib (rec_value lib r) | None \<Rightarrow> ''null'')
        (bridge_find_one env (sv_apps s (w, a)) coll i), s)"

definition native_find_by_filter :: "wire \<Rightarrow> env \<Rightarrow> string \<Rightarrow> string \<Rightarrow> string \<Rightarrow> string \<Rightarrow> nat \<Rightarrow> server \<Rightarrow> string \<times> server" where
  "native_find_by_filter lib env w a coll flt n s =
     (native_result env (\<lambda>rs. stringify lib (JArray (map (rec_value lib) rs))) (bridge_find_by_filter env (sv_apps s (w, a)) coll flt n), s)"

definition native_create :: "wire \<Rightarrow> env \<Rightarrow> string \<Rightarrow> string \<Rightarrow> string \<Rightarrow> string \<Rightarrow> server \<Rightarrow> string \<times> server" where
  "native_create lib env w a coll fields_json s =
     (case rbind (parse_text lib fields_json) (fields_of lib) of
        Inl e \<Rightarrow> (ERR @ ''fields: '' @ e, s)
      | Inr flds \<Rightarrow>
          (case bridge_create env w a coll flds s of (r, s') \<Rightarrow> (native_result env (\<lambda>r. stringify lib (rec_value lib r)) r, s')))"

definition native_update :: "wire \<Rightarrow> env \<Rightarrow> string \<Rightarrow> string \<Rightarrow> string \<Rightarrow> string \<Rightarrow> string \<Rightarrow> server \<Rightarrow> string \<times> server" where
  "native_update lib env w a coll i patch_json s =
     (case rbind (parse_text lib patch_json) (fields_of lib) of
        Inl e \<Rightarrow> (ERR @ ''patch: '' @ e, s)
      | Inr patch \<Rightarrow>
          (case bridge_update env w a coll i patch s of (r, s') \<Rightarrow> (native_result env (\<lambda>r. stringify lib (rec_value lib r)) r, s')))"

definition native_delete :: "env \<Rightarrow> string \<Rightarrow> string \<Rightarrow> string \<Rightarrow> string \<Rightarrow> server \<Rightarrow> string \<times> server" where
  "native_delete env w a coll i s =
     (case bridge_delete env w a coll i s of (r, s') \<Rightarrow> (native_result env (\<lambda>_. ''null'') r, s'))"

definition text_member :: "(string \<times> json) list \<Rightarrow> string \<Rightarrow> string + string" where
  "text_member kvs k = (case map_of kvs k of
      Some (JString v) \<Rightarrow> Inr v | Some _ \<Rightarrow> Inl (''invalid type for '' @ k) | None \<Rightarrow> Inl (''missing field '' @ k))"

definition read_message :: "wire \<Rightarrow> json \<Rightarrow> string + email_message" where
  "read_message lib j = (case j of
      JObject kvs \<Rightarrow>
        rbind (text_member kvs ''from'') (\<lambda>from. rbind (text_member kvs ''to'') (\<lambda>to.
        rbind (text_member kvs ''subject'') (\<lambda>subject. rbind (text_member kvs ''text'') (\<lambda>txt.
          let m = email_message_new from to subject txt in
          case map_of kvs ''html'' of
            None \<Rightarrow> Inr m | Some JNull \<Rightarrow> Inr m | Some (JString h) \<Rightarrow> Inr (with_html m h) | Some _ \<Rightarrow> Inl ''invalid type for html''))))
    | JArray vs \<Rightarrow> message_of_seq lib vs
    | _ \<Rightarrow> Inl ''invalid type'')"

definition native_mailer_send :: "wire \<Rightarrow> env \<Rightarrow> string \<Rightarrow> string \<Rightarrow> string \<Rightarrow> server \<Rightarrow> string \<times> server" where
  "native_mailer_send lib env w a msg_json s =
     (case rbind (parse_text lib msg_json) (read_message lib) of
        Inl e \<Rightarrow> (ERR @ ''invalid message: '' @ e, s)
      | Inr m \<Rightarrow> (case bridge_mail env w a m s of (Inr _, s') \<Rightarrow> (''null'', s') | (Inl e, s') \<Rightarrow> (ERR @ mailer_error_str e, s')))"

definition native_audit_write :: "wire \<Rightarrow> env \<Rightarrow> string \<Rightarrow> string \<Rightarrow> string \<Rightarrow> string \<Rightarrow> string \<Rightarrow> server \<Rightarrow> string \<times> server" where
  "native_audit_write lib env w a action target details s =
     (let target_opt = (if target = [] then None else Some target) in
      case parse_text lib details of
        Inl _ \<Rightarrow> (ERR @ ''details must be valid JSON'', s)
      | Inr d \<Rightarrow> (case bridge_audit env w a action target_opt d s of (r, s') \<Rightarrow> (native_result env (\<lambda>_. ''null'') r, s')))"

definition native_fetch :: "wire \<Rightarrow> env \<Rightarrow> string \<Rightarrow> string \<Rightarrow> string \<Rightarrow> string \<Rightarrow> server \<Rightarrow> string \<times> server" where
  "native_fetch lib env verb url headers_json body s =
     (case rbind (parse_text lib headers_json) (headers_of lib) of
        Inl e \<Rightarrow> (ERR @ ''headers: '' @ e, s)
      | Inr hs \<Rightarrow>
          (native_result env (\<lambda>r. stringify lib (response_value lib r))
             (bridge_fetch env \<lparr>fr_method = verb, fr_url = url, fr_headers = hs, fr_body = as_bytes body\<rparr>), s))"

section \<open>The shim\<close>

text \<open>\<open>call\<close>: a native that is not bound throws, and so does an answer with the sentinel.\<close>

definition check_answer :: "string \<times> server \<Rightarrow> (string + string) \<times> server" where
  "check_answer r = (case r of (t, s') \<Rightarrow> (if take (length ERR) t = ERR then Inl (drop (length ERR) t) else Inr t, s'))"

definition call_native :: "string \<Rightarrow> bool \<Rightarrow> (server \<Rightarrow> string \<times> server) \<Rightarrow> server \<Rightarrow> (string + string) \<times> server" where
  "call_native name bound native s =
     (if \<not> bound then (Inl (name @ '' is not available (no bridge bound)''), s) else check_answer (native s))"

definition parsed :: "wire \<Rightarrow> (string + string) \<times> server \<Rightarrow> (string + json) \<times> server" where
  "parsed lib r = (case r of (t, s') \<Rightarrow> (rbind t (parse_text lib), s'))"

definition ignored :: "(string + string) \<times> server \<Rightarrow> (string + json) \<times> server" where
  "ignored r = (case r of (t, s') \<Rightarrow> (rbind t (\<lambda>_. Inr JNull), s'))"

record audit_args =
  aa_action :: "string option"
  aa_target :: "string option"
  aa_details :: "json option"

record fetch_init =
  fi_method :: "string option"
  fi_headers :: "json option"
  fi_body :: "string option"

text \<open>The functions of \<open>$app\<close> that reach the server. An argument that is not of the type they ask for is \<open>None\<close>.\<close>

datatype app_api =
    AppFindOne string string
  | AppFindByFilter string string nat
  | AppCreate string json
  | AppUpdate string string json
  | AppDelete string string
  | AppSend json
  | AppAudit "audit_args option"
  | AppFetch "string option" fetch_init

definition to_upper :: "string \<Rightarrow> string" where
  "to_upper = map (\<lambda>c. if is_ascii_lowercase c then char_of (of_char c - 32 :: nat) else c)"

definition fetch_method :: "fetch_init \<Rightarrow> string" where
  "fetch_method init = to_upper (case fi_method init of None \<Rightarrow> ''GET'' | Some m \<Rightarrow> if m = [] then ''GET'' else m)"

fun app_call :: "wire \<Rightarrow> app_hooks_config \<Rightarrow> env \<Rightarrow> string \<Rightarrow> string \<Rightarrow> app_api \<Rightarrow> server \<Rightarrow> (string + json) \<times> server" where
  "app_call lib cfg env w a (AppFindOne coll i) s =
     (case call_native ''__rb_records_findOne'' (hc_records cfg) (native_find_one lib env w a coll i) s of
        (Inr t, s') \<Rightarrow> if t = ''null'' then (Inr JNull, s') else parsed lib (Inr t, s')
      | r \<Rightarrow> parsed lib r)"
| "app_call lib cfg env w a (AppFindByFilter coll flt n) s =
     parsed lib (call_native ''__rb_records_findByFilter'' (hc_records cfg) (native_find_by_filter lib env w a coll flt n) s)"
| "app_call lib cfg env w a (AppCreate coll flds) s =
     parsed lib (call_native ''__rb_records_create'' (hc_records cfg) (native_create lib env w a coll (stringify lib flds)) s)"
| "app_call lib cfg env w a (AppUpdate coll i patch) s =
     parsed lib (call_native ''__rb_records_update'' (hc_records cfg) (native_update lib env w a coll i (stringify lib patch)) s)"
| "app_call lib cfg env w a (AppDelete coll i) s =
     ignored (call_native ''__rb_records_delete'' (hc_records cfg) (native_delete env w a coll i) s)"
| "app_call lib cfg env w a (AppSend msg) s =
     ignored (call_native ''__rb_mailer_send'' (hc_mailer cfg) (native_mailer_send lib env w a (stringify lib msg)) s)"
| "app_call lib cfg env w a (AppAudit entry) s = (case entry of
      None \<Rightarrow> (Inl ''$app.audit.write: entry must be an object'', s)
    | Some en \<Rightarrow>
        (case aa_action en of
           None \<Rightarrow> (Inl ''$app.audit.write: entry.action must be a non-empty string'', s)
         | Some action \<Rightarrow>
             if action = [] then (Inl ''$app.audit.write: entry.action must be a non-empty string'', s)
             else ignored (call_native ''__rb_audit_write'' (hc_audit cfg)
               (native_audit_write lib env w a action (case aa_target en of None \<Rightarrow> [] | Some t \<Rightarrow> t)
                  (case aa_details en of None \<Rightarrow> ''{}'' | Some d \<Rightarrow> stringify lib d)) s)))"
| "app_call lib cfg env w a (AppFetch url init) s = (case url of
      None \<Rightarrow> (Inl ''$app.fetch: url must be a non-empty string'', s)
    | Some u \<Rightarrow>
        if u = [] then (Inl ''$app.fetch: url must be a non-empty string'', s)
        else parsed lib (call_native ''__rb_fetch'' (hc_fetcher cfg)
          (native_fetch lib env (fetch_method init) u
             (stringify lib (case fi_headers init of None \<Rightarrow> JObject [] | Some h \<Rightarrow> h))
             (case fi_body init of None \<Rightarrow> [] | Some b \<Rightarrow> b)) s))"


section \<open>Refinement\<close>

text \<open>The call of the server an \<open>$app\<close> function stands for, or the error of its arguments; and the value JavaScript
  sees for an answer.\<close>

fun call_of :: "wire \<Rightarrow> app_api \<Rightarrow> string + js_call" where
  "call_of lib (AppFindOne coll i) = Inr (FindOne coll i)"
| "call_of lib (AppFindByFilter coll flt n) = Inr (FindByFilter coll flt n)"
| "call_of lib (AppCreate coll flds) = map_sum (\<lambda>e. ''fields: '' @ e) (CreateRecord coll) (fields_of lib flds)"
| "call_of lib (AppUpdate coll i patch) = map_sum (\<lambda>e. ''patch: '' @ e) (UpdateRecord coll i) (fields_of lib patch)"
| "call_of lib (AppDelete coll i) = Inr (DeleteRecord coll i)"
| "call_of lib (AppSend msg) = map_sum (\<lambda>e. ''invalid message: '' @ e) MailerSend (read_message lib msg)"
| "call_of lib (AppAudit entry) = (case entry of
      None \<Rightarrow> Inl ''$app.audit.write: entry must be an object''
    | Some en \<Rightarrow> if aa_action en = None \<or> aa_action en = Some [] then Inl ''$app.audit.write: entry.action must be a non-empty string''
        else Inr (AuditWrite (the (aa_action en)) (case aa_target en of None \<Rightarrow> [] | Some t \<Rightarrow> t)
               (case aa_details en of None \<Rightarrow> JObject [] | Some d \<Rightarrow> d)))"
| "call_of lib (AppFetch url init) = (if url = None \<or> url = Some [] then Inl ''$app.fetch: url must be a non-empty string''
     else map_sum (\<lambda>e. ''headers: '' @ e) (\<lambda>hs. Fetch \<lparr>fr_method = fetch_method init, fr_url = the url, fr_headers = hs,
        fr_body = as_bytes (case fi_body init of None \<Rightarrow> [] | Some b \<Rightarrow> b)\<rparr>)
       (headers_of lib (case fi_headers init of None \<Rightarrow> JObject [] | Some h \<Rightarrow> h)))"

fun js_value :: "wire \<Rightarrow> js_answer \<Rightarrow> string + json" where
  "js_value lib NullAnswer = Inr JNull"
| "js_value lib (RecordAnswer r) = Inr (rec_value lib r)"
| "js_value lib (RecordsAnswer rs) = Inr (JArray (map (rec_value lib) rs))"
| "js_value lib (ResponseAnswer r) = Inr (response_value lib r)"
| "js_value lib (ThrownAnswer m) = Inl m"

text \<open>What JSON libraries document: a value survives its text, which is \<open>null\<close> for null only and never begins with an
  underscore. The values that cross the wire in a call are its arguments and its answer.\<close>

definition crosses :: "wire \<Rightarrow> json \<Rightarrow> bool" where
  "crosses lib j \<longleftrightarrow> parse_text lib (stringify lib j) = Inr j \<and> take 1 (stringify lib j) \<noteq> ''_'' \<and> (stringify lib j = ''null'' \<longleftrightarrow> j = JNull)"

fun sent_values :: "app_api \<Rightarrow> json set" where
  "sent_values (AppCreate coll flds) = {flds}"
| "sent_values (AppUpdate coll i patch) = {patch}"
| "sent_values (AppSend msg) = {msg}"
| "sent_values (AppAudit (Some en)) = set_option (aa_details en)"
| "sent_values (AppFetch url init) = {case fi_headers init of None \<Rightarrow> JObject [] | Some h \<Rightarrow> h}"
| "sent_values _ = {}"

definition wire_ok :: "wire \<Rightarrow> app_api \<Rightarrow> js_answer \<Rightarrow> bool" where
  "wire_ok lib c ans \<longleftrightarrow> (\<forall>j \<in> sent_values c. crosses lib j) \<and> parse_text lib ''{}'' = Inr (JObject [])
     \<and> (ans \<noteq> NullAnswer \<longrightarrow> (case js_value lib ans of Inr j \<Rightarrow> crosses lib j | Inl _ \<Rightarrow> True))"

fun is_bound :: "app_hooks_config \<Rightarrow> app_api \<Rightarrow> bool" where
  "is_bound cfg (AppSend _) = hc_mailer cfg"
| "is_bound cfg (AppAudit _) = hc_audit cfg"
| "is_bound cfg (AppFetch _ _) = hc_fetcher cfg"
| "is_bound cfg _ = hc_records cfg"

definition answer_text :: "wire \<Rightarrow> js_answer \<Rightarrow> string" where
  "answer_text lib ans = (case js_value lib ans of
      Inl m \<Rightarrow> ERR @ m | Inr j \<Rightarrow> if ans = NullAnswer then ''null'' else stringify lib j)"

lemma check_err: "check_answer (ERR @ m, s) = (Inl m, s)"
  by (simp add: check_answer_def)

lemma check_text: "take 1 t \<noteq> ''_'' \<Longrightarrow> check_answer (t, s) = (Inr t, s)"
  by (cases t) (auto simp: check_answer_def ERR_def)

lemma call_bound: "call_native n True native s = check_answer (native s)"
  by (simp add: call_native_def)

lemma answer_text_simps [simp]:
  "answer_text lib NullAnswer = ''null''" "answer_text lib (RecordAnswer r) = stringify lib (rec_value lib r)"
  "answer_text lib (RecordsAnswer rs) = stringify lib (JArray (map (rec_value lib) rs))"
  "answer_text lib (ResponseAnswer x) = stringify lib (response_value lib x)" "answer_text lib (ThrownAnswer m) = ERR @ m"
  by (simp_all add: answer_text_def)

lemma native_text: "(\<And>x. f x = answer_text lib (g x)) \<Longrightarrow> native_result env f r = answer_text lib (native_answer env g r)"
  by (cases r) (simp_all add: native_result_def native_answer_def)

lemma nullable_text: "case_option ''null'' (\<lambda>r. stringify lib (rec_value lib r)) x = answer_text lib (case_option NullAnswer RecordAnswer x)"
  by (simp split: option.split)

text \<open>What the shim makes of a native that answers with the text of an answer.\<close>

lemma parsed_answer:
  assumes "wire_ok lib c ans" "ans \<noteq> NullAnswer"
  shows "parsed lib (check_answer (answer_text lib ans, s)) = (js_value lib ans, s)"
proof (cases "js_value lib ans")
  case (Inl m)
  then show ?thesis by (simp add: answer_text_def check_err parsed_def rbind_def)
next
  case (Inr j)
  then have "crosses lib j" using assms by (simp add: wire_ok_def)
  then show ?thesis using Inr assms(2) by (simp add: answer_text_def check_text parsed_def rbind_def crosses_def)
qed

lemma ignored_answer:
  "ans = NullAnswer \<or> (\<exists>m. ans = ThrownAnswer m) \<Longrightarrow> ignored (check_answer (answer_text lib ans, s)) = (js_value lib ans, s)"
  by (auto simp: ignored_def rbind_def check_err check_text)

lemma find_one_answer:
  assumes "wire_ok lib c ans"
  shows "(case check_answer (answer_text lib ans, s) of (Inr t, s') \<Rightarrow> if t = ''null'' then (Inr JNull, s') else parsed lib (Inr t, s') | r \<Rightarrow> parsed lib r)
    = (js_value lib ans, s)"
proof (cases "ans = NullAnswer")
  case True
  then show ?thesis by (simp add: check_text)
next
  case False
  show ?thesis
  proof (cases "js_value lib ans")
    case (Inl m)
    then show ?thesis by (simp add: answer_text_def check_err parsed_def rbind_def)
  next
    case (Inr j)
    then have "crosses lib j" using assms False by (simp add: wire_ok_def)
    then show ?thesis using Inr False by (auto simp: answer_text_def check_text crosses_def parsed_def rbind_def)
  qed
qed

lemma rejected_arguments: "parsed lib (check_answer (ERR @ e, s)) = (Inl e, s)" "ignored (check_answer (ERR @ e, s)) = (Inl e, s)"
  by (simp_all add: check_err parsed_def ignored_def rbind_def)

lemma audit_native:
  assumes "parse_text lib details = Inr d"
  shows "native_audit_write lib env w a action target details s =
    (answer_text lib (fst (bridge env w a (AuditWrite action target d) s)), snd (bridge env w a (AuditWrite action target d) s))"
  using assms by (cases "bridge_audit env w a action (if target = [] then None else Some target) d s")
    (auto simp: native_audit_write_def Let_def intro!: native_text)

lemma mail_native:
  assumes "parse_text lib msg_json = Inr j" "read_message lib j = Inr m"
  shows "native_mailer_send lib env w a msg_json s =
    (answer_text lib (fst (bridge env w a (MailerSend m) s)), snd (bridge env w a (MailerSend m) s))"
  using assms by (cases "bridge_mail env w a m s") (auto simp: native_mailer_send_def rbind_def split: sum.splits)

lemma records_natives:
  "native_find_one lib env w a coll i s = (answer_text lib (fst (bridge env w a (FindOne coll i) s)), s)"
  "native_find_by_filter lib env w a coll flt n s = (answer_text lib (fst (bridge env w a (FindByFilter coll flt n) s)), s)"
  "native_delete env w a coll i s = (answer_text lib (fst (bridge env w a (DeleteRecord coll i) s)), snd (bridge env w a (DeleteRecord coll i) s))"
  by (auto simp: native_find_one_def native_find_by_filter_def native_delete_def nullable_text split: prod.splits intro!: native_text)

lemma write_natives:
  "parse_text lib t = Inr j \<Longrightarrow> fields_of lib j = Inr flds \<Longrightarrow> native_create lib env w a coll t s =
    (answer_text lib (fst (bridge env w a (CreateRecord coll flds) s)), snd (bridge env w a (CreateRecord coll flds) s))"
  "parse_text lib t = Inr j \<Longrightarrow> fields_of lib j = Inr flds \<Longrightarrow> native_update lib env w a coll i t s =
    (answer_text lib (fst (bridge env w a (UpdateRecord coll i flds) s)), snd (bridge env w a (UpdateRecord coll i flds) s))"
  by (auto simp: native_create_def native_update_def rbind_def split: prod.splits intro!: native_text)

lemma fetch_native:
  "parse_text lib t = Inr j \<Longrightarrow> headers_of lib j = Inr hs \<Longrightarrow> native_fetch lib env verb url t body s =
    (answer_text lib (fst (bridge env w a (Fetch \<lparr>fr_method = verb, fr_url = url, fr_headers = hs, fr_body = as_bytes body\<rparr>) s)), s)"
  by (auto simp: native_fetch_def rbind_def intro!: native_text)


lemma bridge_not_null:
  "fst (bridge env w a (FindByFilter coll flt n) s) \<noteq> NullAnswer" "fst (bridge env w a (CreateRecord coll flds) s) \<noteq> NullAnswer"
  "fst (bridge env w a (UpdateRecord coll i flds) s) \<noteq> NullAnswer" "fst (bridge env w a (Fetch req) s) \<noteq> NullAnswer"
  by (auto simp: native_answer_def split: prod.splits sum.splits)

lemma bridge_null_or_thrown:
  "fst (bridge env w a (DeleteRecord coll i) s) = NullAnswer \<or> (\<exists>m. fst (bridge env w a (DeleteRecord coll i) s) = ThrownAnswer m)"
  "fst (bridge env w a (MailerSend msg) s) = NullAnswer \<or> (\<exists>m. fst (bridge env w a (MailerSend msg) s) = ThrownAnswer m)"
  "fst (bridge env w a (AuditWrite action target d) s) = NullAnswer \<or> (\<exists>m. fst (bridge env w a (AuditWrite action target d) s) = ThrownAnswer m)"
  by (auto simp: native_answer_def split: prod.splits sum.splits)

abbreviation answered :: "wire \<Rightarrow> js_answer \<times> server \<Rightarrow> (string + json) \<times> server" where
  "answered lib r \<equiv> (js_value lib (fst r), snd r)"

abbreviation refines :: "wire \<Rightarrow> app_hooks_config \<Rightarrow> env \<Rightarrow> string \<Rightarrow> string \<Rightarrow> app_api \<Rightarrow> server \<Rightarrow> bool" where
  "refines lib cfg env w a c s \<equiv>
     app_call lib cfg env w a c s = (case call_of lib c of Inl e \<Rightarrow> (Inl e, s) | Inr jc \<Rightarrow> answered lib (bridge env w a jc s))"

lemma find_one_refines:
  assumes "is_bound cfg c" and "wire_ok lib c (case call_of lib c of Inl _ \<Rightarrow> NullAnswer | Inr jc \<Rightarrow> fst (bridge env w a jc s))" and "c = AppFindOne coll i"
  shows "refines lib cfg env w a c s"
proof -
  have "wire_ok lib c (fst (bridge env w a (FindOne coll i) s))" using assms(2,3) by simp
  from find_one_answer [OF this] assms(3) assms(1) show ?thesis by (simp add: call_bound records_natives(1) del: bridge.simps) simp
qed

lemma find_by_filter_refines:
  assumes "is_bound cfg c" and "wire_ok lib c (case call_of lib c of Inl _ \<Rightarrow> NullAnswer | Inr jc \<Rightarrow> fst (bridge env w a jc s))" and "c = AppFindByFilter coll flt n"
  shows "refines lib cfg env w a c s"
proof -
  have "wire_ok lib c (fst (bridge env w a (FindByFilter coll flt n) s))" using assms(2,3) by simp
  from parsed_answer [OF this bridge_not_null(1)] assms(3) assms(1) show ?thesis by (simp add: call_bound records_natives(2) del: bridge.simps) simp
qed

lemma create_refines:
  assumes "is_bound cfg c" and "wire_ok lib c (case call_of lib c of Inl _ \<Rightarrow> NullAnswer | Inr jc \<Rightarrow> fst (bridge env w a jc s))" and "c = AppCreate coll flds"
  shows "refines lib cfg env w a c s"
proof -
  have p: "parse_text lib (stringify lib flds) = Inr flds" using assms(2,3) by (simp add: wire_ok_def crosses_def)
  show ?thesis
  proof (cases "fields_of lib flds")
    case (Inl e)
    then show ?thesis using p assms(3) assms(1) rejected_arguments(1) [of lib "''fields: '' @ e" s] by (simp add: call_bound native_create_def rbind_def)
  next
    case (Inr f)
    then have "wire_ok lib c (fst (bridge env w a (CreateRecord coll f) s))" using assms(2,3) by simp
    from parsed_answer [OF this bridge_not_null(2)] show ?thesis
      using assms(3) Inr assms(1) by (simp add: call_bound write_natives(1) [OF p Inr] del: bridge.simps)
  qed
qed

lemma update_refines:
  assumes "is_bound cfg c" and "wire_ok lib c (case call_of lib c of Inl _ \<Rightarrow> NullAnswer | Inr jc \<Rightarrow> fst (bridge env w a jc s))" and "c = AppUpdate coll i patch"
  shows "refines lib cfg env w a c s"
proof -
  have p: "parse_text lib (stringify lib patch) = Inr patch" using assms(2,3) by (simp add: wire_ok_def crosses_def)
  show ?thesis
  proof (cases "fields_of lib patch")
    case (Inl e)
    then show ?thesis using p assms(3) assms(1) rejected_arguments(1) [of lib "''patch: '' @ e" s] by (simp add: call_bound native_update_def rbind_def)
  next
    case (Inr f)
    then have "wire_ok lib c (fst (bridge env w a (UpdateRecord coll i f) s))" using assms(2,3) by simp
    from parsed_answer [OF this bridge_not_null(3)] show ?thesis
      using assms(3) Inr assms(1) by (simp add: call_bound write_natives(2) [OF p Inr] del: bridge.simps)
  qed
qed

lemma delete_refines:
  assumes "is_bound cfg c" and "wire_ok lib c (case call_of lib c of Inl _ \<Rightarrow> NullAnswer | Inr jc \<Rightarrow> fst (bridge env w a jc s))" and "c = AppDelete coll i"
  shows "refines lib cfg env w a c s"
proof -
  from ignored_answer [OF bridge_null_or_thrown(1)] assms(3) assms(1) show ?thesis
    by (simp add: call_bound records_natives(3) [of env w a coll i s lib] del: bridge.simps)
qed

lemma send_refines:
  assumes "is_bound cfg c" and "wire_ok lib c (case call_of lib c of Inl _ \<Rightarrow> NullAnswer | Inr jc \<Rightarrow> fst (bridge env w a jc s))" and "c = AppSend msg"
  shows "refines lib cfg env w a c s"
proof -
  have p: "parse_text lib (stringify lib msg) = Inr msg" using assms(2,3) by (simp add: wire_ok_def crosses_def)
  show ?thesis
  proof (cases "read_message lib msg")
    case (Inl e)
    then show ?thesis using p assms(3) assms(1) rejected_arguments(2) [of "''invalid message: '' @ e" s] by (simp add: call_bound native_mailer_send_def rbind_def)
  next
    case (Inr m)
    then show ?thesis using ignored_answer [OF bridge_null_or_thrown(2)] assms(3) assms(1)
      by (simp add: call_bound mail_native [OF p Inr] del: bridge.simps)
  qed
qed

lemma audit_refines:
  assumes "is_bound cfg c" and "wire_ok lib c (case call_of lib c of Inl _ \<Rightarrow> NullAnswer | Inr jc \<Rightarrow> fst (bridge env w a jc s))" and "c = AppAudit entry"
  shows "refines lib cfg env w a c s"
proof -
  show ?thesis
  proof (cases "\<exists>en action. entry = Some en \<and> aa_action en = Some action \<and> action \<noteq> []")
    case True
    then obtain en action where en: "entry = Some en" "aa_action en = Some action" "action \<noteq> []" by blast
    let ?d = "case aa_details en of None \<Rightarrow> JObject [] | Some d \<Rightarrow> d"
    have "parse_text lib (case aa_details en of None \<Rightarrow> ''{}'' | Some d \<Rightarrow> stringify lib d) = Inr ?d"
      using assms(2,3) en by (auto simp: wire_ok_def crosses_def split: option.splits)
    with ignored_answer [OF bridge_null_or_thrown(3)] show ?thesis
      using assms(3) en assms(1) by (simp add: call_bound audit_native del: bridge.simps)
  next
    case False
    then show ?thesis using assms(3) assms(1) by (cases entry) (auto split: option.splits)
  qed
qed

lemma fetch_refines:
  assumes "is_bound cfg c" and "wire_ok lib c (case call_of lib c of Inl _ \<Rightarrow> NullAnswer | Inr jc \<Rightarrow> fst (bridge env w a jc s))" and "c = AppFetch url init"
  shows "refines lib cfg env w a c s"
proof -
  let ?h = "case fi_headers init of None \<Rightarrow> JObject [] | Some h \<Rightarrow> h" and ?b = "case fi_body init of None \<Rightarrow> [] | Some b \<Rightarrow> b"
  have p: "parse_text lib (stringify lib ?h) = Inr ?h" using assms(2,3) by (simp add: wire_ok_def crosses_def)
  show ?thesis
  proof (cases "url = None \<or> url = Some []")
    case True
      then show ?thesis using assms(3) by auto
  next
    case False
    then obtain u where u: "url = Some u" "u \<noteq> []" by auto
    show ?thesis
    proof (cases "headers_of lib ?h")
      case (Inl e)
      then show ?thesis using p assms(3) u assms(1) rejected_arguments(1) [of lib "''headers: '' @ e" s] by (simp add: call_bound native_fetch_def rbind_def)
    next
      case (Inr hs)
      let ?r = "\<lparr>fr_method = fetch_method init, fr_url = u, fr_headers = hs, fr_body = as_bytes ?b\<rparr>"
      have "wire_ok lib c (fst (bridge env w a (Fetch ?r) s))" using assms(2,3) u Inr by simp
      from parsed_answer [OF this bridge_not_null(4)] have "parsed lib (check_answer (native_fetch lib env (fetch_method init) u (stringify lib ?h) ?b s)) = answered lib (bridge env w a (Fetch ?r) s)"
        unfolding fetch_native [OF p Inr, of env "fetch_method init" u ?b s w a] by simp
      then show ?thesis using assms(3) u Inr assms(1) by (simp add: call_bound)
    qed
  qed
qed



section \<open>Mail from a hook\<close>

text \<open>How a call of \<open>$app.mailer.send\<close> fails: with an exception (as text, and its message), or stopped by the engine.\<close>

datatype js_stop = Threw string string | Stopped string bool

fun send_before ::
  "(js_call \<Rightarrow> 's \<Rightarrow> js_answer \<times> 's) \<Rightarrow> js_fn list \<Rightarrow> js_heap \<Rightarrow> hook_request \<Rightarrow> hook_payload \<Rightarrow> 's
    \<Rightarrow> (js_stop + hook_payload) \<times> js_heap \<times> 's" where
  "send_before br [] h req p s = (Inr p, h, s)"
| "send_before br (fn # fns) h req p s =
     (case run_js br (fn h req None p) s of
        ((h', JsReturn p' _), s') \<Rightarrow> send_before br fns h' req p' s'
      | ((h', JsThrow shown m _), s') \<Rightarrow> (Inl (Threw shown m), h', s')
      | ((h', JsAbort m crossed), s') \<Rightarrow> (Inl (Stopped m crossed), h', s'))"

fun send_after ::
  "(js_call \<Rightarrow> 's \<Rightarrow> js_answer \<times> 's) \<Rightarrow> js_fn list \<Rightarrow> js_heap \<Rightarrow> string list \<Rightarrow> hook_request \<Rightarrow> hook_payload \<Rightarrow> 's
    \<Rightarrow> (js_stop + unit) \<times> js_heap \<times> string list \<times> 's" where
  "send_after br [] h errs req p s = (Inr (), h, errs, s)"
| "send_after br (fn # fns) h errs req p s =
     (case run_js br (fn h req None p) s of
        ((h', JsReturn p' _), s') \<Rightarrow> send_after br fns h' errs req p' s'
      | ((h', JsThrow shown m p'), s') \<Rightarrow> send_after br fns h' (errs @ [shown]) req p' s'
      | ((h', JsAbort m crossed), s') \<Rightarrow> (Inl (Stopped m crossed), h', errs, s'))"

definition message_json :: "hook_payload \<Rightarrow> json" where
  "message_json p = (case p of MessagePayload j \<Rightarrow> j | UserPayload j \<Rightarrow> j | _ \<Rightarrow> JNull)"

definition app_mailer_send ::
  "wire \<Rightarrow> app_hooks_config \<Rightarrow> env \<Rightarrow> string \<Rightarrow> string \<Rightarrow> hook_request \<Rightarrow> json option \<Rightarrow> app_hooks \<Rightarrow> server
    \<Rightarrow> (js_stop + unit) \<times> app_hooks \<times> server" where
  "app_mailer_send lib cfg env w a req msg hk s = (case msg of
      None \<Rightarrow> (let m = ''$app.mailer.send: message must be an object'' in (Inl (Threw (''Error: '' @ m) m), hk, s))
    | Some j \<Rightarrow>
        (case send_before (bridge env w a) (ah_handlers hk ''_mail:mailer_before_send'') (ah_heap hk) req (MessagePayload j) s of
           (Inl e, h, s1) \<Rightarrow> (Inl e, hk\<lparr>ah_heap := h\<rparr>, s1)
         | (Inr p, h, s1) \<Rightarrow>
             (case app_call lib cfg env w a (AppSend (message_json p)) s1 of
                (Inl e, s2) \<Rightarrow> (Inl (Threw (''Error: '' @ e) e), hk\<lparr>ah_heap := h\<rparr>, s2)
              | (Inr _, s2) \<Rightarrow>
                  (case send_after (bridge env w a) (ah_handlers hk ''_mail:mailer_after_send'') h (ah_errors hk) req p s2 of
                     (r, h', errs, s3) \<Rightarrow> (r, hk\<lparr>ah_heap := h', ah_errors := errs\<rparr>, s3)))))"

text \<open>A handler that calls nothing of the server.\<close>

definition quiet :: "js_fn \<Rightarrow> bool" where
  "quiet fn \<longleftrightarrow> (\<forall>h req sec p. \<exists>h' r. fn h req sec p = JsDone h' r)"

lemma quiet_run: "quiet fn \<Longrightarrow> \<exists>h' r. run_js br (fn h req sec p) s = ((h', r), s)"
  unfolding quiet_def by (metis run_js.simps(1))

lemma send_before_quiet: "\<forall>fn \<in> set fns. quiet fn \<Longrightarrow> snd (snd (send_before br fns h req p s)) = s"
proof (induction fns arbitrary: h p)
  case (Cons fn fns)
  obtain h' r where "run_js br (fn h req None p) s = ((h', r), s)" using Cons.prems quiet_run by (meson list.set_intros(1))
  then show ?case using Cons by (cases r) auto
qed simp

lemma send_after_quiet:
  "\<forall>fn \<in> set fns. quiet fn \<Longrightarrow> snd (snd (snd (send_after br fns h errs req p s))) = s
    \<and> (\<forall>shown m. fst (send_after br fns h errs req p s) \<noteq> Inl (Threw shown m))"
proof (induction fns arbitrary: h errs p)
  case (Cons fn fns)
  obtain h' r where "run_js br (fn h req None p) s = ((h', r), s)" using Cons.prems quiet_run by (meson list.set_intros(1))
  then show ?case using Cons by (cases r) auto
qed simp

lemma mail_outbox:
  "(fst (bridge env w a (MailerSend m) s) = NullAnswer \<longrightarrow> sv_outbox (snd (bridge env w a (MailerSend m) s)) = sv_outbox s @ [m])
    \<and> (fst (bridge env w a (MailerSend m) s) \<noteq> NullAnswer \<longrightarrow> sv_outbox (snd (bridge env w a (MailerSend m) s)) = sv_outbox s)"
  by (auto simp: bridge_mail_def quoted_send_def mailer_send_def Let_def split: prod.splits sum.splits option.splits)

lemma app_send_outbox:
  assumes "app_call lib cfg env w a (AppSend j) s = (r, s')"
  shows "case r of Inl _ \<Rightarrow> sv_outbox s' = sv_outbox s
    | Inr _ \<Rightarrow> (\<exists>j' m. parse_text lib (stringify lib j) = Inr j' \<and> read_message lib j' = Inr m \<and> sv_outbox s' = sv_outbox s @ [m])"
proof -
  consider "\<not> hc_mailer cfg" | "hc_mailer cfg" "\<exists>e. rbind (parse_text lib (stringify lib j)) (read_message lib) = Inl e"
    | j' m where "hc_mailer cfg" "parse_text lib (stringify lib j) = Inr j'" "read_message lib j' = Inr m"
  proof (cases "rbind (parse_text lib (stringify lib j)) (read_message lib)")
    case (Inl e)
    then show thesis using that(1,2) by blast
  next
    case (Inr m)
    then obtain j' where "parse_text lib (stringify lib j) = Inr j'" "read_message lib j' = Inr m" by (auto simp: rbind_def split: sum.splits)
    then show thesis using that(1,3) by blast
  qed
  then show ?thesis
  proof cases
    case 1
    then show ?thesis using assms by (auto simp: call_native_def ignored_def rbind_def)
  next
    case 2
    then show ?thesis using assms rejected_arguments(2) by (auto simp: call_bound native_mailer_send_def)
  next
    case (3 j' m)
    have "app_call lib cfg env w a (AppSend j) s = answered lib (bridge env w a (MailerSend m) s)"
      using 3(1) ignored_answer [OF bridge_null_or_thrown(2)] by (simp add: call_bound mail_native [OF 3(2,3)] del: bridge.simps)
    then have "r = js_value lib (fst (bridge env w a (MailerSend m) s))" "s' = snd (bridge env w a (MailerSend m) s)" using assms by auto
    then show ?thesis using mail_outbox [of env w a m s] bridge_null_or_thrown(2) [of env w a m s] 3(2,3) by (auto simp del: bridge.simps)
  qed
qed




section \<open>Examples\<close>

definition demo_message :: json where
  "demo_message = JObject [(''from'', JString ''x''), (''to'', JString ''y''), (''subject'', JString ''z''), (''text'', JString ''t'')]"

definition demo_response :: json where
  "demo_response = JObject [(''status'', JNumber (PosInt 200)), (''headers'', JObject []), (''body'', JString ''ok'')]"

definition demo_wire :: wire where
  "demo_wire = \<lparr>stringify = (\<lambda>j. if j = JObject [] then ''{}'' else if j = demo_message then ''{m}'' else ''{r}''),
     parse_text = (\<lambda>t. Inr (if t = ''{}'' then JObject [] else if t = ''{m}'' then demo_message else demo_response)),
     rec_value = (\<lambda>_. JNull), response_value = (\<lambda>_. demo_response), fields_of = (\<lambda>_. Inr Map.empty), headers_of = (\<lambda>_. Inr Map.empty),
     message_of_seq = (\<lambda>_. Inl [])\<rparr>"

definition all_bound :: app_hooks_config where
  "all_bound = \<lparr>hc_records = True, hc_mailer = True, hc_audit = True, hc_fetcher = True\<rparr>"

definition demo_get :: app_api where
  "demo_get = AppFetch (Some ''https://api.test/x'') \<lparr>fi_method = None, fi_headers = None, fi_body = None\<rparr>"


definition mail_hooks :: app_hooks where
  "mail_hooks = \<lparr>ah_handlers = (\<lambda>k. [\<lambda>h req sec p. JsDone h (if k = ''_mail:mailer_before_send'' then JsReturn (MessagePayload demo_message) None
       else JsThrow ''Error: late'' ''late'' p)]),
     ah_heap = [], ah_errors = [], ah_limits = default_limits\<rparr>"


end
