(* ===== verification/Auth_Api.thy ===== *)
theory Auth_Api
  imports Hook_Bridge
begin

text \<open>
  The authentication handlers of \<^verbatim>\<open>rustbase-api/src/auth\<close>: \<^verbatim>\<open>login.rs\<close>, \<^verbatim>\<open>refresh.rs\<close>,
  \<^verbatim>\<open>logout.rs\<close>, \<^verbatim>\<open>register.rs\<close>, \<^verbatim>\<open>password_reset.rs\<close>, \<^verbatim>\<open>verify_email.rs\<close>,
  \<^verbatim>\<open>email_otp.rs\<close> and \<^verbatim>\<open>totp.rs\<close>, and the user administration of \<^verbatim>\<open>users.rs\<close>. Metrics and log
  lines are left out; a dash that is no Latin-1 character is written \<open>-\<close> in messages.
\<close>

section \<open>Login\<close>

definition master_subject :: "string \<Rightarrow> string" where
  "master_subject username = ''master:'' @ username"

definition workspace_admin_subject :: "string \<Rightarrow> string \<Rightarrow> string" where
  "workspace_admin_subject w email = ''workspace:'' @ w @ '':admin:'' @ email"

definition user_subject :: "string \<Rightarrow> string \<Rightarrow> string" where
  "user_subject w email = ''workspace:'' @ w @ '':user:'' @ email"

definition note_and_audit ::
  "env \<Rightarrow> scope \<Rightarrow> string \<Rightarrow> string \<Rightarrow> json \<Rightarrow> (nat \<Rightarrow> json) \<Rightarrow> core_error \<Rightarrow> 'a handler" where
  "note_and_audit env sc subject target failed_details locked_details err s =
     (case note_failure (clock env) (sv_attempts s) subject (sv_lockout s) of
        (r, a) \<Rightarrow>
          let s' = s\<lparr>sv_attempts := a\<rparr> in
          (case r of
             Inr _ \<Rightarrow> (Inl err, record_audit env LoginFailed sc subject (Some target) failed_details s')
           | Inl (TooManyRequests secs) \<Rightarrow>
               (Inl (TooManyRequests secs), record_audit env LoginLocked sc subject (Some target) (locked_details secs) s')
           | Inl other \<Rightarrow> (Inl other, s')))"

definition retry_after :: "nat \<Rightarrow> string \<times> json" where
  "retry_after secs = (''retry_after_secs'', JNumber (PosInt secs))"

definition record_failure_and_pick_error :: "env \<Rightarrow> scope \<Rightarrow> string \<Rightarrow> string \<Rightarrow> 'a handler" where
  "record_failure_and_pick_error env sc subject target =
     note_and_audit env sc subject target (JObject []) (\<lambda>secs. JObject [retry_after secs]) Unauthorized"

definition check_attempts :: "env \<Rightarrow> string \<Rightarrow> unit handler" where
  "check_attempts env subject s = (attempts_check (clock env) (sv_attempts s) subject (sv_lockout s), s)"

definition clear_attempts :: "string \<Rightarrow> unit handler" where
  "clear_attempts subject s = (Inr (), s\<lparr>sv_attempts := note_success (sv_attempts s) subject\<rparr>)"

definition issue_access :: "env \<Rightarrow> string \<Rightarrow> token_role \<Rightarrow> string option \<Rightarrow> string handler" where
  "issue_access env subject r w =
     lift_auth (jwt_issue (jwt env) (issuer env)
       (build_claims (fresh_jti env) (clock env) subject r w None default_access_ttl))"

definition audit_success :: "env \<Rightarrow> scope \<Rightarrow> string \<Rightarrow> string \<Rightarrow> json \<Rightarrow> unit handler" where
  "audit_success env sc subject target details s =
     (Inr (), record_audit env LoginSuccess sc subject (Some target) details s)"

record login_response =
  lr_access :: string
  lr_refresh :: string
  lr_subject :: string

definition master_admin_login :: "env \<Rightarrow> string \<Rightarrow> string \<Rightarrow> login_response handler" where
  "master_admin_login env username password =
     hbind (lift (validate_request env [(''username'', valid_length 1 (Some 100) username), (''password'', valid_length 1 None password)])) (\<lambda>_.
     let subject = master_subject username; fail = record_failure_and_pick_error env MasterScope subject username in
     hbind (check_attempts env subject) (\<lambda>_.
     hbind (\<lambda>s. (Inr (find_master_admin_by_username (sys_master_admins (sv_system s)) username), s)) (\<lambda>found.
     case found of
       None \<Rightarrow> fail
     | Some admin \<Rightarrow>
         (case ma_password_hash admin of
            None \<Rightarrow> fail
          | Some hash \<Rightarrow>
              hbind (lift_auth (verify_password env password hash)) (\<lambda>ok.
              if \<not> ok then fail
              else hbind (clear_attempts subject) (\<lambda>_.
                hbind (issue_access env (ma_id admin) MasterAdminRole None) (\<lambda>access.
                hbind (on_system (\<lambda>db. case db_stmt env (insert_refresh_token (sha256 env) (clock env) (sys_tokens db)
                          (fresh_refresh env) MasterAdminKind (ma_id admin) default_refresh_ttl) of
                        (r, t) \<Rightarrow> (r, db\<lparr>sys_tokens := t\<rparr>))) (\<lambda>_.
                hbind (audit_success env MasterScope subject (ma_username admin)
                        (JObject [(''admin_id'', JString (ma_id admin))])) (\<lambda>_.
                hret \<lparr>lr_access = access, lr_refresh = fresh_refresh env, lr_subject = ma_id admin\<rparr>)))))))))"

definition workspace_admin_login :: "env \<Rightarrow> string \<Rightarrow> string \<Rightarrow> string \<Rightarrow> login_response handler" where
  "workspace_admin_login env w email password =
     hbind (lift (validate_request env [(''email'', valid_email env email), (''password'', valid_length 1 None password)])) (\<lambda>_.
     let subject = workspace_admin_subject w email; fail = record_failure_and_pick_error env (WorkspaceScope w) subject email in
     hbind (check_attempts env subject) (\<lambda>_.
     hbind (on_workspace env w ''workspace_admins'' (\<lambda>db. (Inr (find_workspace_admin_by_email (ws_workspace_admins db) email), db))) (\<lambda>found.
     case found of
       None \<Rightarrow> fail
     | Some admin \<Rightarrow>
         hbind (lift_auth (verify_password env password (wa_password_hash admin))) (\<lambda>ok.
         if \<not> ok then fail
         else hbind (clear_attempts subject) (\<lambda>_.
           hbind (issue_access env (wa_id admin) WorkspaceAdminRole (Some w)) (\<lambda>access.
           hbind (on_workspace env w ''_refresh_tokens'' (\<lambda>db. case db_stmt env (insert_refresh_token (sha256 env) (clock env) (ws_tokens db)
                     (fresh_refresh env) WorkspaceAdminKind (wa_id admin) default_refresh_ttl) of
                   (r, t) \<Rightarrow> (r, db\<lparr>ws_tokens := t\<rparr>))) (\<lambda>_.
           hbind (audit_success env (WorkspaceScope w) subject (wa_email admin)
                   (JObject [(''admin_id'', JString (wa_id admin))])) (\<lambda>_.
           hret \<lparr>lr_access = access, lr_refresh = fresh_refresh env, lr_subject = wa_id admin\<rparr>))))))))"

datatype user_login_response =
    Tokens login_response bool
  | MfaRequired string

definition user_public :: "user \<Rightarrow> bool \<Rightarrow> json" where
  "user_public u verified = JObject [(''id'', JString (u_id u)), (''email'', JString (u_email u)), (''verified'', JBool verified)]"

definition user_hook_request :: "string \<Rightarrow> app \<Rightarrow> hook_request" where
  "user_hook_request w a = system_request w (a_id a) ''_user''"

definition before_login_hook :: "env \<Rightarrow> string \<Rightarrow> json \<Rightarrow> app \<Rightarrow> unit handler" where
  "before_login_hook env w public a s =
     (case dispatch_user_before_login env w (a_id a) (user_hook_request w a) public s of
        (Inl (Veto _), s') \<Rightarrow> (Inl Forbidden, s')
      | (Inl other, s') \<Rightarrow> (Inl (Internal (runtime_error_str (show_i64 env) other)), s')
      | (Inr _, s') \<Rightarrow> (Inr (), s'))"

fun fire_before_login :: "env \<Rightarrow> string \<Rightarrow> json \<Rightarrow> app list \<Rightarrow> unit handler" where
  "fire_before_login env w public [] = hret ()"
| "fire_before_login env w public (a # as) =
     hbind (before_login_hook env w public a) (\<lambda>_. fire_before_login env w public as)"

fun fire_after_login :: "env \<Rightarrow> string \<Rightarrow> json \<Rightarrow> app list \<Rightarrow> unit handler" where
  "fire_after_login env w public [] = hret ()"
| "fire_after_login env w public (a # as) =
     hbind (observe (dispatch_user_after_login env w (a_id a) (user_hook_request w a) public)) (\<lambda>_.
       fire_after_login env w public as)"

fun fire_after_register :: "env \<Rightarrow> string \<Rightarrow> json \<Rightarrow> app list \<Rightarrow> unit handler" where
  "fire_after_register env w public [] = hret ()"
| "fire_after_register env w public (a # as) =
     hbind (observe (dispatch_user_after_register env w (a_id a) (user_hook_request w a) public)) (\<lambda>_.
       fire_after_register env w public as)"

definition is_user_totp_enabled :: "env \<Rightarrow> string \<Rightarrow> string \<Rightarrow> bool handler" where
  "is_user_totp_enabled env w user =
     on_workspace env w ''_user_totp'' (\<lambda>db. db_stmt env
       (case totp_find (ws_totps db) user of
          Inl e \<Rightarrow> Inl e
        | Inr r \<Rightarrow> Inr (case r of None \<Rightarrow> False | Some t \<Rightarrow> ut_enabled t), db))"

definition issue_mfa_challenge :: "env \<Rightarrow> string \<Rightarrow> string \<Rightarrow> string handler" where
  "issue_mfa_challenge env w user =
     hbind (on_workspace env w ''_mfa_challenges'' (\<lambda>db.
       case db_stmt env (mfa_challenge_issue (sha256 env) (clock env) (map u_id (ws_users db)) (ws_challenges db)
              (fresh_secret env) user (minutes 5)) of
         (r, t) \<Rightarrow> (r, db\<lparr>ws_challenges := t\<rparr>))) (\<lambda>_. hret (fresh_secret env))"

definition finish_user_login :: "env \<Rightarrow> string \<Rightarrow> string \<Rightarrow> string handler" where
  "finish_user_login env w user =
     hbind (issue_access env user UserRole (Some w)) (\<lambda>access.
     hbind (on_workspace env w ''users'' (\<lambda>db. db_stmt env
       (commit_user_login (sha256 env) (clock env) db user (fresh_refresh env) default_refresh_ttl))) (\<lambda>_.
     hret access))"

definition user_login :: "env \<Rightarrow> string \<Rightarrow> string \<Rightarrow> string \<Rightarrow> user_login_response handler" where
  "user_login env w email password =
     hbind (lift (validate_request env [(''email'', valid_email env email), (''password'', valid_length 1 None password)])) (\<lambda>_.
     let subject = user_subject w email; fail = record_failure_and_pick_error env (WorkspaceScope w) subject email in
     hbind (check_attempts env subject) (\<lambda>_.
     hbind (require_workspace_exists w) (\<lambda>_.
     hbind (on_workspace env w ''users'' (\<lambda>db. (Inr (find_user_by_email (ws_users db) email), db))) (\<lambda>found.
     case found of
       None \<Rightarrow> fail
     | Some user \<Rightarrow>
         (case u_password_hash user of
            None \<Rightarrow> fail
          | Some hash \<Rightarrow>
              hbind (lift_auth (verify_password env password hash)) (\<lambda>ok.
              if \<not> ok then fail
              else hbind (is_user_totp_enabled env w (u_id user)) (\<lambda>totp.
                hbind (if totp then hret () else clear_attempts subject) (\<lambda>_.
                hbind (on_workspace env w ''apps'' (\<lambda>db. (Inr (list_apps (ws_apps db)), db))) (\<lambda>as.
                hbind (fire_before_login env w (user_public user (u_verified user)) as) (\<lambda>_.
                if totp
                then hbind (issue_mfa_challenge env w (u_id user)) (\<lambda>t. hret (MfaRequired t))
                else hbind (finish_user_login env w (u_id user)) (\<lambda>access.
                  hbind (audit_success env (WorkspaceScope w) subject (u_email user)
                          (JObject [(''user_id'', JString (u_id user))])) (\<lambda>_.
                  hbind (fire_after_login env w (user_public user (u_verified user)) as) (\<lambda>_.
                  hret (Tokens \<lparr>lr_access = access, lr_refresh = fresh_refresh env, lr_subject = u_id user\<rparr> (u_verified user)))))))))))))))"

section \<open>Refresh and logout\<close>

definition pick_refresh_token :: "headers \<Rightarrow> string option \<Rightarrow> string option" where
  "pick_refresh_token h body =
     (case body of
        Some tok \<Rightarrow> if tok \<noteq> [] then Some tok else read_cookie h REFRESH_COOKIE
      | None \<Rightarrow> read_cookie h REFRESH_COOKIE)"

definition refresh_tokens_in ::
  "env \<Rightarrow> refresh_tokens \<Rightarrow> string \<Rightarrow> subject_kind \<Rightarrow> (core_error, refresh_tokens, string) stmt" where
  "refresh_tokens_in env t presented kind =
     (case find_active_refresh_token (sha256 env) (clock env) t presented kind of
        None \<Rightarrow> (Inl Unauthorized, t)
      | Some existing \<Rightarrow>
          (case db_stmt env (rotate_refresh_token (sha256 env) (clock env) t presented (fresh_refresh env) kind
                  (rt_subject_id existing) default_refresh_ttl) of
             (Inl e, t') \<Rightarrow> (Inl e, t')
           | (Inr _, t') \<Rightarrow> (Inr (rt_subject_id existing), t')))"

definition master_admin_refresh :: "env \<Rightarrow> headers \<Rightarrow> string option \<Rightarrow> login_response handler" where
  "master_admin_refresh env h body =
     (case pick_refresh_token h body of
        None \<Rightarrow> hfail Unauthorized
      | Some presented \<Rightarrow>
          hbind (on_system (\<lambda>db. case refresh_tokens_in env (sys_tokens db) presented MasterAdminKind of
                   (r, t) \<Rightarrow> (r, db\<lparr>sys_tokens := t\<rparr>))) (\<lambda>subject.
          hbind (issue_access env subject MasterAdminRole None) (\<lambda>access.
          hret \<lparr>lr_access = access, lr_refresh = fresh_refresh env, lr_subject = subject\<rparr>)))"

definition workspace_refresh :: "env \<Rightarrow> string \<Rightarrow> string \<Rightarrow> subject_kind \<Rightarrow> token_role \<Rightarrow> login_response handler" where
  "workspace_refresh env w presented kind r =
     hbind (on_workspace env w ''_refresh_tokens'' (\<lambda>db. case refresh_tokens_in env (ws_tokens db) presented kind of
              (x, t) \<Rightarrow> (x, db\<lparr>ws_tokens := t\<rparr>))) (\<lambda>subject.
     hbind (issue_access env subject r (Some w)) (\<lambda>access.
     hret \<lparr>lr_access = access, lr_refresh = fresh_refresh env, lr_subject = subject\<rparr>))"

definition user_refresh :: "env \<Rightarrow> string \<Rightarrow> headers \<Rightarrow> string option \<Rightarrow> login_response handler" where
  "user_refresh env w h body =
     hbind (require_workspace_exists w) (\<lambda>_.
     case pick_refresh_token h body of
       None \<Rightarrow> hfail Unauthorized
     | Some presented \<Rightarrow> workspace_refresh env w presented UserKind UserRole)"

definition workspace_admin_refresh :: "env \<Rightarrow> string \<Rightarrow> headers \<Rightarrow> string option \<Rightarrow> login_response handler" where
  "workspace_admin_refresh env w h body =
     (case pick_refresh_token h body of
        None \<Rightarrow> hfail Unauthorized
      | Some presented \<Rightarrow> workspace_refresh env w presented WorkspaceAdminKind WorkspaceAdminRole)"

definition logout :: "env \<Rightarrow> headers \<Rightarrow> string option \<Rightarrow> unit handler" where
  "logout env h body =
     (case pick_refresh_token h body of
        None \<Rightarrow> hret ()
      | Some tok \<Rightarrow> on_system (\<lambda>db. (Inr (), db\<lparr>sys_tokens := revoke_refresh_token (sha256 env) (sys_tokens db) tok\<rparr>)))"

section \<open>Registration, reset and verification\<close>

definition user_register :: "env \<Rightarrow> string \<Rightarrow> string \<Rightarrow> string \<Rightarrow> (string \<times> string) handler" where
  "user_register env w email password =
     hbind (lift (validate_request env [(''email'', valid_email env email), (''password'', valid_length 8 (Some 256) password)])) (\<lambda>_.
     hbind (require_workspace_exists w) (\<lambda>_.
     hbind (on_workspace env w ''users'' (\<lambda>db.
       (if find_user_by_email (ws_users db) email \<noteq> None
        then Inl (Conflict (''email '' @ [CHR 0x27] @ email @ [CHR 0x27] @ '' already registered in workspace '' @ [CHR 0x27] @ w @ [CHR 0x27]))
        else Inr (), db))) (\<lambda>_.
     hbind (lift_auth (hash_password env password)) (\<lambda>hash.
     hbind (on_workspace env w ''users'' (\<lambda>db. case db_stmt env (insert_user (fresh_uuid env) (clock env) (ws_users db) email hash) of
         (Inl e, t) \<Rightarrow> (Inl e, db)
       | (Inr u, t) \<Rightarrow> (Inr u, db\<lparr>ws_users := t\<rparr>))) (\<lambda>user.
     hbind (on_workspace env w ''apps'' (\<lambda>db. (Inr (list_apps (ws_apps db)), db))) (\<lambda>as.
     hbind (fire_after_register env w (user_public user (u_verified user)) as) (\<lambda>_.
     hret (u_id user, u_email user))))))))"

definition SYSTEM_FROM_ADDRESS :: string where
  "SYSTEM_FROM_ADDRESS = ''no-reply@rustbase.local''"

definition nl :: string where
  "nl = [CHR 0x0A]"

definition reset_mail :: "string \<Rightarrow> string \<Rightarrow> string \<Rightarrow> email_message" where
  "reset_mail w to token =
     email_message_new SYSTEM_FROM_ADDRESS to (''Reset your password for '' @ w)
       (''Hello,'' @ nl @ nl @ ''Use the following token to reset your password:'' @ nl @ nl @ token @ nl @ nl @
        ''This token is valid for 60 minutes. If you didn'' @ [CHR 0x27] @ ''t request this, you can safely ignore this email.'' @ nl)"

definition reset_request :: "env \<Rightarrow> string \<Rightarrow> string \<Rightarrow> string handler" where
  "reset_request env w email =
     (let generic = ''if that email is registered, a reset link has been sent'' in
     hbind (lift (validate_request env [(''email'', valid_email env email)])) (\<lambda>_.
     hbind (require_workspace_exists w) (\<lambda>_.
     hbind (on_workspace env w ''users'' (\<lambda>db. (Inr (find_user_by_email (ws_users db) email), db))) (\<lambda>found.
     case found of
       None \<Rightarrow> hret generic
     | Some user \<Rightarrow>
         hbind (on_workspace env w ''_password_resets'' (\<lambda>db.
           case db_stmt env (password_reset_issue (sha256 env) (clock env) (map u_id (ws_users db)) (ws_resets db)
                  (fresh_secret env) (u_id user) (minutes 60)) of
             (r, t) \<Rightarrow> (r, db\<lparr>ws_resets := t\<rparr>))) (\<lambda>_.
         \<lambda>s. (Inr generic, snd (send_mail env (reset_mail w (u_email user) (fresh_secret env)) s)))))))"

definition reset_confirm :: "env \<Rightarrow> string \<Rightarrow> string \<Rightarrow> string \<Rightarrow> string handler" where
  "reset_confirm env w token new_password =
     hbind (lift (validate_request env [(''new_password'', valid_length 8 (Some 256) new_password)])) (\<lambda>_.
     hbind (require_workspace_exists w) (\<lambda>_.
     hbind (on_workspace env w ''_password_resets'' (\<lambda>db.
       case password_reset_consume (sha256 env) (clock env) (ws_resets db) token of
         (out, t) \<Rightarrow>
           (case out of
              ConsumeOk user \<Rightarrow> Inr user
            | Unknown \<Rightarrow> Inl (NotFound ''password_reset'' token)
            | AlreadyConsumed \<Rightarrow> Inl (Conflict ''reset token already used'')
            | Expired \<Rightarrow> Inl (Conflict ''reset token expired''), db\<lparr>ws_resets := t\<rparr>))) (\<lambda>user.
     hbind (lift_auth (hash_password env new_password)) (\<lambda>hash.
     on_workspace env w ''users'' (\<lambda>db.
       (Inr user, db\<lparr>ws_users := set_password_hash (ws_users db) user hash,
                     ws_resets := snd (invalidate_all_for_user (clock env) (ws_resets db) user)\<rparr>))))))"

definition verify_mail :: "string \<Rightarrow> string \<Rightarrow> string \<Rightarrow> email_message" where
  "verify_mail w to token =
     email_message_new SYSTEM_FROM_ADDRESS to (''Verify your email for '' @ w)
       (''Hello,'' @ nl @ nl @ ''Use the following token to verify your email address:'' @ nl @ nl @ token @ nl @ nl @
        ''This token is valid for 24 hours.'' @ nl)"

definition verify_request :: "env \<Rightarrow> claims \<Rightarrow> string \<Rightarrow> string handler" where
  "verify_request env c w =
     hbind (lift (require_user_in_workspace c w)) (\<lambda>_.
     hbind (require_workspace_exists w) (\<lambda>_.
     hbind (on_workspace env w ''users'' (\<lambda>db.
       (case find_user_by_id (ws_users db) (sub c) of None \<Rightarrow> Inl (NotFound ''user'' (sub c)) | Some u \<Rightarrow> Inr u, db))) (\<lambda>user.
     if u_verified user then hret ''already verified''
     else hbind (on_workspace env w ''_email_verifications'' (\<lambda>db.
           case db_stmt env (email_verification_issue (sha256 env) (clock env) (map u_id (ws_users db)) (ws_verifications db)
                  (fresh_secret env) (u_id user) (hours 24)) of
             (r, t) \<Rightarrow> (r, db\<lparr>ws_verifications := t\<rparr>))) (\<lambda>_.
         \<lambda>s. case send_mail env (verify_mail w (u_email user) (fresh_secret env)) s of
               (Inl e, s') \<Rightarrow> (Inl (Internal (''mailer: '' @ mailer_error_str e)), s')
             | (Inr _, s') \<Rightarrow> (Inr ''verification email sent'', s')))))"

definition verify_confirm :: "env \<Rightarrow> string \<Rightarrow> string \<Rightarrow> string handler" where
  "verify_confirm env w token =
     hbind (require_workspace_exists w) (\<lambda>_.
     on_workspace env w ''_email_verifications'' (\<lambda>db.
       case email_verification_consume (sha256 env) (clock env) (ws_verifications db) token of
         (out, t) \<Rightarrow>
           (case out of
              ConsumeOk user \<Rightarrow> (Inr user, db\<lparr>ws_verifications := t, ws_users := mark_verified (ws_users db) user\<rparr>)
            | Unknown \<Rightarrow> (Inl (NotFound ''email_verification'' token), db\<lparr>ws_verifications := t\<rparr>)
            | AlreadyConsumed \<Rightarrow> (Inl (Conflict ''verification token already used''), db\<lparr>ws_verifications := t\<rparr>)
            | Expired \<Rightarrow> (Inl (Conflict ''verification token expired''), db\<lparr>ws_verifications := t\<rparr>))))"


section \<open>Email codes\<close>

definition otp_mail :: "string \<Rightarrow> string \<Rightarrow> string \<Rightarrow> email_message" where
  "otp_mail w to code =
     email_message_new SYSTEM_FROM_ADDRESS to (''Your login code for '' @ w)
       (''Hello,'' @ nl @ nl @ ''Your one-time login code is:'' @ nl @ nl @ ''  '' @ code @ nl @ nl @
        ''This code is valid for 10 minutes. If you didn'' @ [CHR 0x27] @ ''t request it, you can safely ignore this email.'' @ nl)"

definition otp_request :: "env \<Rightarrow> string \<Rightarrow> string \<Rightarrow> string handler" where
  "otp_request env w email =
     hbind (lift (validate_request env [(''email'', valid_email env email)])) (\<lambda>_.
     hbind (require_workspace_exists w) (\<lambda>_.
     hbind (on_workspace env w ''_email_otps'' (\<lambda>db.
       (Inr (), db\<lparr>ws_otps := snd (otp_issue (sha256 env) (clock env) (ws_otps db) (fresh_code env) email (minutes 10))\<rparr>))) (\<lambda>_.
     \<lambda>s. (Inr ''if that email is valid, a login code has been sent'', snd (send_mail env (otp_mail w email (fresh_code env)) s)))))"

definition find_or_create_user :: "env \<Rightarrow> string \<Rightarrow> string \<Rightarrow> (user \<times> bool) handler" where
  "find_or_create_user env w email =
     on_workspace env w ''users'' (\<lambda>db.
       case find_user_by_email (ws_users db) email of
         Some u \<Rightarrow> (Inr (u, False), if u_verified u then db else db\<lparr>ws_users := mark_verified (ws_users db) (u_id u)\<rparr>)
       | None \<Rightarrow>
           (case db_stmt env (insert_passwordless_user (fresh_uuid env) (clock env) (ws_users db) email) of
              (Inl e, t) \<Rightarrow> (Inl e, db)
            | (Inr u, t) \<Rightarrow> (Inr (u, True), db\<lparr>ws_users := mark_verified t (u_id u)\<rparr>)))"

text \<open>For each app in turn, the registration hooks of a fresh user and then the login hooks.\<close>

fun fire_otp_hooks :: "env \<Rightarrow> string \<Rightarrow> json \<Rightarrow> bool \<Rightarrow> app list \<Rightarrow> unit handler" where
  "fire_otp_hooks env w public just_signed_up [] = hret ()"
| "fire_otp_hooks env w public just_signed_up (a # as) =
     hbind (if just_signed_up then fire_after_register env w public [a] else hret ()) (\<lambda>_.
     hbind (before_login_hook env w public a) (\<lambda>_.
       fire_otp_hooks env w public just_signed_up as))"

definition issue_tokens_for :: "env \<Rightarrow> string \<Rightarrow> string \<Rightarrow> login_response handler" where
  "issue_tokens_for env w email =
     hbind (find_or_create_user env w email) (\<lambda>(user, just_signed_up).
     hbind (on_workspace env w ''apps'' (\<lambda>db. (Inr (list_apps (ws_apps db)), db))) (\<lambda>as.
     hbind (fire_otp_hooks env w (user_public user True) just_signed_up as) (\<lambda>_.
     hbind (finish_user_login env w (u_id user)) (\<lambda>access.
     hbind (fire_after_login env w (user_public user True) as) (\<lambda>_.
     hret \<lparr>lr_access = access, lr_refresh = fresh_refresh env, lr_subject = u_id user\<rparr>)))))"

definition flow :: "string \<Rightarrow> string \<times> json" where
  "flow f = (''flow'', JString f)"

definition int_json :: "int \<Rightarrow> json" where
  "int_json n = JNumber (if n < 0 then NegInt n else PosInt (nat n))"

definition otp_login :: "env \<Rightarrow> string \<Rightarrow> string \<Rightarrow> string \<Rightarrow> login_response handler" where
  "otp_login env w email code =
     hbind (lift (validate_request env [(''email'', valid_email env email), (''code'', valid_length 4 (Some 12) code)])) (\<lambda>_.
     hbind (require_workspace_exists w) (\<lambda>_.
     let subject = user_subject w email in
     hbind (check_attempts env subject) (\<lambda>_.
     hbind (on_workspace env w ''_email_otps'' (\<lambda>db.
       case otp_consume (sha256 env) (clock env) (ws_otps db) email code of
         (out, t) \<Rightarrow> (Inr out, db\<lparr>ws_otps := t\<rparr>))) (\<lambda>out.
     case out of
       OtpOk e \<Rightarrow>
         hbind (clear_attempts subject) (\<lambda>_.
         hbind (issue_tokens_for env w e) (\<lambda>res.
         hbind (audit_success env (WorkspaceScope w) subject e (JObject [flow ''email_otp''])) (\<lambda>_.
         hret res)))
     | WrongCode left \<Rightarrow>
         note_and_audit env (WorkspaceScope w) subject email
           (JObject [flow ''email_otp'', (''attempts_left'', int_json left)])
           (\<lambda>secs. JObject [flow ''email_otp'', retry_after secs])
           (Validation (''wrong code ('' @ show_i64 env left @ '' attempts left)''))
     | OtpUnknown \<Rightarrow> hfail (Conflict ''no pending code for this email - request a new one'')
     | OtpExpired \<Rightarrow> hfail (Conflict ''code expired - request a new one'')
     | Locked \<Rightarrow> hfail (Conflict ''too many wrong attempts - request a new code'')))))"

section \<open>TOTP\<close>

definition secret_for_storage :: "env \<Rightarrow> string \<Rightarrow> stored_secret handler" where
  "secret_for_storage env secret =
     (case kek env of
        None \<Rightarrow> hret (Clear secret)
      | Some k \<Rightarrow>
          (case encrypt env (as_bytes secret) k of
             Inl e \<Rightarrow> hfail (Internal (''encrypt totp secret: '' @ e))
           | Inr ct \<Rightarrow> hret (Encrypted ct)))"

definition secret_from_storage :: "env \<Rightarrow> user_totp \<Rightarrow> string handler" where
  "secret_from_storage env row =
     (case ut_secret row of
        Clear s \<Rightarrow> hret s
      | Encrypted ct \<Rightarrow>
          (case kek env of
             None \<Rightarrow> hfail (Unavailable ''this TOTP secret is encrypted but RUSTBASE_KEK is not set; restore the key that enrolled it'')
           | Some k \<Rightarrow>
               (case decrypt env ct k of
                  Inl e \<Rightarrow> hfail (Internal (''decrypt totp secret: '' @ e))
                | Inr plain \<Rightarrow>
                    (case from_utf8 env plain of
                       Inl e \<Rightarrow> hfail (Internal (''totp secret not utf-8: '' @ e))
                     | Inr s \<Rightarrow> hret s))))"

text \<open>\<open>build_totp\<close> followed by \<open>check_code\<close>; the algorithm's own errors are internal.\<close>

definition check_code :: "env \<Rightarrow> string \<Rightarrow> string \<Rightarrow> string \<Rightarrow> string \<Rightarrow> bool handler" where
  "check_code env secret w account code =
     (case check_totp env secret w account (clock env) code of Inl e \<Rightarrow> hfail (Internal e) | Inr b \<Rightarrow> hret b)"

definition find_totp :: "env \<Rightarrow> string \<Rightarrow> string \<Rightarrow> core_error \<Rightarrow> user_totp handler" where
  "find_totp env w user missing =
     hbind (on_workspace env w ''_user_totp'' (\<lambda>db. db_stmt env (totp_find (ws_totps db) user, db))) (\<lambda>r.
     case r of None \<Rightarrow> hfail missing | Some t \<Rightarrow> hret t)"

definition find_user :: "env \<Rightarrow> string \<Rightarrow> string \<Rightarrow> core_error \<Rightarrow> user handler" where
  "find_user env w user missing =
     on_workspace env w ''users'' (\<lambda>db. (case find_user_by_id (ws_users db) user of None \<Rightarrow> Inl missing | Some u \<Rightarrow> Inr u, db))"

definition totp_enroll_handler :: "env \<Rightarrow> claims \<Rightarrow> string \<Rightarrow> (string \<times> string) handler" where
  "totp_enroll_handler env c w =
     hbind (lift (require_user_in_workspace c w)) (\<lambda>_.
     hbind (require_workspace_exists w) (\<lambda>_.
     hbind (find_user env w (sub c) (NotFound ''user'' (sub c))) (\<lambda>user.
     hbind (case totp_url env (fresh_secret env) w (u_email user) of Inl e \<Rightarrow> hfail (Internal e) | Inr u \<Rightarrow> hret u) (\<lambda>url.
     hbind (secret_for_storage env (fresh_secret env)) (\<lambda>stored.
     hbind (on_workspace env w ''_user_totp'' (\<lambda>db.
       case db_stmt env (totp_enroll (clock env) (map u_id (ws_users db)) (ws_totps db) (u_id user) stored) of
         (r, t) \<Rightarrow> (r, db\<lparr>ws_totps := t\<rparr>))) (\<lambda>_.
     hret (fresh_secret env, url)))))))"

definition totp_confirm_handler :: "env \<Rightarrow> claims \<Rightarrow> string \<Rightarrow> string \<Rightarrow> string handler" where
  "totp_confirm_handler env c w code =
     hbind (lift (require_user_in_workspace c w)) (\<lambda>_.
     hbind (require_workspace_exists w) (\<lambda>_.
     hbind (find_totp env w (sub c) (Conflict ''no pending enrolment - call /enroll first'')) (\<lambda>row.
     hbind (find_user env w (sub c) Unauthorized) (\<lambda>user.
     hbind (secret_from_storage env row) (\<lambda>secret.
     hbind (check_code env secret w (u_email user) code) (\<lambda>ok.
     if \<not> ok then hfail Unauthorized
     else hbind (on_workspace env w ''_user_totp'' (\<lambda>db.
         (Inr (), db\<lparr>ws_totps := snd (totp_confirm_enabled (clock env) (ws_totps db) (sub c))\<rparr>))) (\<lambda>_.
       hret ''enabled'')))))))"

definition totp_disable_handler :: "env \<Rightarrow> claims \<Rightarrow> string \<Rightarrow> string \<Rightarrow> string handler" where
  "totp_disable_handler env c w code =
     hbind (lift (require_user_in_workspace c w)) (\<lambda>_.
     hbind (require_workspace_exists w) (\<lambda>_.
     hbind (find_totp env w (sub c) (NotFound ''user_totp'' (sub c))) (\<lambda>row.
     hbind (find_user env w (sub c) Unauthorized) (\<lambda>user.
     hbind (secret_from_storage env row) (\<lambda>secret.
     hbind (check_code env secret w (u_email user) code) (\<lambda>ok.
     if \<not> ok then hfail Unauthorized
     else hbind (on_workspace env w ''_user_totp'' (\<lambda>db.
         (Inr (), db\<lparr>ws_totps := snd (totp_disable (ws_totps db) (sub c))\<rparr>))) (\<lambda>_.
       hret ''disabled'')))))))"

definition login_totp :: "env \<Rightarrow> string \<Rightarrow> string \<Rightarrow> string \<Rightarrow> login_response handler" where
  "login_totp env w mfa_token code =
     hbind (require_workspace_exists w) (\<lambda>_.
     hbind (on_workspace env w ''_mfa_challenges'' (\<lambda>db.
       case mfa_challenge_consume (sha256 env) (clock env) (ws_challenges db) mfa_token of
         (out, t) \<Rightarrow>
           (case out of
              ConsumeOk user \<Rightarrow> Inr user
            | Unknown \<Rightarrow> Inl Unauthorized
            | AlreadyConsumed \<Rightarrow> Inl Unauthorized
            | Expired \<Rightarrow> Inl (Conflict ''mfa challenge expired - start login over''), db\<lparr>ws_challenges := t\<rparr>))) (\<lambda>user_id.
     hbind (find_totp env w user_id Unauthorized) (\<lambda>row.
     if \<not> ut_enabled row then hfail (Conflict ''TOTP not enabled - restart login'')
     else hbind (find_user env w user_id Unauthorized) (\<lambda>user.
       let subject = user_subject w (u_email user) in
       hbind (check_attempts env subject) (\<lambda>_.
       hbind (secret_from_storage env row) (\<lambda>secret.
       hbind (check_code env secret w (u_email user) code) (\<lambda>ok.
       if \<not> ok
       then note_and_audit env (WorkspaceScope w) subject (u_email user) (JObject [flow ''totp''])
              (\<lambda>secs. JObject [flow ''totp'', retry_after secs]) Unauthorized
       else hbind (clear_attempts subject) (\<lambda>_.
         hbind (finish_user_login env w (u_id user)) (\<lambda>access.
         hbind (audit_success env (WorkspaceScope w) subject (u_email user)
                 (JObject [flow ''totp'', (''user_id'', JString (u_id user))])) (\<lambda>_.
         hret \<lparr>lr_access = access, lr_refresh = fresh_refresh env, lr_subject = u_id user\<rparr>))))))))))"

section \<open>User administration\<close>

text \<open>What the answers show of a user, of its second factor and of a linked account.\<close>

record user_row_public =
  up_id :: string
  up_email :: string
  up_verified :: bool
  up_has_password :: bool
  up_last_login :: "time option"
  up_created_at :: time

definition user_row_public_of :: "user \<Rightarrow> user_row_public" where
  "user_row_public_of u = \<lparr>up_id = u_id u, up_email = u_email u, up_verified = u_verified u, up_has_password = (u_password_hash u \<noteq> None),
     up_last_login = u_last_login u, up_created_at = u_created_at u\<rparr>"

record totp_status =
  ts_enabled :: bool
  ts_enrolled_at :: time
  ts_confirmed_at :: "time option"

definition totp_status_of :: "user_totp \<Rightarrow> totp_status" where
  "totp_status_of t = \<lparr>ts_enabled = ut_enabled t, ts_enrolled_at = ut_enrolled_at t, ts_confirmed_at = ut_confirmed_at t\<rparr>"

record oauth_link_public =
  olp_provider :: string
  olp_provider_user_id :: string

definition oauth_link_public_of :: "oauth_link \<Rightarrow> oauth_link_public" where
  "oauth_link_public_of l = \<lparr>olp_provider = ol_provider l, olp_provider_user_id = ol_provider_user_id l\<rparr>"

record user_detail =
  ud_user :: user_row_public
  ud_totp :: "totp_status option"
  ud_links :: "oauth_link_public list"

record user_list =
  ul_items :: "user_row_public list"
  ul_page :: nat
  ul_per_page :: nat
  ul_total_items :: nat
  ul_total_pages :: nat

text \<open>Page and page size are \<open>u32\<close>; the rows' password hashes are reported only as present or not.\<close>

definition workspace_pool :: "env \<Rightarrow> string \<Rightarrow> string \<Rightarrow> (workspace_db \<Rightarrow> (core_error + 'a) \<times> workspace_db) \<Rightarrow> 'a handler" where
  "workspace_pool env w table f = hbind (require_workspace_exists w) (\<lambda>_. on_workspace env w table f)"

definition users_list :: "env \<Rightarrow> claims \<Rightarrow> string \<Rightarrow> nat \<Rightarrow> nat \<Rightarrow> string option \<Rightarrow> user_list handler" where
  "users_list env c w page0 per_page0 q =
     hbind (lift (require_workspace_access c w)) (\<lambda>_.
     workspace_pool env w ''users'' (\<lambda>db.
       let needle = trim (case q of None \<Rightarrow> [] | Some s \<Rightarrow> s);
           per = min (max per_page0 1) 200;
           page = max page0 1;
           offset = (int page - 1) * int per;
           total = count_users (ws_users db) needle
       in (Inr \<lparr>ul_items = map user_row_public_of (list_users (ws_users db) needle (int per) offset), ul_page = page, ul_per_page = per,
                ul_total_items = total, ul_total_pages = (total + per - 1) div per\<rparr>, db)))"

definition users_get :: "env \<Rightarrow> claims \<Rightarrow> string \<Rightarrow> string \<Rightarrow> user_detail handler" where
  "users_get env c w i =
     hbind (lift (require_workspace_access c w)) (\<lambda>_.
     workspace_pool env w ''users'' (\<lambda>db.
       case find_user_by_id (ws_users db) i of
         None \<Rightarrow> (Inl (NotFound ''user'' i), db)
       | Some u \<Rightarrow>
           (case db_stmt env (totp_find (ws_totps db) i, db) of
              (Inl e, _) \<Rightarrow> (Inl e, db)
            | (Inr t, _) \<Rightarrow> (Inr \<lparr>ud_user = user_row_public_of u, ud_totp = map_option totp_status_of t,
                ud_links = map oauth_link_public_of (list_links_for_user (ws_links db) i)\<rparr>, db))))"

definition users_verify :: "env \<Rightarrow> claims \<Rightarrow> string \<Rightarrow> string \<Rightarrow> unit handler" where
  "users_verify env c w i =
     hbind (lift (require_workspace_access c w)) (\<lambda>_.
     workspace_pool env w ''users'' (\<lambda>db.
       if find_user_by_id (ws_users db) i = None then (Inl (NotFound ''user'' i), db)
       else (Inr (), db\<lparr>ws_users := mark_verified (ws_users db) i\<rparr>)))"

definition users_reset_totp :: "env \<Rightarrow> claims \<Rightarrow> string \<Rightarrow> string \<Rightarrow> unit handler" where
  "users_reset_totp env c w i =
     hbind (lift (require_workspace_access c w)) (\<lambda>_.
     workspace_pool env w ''users'' (\<lambda>db.
       if find_user_by_id (ws_users db) i = None then (Inl (NotFound ''user'' i), db)
       else (Inr (), db\<lparr>ws_totps := snd (totp_disable (ws_totps db) i)\<rparr>)))"

definition users_delete :: "env \<Rightarrow> claims \<Rightarrow> string \<Rightarrow> string \<Rightarrow> unit handler" where
  "users_delete env c w i =
     hbind (lift (require_workspace_access c w)) (\<lambda>_.
     workspace_pool env w ''users'' (\<lambda>db.
       case delete_user db i of (n, db') \<Rightarrow> if n = 0 then (Inl (NotFound ''user'' i), db') else (Inr (), db')))"


section \<open>Running the handlers\<close>

lemmas run_simps = hbind_def hret_def hfail_def lift_def lift_auth_def lift_db_def on_workspace_def on_system_def db_stmt_def Let_def
  validate_request_def valid_length_def require_workspace_exists_def find_workspace_def check_attempts_def attempts_check_def
  lockout_default_def one_shot_find_def one_shot_row_def one_shot_insert_def one_shot_consume_def one_shot_claim_def
  find_user_by_email_def find_user_by_id_def list_apps_def minutes_def seconds_def

section \<open>Password reset\<close>

lemma invalidate_consumed:
  "x \<in> set (snd (invalidate_all_for_user now t user)) \<Longrightarrow> os_user_id x = user \<Longrightarrow> os_consumed_at x \<noteq> None"
  unfolding invalidate_all_for_user_def Let_def snd_conv by (erule in_sql_updateE) auto

lemma password_consume_Ok:
  assumes "password_reset_consume H now t token = (ConsumeOk user, t')"
  shows "\<exists>r. password_reset_find H t token = Some r \<and> os_user_id r = user \<and> os_consumed_at r = None \<and> now < os_expires_at r"
  using assms
  by (auto simp: password_reset_consume_def password_reset_find_def one_shot_consume_cases split: option.splits if_splits)



section \<open>Second factor\<close>

definition totp_on :: "totps \<Rightarrow> string \<Rightarrow> bool" where
  "totp_on t user = (case totp_find t user of Inr (Some r) \<Rightarrow> ut_enabled r | _ \<Rightarrow> False)"

lemma totp_enabled_Inr [handler]:
  "is_user_totp_enabled env w user s = (Inr b, s') \<longleftrightarrow>
   (\<exists>db r. sv_workspaces s w = Some db \<and> s' = s \<and> totp_find (ws_totps db) user = Inr r \<and> b = totp_on (ws_totps db) user)"
  by (auto simp: is_user_totp_enabled_def totp_on_def on_workspace_def db_stmt_def fun_upd_idem split: option.splits sum.splits)

lemma check_attempts_Inr [handler]: "check_attempts env subject s = (Inr y, s') \<Longrightarrow> s' = s"
  by (simp add: check_attempts_def)

lemma note_and_audit_not_Inr [handler]: "note_and_audit env sc subject target d l e s = (Inr y, s') \<longleftrightarrow> False"
  by (auto simp: note_and_audit_def Let_def split: prod.splits sum.splits core_error.splits)

lemma record_failure_not_Inr [handler]: "record_failure_and_pick_error env sc subject target s = (Inr y, s') \<longleftrightarrow> False"
  by (simp add: record_failure_and_pick_error_def handler)

text \<open>The hooks of a login leave the workspace databases alone.\<close>

lemma before_login_hook_workspaces: "sv_workspaces (snd (before_login_hook env w public a s)) = sv_workspaces s"
  using hook_effect_workspaces [OF engine_effects(5)]
  by (auto simp: before_login_hook_def split: prod.splits sum.splits runtime_error.splits)
    (metis snd_conv)+

lemma observe_workspaces:
  "sv_workspaces (snd (observe (dispatch_user_after_login env w a req u) s)) = sv_workspaces s"
  "sv_workspaces (snd (observe (dispatch_user_after_register env w a req u) s)) = sv_workspaces s"
  using hook_effect_workspaces [OF engine_effects(6)] hook_effect_workspaces [OF engine_effects(7)]
  by (simp_all add: observe_def)

lemma fire_before_login_Inr: "fire_before_login env w public as s = (Inr y, s') \<Longrightarrow> sv_workspaces s' = sv_workspaces s"
proof (induction as arbitrary: s)
  case (Cons a as)
  then show ?case using before_login_hook_workspaces [of env w public a s] by (auto simp: handler)
qed (simp add: hret_def)

lemma fire_after_login_Inr: "fire_after_login env w public as s = (Inr y, s') \<Longrightarrow> sv_workspaces s' = sv_workspaces s"
proof (induction as arbitrary: s)
  case (Cons a as)
  then show ?case using observe_workspaces(1) [of env w "a_id a" "user_hook_request w a" public s]
    by (auto simp: handler)
qed (simp add: hret_def)

lemma issue_access_Inr: "issue_access env subject r w s = (Inr y, s') \<Longrightarrow> s' = s"
  by (simp add: issue_access_def lift_auth_Inr)

lemma issue_mfa_challenge_Inr:
  assumes "issue_mfa_challenge env w user s = (Inr t, s')" and "sv_workspaces s w = Some db"
  shows "\<exists>cs. sv_workspaces s' w = Some (db\<lparr>ws_challenges := cs\<rparr>)"
  using assms by (auto simp: issue_mfa_challenge_def handler split: prod.splits)

lemma finish_user_login_Inr:
  assumes "finish_user_login env w user s = (Inr a, s')" and "sv_workspaces s w = Some db"
  shows "\<exists>r db'. s' = s\<lparr>sv_workspaces := (sv_workspaces s)(w \<mapsto> db')\<rparr>
    \<and> commit_user_login (sha256 env) (clock env) db user (fresh_refresh env) default_refresh_ttl = (Inr r, db')"
  using assms
  by (auto simp: finish_user_login_def handler dest!: issue_access_Inr)

lemma user_login_Inr:
  assumes "user_login env w email password s = (Inr resp, s')" and "sv_workspaces s w = Some db"
  shows "\<exists>u hash s1. find_user_by_email (ws_users db) email = Some u \<and> u_password_hash u = Some hash
    \<and> verify_password env password hash = Inr True \<and> sv_workspaces s1 w = Some db
    \<and> (if totp_on (ws_totps db) (u_id u)
        then \<exists>m. issue_mfa_challenge env w (u_id u) s1 = (Inr m, s') \<and> resp = MfaRequired m
        else \<exists>a s2. finish_user_login env w (u_id u) s1 = (Inr a, s2)
          \<and> sv_workspaces s' = sv_workspaces (record_audit env LoginSuccess (WorkspaceScope w) (user_subject w email) (Some (u_email u))
                 (JObject [(''user_id'', JString (u_id u))]) s2)
          \<and> resp = Tokens \<lparr>lr_access = a, lr_refresh = fresh_refresh env, lr_subject = u_id u\<rparr> (u_verified u))"
  using assms
  by (auto simp: user_login_def Let_def handler clear_attempts_def audit_success_def
      dest!: check_attempts_Inr fire_before_login_Inr fire_after_login_Inr)
    (rule exI, rule conjI [rotated], assumption, simp,
     rule exI, rule conjI [rotated], rule exI, rule conjI, assumption, simp, simp)

text \<open>C28: a password login succeeds only for a user whose password was verified. It answers with
  tokens only when no second factor is enabled, and then adds exactly one refresh token, for that user;
  when one is enabled it answers with a challenge, and no refresh token is added.\<close>

theorem password_login_respects_totp:
  assumes "user_login env w email password s = (Inr resp, s')" and "sv_workspaces s w = Some db"
  shows "\<exists>u hash db'. find_user_by_email (ws_users db) email = Some u \<and> u_password_hash u = Some hash
      \<and> verify_password env password hash = Inr True \<and> sv_workspaces s' w = Some db'
      \<and> (case resp of
           Tokens r v \<Rightarrow> \<not> totp_on (ws_totps db) (u_id u) \<and> lr_subject r = u_id u
             \<and> ws_tokens db' = ws_tokens db @ [fresh_token (sha256 env) (clock env) (lr_refresh r) UserKind (u_id u) default_refresh_ttl]
         | MfaRequired m \<Rightarrow> totp_on (ws_totps db) (u_id u) \<and> ws_tokens db' = ws_tokens db)"
proof -
  from user_login_Inr [OF assms] obtain u hash s1 where
    u: "find_user_by_email (ws_users db) email = Some u" "u_password_hash u = Some hash"
      "verify_password env password hash = Inr True" and s1: "sv_workspaces s1 w = Some db"
    and run: "if totp_on (ws_totps db) (u_id u)
        then \<exists>m. issue_mfa_challenge env w (u_id u) s1 = (Inr m, s') \<and> resp = MfaRequired m
        else \<exists>a s2. finish_user_login env w (u_id u) s1 = (Inr a, s2)
          \<and> sv_workspaces s' = sv_workspaces (record_audit env LoginSuccess (WorkspaceScope w) (user_subject w email) (Some (u_email u))
                 (JObject [(''user_id'', JString (u_id u))]) s2)
          \<and> resp = Tokens \<lparr>lr_access = a, lr_refresh = fresh_refresh env, lr_subject = u_id u\<rparr> (u_verified u)"
    by blast
  show ?thesis
  proof (cases "totp_on (ws_totps db) (u_id u)")
    case True
    then obtain m where m: "issue_mfa_challenge env w (u_id u) s1 = (Inr m, s')" "resp = MfaRequired m"
      using run by auto
    from issue_mfa_challenge_Inr [OF m(1) s1] obtain cs where "sv_workspaces s' w = Some (db\<lparr>ws_challenges := cs\<rparr>)" ..
    then show ?thesis using u True m(2) by simp
  next
    case False
    then obtain a s2 where f: "finish_user_login env w (u_id u) s1 = (Inr a, s2)"
      and s': "sv_workspaces s' = sv_workspaces (record_audit env LoginSuccess (WorkspaceScope w) (user_subject w email) (Some (u_email u))
                 (JObject [(''user_id'', JString (u_id u))]) s2)"
      and resp: "resp = Tokens \<lparr>lr_access = a, lr_refresh = fresh_refresh env, lr_subject = u_id u\<rparr> (u_verified u)"
      using run by auto
    from finish_user_login_Inr [OF f s1] obtain db' where s2: "sv_workspaces s2 w = Some db'"
      "ws_tokens db' = ws_tokens db @ [fresh_token (sha256 env) (clock env) (fresh_refresh env) UserKind (u_id u) default_refresh_ttl]"
      by (auto simp: commit_user_login_def insert_row_def split: if_splits)
    then show ?thesis using u False resp s' by (simp add: record_audit_def)
  qed
qed

theorem password_login_respects_totp_witness:
  "\<exists>s'. user_login (demo_env 1) ''acme'' ''a@b.c'' ''password'' demo_server = (Inr (MfaRequired ''s2''), s')
     \<and> (\<exists>db'. sv_workspaces s' ''acme'' = Some db' \<and> ws_tokens db' = ws_tokens demo_workspace)"
proof -
  have "\<exists>s'. user_login (demo_env 1) ''acme'' ''a@b.c'' ''password'' demo_server = (Inr (MfaRequired ''s2''), s')"
    by (simp add: user_login_def demo_simps run_simps is_user_totp_enabled_def totp_find_def secret_from_columns_def
        issue_mfa_challenge_def mfa_challenge_issue_def)
  then obtain s' where r: "user_login (demo_env 1) ''acme'' ''a@b.c'' ''password'' demo_server = (Inr (MfaRequired ''s2''), s')" ..
  have "sv_workspaces demo_server ''acme'' = Some demo_workspace" by (simp add: demo_server_def)
  from password_login_respects_totp [OF r this] r show ?thesis by auto
qed

section \<open>What a handler does not read\<close>

text \<open>\<open>commutes T m\<close>: the handler \<open>m\<close> answers the same before and after the change \<open>T\<close> of the state,
  and leaves states that differ by \<open>T\<close>.\<close>

definition commutes :: "(server \<Rightarrow> server) \<Rightarrow> 'a handler \<Rightarrow> bool" where
  "commutes T m \<longleftrightarrow> (\<forall>s. m (T s) = (fst (m s), T (snd (m s))))"

definition with_totps :: "string \<Rightarrow> totps \<Rightarrow> server \<Rightarrow> server" where
  "with_totps w t s =
     s\<lparr>sv_workspaces := (sv_workspaces s)(w := map_option (\<lambda>db. db\<lparr>ws_totps := t\<rparr>) (sv_workspaces s w))\<rparr>"

lemma commutes_hbind: "commutes T m \<Longrightarrow> (\<And>x. commutes T (f x)) \<Longrightarrow> commutes T (hbind m f)"
  by (auto simp: commutes_def hbind_def split: prod.splits sum.splits)

lemma commutes_pure: "commutes T (hret x)" "commutes T (hfail e)" "commutes T (lift r)" "commutes T (lift_auth q)"
  by (auto simp: commutes_def hret_def hfail_def lift_def lift_auth_def split: sum.splits)

lemma with_totps_map: "with_totps w t = map_workspaces (\<lambda>m. m(w := map_option (\<lambda>db. db\<lparr>ws_totps := t\<rparr>) (m w)))"
  by (simp add: with_totps_def map_workspaces_def fun_eq_iff)

lemma commutes_hooks:
  "commutes (with_totps w t) (before_login_hook env w public a)"
  "commutes (with_totps w t) (observe (dispatch_user_after_login env w' a' req u))"
  "commutes (with_totps w t) (observe (dispatch_user_after_register env w' a' req u))"
  by (auto simp: commutes_def with_totps_map before_login_hook_def observe_def engine_map_workspaces
      dispatch_user_after_login_def dispatch_user_after_register_def split: prod.splits sum.splits runtime_error.splits)

lemma commutes_fire_after:
  "commutes (with_totps w t) (fire_after_login env w' public as)"
  "commutes (with_totps w t) (fire_after_register env w' public as)"
  by (induction as) (auto intro!: commutes_pure commutes_hbind commutes_hooks)

lemma commutes_fire_otp_hooks: "commutes (with_totps w t) (fire_otp_hooks env w public new as)"
  by (induction as) (auto intro!: commutes_pure commutes_hbind commutes_hooks commutes_fire_after simp del: fire_after_register.simps)

lemma commutes_on_workspace:
  assumes "\<And>db. f (db\<lparr>ws_totps := t\<rparr>) = (fst (f db), (snd (f db))\<lparr>ws_totps := t\<rparr>)"
  shows "commutes (with_totps w t) (on_workspace env w table f)"
  using assms by (auto simp: commutes_def with_totps_def on_workspace_def split: option.splits prod.splits)

lemma commutes_attempts:
  "commutes (with_totps w t) (check_attempts env subject)"
  "commutes (with_totps w t) (clear_attempts subject)"
  "commutes (with_totps w t) (require_workspace_exists w')"
  by (auto simp: commutes_def with_totps_def check_attempts_def clear_attempts_def require_workspace_exists_def split: option.splits)

lemma totps_audit_swap: "db\<lparr>ws_totps := t, ws_audit := a\<rparr> = db\<lparr>ws_audit := a, ws_totps := t\<rparr>"
  by (cases db) simp

lemma record_audit_with_totps:
  "record_audit env out (WorkspaceScope w) subject target d (with_totps w t s) =
   with_totps w t (record_audit env out (WorkspaceScope w) subject target d s)"
  by (auto simp: record_audit_def with_totps_def totps_audit_swap split: option.splits)

lemma commutes_audit:
  "commutes (with_totps w t) (audit_success env (WorkspaceScope w) subject target d)"
  "commutes (with_totps w t) (note_and_audit env (WorkspaceScope w) subject target d l e)"
proof -
  show "commutes (with_totps w t) (audit_success env (WorkspaceScope w) subject target d)"
    by (simp add: commutes_def audit_success_def record_audit_with_totps)
  have att: "(with_totps w t s)\<lparr>sv_attempts := a\<rparr> = with_totps w t (s\<lparr>sv_attempts := a\<rparr>)" for s a
    by (simp add: with_totps_def)
  have [simp]: "sv_attempts (with_totps w t s) = sv_attempts s" "sv_lockout (with_totps w t s) = sv_lockout s" for s
    by (simp_all add: with_totps_def)
  show "commutes (with_totps w t) (note_and_audit env (WorkspaceScope w) subject target d l e)"
    by (auto simp: commutes_def note_and_audit_def att record_audit_with_totps Let_def split: prod.splits sum.splits core_error.splits)
qed

lemma commutes_finish_user_login: "commutes (with_totps w t) (finish_user_login env w user)"
  unfolding finish_user_login_def issue_access_def
  by (intro commutes_hbind commutes_pure commutes_on_workspace)
    (auto simp: db_stmt_def commit_user_login_def split: prod.splits sum.splits)

lemma commutes_find_or_create_user: "commutes (with_totps w t) (find_or_create_user env w email)"
  unfolding find_or_create_user_def
  by (intro commutes_on_workspace) (auto split: prod.splits sum.splits option.splits)

lemma commutes_issue_tokens_for: "commutes (with_totps w t) (issue_tokens_for env w email)"
  unfolding issue_tokens_for_def
  by (auto intro!: commutes_hbind commutes_find_or_create_user commutes_pure commutes_on_workspace
      commutes_fire_otp_hooks commutes_finish_user_login commutes_fire_after split: prod.splits)

lemma commutes_otp_login: "commutes (with_totps w t) (otp_login env w email code)"
  unfolding otp_login_def Let_def
  by (intro commutes_hbind commutes_pure commutes_attempts commutes_on_workspace)
    (auto split: prod.splits otp_outcome.splits intro!: commutes_hbind commutes_pure commutes_attempts commutes_audit commutes_issue_tokens_for)

text \<open>a login with an emailed code does not look at the second factor. Whatever TOTP rows the
  workspace holds, the answer is the same, and so is the state it leaves, apart from those rows: a
  user with TOTP enabled gets full tokens without a TOTP code.\<close>

theorem otp_login_ignores_totp:
  "otp_login env w email code (with_totps w t s) =
     (fst (otp_login env w email code s), with_totps w t (snd (otp_login env w email code s)))"
  using commutes_otp_login by (simp add: commutes_def)

lemma demo_hashes: "hash_token (\<lambda>x. x) ''r2'' \<noteq> hash_token (\<lambda>x. x) ''r1''"
  by (simp add: hash_token_def as_bytes_def utf8_def hex_byte_def hex_digit_def)

lemma demo_reset_hashes: "hash_token (\<lambda>x. x) ''s2'' \<noteq> hash_token (\<lambda>x. x) ''s1''"
  by (simp add: hash_token_def as_bytes_def utf8_def hex_byte_def hex_digit_def)

lemma otp_login_demo:
  "fst (otp_login (demo_env 1) ''acme'' ''a@b.c'' ''123456'' demo_server) =
     Inr \<lparr>lr_access = ''t'', lr_refresh = ''r2'', lr_subject = ''alice''\<rparr>"
  by (simp add: otp_login_def demo_simps run_simps otp_consume_def otp_current_def otp_issue_def otp_settle_def otp_claim_def
      otp_update_def clear_attempts_def issue_tokens_for_def find_or_create_user_def finish_user_login_def issue_access_def
      jwt_issue_def demo_lib_def commit_user_login_def insert_row_def fresh_token_def audit_success_def demo_hashes)

theorem otp_login_ignores_totp_witness:
  "fst (otp_login (demo_env 1) ''acme'' ''a@b.c'' ''123456'' (with_totps ''acme'' (demo_totp True) demo_server)) =
     Inr \<lparr>lr_access = ''t'', lr_refresh = ''r2'', lr_subject = ''alice''\<rparr>"
  using otp_login_ignores_totp [of "demo_env 1" "''acme''" "''a@b.c''" "''123456''" "demo_totp True" demo_server] otp_login_demo
  by simp

lemma find_user_Inr [handler]:
  "find_user env w i missing s = (Inr u, s') \<longleftrightarrow>
   (\<exists>db. sv_workspaces s w = Some db \<and> find_user_by_id (ws_users db) i = Some u \<and> s' = s)"
  by (auto simp: find_user_def on_workspace_def fun_upd_idem split: option.splits)

lemma find_user_by_id_SomeD: "find_user_by_id t i = Some u \<Longrightarrow> u \<in> set t \<and> u_id u = i"
  by (auto simp: find_user_by_id_def dest: find_SomeD)

lemma totp_enroll_off:
  assumes "totp_enroll now users t user secret = (Inr r, t')"
  shows "\<not> totp_on t' user"
proof -
  obtain clear enc where c: "secret_columns secret = (clear, enc)" by fastforce
  let ?new = "\<lparr>tp_user_id = user, tp_secret_b32 = clear, tp_secret_enc = enc,
     tp_enrolled_at = now, tp_confirmed_at = None, tp_enabled = False\<rparr>"
  let ?upd = "\<lambda>r :: totp_row. r\<lparr>tp_secret_b32 := clear, tp_secret_enc := enc, tp_enrolled_at := now,
     tp_confirmed_at := None, tp_enabled := False\<rparr>"
  have "t' = sql_upsert tp_user_id ?new ?upd t"
    using assms c by (auto simp: totp_enroll_def Let_def split: if_splits)
  with find_sql_upsert_same [of tp_user_id ?new ?upd t]
  have "List.find (\<lambda>r. tp_user_id r = user) t' =
      Some (case List.find (\<lambda>r. tp_user_id r = user) t of None \<Rightarrow> ?new | Some r \<Rightarrow> ?upd r)" by simp
  then show ?thesis by (auto simp: totp_on_def totp_find_def split: option.splits)
qed

text \<open>enrolling switches the second factor off. A user with nothing but an access token - no TOTP
  code - who calls the enrolment endpoint is left without an enabled second factor, even when one was
  enabled before, and the next password login answers with tokens.\<close>

theorem enroll_disables_totp:
  assumes "totp_enroll_handler env c w s = (Inr resp, s')"
  shows "\<exists>db'. sv_workspaces s' w = Some db' \<and> \<not> totp_on (ws_totps db') (sub c)"
  using assms
  by (auto simp: totp_enroll_handler_def handler dest!: find_user_by_id_SomeD totp_enroll_off)

theorem enroll_disables_totp_witness:
  "is_user_totp_enabled (demo_env 1) ''acme'' ''alice'' demo_server = (Inr True, demo_server) \<and>
   (\<exists>s' db'. totp_enroll_handler (demo_env 1) (build_claims ''j'' 0 ''alice'' UserRole (Some ''acme'') None 0) ''acme'' demo_server
        = (Inr (''s2'', []), s') \<and> sv_workspaces s' ''acme'' = Some db' \<and> \<not> totp_on (ws_totps db') ''alice'')"
proof
  show "is_user_totp_enabled (demo_env 1) ''acme'' ''alice'' demo_server = (Inr True, demo_server)"
    by (simp add: is_user_totp_enabled_def demo_simps run_simps totp_find_def secret_from_columns_def fun_upd_idem)
  let ?c = "build_claims ''j'' 0 ''alice'' UserRole (Some ''acme'') None 0"
  have "\<exists>s'. totp_enroll_handler (demo_env 1) ?c ''acme'' demo_server = (Inr (''s2'', []), s')"
    by (simp add: totp_enroll_handler_def demo_simps run_simps find_user_def secret_for_storage_def totp_enroll_def
        require_user_in_workspace_def user_workspace_def build_claims_def)
  then obtain s' where r: "totp_enroll_handler (demo_env 1) ?c ''acme'' demo_server = (Inr (''s2'', []), s')" ..
  from enroll_disables_totp [OF r] r
  show "\<exists>s' db'. totp_enroll_handler (demo_env 1) ?c ''acme'' demo_server = (Inr (''s2'', []), s')
      \<and> sv_workspaces s' ''acme'' = Some db' \<and> \<not> totp_on (ws_totps db') ''alice''"
    by (auto simp: build_claims_def)
qed

section \<open>Sessions of deleted users\<close>

lemma user_refresh_reads:
  assumes "sv_system s' = sv_system s" and "sv_workspaces s w = Some db" and "sv_workspaces s' w = Some db'"
    and "ws_tokens db' = ws_tokens db"
  shows "fst (user_refresh env w h body s') = fst (user_refresh env w h body s)"
  using assms
  by (auto simp: user_refresh_def workspace_refresh_def run_simps issue_access_def
      split: option.splits prod.splits sum.splits)

text \<open>deleting a user removes its row, links, one-shot tokens and second factor, but not its refresh
  tokens, and the refresh endpoint reads nothing else: every refresh that worked before the deletion
  works after it and yields the same tokens.\<close>

theorem deleted_user_refreshes:
  assumes "users_delete env c w i s = (Inr (), s')"
  shows "fst (user_refresh env2 w h body s') = fst (user_refresh env2 w h body s)"
  using assms
  by (auto simp: users_delete_def workspace_pool_def delete_user_def Let_def handler split: if_splits intro!: user_refresh_reads)

theorem deleted_user_refreshes_witness:
  "fst (user_refresh (demo_env 1) ''acme'' \<lparr>authorization = None, cookie_header = None\<rparr> (Some ''r1'')
     (snd (users_delete (demo_env 1) (build_claims ''j'' 0 ''root'' MasterAdminRole None None 0) ''acme'' ''alice'' demo_server)))
   = Inr \<lparr>lr_access = ''t'', lr_refresh = ''r2'', lr_subject = ''alice''\<rparr>"
proof -
  let ?c = "build_claims ''j'' 0 ''root'' MasterAdminRole None None 0"
  have d: "users_delete (demo_env 1) ?c ''acme'' ''alice'' demo_server =
      (Inr (), snd (users_delete (demo_env 1) ?c ''acme'' ''alice'' demo_server))"
    by (simp add: users_delete_def workspace_pool_def delete_user_def demo_simps run_simps require_workspace_access_def
        build_claims_def sql_count_def)
  have "fst (user_refresh (demo_env 1) ''acme'' \<lparr>authorization = None, cookie_header = None\<rparr> (Some ''r1'') demo_server) =
      Inr \<lparr>lr_access = ''t'', lr_refresh = ''r2'', lr_subject = ''alice''\<rparr>"
    by (simp add: user_refresh_def workspace_refresh_def pick_refresh_token_def refresh_tokens_in_def demo_simps run_simps
        find_active_refresh_token_def rotate_refresh_token_def revoke_refresh_token_def insert_row_def fresh_token_def
        days_def hours_def issue_access_def jwt_issue_def demo_lib_def demo_hashes)
  with deleted_user_refreshes [OF d] show ?thesis by simp
qed

section \<open>Lockout and account enumeration\<close>

text \<open>while a subject is locked out, no login for it gets as far as a password or a code: every
  well-formed attempt is refused with the lockout error and changes nothing.\<close>

theorem locked_subject_cannot_login:
  assumes "attempts_check (clock env) (sv_attempts s) (user_subject w email) (sv_lockout s) = Inl e"
    and "valid_email env email" and "password \<noteq> []" and "4 \<le> length code" and "length code \<le> 12"
    and "find_workspace (sys_workspaces (sv_system s)) w \<noteq> None"
  shows "user_login env w email password s = (Inl e, s) \<and> otp_login env w email code s = (Inl e, s)"
  using assms
  by (auto simp: user_login_def otp_login_def Let_def validate_request_def valid_length_def hbind_def lift_def
      check_attempts_def require_workspace_exists_def Suc_le_eq)

theorem locked_subject_cannot_login_witness:
  "user_login (demo_env 1) ''acme'' ''a@b.c'' ''password''
     (demo_server\<lparr>sv_attempts := [user_subject ''acme'' ''a@b.c'' \<mapsto> \<lparr>failures = [], locked_until = Some (seconds 10)\<rparr>]\<rparr>)
   = (Inl (TooManyRequests 9), demo_server\<lparr>sv_attempts := [user_subject ''acme'' ''a@b.c'' \<mapsto> \<lparr>failures = [], locked_until = Some (seconds 10)\<rparr>]\<rparr>)"
  by (rule locked_subject_cannot_login [where code = "''0000''", THEN conjunct1])
    (simp_all add: demo_simps attempts_check_def lockout_default_def find_workspace_def remaining_secs_def num_seconds_def seconds_def)

lemma note_and_audit_answer:
  "fst (note_and_audit env sc subject target d l err s) =
     Inl (case fst (note_failure (clock env) (sv_attempts s) subject (sv_lockout s)) of Inr _ \<Rightarrow> err | Inl e \<Rightarrow> e)"
  by (auto simp: note_and_audit_def Let_def split: prod.splits sum.splits core_error.splits)

lemma login_failure_answer:
  assumes "valid_email env email" and "password \<noteq> []"
    and "attempts_check (clock env) (sv_attempts s) (user_subject w email) (sv_lockout s) = Inr ()"
    and "find_workspace (sys_workspaces (sv_system s)) w \<noteq> None" and "sv_workspaces s w = Some db"
    and "case find_user_by_email (ws_users db) email of None \<Rightarrow> True
         | Some u \<Rightarrow> (case u_password_hash u of None \<Rightarrow> True | Some h \<Rightarrow> verify_password env password h = Inr False)"
  shows "fst (user_login env w email password s) =
      Inl (case fst (note_failure (clock env) (sv_attempts s) (user_subject w email) (sv_lockout s)) of
             Inr _ \<Rightarrow> Unauthorized | Inl e \<Rightarrow> e)"
  using assms
  by (auto simp: user_login_def Let_def hbind_def lift_def lift_auth_def validate_request_def valid_length_def Suc_le_eq
      check_attempts_def require_workspace_exists_def on_workspace_read record_failure_and_pick_error_def note_and_audit_answer
      split: option.splits)

lemma reset_request_answer:
  assumes "valid_email env email"
    and "find_workspace (sys_workspaces (sv_system s)) w \<noteq> None" and "sv_workspaces s w = Some db"
    and "hash_token (sha256 env) (fresh_secret env) \<notin> os_token_hash ` set (ws_resets db)"
  shows "fst (reset_request env w email s) = Inr ''if that email is registered, a reset link has been sent''"
  using assms
  by (auto simp: reset_request_def Let_def hbind_def hret_def lift_def validate_request_def require_workspace_exists_def
      on_workspace_def db_stmt_def find_user_by_email_def password_reset_issue_def one_shot_insert_def one_shot_row_def
      dest: find_SomeD split: option.splits prod.splits sum.splits)

text \<open>C37: the password endpoints do not reveal whether an email is registered. A login with an unknown
  email and one with a wrong password get the same answer, which is decided by the failure count of
  the subject alone; a reset request answers the same whether or not the email is registered.\<close>

theorem no_account_enumeration:
  assumes "valid_email env email" and "password \<noteq> []"
    and "attempts_check (clock env) (sv_attempts s) (user_subject w email) (sv_lockout s) = Inr ()"
    and "find_workspace (sys_workspaces (sv_system s)) w \<noteq> None" and "sv_workspaces s w = Some db"
    and "case find_user_by_email (ws_users db) email of None \<Rightarrow> True
         | Some u \<Rightarrow> (case u_password_hash u of None \<Rightarrow> True | Some h \<Rightarrow> verify_password env password h = Inr False)"
    and "hash_token (sha256 env) (fresh_secret env) \<notin> os_token_hash ` set (ws_resets db)"
  shows "fst (user_login env w email password s) =
      Inl (case fst (note_failure (clock env) (sv_attempts s) (user_subject w email) (sv_lockout s)) of
             Inr _ \<Rightarrow> Unauthorized | Inl e \<Rightarrow> e)
    \<and> fst (reset_request env w email s) = Inr ''if that email is registered, a reset link has been sent''"
  using login_failure_answer [OF assms(1-6)] reset_request_answer [OF assms(1,4,5,7)] ..

theorem no_account_enumeration_witness:
  "fst (user_login (demo_env 1) ''acme'' ''x@y.z'' ''guess'' demo_server) = Inl Unauthorized
   \<and> fst (user_login (demo_env 1) ''acme'' ''a@b.c'' ''guess'' demo_server) = Inl Unauthorized
   \<and> fst (reset_request (demo_env 1) ''acme'' ''x@y.z'' demo_server) = Inr ''if that email is registered, a reset link has been sent''"
  using no_account_enumeration [of "demo_env 1" "''x@y.z''" "''guess''" demo_server "''acme''" demo_workspace]
    no_account_enumeration [of "demo_env 1" "''a@b.c''" "''guess''" demo_server "''acme''" demo_workspace] demo_reset_hashes
  by (simp add: demo_simps attempts_check_def note_failure_def lockout_default_def find_workspace_def find_user_by_email_def one_shot_row_def)

end
