(* ===== verification/Records_Api.thy ===== *)
theory Records_Api
  imports Auth_Api
begin

text \<open>
  The record handlers of \<^verbatim>\<open>rustbase-api/src/records.rs\<close> and the subscriptions of
  \<^verbatim>\<open>rustbase-api/src/realtime.rs\<close>. Each handler opens the app and the schema, decides what the caller may
  touch, and runs the statement: an admin of the app and an open rule give no filter, a template rule gives
  a filter that is joined to the query.
\<close>

section \<open>Authorisation\<close>

definition check_field :: "string \<Rightarrow> string list \<Rightarrow> core_error + unit" where
  "check_field k known = (if k \<in> set known then Inr () else Inl (Validation (''unknown field in filter: '' @ k)))"

fun walk :: "filter_node \<Rightarrow> string list \<Rightarrow> core_error + unit" where
  "walk (And l r) known = rbind (walk l known) (\<lambda>_. walk r known)"
| "walk (Or l r) known = rbind (walk l known) (\<lambda>_. walk r known)"
| "walk (Not f) known = walk f known"
| "walk (Eq k _) known = check_field k known"
| "walk (Ne k _) known = check_field k known"
| "walk (Gt k _) known = check_field k known"
| "walk (Gte k _) known = check_field k known"
| "walk (Lt k _) known = check_field k known"
| "walk (Lte k _) known = check_field k known"
| "walk (Like k _) known = check_field k known"
| "walk (In k _) known = check_field k known"

definition validate_filter_columns :: "filter_node \<Rightarrow> schema \<Rightarrow> core_error + unit" where
  "validate_filter_columns node sch = walk node ([''id'', ''created_at'', ''updated_at''] @ map fname (schema_fields sch))"

definition rule_context_of :: "claims \<Rightarrow> rule_context" where
  "rule_context_of c = \<lparr>ctx_user_id = Some (sub c), ctx_user_email = None, ctx_user_workspace = user_workspace c\<rparr>"

definition authorize_record_action ::
  "env \<Rightarrow> claims \<Rightarrow> app_db \<Rightarrow> string \<Rightarrow> string \<Rightarrow> string \<Rightarrow> access_action \<Rightarrow> schema \<Rightarrow> core_error + filter_node option" where
  "authorize_record_action env c db w a coll action sch =
     (if is_admin_for_app c w a then Inr None
      else if user_workspace c \<noteq> Some w then Inl Forbidden
      else case get_rule db coll action of
        Inl e \<Rightarrow> Inl (core_error_of_db (show_sqlx env) e)
      | Inr rule \<Rightarrow>
          (case classify_rule rule of
             Deny \<Rightarrow> Inl Forbidden
           | Allow \<Rightarrow> Inr None
           | Evaluate template \<Rightarrow>
               rbind (substitute (json_str env) template (rule_context_of c)) (\<lambda>resolved.
               rbind (parse_filter (nom_lib env) resolved) (\<lambda>node.
               rbind (validate_filter_columns node sch) (\<lambda>_. Inr (Some node))))))"

definition open_app_and_schema :: "env \<Rightarrow> string \<Rightarrow> string \<Rightarrow> string \<Rightarrow> schema handler" where
  "open_app_and_schema env w a coll =
     hbind (require_app_exists env w a) (\<lambda>_.
     hbind (on_app env w a ''_collections'' (\<lambda>db. db_stmt env (find_collection db coll, db))) (\<lambda>found.
     case found of None \<Rightarrow> hfail (NotFound coll []) | Some c \<Rightarrow> hret (c_schema c)))"

definition authorize :: "env \<Rightarrow> claims \<Rightarrow> string \<Rightarrow> string \<Rightarrow> string \<Rightarrow> access_action \<Rightarrow> schema \<Rightarrow> filter_node option handler" where
  "authorize env c w a coll action sch =
     on_app env w a ''_access_rules'' (\<lambda>db. (authorize_record_action env c db w a coll action sch, db))"

section \<open>Handlers\<close>

record list_query =
  lq_page :: nat
  lq_per_page :: nat
  lq_filter :: "string option"

definition default_page :: nat where
  "default_page = 1"

definition default_per_page :: nat where
  "default_per_page = 30"

record list_response =
  ls_items :: "rec list"
  ls_page :: nat
  ls_per_page :: nat
  ls_total_items :: nat
  ls_total_pages :: nat

definition list_response_of :: "listed_records \<Rightarrow> list_response" where
  "list_response_of l = (let per = max (lr_per_page l) 1 in
     \<lparr>ls_items = lr_items l, ls_page = lr_page l, ls_per_page = lr_per_page l, ls_total_items = lr_total_items l,
      ls_total_pages = (lr_total_items l + per - 1) div per\<rparr>)"

definition user_filter :: "env \<Rightarrow> schema \<Rightarrow> string option \<Rightarrow> core_error + filter_node option" where
  "user_filter env sch flt = (case flt of
      None \<Rightarrow> Inr None
    | Some t \<Rightarrow> if trim t = [] then Inr None
        else rbind (parse_filter (nom_lib env) t) (\<lambda>node. rbind (validate_filter_columns node sch) (\<lambda>_. Inr (Some node))))"

fun combine :: "filter_node option \<Rightarrow> filter_node option \<Rightarrow> filter_node option" where
  "combine (Some r) (Some u) = Some (And r u)"
| "combine (Some r) None = Some r"
| "combine None uf = uf"

definition run_list :: "env \<Rightarrow> string \<Rightarrow> string \<Rightarrow> schema \<Rightarrow> list_page \<Rightarrow> filter_node option \<Rightarrow> listed_records handler" where
  "run_list env w a sch page flt =
     on_app env w a (collection_str (schema_id sch)) (\<lambda>db. db_stmt env (list_records (engine env) db sch page flt, db))"

definition records_list :: "env \<Rightarrow> claims \<Rightarrow> string \<Rightarrow> string \<Rightarrow> string \<Rightarrow> list_query \<Rightarrow> list_response handler" where
  "records_list env c w a coll q =
     hbind (open_app_and_schema env w a coll) (\<lambda>sch.
     hbind (authorize env c w a coll AList sch) (\<lambda>rf.
     hbind (lift (user_filter env sch (lq_filter q))) (\<lambda>uf.
     hbind (run_list env w a sch \<lparr>lp_page = lq_page q, lp_per_page = lq_per_page q\<rparr> (combine rf uf)) (\<lambda>l.
     hret (list_response_of l)))))"

fun role_str :: "token_role \<Rightarrow> string" where
  "role_str MasterAdminRole = ''master_admin''"
| "role_str WorkspaceAdminRole = ''workspace_admin''"
| "role_str AppAdminRole = ''app_admin''"
| "role_str UserRole = ''user''"

definition hook_request_of :: "claims \<Rightarrow> string \<Rightarrow> string \<Rightarrow> string \<Rightarrow> hook_request" where
  "hook_request_of c w a coll =
     \<lparr>hr_auth = Some \<lparr>ha_id = sub c, ha_role = role_str (role c), ha_workspace = claim_workspace c\<rparr>,
      hr_workspace = w, hr_app = a, hr_collection = coll\<rparr>"

definition publish_event :: "string \<Rightarrow> string \<Rightarrow> string \<Rightarrow> realtime_event \<Rightarrow> unit handler" where
  "publish_event w a coll ev s =
     (Inr (), s\<lparr>sv_published := sv_published s @ [(\<lparr>sk_workspace = w, sk_app = a, sk_collection = coll\<rparr>, ev)]\<rparr>)"

definition run_create :: "env \<Rightarrow> string \<Rightarrow> string \<Rightarrow> schema \<Rightarrow> fields \<Rightarrow> rec handler" where
  "run_create env w a sch flds s =
     on_app env w a (collection_str (schema_id sch))
       (\<lambda>db. db_stmt env (create_record (engine env) (record_ids env (sv_drawn s)) (clock env) db sch flds))
       (s\<lparr>sv_drawn := Suc (sv_drawn s)\<rparr>)"

definition records_create :: "env \<Rightarrow> claims \<Rightarrow> string \<Rightarrow> string \<Rightarrow> string \<Rightarrow> fields \<Rightarrow> rec handler" where
  "records_create env c w a coll req =
     hbind (open_app_and_schema env w a coll) (\<lambda>sch.
     hbind (authorize env c w a coll ACreate sch) (\<lambda>rf.
     if rf \<noteq> None then hfail Forbidden
     else let request = hook_request_of c w a coll in
       hbind (hook_handler env (dispatch_before_create env w a coll request req)) (\<lambda>flds.
       hbind (run_create env w a sch flds) (\<lambda>rc.
       hbind (publish_event w a coll (RecordCreated rc)) (\<lambda>_.
       hbind (observe (hook_dispatch env w a coll AfterCreate request (RecordPayload rc))) (\<lambda>_.
       hret rc))))))"

definition lookup_filter :: "string \<Rightarrow> filter_node option \<Rightarrow> filter_node" where
  "lookup_filter i rf =
     (let id_filter = Eq ''id'' (JString i) in case rf of Some r \<Rightarrow> And id_filter r | None \<Rightarrow> id_filter)"

definition lookup :: "env \<Rightarrow> string \<Rightarrow> string \<Rightarrow> string \<Rightarrow> schema \<Rightarrow> string \<Rightarrow> filter_node option \<Rightarrow> rec handler" where
  "lookup env w a coll sch i rf =
     hbind (run_list env w a sch \<lparr>lp_page = 1, lp_per_page = 1\<rparr> (Some (lookup_filter i rf))) (\<lambda>l.
     case lr_items l of [] \<Rightarrow> hfail (NotFound coll i) | x # _ \<Rightarrow> hret x)"

definition records_get :: "env \<Rightarrow> claims \<Rightarrow> string \<Rightarrow> string \<Rightarrow> string \<Rightarrow> string \<Rightarrow> rec handler" where
  "records_get env c w a coll i =
     hbind (open_app_and_schema env w a coll) (\<lambda>sch.
     hbind (authorize env c w a coll AView sch) (\<lambda>rf.
     lookup env w a coll sch i rf))"

definition write_error :: "env \<Rightarrow> string \<Rightarrow> string \<Rightarrow> db_error \<Rightarrow> core_error" where
  "write_error env coll i e = (if e = Sqlx RowNotFound then NotFound coll i else core_error_of_db (show_sqlx env) e)"

definition run_write ::
  "env \<Rightarrow> string \<Rightarrow> string \<Rightarrow> schema \<Rightarrow> string \<Rightarrow> string \<Rightarrow> (app_db \<Rightarrow> (db_error, app_db, 'a) stmt) \<Rightarrow> 'a handler" where
  "run_write env w a sch coll i f =
     on_app env w a (collection_str (schema_id sch)) (\<lambda>db.
       case f db of (Inl e, db') \<Rightarrow> (Inl (write_error env coll i e), db') | (Inr x, db') \<Rightarrow> (Inr x, db'))"

definition records_update :: "env \<Rightarrow> claims \<Rightarrow> string \<Rightarrow> string \<Rightarrow> string \<Rightarrow> string \<Rightarrow> fields \<Rightarrow> rec handler" where
  "records_update env c w a coll i req =
     hbind (open_app_and_schema env w a coll) (\<lambda>sch.
     hbind (authorize env c w a coll AUpdate sch) (\<lambda>rf.
     hbind (lookup env w a coll sch i rf) (\<lambda>existing.
     let request = hook_request_of c w a coll in
     hbind (hook_handler env (dispatch_before_update env w a coll request existing req)) (\<lambda>patch.
     hbind (run_write env w a sch coll i (\<lambda>db. update_record (engine env) (clock env) db sch i patch)) (\<lambda>rc.
     hbind (publish_event w a coll (RecordUpdated rc)) (\<lambda>_.
     hbind (observe (hook_dispatch env w a coll AfterUpdate request (RecordPayload rc))) (\<lambda>_.
     hret rc)))))))"

definition records_delete :: "env \<Rightarrow> claims \<Rightarrow> string \<Rightarrow> string \<Rightarrow> string \<Rightarrow> string \<Rightarrow> unit handler" where
  "records_delete env c w a coll i =
     hbind (open_app_and_schema env w a coll) (\<lambda>sch.
     hbind (authorize env c w a coll ADelete sch) (\<lambda>rf.
     hbind (lookup env w a coll sch i rf) (\<lambda>existing.
     let request = hook_request_of c w a coll in
     hbind (hook_handler env (dispatch_before_delete env w a coll request existing)) (\<lambda>_.
     hbind (run_write env w a sch coll i (\<lambda>db. delete_record db sch i)) (\<lambda>_.
     hbind (publish_event w a coll (RecordDeleted i)) (\<lambda>_.
     observe (hook_dispatch env w a coll AfterDelete request (IdPayload i))))))))"

section \<open>Subscriptions\<close>

definition intersect_filters :: "filter_node option \<Rightarrow> filter_node option \<Rightarrow> filter_node option" where
  "intersect_filters x y = (case (x, y) of
      (None, None) \<Rightarrow> None | (Some f, None) \<Rightarrow> Some f | (None, Some f) \<Rightarrow> Some f | (Some f, Some g) \<Rightarrow> Some (And f g))"

definition subscribe_rule :: "env \<Rightarrow> claims \<Rightarrow> app_db \<Rightarrow> string \<Rightarrow> core_error + filter_node option" where
  "subscribe_rule env c db coll =
     (case get_rule db coll AList of
        Inl e \<Rightarrow> Inl (core_error_of_db (show_sqlx env) e)
      | Inr rule \<Rightarrow>
          (case classify_rule rule of
             Deny \<Rightarrow> Inl Forbidden
           | Allow \<Rightarrow> Inr None
           | Evaluate template \<Rightarrow>
               (case substitute (json_str env) template (rule_context_of c) of
                  Inl e \<Rightarrow> Inl (Internal (''rule template substitute: '' @ core_error_str (show_i64 env) e))
                | Inr resolved \<Rightarrow>
                    (case parse_filter (nom_lib env) resolved of
                       Inl e \<Rightarrow> Inl (Internal (''rule template parse: '' @ core_error_str (show_i64 env) e))
                     | Inr node \<Rightarrow> Inr (Some node)))))"

definition client_filter :: "env \<Rightarrow> string option \<Rightarrow> core_error + filter_node option" where
  "client_filter env flt = (case map_option trim flt of
      None \<Rightarrow> Inr None
    | Some t \<Rightarrow> if t = [] then Inr None
        else case parse_filter (nom_lib env) t of
          Inl e \<Rightarrow> Inl (Validation (''filter: '' @ core_error_str (show_i64 env) e))
        | Inr node \<Rightarrow> Inr (Some node))"

definition authorize_subscribe ::
  "env \<Rightarrow> claims \<Rightarrow> string \<Rightarrow> string \<Rightarrow> string \<Rightarrow> string option \<Rightarrow> filter_node option handler" where
  "authorize_subscribe env c w a coll flt =
     hbind (open_app_and_schema env w a coll) (\<lambda>_.
     hbind (lift (client_filter env flt)) (\<lambda>cf.
     if is_admin_for_app c w a then hret cf
     else if user_workspace c \<noteq> Some w then hfail Forbidden
     else hbind (on_app env w a ''_access_rules'' (\<lambda>db. (subscribe_rule env c db coll, db))) (\<lambda>rf.
       hret (intersect_filters rf cf))))"

fun event_matches :: "realtime_event \<Rightarrow> filter_node option \<Rightarrow> bool" where
  "event_matches ev None = True"
| "event_matches (RecordCreated r) (Some f) = matches f (rec_fields r)"
| "event_matches (RecordUpdated r) (Some f) = matches f (rec_fields r)"
| "event_matches (RecordDeleted _) (Some f) = True"

text \<open>What an event stream forwards of the events it receives.\<close>

definition forwarded :: "filter_node option \<Rightarrow> realtime_event list \<Rightarrow> realtime_event list" where
  "forwarded flt evs = filter (\<lambda>ev. event_matches ev flt) evs"

text \<open>The WebSocket endpoint resolves its caller itself: header, then cookie, then query.\<close>

definition ws_principal :: "env \<Rightarrow> headers \<Rightarrow> string option \<Rightarrow> claims handler" where
  "ws_principal env h query_token s =
     (let token = (case (case authorization h of None \<Rightarrow> None | Some x \<Rightarrow> strip_prefix ''Bearer '' x) of
                     Some t \<Rightarrow> Some t
                   | None \<Rightarrow> (case read_cookie h ACCESS_COOKIE of Some t \<Rightarrow> Some t | None \<Rightarrow> query_token))
      in case token of
        None \<Rightarrow> (Inl Unauthorized, s)
      | Some t \<Rightarrow>
          (case principal_from_token (jwt env) (issuer env) (clock env) (sv_revocations s) t of
             (r, rv) \<Rightarrow> (r, s\<lparr>sv_revocations := rv\<rparr>)))"

definition record_events_ws ::
  "env \<Rightarrow> headers \<Rightarrow> string \<Rightarrow> string \<Rightarrow> string \<Rightarrow> string option \<Rightarrow> string option \<Rightarrow> (subscription_key \<times> filter_node option) handler" where
  "record_events_ws env h w a coll flt query_token =
     hbind (ws_principal env h query_token) (\<lambda>c.
     hbind (authorize_subscribe env c w a coll flt) (\<lambda>f.
     hret (\<lparr>sk_workspace = w, sk_app = a, sk_collection = coll\<rparr>, f)))"

definition record_events ::
  "env \<Rightarrow> claims \<Rightarrow> string \<Rightarrow> string \<Rightarrow> string \<Rightarrow> string option \<Rightarrow> (subscription_key \<times> filter_node option) handler" where
  "record_events env c w a coll flt =
     hbind (authorize_subscribe env c w a coll flt) (\<lambda>f.
     hret (\<lparr>sk_workspace = w, sk_app = a, sk_collection = coll\<rparr>, f))"

section \<open>What a filter selects\<close>

text \<open>The meaning of a filter on a row, in SQL's three-valued logic, without the text in between.\<close>

fun filter_truth :: "sql_engine \<Rightarrow> (string \<Rightarrow> sql_val) \<Rightarrow> filter_node \<Rightarrow> bool option" where
  "filter_truth eng row (And f g) = sql_and (filter_truth eng row f) (filter_truth eng row g)"
| "filter_truth eng row (Or f g) = sql_or (filter_truth eng row f) (filter_truth eng row g)"
| "filter_truth eng row (Not f) = map_option (\<lambda>b. \<not> b) (filter_truth eng row f)"
| "filter_truth eng row (Eq k v) = sql_cmp eng ''='' (row k) (bind_filter_value eng v)"
| "filter_truth eng row (Ne k v) = sql_cmp eng ''<>'' (row k) (bind_filter_value eng v)"
| "filter_truth eng row (Gt k v) = sql_cmp eng ''>'' (row k) (bind_filter_value eng v)"
| "filter_truth eng row (Gte k v) = sql_cmp eng ''>='' (row k) (bind_filter_value eng v)"
| "filter_truth eng row (Lt k v) = sql_cmp eng ''<'' (row k) (bind_filter_value eng v)"
| "filter_truth eng row (Lte k v) = sql_cmp eng ''<='' (row k) (bind_filter_value eng v)"
| "filter_truth eng row (Like k p) = like_val eng (row k) (SText (''%'' @ p @ ''%''))"
| "filter_truth eng row (In k vs) = fold (\<lambda>v acc. sql_or acc (sql_cmp eng ''='' (row k) (bind_filter_value eng v))) vs (Some False)"

lemma truth_filter: "truth eng row (expr_of f) (map (bind_filter_value eng) (binds_of f)) = filter_truth eng row f"
proof (induction f)
  case (And f g)
  then show ?case using length_binds [of f] by simp
next
  case (Or f g)
  then show ?case using length_binds [of f] by simp
next
  case (In k vs)
  show ?case by (simp add: fold_map o_def)
qed auto

text \<open>SQLite reads the text of the translated filter as the expression it renders.\<close>

definition reads_back :: "sql_engine \<Rightarrow> filter_node \<Rightarrow> bool" where
  "reads_back eng f \<longleftrightarrow> read_where eng (render (expr_of f)) = expr_of f"

lemma selected_filter:
  assumes "filter_to_sql f = Inr frag" and "reads_back eng f"
  shows "selected eng cols frag r \<longleftrightarrow> filter_truth eng (cell eng cols r) f = Some True"
proof -
  have "filter_fields f \<subseteq> Collect plain_column"
    using assms(1) translate_bad [of f empty_fragment] by (force simp: filter_to_sql_def)
  then have "frag = \<lparr>sql_text = render (expr_of f), bindings = binds_of f\<rparr>"
    using assms(1) translate_ok [of f empty_fragment] by (auto simp: filter_to_sql_def empty_fragment_def)
  with assms(2) show ?thesis by (simp add: selected_def reads_back_def truth_filter)
qed

lemma list_records_items:
  assumes "list_records eng db sch page (Some f) = Inr l" and "reads_back eng f"
  shows "\<exists>cols. table_of db sch = Inr cols
    \<and> lr_total_items l = length (filter (\<lambda>r. filter_truth eng (cell eng cols r) f = Some True) (rows_of db sch))
    \<and> set (lr_items l) \<subseteq> row_to_record eng sch ` {r \<in> set (rows_of db sch). filter_truth eng (cell eng cols r) f = Some True}"
proof -
  obtain frag cols where 1: "filter_to_sql f = Inr frag" and 2: "table_of db sch = Inr cols"
    and l: "lr_items l = map (row_to_record eng sch) (sql_limit (int (min (max (lp_per_page page) 1) 200))
        ((int (max (lp_page page) 1) - 1) * int (min (max (lp_per_page page) 1) 200))
        (sort_key (\<lambda>r. - dr_created_at r) (filter (selected eng cols frag) (rows_of db sch))))"
      "lr_total_items l = length (filter (selected eng cols frag) (rows_of db sch))"
    using assms(1) by (auto simp: list_records_def Let_def rbind_eq_Inr split: option.splits)
  have sel: "selected eng cols frag = (\<lambda>r. filter_truth eng (cell eng cols r) f = Some True)"
    by (rule ext, rule selected_filter [OF 1 assms(2)])
  have "set (lr_items l) \<subseteq> row_to_record eng sch ` set (filter (selected eng cols frag) (rows_of db sch))"
    unfolding l using set_sql_limit by fastforce
  with 2 l(2) show ?thesis by (simp add: sel)
qed

lemma sql_and_True: "sql_and x y = Some True \<longleftrightarrow> x = Some True \<and> y = Some True"
  by (auto simp: sql_and_def)

lemma filter_truth_id: "sql_cmp eng ''='' (cell eng cols r ''id'') (SText i) = Some True \<longleftrightarrow> dr_id r = i"
  by (simp add: cell_def sql_cmp_def text_cmp_def)

section \<open>Row-level security\<close>

text \<open>The rows an action may touch: all of them without a rule filter, otherwise those on which the rule is
  true.\<close>

definition may_touch ::
  "env \<Rightarrow> claims \<Rightarrow> string \<Rightarrow> string \<Rightarrow> string \<Rightarrow> access_action \<Rightarrow> app_db \<Rightarrow> schema \<Rightarrow> db_row \<Rightarrow> bool" where
  "may_touch env c w a coll action db sch r =
     (case authorize_record_action env c db w a coll action sch of
        Inl _ \<Rightarrow> False
      | Inr None \<Rightarrow> True
      | Inr (Some f) \<Rightarrow> (case table_of db sch of Inl _ \<Rightarrow> False
          | Inr cols \<Rightarrow> filter_truth (engine env) (cell (engine env) cols r) f = Some True))"

lemma open_app_Inr:
  assumes "open_app_and_schema env w a coll s = (Inr sch, s')"
  shows "s' = s \<and> (\<exists>db c. sv_apps s (w, a) = Some db \<and> find_collection db coll = Inr (Some c) \<and> sch = c_schema c)"
  using assms
  by (auto simp: open_app_and_schema_def require_app_exists_def handler fun_upd_idem split: option.splits)

lemma authorize_Inr:
  "authorize env c w a coll action sch s = (Inr rf, s') \<longleftrightarrow>
   s' = s \<and> (\<exists>db. sv_apps s (w, a) = Some db \<and> authorize_record_action env c db w a coll action sch = Inr rf)"
  by (auto simp: authorize_def handler fun_upd_idem)

lemma run_list_Inr:
  "run_list env w a sch page f s = (Inr l, s') \<longleftrightarrow>
   s' = s \<and> (\<exists>db. sv_apps s (w, a) = Some db \<and> list_records (engine env) db sch page f = Inr l)"
  by (auto simp: run_list_def handler fun_upd_idem)

lemma case_list_Inr [handler]:
  "(case xs of [] \<Rightarrow> m | x # ys \<Rightarrow> f x ys) s = (Inr r, s') \<longleftrightarrow>
   xs = [] \<and> m s = (Inr r, s') \<or> (\<exists>x ys. xs = x # ys \<and> f x ys s = (Inr r, s'))"
  by (cases xs) auto

lemma length_filter_mono: "(\<And>x. P x \<Longrightarrow> Q x) \<Longrightarrow> length (filter P xs) \<le> length (filter Q xs)"
  by (induction xs) auto

lemma lookup_Inr:
  assumes "lookup env w a coll sch i rf s = (Inr x, s')" and "sv_apps s (w, a) = Some db"
    and "reads_back (engine env) (lookup_filter i rf)"
  shows "s' = s \<and> (\<exists>r cols. r \<in> set (rows_of db sch) \<and> dr_id r = i \<and> x = row_to_record (engine env) sch r
    \<and> table_of db sch = Inr cols
    \<and> (case rf of None \<Rightarrow> True | Some f \<Rightarrow> filter_truth (engine env) (cell (engine env) cols r) f = Some True))"
proof -
  obtain l xs where l: "list_records (engine env) db sch \<lparr>lp_page = 1, lp_per_page = 1\<rparr> (Some (lookup_filter i rf)) = Inr l"
    and x: "lr_items l = x # xs" and s': "s' = s"
    using assms(1,2) by (auto simp: lookup_def handler run_list_Inr)
  from list_records_items [OF l assms(3)] x obtain r cols where "r \<in> set (rows_of db sch)" "table_of db sch = Inr cols"
    "x = row_to_record (engine env) sch r" "filter_truth (engine env) (cell (engine env) cols r) (lookup_filter i rf) = Some True"
    by auto
  with s' show ?thesis
    by (auto simp: lookup_filter_def Let_def sql_and_True filter_truth_id split: option.splits)
qed


text \<open>A handler that only reads.\<close>

definition reading :: "'a handler \<Rightarrow> bool" where
  "reading m \<longleftrightarrow> (\<forall>s. snd (m s) = s)"

lemma reading_hbind: "reading m \<Longrightarrow> (\<And>x. reading (f x)) \<Longrightarrow> reading (hbind m f)"
  by (auto simp: reading_def hbind_def split: prod.splits sum.splits) (metis snd_conv)+

lemma reading_pure: "reading (hret x)" "reading (hfail e)" "reading (lift r)"
  by (simp_all add: reading_def hret_def hfail_def lift_def)

lemma reading_on_app:
  assumes "\<And>db. snd (f db) = db"
  shows "reading (on_app env w a t f)"
proof -
  have "snd (on_app env w a t f s) = s" for s
    by (cases "sv_apps s (w, a)") (simp_all add: on_app_def split_beta assms fun_upd_idem)
  then show ?thesis by (simp add: reading_def)
qed

lemma reading_on_workspace:
  assumes "\<And>db. snd (f db) = db"
  shows "reading (on_workspace env w t f)"
proof -
  have "snd (on_workspace env w t f s) = s" for s
    by (cases "sv_workspaces s w") (simp_all add: on_workspace_def split_beta assms fun_upd_idem)
  then show ?thesis by (simp add: reading_def)
qed

lemma snd_db_stmt: "snd (db_stmt env p) = snd p"
  by (auto simp: db_stmt_def split: prod.splits sum.splits)

lemma reading_open: "reading (open_app_and_schema env w a coll)"
  unfolding open_app_and_schema_def require_app_exists_def
  by (intro reading_hbind reading_on_app reading_on_workspace)
    (auto simp: snd_db_stmt reading_def require_workspace_exists_def hret_def hfail_def split: option.splits)

lemma reading_authorize: "reading (authorize env c w a coll action sch)"
  unfolding authorize_def by (intro reading_on_app) simp

lemma reading_lookup: "reading (lookup env w a coll sch i rf)"
  unfolding lookup_def run_list_def
  by (intro reading_hbind reading_on_app) (auto simp: snd_db_stmt intro: reading_pure split: list.splits)

lemma hbind_denied:
  assumes "reading m" and "\<And>x. m s \<noteq> (Inr x, s)"
  shows "\<exists>e. hbind m f s = (Inl e, s)"
proof -
  have "snd (m s) = s" using assms(1) by (simp add: reading_def)
  with assms(2) obtain e where "m s = (Inl e, s)" by (cases "m s"; cases "fst (m s)") auto
  then show ?thesis by (simp add: hbind_def)
qed

lemma hbind_hret [simp]: "hbind m hret = m"
  by (auto simp: hbind_def hret_def fun_eq_iff split: prod.splits sum.splits)

lemma hbind_assoc: "hbind (hbind m f) g = hbind m (\<lambda>x. hbind (f x) g)"
  by (auto simp: hbind_def fun_eq_iff split: prod.splits sum.splits)

definition find_allowed :: "env \<Rightarrow> claims \<Rightarrow> string \<Rightarrow> string \<Rightarrow> string \<Rightarrow> string \<Rightarrow> access_action \<Rightarrow> (schema \<times> rec) handler" where
  "find_allowed env c w a coll i action =
     hbind (open_app_and_schema env w a coll) (\<lambda>sch.
     hbind (authorize env c w a coll action sch) (\<lambda>rf.
     hbind (lookup env w a coll sch i rf) (\<lambda>x. hret (sch, x))))"

lemma via_find_allowed:
  "records_get env c w a coll i = hbind (find_allowed env c w a coll i AView) (\<lambda>(sch, x). hret x)"
  "\<exists>f. records_update env c w a coll i patch = hbind (find_allowed env c w a coll i AUpdate) f"
  "\<exists>f. records_delete env c w a coll i = hbind (find_allowed env c w a coll i ADelete) f"
proof -
  show "records_get env c w a coll i = hbind (find_allowed env c w a coll i AView) (\<lambda>(sch, x). hret x)"
    by (simp add: records_get_def find_allowed_def hbind_assoc)
  show "\<exists>f. records_update env c w a coll i patch = hbind (find_allowed env c w a coll i AUpdate) f"
    unfolding records_update_def find_allowed_def hbind_assoc hbind_simps
    by (rule exI [of _ "\<lambda>(sch, x). _ sch x"]) simp
  show "\<exists>f. records_delete env c w a coll i = hbind (find_allowed env c w a coll i ADelete) f"
    unfolding records_delete_def find_allowed_def hbind_assoc hbind_simps
    by (rule exI [of _ "\<lambda>(sch, x). _ sch x"]) simp
qed

lemma find_allowed_Inr:
  assumes "find_allowed env c w a coll i action s = (Inr (sch, x), s')"
    and "sv_apps s (w, a) = Some db" and "find_collection db coll = Inr (Some cl)"
    and "\<And>rf. authorize_record_action env c db w a coll action (c_schema cl) = Inr rf \<Longrightarrow> reads_back (engine env) (lookup_filter i rf)"
  shows "s' = s \<and> sch = c_schema cl \<and> (\<exists>r. r \<in> set (rows_of db sch) \<and> dr_id r = i
    \<and> x = row_to_record (engine env) sch r \<and> may_touch env c w a coll action db sch r)"
proof -
  obtain rf where sch: "sch = c_schema cl" and rf: "authorize_record_action env c db w a coll action sch = Inr rf"
    and l: "lookup env w a coll sch i rf s = (Inr x, s')"
    using assms(1-3) by (auto simp: find_allowed_def handler authorize_Inr dest!: open_app_Inr)
  from lookup_Inr [OF l assms(2) assms(4) [OF rf [unfolded sch]]] show ?thesis
    using sch rf by (auto simp: may_touch_def split: option.splits)
qed


section \<open>Who may write\<close>

lemma authorize_outsider:
  assumes "\<not> is_admin_for_app c w a" and "user_workspace c \<noteq> Some w"
  shows "authorize env c w a coll action sch s \<noteq> (Inr rf, s')"
  using assms by (simp add: authorize_Inr authorize_record_action_def)

definition authorized :: "env \<Rightarrow> claims \<Rightarrow> string \<Rightarrow> string \<Rightarrow> string \<Rightarrow> access_action \<Rightarrow> (schema \<times> filter_node option) handler" where
  "authorized env c w a coll action =
     hbind (open_app_and_schema env w a coll) (\<lambda>sch.
     hbind (authorize env c w a coll action sch) (\<lambda>rf. hret (sch, rf)))"

lemma via_authorized:
  "\<exists>f. records_list env c w a coll q = hbind (authorized env c w a coll AList) f"
  "\<exists>f. records_create env c w a coll req = hbind (authorized env c w a coll ACreate) f"
  "\<exists>f. find_allowed env c w a coll i action = hbind (authorized env c w a coll action) f"
  unfolding records_list_def records_create_def find_allowed_def authorized_def hbind_assoc hbind_simps
  by (rule exI [of _ "\<lambda>(sch, x). _ sch x"], simp)+

lemma outsider_denied:
  assumes "\<not> is_admin_for_app c w a" and "user_workspace c \<noteq> Some w"
  shows "\<exists>e. hbind (authorized env c w a coll action) f s = (Inl e, s)"
proof (rule hbind_denied)
  show "reading (authorized env c w a coll action)"
    unfolding authorized_def by (intro reading_hbind reading_open reading_authorize reading_pure)
  show "authorized env c w a coll action s \<noteq> (Inr x, s)" for x
    using authorize_outsider [OF assms] by (auto simp: authorized_def handler)
qed

text \<open>C25: the records of an app are closed to other tenants. A caller who is no admin of the app and no user
  of its workspace gets an error from every record endpoint and from a subscription, and nothing changes.\<close>

theorem records_closed_to_outsiders:
  assumes "\<not> is_admin_for_app c w a" and "user_workspace c \<noteq> Some w"
  shows "(\<exists>e. records_list env c w a coll q s = (Inl e, s)) \<and> (\<exists>e. records_create env c w a coll req s = (Inl e, s))
    \<and> (\<exists>e. records_get env c w a coll i s = (Inl e, s)) \<and> (\<exists>e. records_update env c w a coll i patch s = (Inl e, s))
    \<and> (\<exists>e. records_delete env c w a coll i s = (Inl e, s)) \<and> (\<exists>e. record_events env c w a coll flt s = (Inl e, s))"
proof -
  note denied = outsider_denied [OF assms]
  have fa: "\<exists>e. hbind (find_allowed env c w a coll i action) g s = (Inl e, s)" for g :: "schema \<times> rec \<Rightarrow> 'x handler" and action
    using denied via_authorized(3) [of env c w a coll i action] by (metis hbind_assoc)
  have "reading (open_app_and_schema env w a coll)" by (rule reading_open)
  then have o: "snd (open_app_and_schema env w a coll s) = s" by (simp add: reading_def)
  have "\<exists>e. record_events env c w a coll flt s = (Inl e, s)"
    using assms o
    by (auto simp: record_events_def authorize_subscribe_def hbind_def lift_def hfail_def split: prod.splits sum.splits)
  moreover have "\<exists>e. records_list env c w a coll q s = (Inl e, s)" "\<exists>e. records_create env c w a coll req s = (Inl e, s)"
    using denied via_authorized(1,2) by metis+
  ultimately show ?thesis using fa via_find_allowed by metis
qed

text \<open>a user creates a record only under an open create rule. A create by anyone but an admin of the
  app succeeds only when the collection's create rule is the empty text or \<open>true\<close>; under a template
  rule, as without a rule, it is forbidden before any hook runs.\<close>

theorem create_needs_open_rule:
  assumes "\<not> is_admin_for_app c w a" and "sv_apps s (w, a) = Some db"
    and "rbind (get_rule db coll ACreate) (\<lambda>rule. Inr (classify_rule rule)) \<noteq> Inr Allow"
  shows "\<exists>e. records_create env c w a coll req s = (Inl e, s)"
proof -
  define guard where "guard = hbind (authorized env c w a coll ACreate) (\<lambda>(sch, rf). if rf \<noteq> None then hfail Forbidden else hret sch)"
  have "\<exists>f. records_create env c w a coll req = hbind guard f"
    unfolding records_create_def guard_def authorized_def hbind_assoc hbind_simps
    by (rule exI [of _ "\<lambda>sch. _ sch"]) (auto simp: fun_eq_iff hbind_def hfail_def hret_def split: prod.splits sum.splits if_splits)
  moreover have "reading guard"
    unfolding guard_def authorized_def
    by (intro reading_hbind reading_open reading_authorize) (auto intro: reading_pure)
  moreover have "guard s \<noteq> (Inr x, s)" for x
    using assms by (auto simp: guard_def authorized_def handler authorize_Inr authorize_record_action_def rbind_eq_Inr
        split: sum.splits rule_decision.splits if_splits dest!: open_app_Inr)
  ultimately show ?thesis using hbind_denied by metis
qed

section \<open>Events\<close>

lemma hook_effect_published: "hook_effect w a s s' \<Longrightarrow> sv_published s' = sv_published s"
  by (auto simp: hook_effect_def confined_def)

definition unpublished :: "'a handler \<Rightarrow> bool" where
  "unpublished m \<longleftrightarrow> (\<forall>s. sv_published (snd (m s)) = sv_published s)"

lemma unpublished_hbind: "unpublished m \<Longrightarrow> (\<And>x. unpublished (f x)) \<Longrightarrow> unpublished (hbind m f)"
  unfolding unpublished_def hbind_def by (simp add: split_beta split: sum.splits)

lemma unpublished_reading: "reading m \<Longrightarrow> unpublished m"
  by (simp add: reading_def unpublished_def)

lemma unpublished_on_app: "unpublished (on_app env w a t f)"
  by (auto simp: unpublished_def on_app_def split: option.splits prod.splits)

lemma unpublished_hook_handler:
  assumes "\<And>s. hook_effect w a s (snd (m s))"
  shows "unpublished (hook_handler env m)"
proof -
  have "snd (hook_handler env m s) = snd (m s)" for s by (auto simp: hook_handler_def split: prod.splits sum.splits)
  then show ?thesis using hook_effect_published [OF assms] by (simp add: unpublished_def)
qed

lemma unpublished_run:
  "unpublished (run_create env w a sch flds)" "unpublished (run_write env w a sch coll i g)"
  by (auto simp: unpublished_def run_create_def run_write_def on_app_def split: option.splits prod.splits)

lemmas unpublished_intros = unpublished_hbind unpublished_run unpublished_hook_handler [OF engine_effects(2)]
  unpublished_hook_handler [OF engine_effects(3)] unpublished_hook_handler [OF engine_effects(4)]
  reading_open [THEN unpublished_reading] reading_authorize [THEN unpublished_reading]
  reading_lookup [THEN unpublished_reading] reading_pure [THEN unpublished_reading]

text \<open>The last two steps of a write: the event, then the observers.\<close>

definition announce :: "env \<Rightarrow> string \<Rightarrow> string \<Rightarrow> string \<Rightarrow> realtime_event \<Rightarrow> hook_event \<Rightarrow> hook_request \<Rightarrow> hook_payload \<Rightarrow> unit handler" where
  "announce env w a coll ev hev req p =
     hbind (publish_event w a coll ev) (\<lambda>_. observe (hook_dispatch env w a coll hev req p))"

lemma announce_run:
  "\<exists>s'. announce env w a coll ev hev req p s = (Inr (), s')
    \<and> sv_published s' = sv_published s @ [(\<lparr>sk_workspace = w, sk_app = a, sk_collection = coll\<rparr>, ev)]"
  using hook_effect_published [OF engine_effects(1)]
  by (simp add: announce_def publish_event_def observe_def hbind_def)

lemma announced:
  assumes "unpublished m" and "run = hbind m (\<lambda>x. hbind (announce env w a coll (ev x) hev (req x) (p x)) (\<lambda>_. hret (g x)))"
    and "run s = (r, s')"
  shows "case r of Inl _ \<Rightarrow> sv_published s' = sv_published s
    | Inr y \<Rightarrow> \<exists>x. y = g x \<and> sv_published s' = sv_published s @ [(\<lparr>sk_workspace = w, sk_app = a, sk_collection = coll\<rparr>, ev x)]"
proof -
  obtain q s1 where m: "m s = (q, s1)" by fastforce
  then have s1: "sv_published s1 = sv_published s" using assms(1) unfolding unpublished_def by (metis snd_conv)
  show ?thesis
  proof (cases q)
    case (Inl e)
    then show ?thesis using assms(2,3) m s1 by (auto simp: hbind_def)
  next
    case (Inr x)
    obtain s2 where "announce env w a coll (ev x) hev (req x) (p x) s1 = (Inr (), s2)"
      "sv_published s2 = sv_published s1 @ [(\<lparr>sk_workspace = w, sk_app = a, sk_collection = coll\<rparr>, ev x)]"
      using announce_run by metis
    then show ?thesis using assms(2,3) m s1 Inr by (auto simp: hbind_def hret_def)
  qed
qed

text \<open>C34: a write of a record is announced exactly once. A create, update or delete that succeeds appends
  one event to those published, for its collection and with the record it answers, or the id it deleted;
  one that fails publishes nothing. Hooks publish nothing, before or after.\<close>

theorem record_writes_publish_once:
  "(case records_create env c w a coll req s of
      (Inl _, s') \<Rightarrow> sv_published s' = sv_published s
    | (Inr rc, s') \<Rightarrow> sv_published s' = sv_published s @ [(\<lparr>sk_workspace = w, sk_app = a, sk_collection = coll\<rparr>, RecordCreated rc)])
   \<and> (case records_update env c w a coll i patch s of
      (Inl _, s') \<Rightarrow> sv_published s' = sv_published s
    | (Inr rc, s') \<Rightarrow> sv_published s' = sv_published s @ [(\<lparr>sk_workspace = w, sk_app = a, sk_collection = coll\<rparr>, RecordUpdated rc)])
   \<and> (case records_delete env c w a coll i s of
      (Inl _, s') \<Rightarrow> sv_published s' = sv_published s
    | (Inr _, s') \<Rightarrow> sv_published s' = sv_published s @ [(\<lparr>sk_workspace = w, sk_app = a, sk_collection = coll\<rparr>, RecordDeleted i)])"
proof -
  let ?req = "hook_request_of c w a coll"
  define create where "create = hbind (open_app_and_schema env w a coll) (\<lambda>sch. hbind (authorize env c w a coll ACreate sch) (\<lambda>rf.
     if rf \<noteq> None then hfail Forbidden else hbind (hook_handler env (dispatch_before_create env w a coll ?req req)) (run_create env w a sch)))"
  define update where "update = hbind (find_allowed env c w a coll i AUpdate) (\<lambda>(sch, existing).
     hbind (hook_handler env (dispatch_before_update env w a coll ?req existing patch)) (\<lambda>pt.
     run_write env w a sch coll i (\<lambda>db. update_record (engine env) (clock env) db sch i pt)))"
  define delete where "delete = hbind (find_allowed env c w a coll i ADelete) (\<lambda>(sch, existing).
     hbind (hook_handler env (dispatch_before_delete env w a coll ?req existing)) (\<lambda>_.
     run_write env w a sch coll i (\<lambda>db. delete_record db sch i)))"
  have unp: "unpublished create" "unpublished update" "unpublished delete"
    unfolding create_def update_def delete_def find_allowed_def
    by (auto intro!: unpublished_intros split: prod.splits)
  have if_bind: "hbind (if b then hfail e else m) f = (if b then hfail e else hbind m f)" for b e m f by simp
  have r1: "records_create env c w a coll req =
      hbind create (\<lambda>rc. hbind (announce env w a coll (RecordCreated rc) AfterCreate ?req (RecordPayload rc)) (\<lambda>_. hret rc))"
    by (simp add: records_create_def create_def announce_def hbind_assoc Let_def if_bind cong: if_cong)
  have r2: "records_update env c w a coll i patch =
      hbind update (\<lambda>rc. hbind (announce env w a coll (RecordUpdated rc) AfterUpdate ?req (RecordPayload rc)) (\<lambda>_. hret rc))"
    by (simp add: records_update_def update_def find_allowed_def announce_def hbind_assoc Let_def)
  have r3: "records_delete env c w a coll i =
      hbind delete (\<lambda>_. hbind (announce env w a coll (RecordDeleted i) AfterDelete ?req (IdPayload i)) (\<lambda>_. hret ()))"
    by (simp add: records_delete_def delete_def find_allowed_def announce_def hbind_assoc Let_def)
  show ?thesis
    using announced [OF unp(1) r1] announced [OF unp(2) r2] announced [OF unp(3) r3]
    by (intro conjI) (fastforce split: prod.splits sum.splits)+
qed

section \<open>Subscriptions and rules\<close>

lemma authorize_subscribe_Inr:
  assumes "authorize_subscribe env c w a coll flt s = (Inr f, s')" and "\<not> is_admin_for_app c w a"
    and "sv_apps s (w, a) = Some db"
  shows "s' = s \<and> (\<exists>rf cf. subscribe_rule env c db coll = Inr rf \<and> f = intersect_filters rf cf)"
  using assms by (auto simp: authorize_subscribe_def handler fun_upd_idem dest!: open_app_Inr split: if_splits)

text \<open>C35: a subscription forwards to a user only records of which the list rule holds in memory, whatever
  filter the client adds; deletions are always forwarded, with the id alone.\<close>

theorem subscription_applies_rule:
  assumes "record_events env c w a coll flt s = (Inr (k, f), s')" and "\<not> is_admin_for_app c w a"
    and "sv_apps s (w, a) = Some db" and "ev \<in> set (forwarded f evs)"
  shows "k = \<lparr>sk_workspace = w, sk_app = a, sk_collection = coll\<rparr> \<and> user_workspace c = Some w
    \<and> (\<exists>rf. subscribe_rule env c db coll = Inr rf
       \<and> (case ev of RecordDeleted _ \<Rightarrow> True
          | RecordCreated r \<Rightarrow> (case rf of None \<Rightarrow> True | Some g \<Rightarrow> matches g (rec_fields r))
          | RecordUpdated r \<Rightarrow> (case rf of None \<Rightarrow> True | Some g \<Rightarrow> matches g (rec_fields r))))"
proof -
  have k: "k = \<lparr>sk_workspace = w, sk_app = a, sk_collection = coll\<rparr>" and auth: "authorize_subscribe env c w a coll flt s = (Inr f, s')"
    using assms(1) by (auto simp: record_events_def handler)
  have uw: "user_workspace c = Some w"
    using auth assms(2) by (auto simp: authorize_subscribe_def handler split: if_splits)
  obtain rf cf where rf: "subscribe_rule env c db coll = Inr rf" and f: "f = intersect_filters rf cf"
    using authorize_subscribe_Inr [OF auth assms(2,3)] by blast
  have "event_matches ev f" using assms(4) by (simp add: forwarded_def)
  then show ?thesis using k uw rf f
    by (cases ev; cases rf; cases cf) (auto simp: intersect_filters_def)
qed

lemma extract_null: "extract_field eng SNull ty = JNull"
  by (cases ty) auto

text \<open>the list and the subscription read a rule differently. Under a rule \<open>k != v\<close>, a record whose field
  \<open>k\<close> is null is never listed, since the comparison with \<open>NULL\<close> is unknown in SQL, but its events are
  forwarded, since in memory null is a value different from \<open>v\<close>.\<close>

theorem subscription_sees_more_than_list:
  assumes "fname fld = k" and "fld \<in> set (schema_fields sch)" and "unique_on fname (schema_fields sch)"
    and "k \<notin> {''id'', ''created_at'', ''updated_at''}" and "k \<in> col_name ` set cols"
    and "dr_cols r k = SNull" and "v \<noteq> JNull"
  shows "filter_truth eng (cell eng cols r) (Ne k v) \<noteq> Some True
    \<and> forwarded (Some (Ne k v)) [RecordCreated (row_to_record eng sch r)] = [RecordCreated (row_to_record eng sch r)]"
proof -
  have "rec_fields (row_to_record eng sch r) k = Some JNull"
    using row_fields_in [OF assms(2,3), of eng r] assms(1,6) by (simp add: row_to_record_def extract_null)
  with assms show ?thesis
    by (simp add: cell_def sql_cmp_def forwarded_def get_or_null_def values_equal_def)
qed

section \<open>A small app\<close>

text \<open>The demo workspace with one app, whose collection has one record and is open to listing.\<close>

definition blog_row :: db_row where
  "blog_row = \<lparr>dr_id = ''r1'', dr_created_at = 5, dr_updated_at = 5, dr_cols = (\<lambda>_. SNull)(''title'' := SText ''hello'')\<rparr>"

definition blog_db :: app_db where
  "blog_db = (posts_db 0)\<lparr>ad_rules := [\<lparr>ar_collection_id = ''posts'', ar_action = ''list'', ar_filter = Some []\<rparr>],
     ad_rows := (\<lambda>_. [])(''posts'' := [blog_row])\<rparr>"

definition blog_server :: server where
  "blog_server = demo_server\<lparr>sv_workspaces := [''acme'' \<mapsto> demo_workspace\<lparr>ws_apps := [\<lparr>a_id = ''blog'', a_name = ''Blog'', a_created_at = 0\<rparr>]\<rparr>],
     sv_apps := [(''acme'', ''blog'') \<mapsto> blog_db]\<rparr>"

definition alice :: claims where
  "alice = build_claims ''j'' 0 ''alice'' UserRole (Some ''acme'') None 0"

definition blog_posts :: collection where
  "blog_posts = \<lparr>c_id = ''posts'', c_kind = Base, c_schema = posts, c_created_at = 0, c_updated_at = 0\<rparr>"

lemma blog_collection: "find_collection blog_db ''posts'' = Inr (Some blog_posts)"
  by (simp add: find_collection_def decode_collection_def parse_collection_kind_def need_def blog_db_def posts_db_def empty_app_db_def blog_posts_def)

lemma blog_apps: "sv_apps blog_server (''acme'', ''blog'') = Some blog_db"
  by (simp add: blog_server_def)

lemma blog_open: "open_app_and_schema (demo_env 1) ''acme'' ''blog'' ''posts'' blog_server = (Inr posts, blog_server)"
  by (simp add: open_app_and_schema_def require_app_exists_def on_app_def blog_server_def demo_server_def find_app_def blog_collection
      hbind_def hret_def on_workspace_def require_workspace_exists_def find_workspace_def db_stmt_def fun_upd_idem blog_posts_def)

lemma trim_Nil [simp]: "trim [] = []"
  by (simp add: trim_def trim_start_def)

lemma demo_env_engine [simp]: "engine (demo_env n) = demo_engine"
  by (simp add: demo_env_def)

lemma alice_rules:
  "\<not> is_admin_for_app alice w a" "user_workspace alice = Some ''acme''"
  by (simp_all add: alice_def build_claims_def is_admin_for_app_def user_workspace_def)

lemma alice_authorized:
  "authorize_record_action env alice blog_db ''acme'' ''blog'' ''posts'' action sch = (if action = AList then Inr None else Inl Forbidden)"
  by (cases action) (simp_all add: authorize_record_action_def alice_rules get_rule_def need_def blog_db_def posts_db_def empty_app_db_def
      classify_rule_def)

lemma blog_rows: "rows_of blog_db posts = [blog_row]" "table_of blog_db posts = Inr (schema_columns posts)"
  by (simp_all add: rows_of_def table_of_def blog_db_def posts_db_def posts_def)



theorem records_closed_to_outsiders_witness:
  "\<exists>e. records_list (demo_env 1) alice ''other'' ''blog'' ''posts'' \<lparr>lq_page = 1, lq_per_page = 30, lq_filter = None\<rparr> blog_server
     = (Inl e, blog_server)"
  using records_closed_to_outsiders [of alice "''other''" "''blog''"] alice_rules by simp

theorem create_needs_open_rule_witness:
  "\<exists>e. records_create (demo_env 1) alice ''acme'' ''blog'' ''posts'' (hello ''x'') blog_server = (Inl e, blog_server)"
  using create_needs_open_rule [OF alice_rules(1) blog_apps, of "''posts''" "demo_env 1" "hello ''x''"]
  by (simp add: get_rule_def need_def blog_db_def posts_db_def empty_app_db_def classify_rule_def)

theorem subscription_applies_rule_witness:
  "record_events (demo_env 1) alice ''acme'' ''blog'' ''posts'' None blog_server =
     (Inr (\<lparr>sk_workspace = ''acme'', sk_app = ''blog'', sk_collection = ''posts''\<rparr>, None), blog_server)
   \<and> subscribe_rule (demo_env 1) alice blog_db ''posts'' = Inr None"
proof -
  have r: "record_events (demo_env 1) alice ''acme'' ''blog'' ''posts'' None blog_server =
     (Inr (\<lparr>sk_workspace = ''acme'', sk_app = ''blog'', sk_collection = ''posts''\<rparr>, None), blog_server)"
    by (simp add: record_events_def authorize_subscribe_def hbind_def blog_open lift_def client_filter_def alice_rules hret_def
        on_app_def blog_apps subscribe_rule_def get_rule_def need_def blog_db_def posts_db_def empty_app_db_def classify_rule_def
        intersect_filters_def fun_upd_idem)
  from subscription_applies_rule [OF r alice_rules(1) blog_apps, of "RecordCreated (row_to_record demo_engine posts blog_row)"
      "[RecordCreated (row_to_record demo_engine posts blog_row)]"]
  obtain rf where "subscribe_rule (demo_env 1) alice blog_db ''posts'' = Inr rf" by (auto simp: forwarded_def)
  moreover have "subscribe_rule (demo_env 1) alice blog_db ''posts'' = Inr None"
    by (simp add: subscribe_rule_def get_rule_def need_def blog_db_def posts_db_def empty_app_db_def classify_rule_def)
  ultimately show ?thesis using r by simp
qed

theorem subscription_sees_more_than_list_witness:
  "filter_truth demo_engine (cell demo_engine (schema_columns posts) (blog_row\<lparr>dr_cols := \<lambda>_. SNull\<rparr>)) (Ne ''title'' (JString ''x'')) \<noteq> Some True"
  using subscription_sees_more_than_list [of "\<lparr>fname = ''title'', fty = Text None None, frequired = True, funique = False\<rparr>"
      "''title''" posts "schema_columns posts" "blog_row\<lparr>dr_cols := \<lambda>_. SNull\<rparr>" "JString ''x''" demo_engine]
  by (simp add: posts_def schema_columns_def field_column_def)

end
