(* ===== verification/Event_Stream.thy ===== *)
theory Event_Stream
  imports Records_Api
begin

text \<open>
The streams of the realtime endpoints, \<open>rustbase-api/src/realtime.rs\<close>: the events an SSE response carries and the loop of a WebSocket, over the items
  of the broadcast channel and the frames of the client in any interleaving.
\<close>

section \<open>Server-sent events\<close>

text \<open>What a receiver of the broadcast channel yields; \<open>payload\<close> is the JSON of an event.\<close>

datatype stream_item = Item realtime_event | Lagged nat

definition realtime_event_to_sse :: "(realtime_event \<Rightarrow> string) \<Rightarrow> realtime_event \<Rightarrow> string \<times> string" where
  "realtime_event_to_sse payload ev =
     (case ev of RecordCreated _ \<Rightarrow> ''record_created'' | RecordUpdated _ \<Rightarrow> ''record_updated'' | RecordDeleted _ \<Rightarrow> ''record_deleted'', payload ev)"

fun sse_stream :: "(realtime_event \<Rightarrow> string) \<Rightarrow> filter_node option \<Rightarrow> stream_item list \<Rightarrow> (string \<times> string) list" where
  "sse_stream payload flt [] = []"
| "sse_stream payload flt (Item ev # xs) = (if event_matches ev flt then [realtime_event_to_sse payload ev] else []) @ sse_stream payload flt xs"
| "sse_stream payload flt (Lagged n # xs) = sse_stream payload flt xs"

section \<open>The WebSocket\<close>

datatype client_frame = CloseFrame | FailedFrame | OtherFrame

text \<open>The inputs of the loop in the order \<open>select!\<close> takes them: the next of the stream, with whether a send would
  succeed then, or the next frame of the client.\<close>

datatype pump_input = StreamNext "stream_item option" bool | ClientNext "client_frame option"

text \<open>The frames sent, and whether the loop has returned.\<close>

fun ws_pump :: "(realtime_event \<Rightarrow> string) \<Rightarrow> filter_node option \<Rightarrow> pump_input list \<Rightarrow> string list \<times> bool" where
  "ws_pump payload flt [] = ([], False)"
| "ws_pump payload flt (StreamNext (Some (Item ev)) went # ins) =
     (if event_matches ev flt
      then if went then (case ws_pump payload flt ins of (frs, stop) \<Rightarrow> (payload ev # frs, stop)) else ([], True)
      else ws_pump payload flt ins)"
| "ws_pump payload flt (StreamNext (Some (Lagged n)) went # ins) = ws_pump payload flt ins"
| "ws_pump payload flt (StreamNext None went # ins) = ([], True)"
| "ws_pump payload flt (ClientNext (Some OtherFrame) # ins) = ws_pump payload flt ins"
| "ws_pump payload flt (ClientNext (Some CloseFrame) # ins) = ([], True)"
| "ws_pump payload flt (ClientNext (Some FailedFrame) # ins) = ([], True)"
| "ws_pump payload flt (ClientNext None # ins) = ([], True)"

fun ends_pump :: "filter_node option \<Rightarrow> pump_input \<Rightarrow> bool" where
  "ends_pump flt (StreamNext (Some (Item ev)) went) = (event_matches ev flt \<and> \<not> went)"
| "ends_pump flt (StreamNext (Some (Lagged n)) went) = False"
| "ends_pump flt (StreamNext None went) = True"
| "ends_pump flt (ClientNext f) = (f \<noteq> Some OtherFrame)"

fun items_of :: "pump_input list \<Rightarrow> stream_item list" where
  "items_of [] = []"
| "items_of (StreamNext (Some x) went # ins) = x # items_of ins"
| "items_of (_ # ins) = items_of ins"

text \<open>Both endpoints carry the same events. Whatever the client sends and however the two sources interleave, the
  frames of a WebSocket are the payloads the event stream has for the items received before the connection ended,
  in order, and it ends exactly when the client closes, a frame or a send fails, or the broker closes.\<close>

theorem ws_frames_are_sse_payloads:
  "ws_pump payload flt ins =
    (map snd (sse_stream payload flt (items_of (takeWhile (\<lambda>x. \<not> ends_pump flt x) ins))), \<exists>x \<in> set ins. ends_pump flt x)"
  by (induction payload flt ins rule: ws_pump.induct) (auto simp: realtime_event_to_sse_def split: prod.splits)

text \<open>Only events the subscription admits leave the server, on either endpoint.\<close>

lemma sse_stream_forwarded:
  "sse_stream payload flt xs = map (realtime_event_to_sse payload) (forwarded flt (concat (map (\<lambda>x. case x of Item ev \<Rightarrow> [ev] | Lagged _ \<Rightarrow> []) xs)))"
  by (induction payload flt xs rule: sse_stream.induct) (auto simp: forwarded_def)

end
