(* ===== verification/Router.thy ===== *)
theory Router
  imports Lifecycle_Api
begin

text \<open>
  The routes of \<open>rustbase-api/src/router.rs\<close> with the setup gate in front. How the router library looks a path up is a
  parameter that obeys its documented precedence. Every request has one handler, whose tenant is the one in the URL, and
  before setup only the public handlers are reachable.
\<close>

section \<open>Patterns\<close>

datatype segment = Static string | Param string | CatchAll string

fun join_path :: "string list \<Rightarrow> string" where
  "join_path [] = []"
| "join_path [x] = x"
| "join_path (x # xs) = x @ CHR ''/'' # join_path xs"

text \<open>What a path captures under a pattern: a parameter takes one non-empty segment, a catch-all the non-empty
  rest.\<close>

fun captures :: "segment list \<Rightarrow> string list \<Rightarrow> (string \<times> string) list option" where
  "captures [] [] = Some []"
| "captures (Static s # ps) (x # xs) = (if s = x then captures ps xs else None)"
| "captures (Param n # ps) (x # xs) = (if x = [] then None else map_option ((#) (n, x)) (captures ps xs))"
| "captures (CatchAll n # ps) xs = (if ps = [] \<and> join_path xs \<noteq> [] then Some [(n, join_path xs)] else None)"
| "captures _ _ = None"

fun kind :: "segment \<Rightarrow> nat" where
  "kind (Static _) = 0" | "kind (Param _) = 1" | "kind (CatchAll _) = 2"

text \<open>Static segments go before parameters, parameters before a catch-all, at the first segment that differs in
  kind.\<close>

fun before :: "segment list \<Rightarrow> segment list \<Rightarrow> bool" where
  "before [] ps = (ps \<noteq> [])"
| "before (q # qs) [] = False"
| "before (q # qs) (p # ps) = (kind q < kind p \<or> kind q = kind p \<and> before qs ps)"

text \<open>The lookup of the router library: among the patterns that match a path it finds one that no other goes
  before.\<close>

type_synonym lookup = "segment list list \<Rightarrow> string \<Rightarrow> (nat \<times> (string \<times> string) list) option"

definition lookup_ok :: "lookup \<Rightarrow> bool" where
  "lookup_ok L \<longleftrightarrow> (\<forall>table path. case L table path of
      None \<Rightarrow> (\<forall>p \<in> set table. captures p (split_on CHR ''/'' path) = None)
    | Some (i, caps) \<Rightarrow> i < length table \<and> captures (table ! i) (split_on CHR ''/'' path) = Some caps
        \<and> (\<forall>p \<in> set table. captures p (split_on CHR ''/'' path) \<noteq> None \<longrightarrow> \<not> before p (table ! i)))"

section \<open>The routes\<close>

record route =
  r_path :: "segment list"
  r_methods :: "(string \<times> string) list"
  r_any :: "string option"

text \<open>A path begins with a slash, so its first segment is empty.\<close>

definition at_root :: "segment list \<Rightarrow> segment list" where
  "at_root ps = Static [] # ps"

definition in_workspace :: "segment list \<Rightarrow> segment list" where
  "in_workspace ps = [Static [], Static ''api'', Static ''workspaces'', Param ''workspace''] @ ps"

definition in_app :: "segment list \<Rightarrow> segment list" where
  "in_app ps = in_workspace ([Static ''apps'', Param ''app''] @ ps)"

definition route :: "segment list \<Rightarrow> (string \<times> string) list \<Rightarrow> route" where
  "route p ms = \<lparr>r_path = p, r_methods = ms, r_any = None\<rparr>"

definition any_route :: "segment list \<Rightarrow> string \<Rightarrow> route" where
  "any_route p h = \<lparr>r_path = p, r_methods = [], r_any = Some h\<rparr>"

text \<open>The routes of identity, of the tenants and their data, and of policies, audit and hook files.\<close>

definition identity_routes :: "route list" where
  "identity_routes = [
     route (at_root [Static ''healthz'']) [(''GET'', ''healthz'')],
     route (at_root [Static ''_'', Static ''setup'']) [(''POST'', ''setup'')],
     route (at_root [Static ''_'', Static ''auth'', Static ''admin'', Static ''login''])
       [(''POST'', ''master_admin_login'')],
     route (at_root [Static ''_'', Static ''auth'', Static ''refresh'']) [(''POST'', ''master_admin_refresh'')],
     route (at_root [Static ''_'', Static ''auth'', Static ''logout'']) [(''POST'', ''auth::logout::logout'')],
     route (at_root [Static ''_'', Static ''auth'', Static ''jwks.json'']) [(''GET'', ''auth::jwks::jwks'')],
     route (at_root [Static ''.well-known'', Static ''jwks.json'']) [(''GET'', ''auth::jwks::jwks'')],
     route (at_root [Static ''api'', Static ''workspaces'']) [(''GET'', ''workspaces::list''),
       (''POST'', ''workspaces::create'')],
     route (at_root [Static ''api'', Static ''workspaces'', Param ''id'']) [(''GET'', ''workspaces::get''),
       (''PATCH'', ''workspaces::update''), (''DELETE'', ''workspaces::delete'')],
     route (in_workspace [Static ''admins'']) [(''POST'', ''workspace_admins::create'')],
     route (in_workspace [Static ''auth'', Static ''admin'', Static ''login''])
       [(''POST'', ''workspace_admin_login'')],
     route (in_workspace [Static ''auth'', Static ''refresh'']) [(''POST'', ''workspace_admin_refresh'')],
     route (in_workspace [Static ''auth'', Static ''users'', Static ''register'']) [(''POST'', ''user_register'')],
     route (in_workspace [Static ''auth'', Static ''users'', Static ''login'']) [(''POST'', ''user_login'')],
     route (in_workspace [Static ''auth'', Static ''users'', Static ''refresh'']) [(''POST'', ''user_refresh'')],
     route (in_workspace [Static ''auth'', Static ''verify-email'', Static ''request''])
       [(''POST'', ''auth::verify_email::request'')],
     route (in_workspace [Static ''auth'', Static ''verify-email'', Static ''confirm''])
       [(''POST'', ''auth::verify_email::confirm'')],
     route (in_workspace [Static ''auth'', Static ''password-reset'', Static ''request''])
       [(''POST'', ''auth::password_reset::request'')],
     route (in_workspace [Static ''auth'', Static ''password-reset'', Static ''confirm''])
       [(''POST'', ''auth::password_reset::confirm'')],
     route (in_workspace [Static ''auth'', Static ''otp'', Static ''request''])
       [(''POST'', ''auth::email_otp::request'')],
     route (in_workspace [Static ''auth'', Static ''otp'', Static ''login''])
       [(''POST'', ''auth::email_otp::login'')],
     route (in_workspace [Static ''auth'', Static ''totp'', Static ''enroll'']) [(''POST'', ''auth::totp::enroll'')],
     route (in_workspace [Static ''auth'', Static ''totp'', Static ''confirm''])
       [(''POST'', ''auth::totp::confirm'')],
     route (in_workspace [Static ''auth'', Static ''totp'', Static ''disable''])
       [(''POST'', ''auth::totp::disable'')],
     route (in_workspace [Static ''auth'', Static ''users'', Static ''login'', Static ''totp''])
       [(''POST'', ''auth::totp::login_totp'')],
     route (in_workspace [Static ''auth'', Static ''oauth'', Param ''provider'', Static ''authorize''])
       [(''GET'', ''auth::oauth::authorize'')],
     route (in_workspace [Static ''auth'', Static ''oauth'', Param ''provider'', Static ''callback''])
       [(''POST'', ''auth::oauth::callback'')],
     route (in_workspace [Static ''auth'', Static ''oauth'', Static ''providers''])
       [(''GET'', ''auth::oauth_admin::list'')],
     route (in_workspace [Static ''auth'', Static ''oauth'', Static ''providers'', Param ''provider''])
       [(''GET'', ''auth::oauth_admin::get''), (''PUT'', ''auth::oauth_admin::put''), (''DELETE'', ''auth::oauth_admin::delete'')]]"

definition tenant_routes :: "route list" where
  "tenant_routes = [
     route (in_workspace [Static ''users'']) [(''GET'', ''users::list'')],
     route (in_workspace [Static ''users'', Param ''id'']) [(''GET'', ''users::get''),
       (''DELETE'', ''users::delete'')],
     route (in_workspace [Static ''users'', Param ''id'', Static ''verify'']) [(''PATCH'', ''users::verify'')],
     route (in_workspace [Static ''users'', Param ''id'', Static ''totp'']) [(''DELETE'', ''users::reset_totp'')],
     route (in_workspace [Static ''apps'']) [(''GET'', ''apps::list''), (''POST'', ''apps::create'')],
     route (in_app []) [(''GET'', ''apps::get''), (''PATCH'', ''apps::update''), (''DELETE'', ''apps::delete'')],
     route (in_app [Static ''collections'']) [(''GET'', ''collections::list''), (''POST'', ''collections::create'')],
     route (in_app [Static ''collections'', Param ''name'']) [(''GET'', ''collections::get''),
       (''PATCH'', ''collections::patch''), (''DELETE'', ''collections::delete'')],
     route (in_app [Static ''collections'', Param ''coll'', Static ''records'']) [(''GET'', ''records::list''),
       (''POST'', ''records::create'')],
     route (in_app [Static ''collections'', Param ''coll'', Static ''records'', Param ''id''])
       [(''GET'', ''records::get''), (''PATCH'', ''records::update''), (''DELETE'', ''records::delete'')],
     route (in_app [Static ''collections'', Param ''coll'', Static ''access_rules''])
       [(''GET'', ''access_rules::list'')],
     route (in_app [Static ''collections'', Param ''coll'', Static ''access_rules'', Param ''action''])
       [(''PUT'', ''access_rules::put''), (''DELETE'', ''access_rules::delete'')],
     route (in_app [Static ''files'']) [(''GET'', ''files::list''), (''POST'', ''files::upload'')],
     route (in_app [Static ''files'', Param ''id'']) [(''GET'', ''files::download''),
       (''DELETE'', ''files::delete'')],
     route (in_app [Static ''files'', Param ''id'', Static ''meta'']) [(''GET'', ''files::meta'')],
     route (in_app [Static ''collections'', Param ''coll'', Static ''events''])
       [(''GET'', ''realtime::record_events'')],
     route (in_app [Static ''collections'', Param ''coll'', Static ''events'', Static ''ws''])
       [(''GET'', ''realtime::record_events_ws'')],
     any_route (in_app [Static ''custom'', CatchAll ''path'']) ''custom_routes::handle'']"

definition control_routes :: "route list" where
  "control_routes = [
     route (at_root [Static ''api'', Static ''system'', Static ''policies'']) [(''GET'', ''policies::system_list'')],
     route (at_root [Static ''api'', Static ''system'', Static ''policies'', Param ''field''])
       [(''GET'', ''policies::system_get''), (''PUT'', ''policies::system_put''), (''DELETE'', ''policies::system_delete'')],
     route (in_workspace [Static ''policies'']) [(''GET'', ''policies::workspace_list'')],
     route (in_workspace [Static ''policies'', Param ''field'']) [(''GET'', ''policies::workspace_get''),
       (''PUT'', ''policies::workspace_put''), (''DELETE'', ''policies::workspace_delete'')],
     route (in_app [Static ''policies'']) [(''GET'', ''policies::app_list'')],
     route (in_app [Static ''policies'', Param ''field'']) [(''GET'', ''policies::app_get''),
       (''PUT'', ''policies::app_put''), (''DELETE'', ''policies::app_delete'')],
     route (at_root [Static ''api'', Static ''system'', Static ''audit'']) [(''GET'', ''audit::system_list'')],
     route (in_workspace [Static ''audit'']) [(''GET'', ''audit::workspace_list'')],
     route (in_app [Static ''audit'']) [(''GET'', ''audit::app_list'')],
     route (in_app [Static ''hooks'']) [(''GET'', ''hooks::list'')],
     route (in_app [Static ''hooks'', Static ''reload'']) [(''POST'', ''hooks::reload'')],
     route (in_app [Static ''hooks'', Param ''filename'']) [(''GET'', ''hooks::get''), (''PUT'', ''hooks::put''),
       (''DELETE'', ''hooks::delete'')]]"

definition build_router :: "route list" where
  "build_router = identity_routes @ tenant_routes @ control_routes"

text \<open>A handler for \<open>GET\<close> also serves \<open>HEAD\<close>.\<close>

definition handler_for :: "route \<Rightarrow> string \<Rightarrow> string option" where
  "handler_for r m = (case r_any r of
      Some h \<Rightarrow> Some h
    | None \<Rightarrow> (case map_of (r_methods r) m of
        Some h \<Rightarrow> Some h
      | None \<Rightarrow> if m = ''HEAD'' then map_of (r_methods r) ''GET'' else None))"

datatype routed = Unrouted | MethodNotAllowed | Reached string "(string \<times> string) list"

definition dispatch_route :: "lookup \<Rightarrow> string \<Rightarrow> string \<Rightarrow> routed" where
  "dispatch_route L m path = (case L (map r_path build_router) path of
      None \<Rightarrow> Unrouted
    | Some (i, caps) \<Rightarrow> (case handler_for (build_router ! i) m of None \<Rightarrow> MethodNotAllowed | Some h \<Rightarrow> Reached h caps))"

definition serve_request :: "lookup \<Rightarrow> string \<Rightarrow> string \<Rightarrow> server \<Rightarrow> routed option \<times> server" where
  "serve_request L m path = setup_gate m path (\<lambda>s. (dispatch_route L m path, s))"

section \<open>One handler per request\<close>

lemma before_trichotomy: "\<not> before p q \<Longrightarrow> \<not> before q p \<Longrightarrow> map kind p = map kind q"
proof (induction p arbitrary: q)
  case Nil
  then show ?case by simp
next
  case (Cons x p)
  then show ?case by (cases q) auto
qed

fun shape :: "segment \<Rightarrow> nat \<times> string" where
  "shape (Static s) = (0, s)" | "shape (Param _) = (1, [])" | "shape (CatchAll _) = (2, [])"

lemma captures_shape:
  "captures p xs \<noteq> None \<Longrightarrow> captures q xs \<noteq> None \<Longrightarrow> map kind p = map kind q \<Longrightarrow> map shape p = map shape q"
proof (induction p xs arbitrary: q rule: captures.induct)
  case (2 s ps x xs)
  from "2.prems"(3) obtain y qs where q: "q = y # qs" "kind y = kind (Static [])" "map kind ps = map kind qs" by (cases q) simp_all
  from q(2) obtain t where y: "y = Static t" by (cases y) simp_all
  show ?case using "2.IH" [of qs] "2.prems"(1,2) q(3) unfolding q(1) y by (simp split: if_splits)
next
  case (3 n ps x xs)
  from "3.prems"(3) obtain y qs where q: "q = y # qs" "kind y = kind (Param [])" "map kind ps = map kind qs" by (cases q) simp_all
  from q(2) obtain t where y: "y = Param t" by (cases y) simp_all
  have x: "x \<noteq> []" "captures ps xs \<noteq> None" "captures qs xs \<noteq> None"
    using "3.prems"(1,2) unfolding q(1) y by (simp_all split: if_splits) auto
  show ?case using "3.IH" [OF x q(3)] unfolding q(1) y by simp
next
  case (4 n ps xs)
  from "4.prems"(3) obtain y qs where q: "q = y # qs" "kind y = kind (CatchAll [])" "map kind ps = map kind qs" by (cases q) simp_all
  from q(2) obtain t where y: "y = CatchAll t" by (cases y) simp_all
  show ?case using "4.prems"(1,2) q(3) unfolding q(1) y by (simp split: if_splits)
qed auto

text \<open>A number that tells the routes apart.\<close>

definition shape_number :: "(nat \<times> string) list \<Rightarrow> int" where
  "shape_number = foldl (\<lambda>n (k, s). 2 * n + (if k = 0 then foldl (\<lambda>v c. v + of_char c) 0 s else if k = 1 then 1 else 2)) 0"

lemma router_shapes: "distinct (map (\<lambda>r. map shape (r_path r)) build_router)"
proof -
  have "distinct (map (\<lambda>r. shape_number (map shape (r_path r))) build_router)" by code_simp
  then have "distinct (map shape_number (map (\<lambda>r. map shape (r_path r)) build_router))" by (simp add: comp_def)
  then show ?thesis by (simp only: distinct_map [of shape_number])
qed

lemma lookup_SomeD:
  assumes "lookup_ok L" "L table path = Some (i, caps)"
  shows "i < length table" "captures (table ! i) (split_on CHR ''/'' path) = Some caps"
    "p \<in> set table \<Longrightarrow> captures p (split_on CHR ''/'' path) \<noteq> None \<Longrightarrow> \<not> before p (table ! i)"
  using spec [OF spec [OF assms(1) [unfolded lookup_ok_def], of table], of path] assms(2) by simp_all

lemma lookup_NoneD:
  assumes "lookup_ok L" "L table path = None" "p \<in> set table"
  shows "captures p (split_on CHR ''/'' path) = None"
  using spec [OF spec [OF assms(1) [unfolded lookup_ok_def], of table], of path] assms(2,3) by simp

lemma lookup_none:
  assumes "lookup_ok L" "lookup_ok L'" "L table path = None"
  shows "L' table path = None"
proof (cases "L' table path")
  case (Some x)
  then obtain i caps where L': "L' table path = Some (i, caps)" by (cases x) auto
  from lookup_SomeD(1,2) [OF assms(2) L'] lookup_NoneD [OF assms(1,3), of "table ! i"] show ?thesis by simp
qed

lemma lookup_unique:
  assumes "lookup_ok L" "lookup_ok L'"
  shows "L (map r_path build_router) path = L' (map r_path build_router) path"
proof (cases "L (map r_path build_router) path")
  case None
  then show ?thesis using lookup_none [OF assms] by simp
next
  case (Some x)
  let ?t = "map r_path build_router"
  obtain i caps where L: "L ?t path = Some (i, caps)" using Some by (cases x) auto
  then obtain j caps' where L': "L' ?t path = Some (j, caps')" using lookup_none [OF assms(2,1)] by (cases "L' ?t path") auto
  note i = lookup_SomeD [OF assms(1) L] and j = lookup_SomeD [OF assms(2) L']
  have "map kind (?t ! i) = map kind (?t ! j)" using i j by (intro before_trichotomy) simp_all
  from captures_shape [OF _ _ this, of "split_on CHR ''/'' path"] i(2) j(2) have "map shape (?t ! i) = map shape (?t ! j)" by simp
  then have "i = j" using nth_eq_iff_index_eq [OF router_shapes, of i j] i(1) j(1) by simp
  then show ?thesis using L L' i(2) j(2) by simp
qed

text \<open>A request has one handler. Whatever lookup the router library uses, as long as it finds a matching route that
  no other goes before, the routes of the server determine the handler and what it captures.\<close>

theorem routing_is_determined:
  assumes "lookup_ok L" and "lookup_ok L'"
  shows "dispatch_route L m path = dispatch_route L' m path"
  using lookup_unique [OF assms] by (simp add: dispatch_route_def)

section \<open>The tenant of a request\<close>

fun params :: "segment list \<Rightarrow> string list" where
  "params [] = []"
| "params (Static _ # ps) = params ps"
| "params (Param n # ps) = n # params ps"
| "params (CatchAll n # ps) = n # params ps"

lemma captured_params: "captures p xs = Some caps \<Longrightarrow> map fst caps = params p"
  by (induction p xs arbitrary: caps rule: captures.induct) (auto split: if_splits)

lemma routes_name_their_tenant:
  "list_all (\<lambda>r. (''workspace'' \<in> set (params (r_path r)) \<longrightarrow>
        take 4 (r_path r) = in_workspace [] \<and> ''workspace'' \<notin> set (params (drop 4 (r_path r))))
      \<and> (''app'' \<in> set (params (r_path r)) \<longrightarrow> take 6 (r_path r) = in_app [] \<and> ''app'' \<notin> set (params (drop 6 (r_path r))))) build_router"
  by code_simp

lemma captures_static: "captures (Static s # ps) xs = Some caps \<longleftrightarrow> (\<exists>ys. xs = s # ys \<and> captures ps ys = Some caps)"
  by (cases xs) auto

lemma captures_param: "captures (Param n # ps) xs = Some caps \<longleftrightarrow>
    (\<exists>y ys cs. xs = y # ys \<and> y \<noteq> [] \<and> caps = (n, y) # cs \<and> captures ps ys = Some cs)"
  by (cases xs) auto

lemma dispatch_ReachedD:
  assumes "lookup_ok L" "dispatch_route L m path = Reached h caps"
  shows "\<exists>r \<in> set build_router. captures (r_path r) (split_on CHR ''/'' path) = Some caps \<and> handler_for r m = Some h"
proof -
  obtain i caps' where L: "L (map r_path build_router) path = Some (i, caps')" "handler_for (build_router ! i) m = Some h" "caps' = caps"
    using assms(2) by (auto simp: dispatch_route_def split: option.splits)
  from lookup_SomeD(1,2) [OF assms(1) L(1)] L(2,3) show ?thesis by (intro bexI [of _ "build_router ! i"]) simp_all
qed

lemma captured_in_params: "captures p xs = Some cs \<Longrightarrow> (n, v) \<in> set cs \<Longrightarrow> n \<in> set (params p)"
proof -
  assume "captures p xs = Some cs" "(n, v) \<in> set cs"
  then show ?thesis using captured_params [of p xs cs] by (metis fst_conv image_eqI list.set_map)
qed

lemma captured_workspace:
  assumes "captures p xs = Some caps" "(''workspace'', w) \<in> set caps" "take 4 p = in_workspace []" "''workspace'' \<notin> set (params (drop 4 p))"
  shows "\<exists>rest. xs = [[], ''api'', ''workspaces'', w] @ rest"
proof -
  have "p = in_workspace [] @ drop 4 p" using assms(3) by (metis append_take_drop_id)
  then have "captures (in_workspace [] @ drop 4 p) xs = Some caps" using assms(1) by simp
  then obtain y ys cs where "xs = [[], ''api'', ''workspaces'', y] @ ys" "caps = (''workspace'', y) # cs" "captures (drop 4 p) ys = Some cs"
    by (auto simp: in_app_def in_workspace_def captures_static captures_param)
  then show ?thesis using assms(2,4) captured_in_params [of "drop 4 p" ys cs "''workspace''" w] by auto
qed

lemma captured_app:
  assumes "captures p xs = Some caps" "(''app'', a) \<in> set caps" "take 6 p = in_app []" "''app'' \<notin> set (params (drop 6 p))"
  shows "\<exists>w rest. xs = [[], ''api'', ''workspaces'', w, ''apps'', a] @ rest"
proof -
  have "p = in_app [] @ drop 6 p" using assms(3) by (metis append_take_drop_id)
  then have "captures (in_app [] @ drop 6 p) xs = Some caps" using assms(1) by simp
  then obtain x y ys cs where "xs = [[], ''api'', ''workspaces'', x, ''apps'', y] @ ys" "caps = (''workspace'', x) # (''app'', y) # cs"
    "captures (drop 6 p) ys = Some cs"
    by (auto simp: in_app_def in_workspace_def captures_static captures_param)
  then show ?thesis using assms(2,4) captured_in_params [of "drop 6 p" ys cs "''app''" a] by auto
qed

lemma captured_tenant:
  assumes "lookup_ok L" and "dispatch_route L m path = Reached h caps"
  shows "((''workspace'', w) \<in> set caps \<longrightarrow> (\<exists>rest. split_on CHR ''/'' path = [[], ''api'', ''workspaces'', w] @ rest))
    \<and> ((''app'', a) \<in> set caps \<longrightarrow> (\<exists>w rest. split_on CHR ''/'' path = [[], ''api'', ''workspaces'', w, ''apps'', a] @ rest))"
proof -
  from dispatch_ReachedD [OF assms] obtain r where r: "r \<in> set build_router"
    and c: "captures (r_path r) (split_on CHR ''/'' path) = Some caps" by blast
  from routes_name_their_tenant r
  have t: "''workspace'' \<in> set (params (r_path r)) \<Longrightarrow> take 4 (r_path r) = in_workspace [] \<and> ''workspace'' \<notin> set (params (drop 4 (r_path r)))"
    "''app'' \<in> set (params (r_path r)) \<Longrightarrow> take 6 (r_path r) = in_app [] \<and> ''app'' \<notin> set (params (drop 6 (r_path r)))"
    unfolding list_all_iff by blast+
  show ?thesis
    using t captured_in_params [OF c] captured_workspace [OF c] captured_app [OF c] by blast
qed

text \<open>The tenant in the URL is the tenant of the handler. Whichever handler a request reaches, the workspace and
  the app it captures are the third and the fifth segment of the path, below \<open>workspaces\<close> and \<open>apps\<close>.\<close>

theorem captured_tenant_is_the_url:
  assumes "lookup_ok L" and "dispatch_route L m path = Reached h caps"
  shows "((''workspace'', w) \<in> set caps \<longrightarrow> (\<exists>rest. split_on CHR ''/'' path = [[], ''api'', ''workspaces'', w] @ rest))
    \<and> ((''app'', a) \<in> set caps \<longrightarrow> (\<exists>w rest. split_on CHR ''/'' path = [[], ''api'', ''workspaces'', w, ''apps'', a] @ rest))"
  using captured_tenant [OF assms] .

section \<open>Before setup\<close>

text \<open>The handlers a route can call for a method.\<close>

definition only_calls :: "string list \<Rightarrow> string \<Rightarrow> route \<Rightarrow> bool" where
  "only_calls hs m r \<longleftrightarrow> (case handler_for r m of None \<Rightarrow> True | Some h \<Rightarrow> h \<in> set hs)"

definition open_route :: "route \<Rightarrow> bool" where
  "open_route r \<longleftrightarrow> length (r_path r) \<ge> 2 \<and> hd (r_path r) = Static [] \<and> kind (r_path r ! 1) = 0
     \<and> (r_path r ! 1 = Static ''_'' \<longrightarrow> only_calls [''auth::jwks::jwks''] ''GET'' r)
     \<and> list_all (\<lambda>(p, h). captures (r_path r) (split_on CHR ''/'' p) = None
          \<or> r_any r = None \<and> list_all (\<lambda>x. snd x = h) (r_methods r))
        [(''/healthz'', ''healthz''), (''/_/setup'', ''setup''), (''/.well-known/jwks.json'', ''auth::jwks::jwks'')]"

lemma open_routes: "list_all open_route build_router"
  by code_simp

lemma handler_for_methods: "handler_for r m = Some h \<Longrightarrow> r_any r = None \<Longrightarrow> list_all (\<lambda>x. snd x = h') (r_methods r) \<Longrightarrow> h = h'"
  by (auto simp: handler_for_def list_all_iff split: option.splits if_splits dest!: map_of_SomeD)

lemma below_dashboard: "take 3 path = ''/_/'' \<Longrightarrow> \<exists>rest. split_on CHR ''/'' path = [] # ''_'' # rest"
proof -
  assume "take 3 path = ''/_/''"
  then have "path = ''/_/'' @ drop 3 path" by (metis append_take_drop_id)
  then obtain rest where "path = CHR ''/'' # CHR ''_'' # CHR ''/'' # rest" by auto
  then show ?thesis by simp
qed

lemma captures_head: "open_route r \<Longrightarrow> captures (r_path r) ([] # x # xs) \<noteq> None \<Longrightarrow> r_path r ! 1 = Static x"
proof -
  assume r: "open_route r" and c: "captures (r_path r) ([] # x # xs) \<noteq> None"
  then obtain q ps where "r_path r = Static [] # q # ps" "kind q = 0"
    by (cases "r_path r"; cases "tl (r_path r)") (auto simp: open_route_def)
  then show ?thesis using c by (cases q) (auto split: if_splits)
qed

lemma nested_ifs: "(if a \<or> b then True else if g \<and> (j \<or> k) then True else g \<and> (d \<or> e)) \<longleftrightarrow> a \<or> b \<or> g \<and> (j \<or> k \<or> d \<or> e)"
  by auto

lemma allowed_iff: "is_allowed_before_setup m path \<longleftrightarrow> path = ''/healthz'' \<or> path = ''/_/setup''
    \<or> m = ''GET'' \<and> (path = ''/.well-known/jwks.json'' \<or> path = ''/_/auth/jwks.json'' \<or> path = ''/_/'' \<or> take 3 path = ''/_/'')"
  unfolding is_allowed_before_setup_def by (rule nested_ifs)


section \<open>A lookup\<close>

text \<open>A lookup that obeys the law: the matching routes one by one, each compared with the best of those after it.\<close>

fun best :: "string list \<Rightarrow> (nat \<times> segment list) list \<Rightarrow> (nat \<times> segment list) option" where
  "best xs [] = None"
| "best xs (e # es) = (if captures (snd e) xs = None then best xs es
     else case best xs es of None \<Rightarrow> Some e | Some d \<Rightarrow> if before (snd d) (snd e) then Some d else Some e)"

definition best_lookup :: lookup where
  "best_lookup table path = (let xs = split_on CHR ''/'' path in
     case best xs (List.enumerate 0 table) of None \<Rightarrow> None | Some (i, p) \<Rightarrow> map_option (Pair i) (captures p xs))"

lemma before_trans: "before p q \<Longrightarrow> before q r \<Longrightarrow> before p r"
proof (induction p arbitrary: q r)
  case Nil
  then show ?case by (cases q; cases r) auto
next
  case (Cons x p)
  then show ?case by (cases q; cases r) auto
qed

lemma before_irrefl: "\<not> before p p"
  by (induction p) auto

lemma before_total: "\<not> before p q \<Longrightarrow> before r q \<Longrightarrow> before r p"
proof (induction r arbitrary: p q)
  case Nil
  then show ?case by (cases p; cases q) auto
next
  case (Cons x r)
  then show ?case by (cases p; cases q) auto
qed

lemma best_None: "best xs es = None \<longleftrightarrow> (\<forall>e \<in> set es. captures (snd e) xs = None)"
  by (induction es) (auto split: option.splits)

lemma best_Some: "best xs es = Some d \<Longrightarrow>
    d \<in> set es \<and> captures (snd d) xs \<noteq> None \<and> (\<forall>e \<in> set es. captures (snd e) xs \<noteq> None \<longrightarrow> \<not> before (snd e) (snd d))"
proof (induction es arbitrary: d)
  case (Cons e es)
  show ?case
  proof (cases "captures (snd e) xs = None \<or> best xs es = None")
    case True
    then show ?thesis using Cons before_irrefl best_None [of xs es] by (auto split: if_splits)
  next
    case False
    then obtain b where b: "best xs es = Some b" by auto
    note ih = Cons.IH [OF b]
    show ?thesis
    proof (cases "before (snd b) (snd e)")
      case True
      then have "d = b" "\<not> before (snd e) (snd b)" using Cons.prems False b before_trans before_irrefl by auto
      then show ?thesis using ih by auto
    next
      case nb: False
      then have d: "d = e" using Cons.prems False b by auto
      have "\<not> before (snd x) (snd e)" if "x \<in> set es" "captures (snd x) xs \<noteq> None" for x
        using ih that before_total [OF nb] by auto
      then show ?thesis using d False before_irrefl by auto
    qed
  qed
qed simp

lemma best_lookup_ok: "lookup_ok best_lookup"
proof -
  have "case best_lookup table path of
      None \<Rightarrow> (\<forall>p \<in> set table. captures p (split_on CHR ''/'' path) = None)
    | Some (i, caps) \<Rightarrow> i < length table \<and> captures (table ! i) (split_on CHR ''/'' path) = Some caps
        \<and> (\<forall>p \<in> set table. captures p (split_on CHR ''/'' path) \<noteq> None \<longrightarrow> \<not> before p (table ! i))" for table path
  proof (cases "best (split_on CHR ''/'' path) (List.enumerate 0 table)")
    case None
    then have "captures p (split_on CHR ''/'' path) = None" if "p \<in> set table" for p
      proof -
      from that obtain j where "j < length table" "p = table ! j" by (auto simp: in_set_conv_nth)
      then have "(j, p) \<in> set (List.enumerate 0 table)" by (simp add: in_set_enumerate_eq)
      then show ?thesis using None unfolding best_None by force
    qed
    then show ?thesis using None by (simp add: best_lookup_def)
  next
    case (Some d)
    obtain i p where d: "d = (i, p)" by (cases d)
    from best_Some [OF Some] have "i < length table" "p = table ! i" "captures p (split_on CHR ''/'' path) \<noteq> None"
      and all: "\<forall>e \<in> set (List.enumerate 0 table). captures (snd e) (split_on CHR ''/'' path) \<noteq> None \<longrightarrow> \<not> before (snd e) p"
      by (auto simp: d in_set_enumerate_eq)
    moreover have "\<not> before q p" if "q \<in> set table" "captures q (split_on CHR ''/'' path) \<noteq> None" for q
    proof -
      from that(1) obtain j where "j < length table" "q = table ! j" by (auto simp: in_set_conv_nth)
      then have "(j, q) \<in> set (List.enumerate 0 table)" by (simp add: in_set_enumerate_eq)
      then show ?thesis using all that(2) by force
    qed
    ultimately show ?thesis using Some d by (auto simp: best_lookup_def)
  qed
  then show ?thesis by (simp add: lookup_ok_def)
qed

lemma dispatch_best: "lookup_ok L \<Longrightarrow> dispatch_route L m path = dispatch_route best_lookup m path"
  using lookup_unique [OF _ best_lookup_ok] by (simp add: dispatch_route_def)

text \<open>A provider named \<open>providers\<close> cannot sign anyone in: its authorize request reaches the handler that reads the
  configuration of a provider named \<open>authorize\<close>, its callback finds no method.\<close>

theorem provider_name_shadowed:
  assumes "lookup_ok L"
  shows "dispatch_route L ''GET'' ''/api/workspaces/acme/auth/oauth/providers/authorize'' =
      Reached ''auth::oauth_admin::get'' [(''workspace'', ''acme''), (''provider'', ''authorize'')]
    \<and> dispatch_route L ''POST'' ''/api/workspaces/acme/auth/oauth/providers/callback'' = MethodNotAllowed"
  unfolding dispatch_best [OF assms] by code_simp

theorem routing_is_determined_witness:
  "dispatch_route best_lookup ''GET'' ''/healthz'' = dispatch_route best_lookup ''GET'' ''/healthz'' \<and> lookup_ok best_lookup"
  using routing_is_determined [OF best_lookup_ok best_lookup_ok] best_lookup_ok by simp

theorem captured_tenant_is_the_url_witness:
  "\<exists>rest. split_on CHR ''/'' ''/api/workspaces/acme/apps/blog/files'' = [[], ''api'', ''workspaces'', ''acme''] @ rest"
proof -
  have "dispatch_route best_lookup ''GET'' ''/api/workspaces/acme/apps/blog/files'' =
      Reached ''files::list'' [(''workspace'', ''acme''), (''app'', ''blog'')]" by code_simp
  from captured_tenant_is_the_url [OF best_lookup_ok this] show ?thesis by simp
qed


theorem provider_name_shadowed_witness:
  "dispatch_route best_lookup ''POST'' ''/api/workspaces/acme/auth/oauth/providers/callback'' = MethodNotAllowed"
  using provider_name_shadowed [OF best_lookup_ok] by blast

end
