(* ===== verification/Policy_Api.thy ===== *)
theory Policy_Api
  imports Auth_Api
begin

text \<open>
  Policies across scopes: the cascades of \<^verbatim>\<open>rustbase-db/src/policy_engine.rs\<close> and the handlers of
  \<^verbatim>\<open>rustbase-api/src/policies.rs\<close>. A cascade opens the database of every workspace and app it
  visits, one after the other, without a transaction around them, so an error on the way leaves the
  values changed so far.
\<close>

section \<open>Cascades\<close>

record clamp_outcome =
  co_workspace :: string
  co_app :: "string option"
  co_field :: string
  co_before :: policy_spec
  co_after :: policy_spec

text \<open>What a sweep finds in one scope: nothing stored, a value that fits, or one it replaced.\<close>

datatype swept = NoValue | Fits policy_spec | Clamped policy_spec policy_spec

text \<open>One scope: \<open>audit\<close> is the error of its audit table, if that table is missing.\<close>

definition sweep ::
  "env \<Rightarrow> string \<Rightarrow> string option \<Rightarrow> string \<Rightarrow> policy_spec \<Rightarrow> db_error + unit \<Rightarrow> policies \<Rightarrow> audit_log
    \<Rightarrow> (db_error + swept) \<times> policies \<times> audit_log" where
  "sweep env trigger actor field bound audit t l =
     (case get_policy t field of
        Inl e \<Rightarrow> (Inl e, t, l)
      | Inr None \<Rightarrow> (Inr NoValue, t, l)
      | Inr (Some stored) \<Rightarrow>
          if allows bound stored then (Inr (Fits stored), t, l)
          else let after = clamp bound stored in
            (case upsert_policy (store_spec env) (clock env) t field after of
               (Inl e, t') \<Rightarrow> (Inl e, t', l)
             | (Inr _, t') \<Rightarrow>
                 (case audit of
                    Inl e \<Rightarrow> (Inl e, t', l)
                  | Inr _ \<Rightarrow>
                      (Inr (Clamped stored after), t',
                       snd (audit_append (clock env) l actor ''policy_clamped'' (Some field)
                         (JObject [(''trigger'', JString trigger), (''before'', spec_json env stored),
                                   (''after'', spec_json env after)]))))))"

definition outcome :: "string \<Rightarrow> string option \<Rightarrow> string \<Rightarrow> swept \<Rightarrow> clamp_outcome list" where
  "outcome w a field x = (case x of
      Clamped before after \<Rightarrow>
        [\<lparr>co_workspace = w, co_app = a, co_field = field, co_before = before, co_after = after\<rparr>]
    | _ \<Rightarrow> [])"

definition sweep_app ::
  "env \<Rightarrow> string \<Rightarrow> string option \<Rightarrow> string \<Rightarrow> string \<Rightarrow> policy_spec \<Rightarrow> string \<Rightarrow> swept handler" where
  "sweep_app env trigger actor w field bound a =
     on_app env w a ''policies'' (\<lambda>db.
       case need db ''policies'' of
         Inl e \<Rightarrow> db_stmt env (Inl e, db)
       | Inr _ \<Rightarrow>
           (case sweep env trigger actor field bound (need db ''audit_log'') (ad_policies db) (ad_audit db) of
              (r, t, l) \<Rightarrow> db_stmt env (r, db\<lparr>ad_policies := t, ad_audit := l\<rparr>)))"

fun sweep_apps ::
  "env \<Rightarrow> string \<Rightarrow> string option \<Rightarrow> string \<Rightarrow> string \<Rightarrow> policy_spec \<Rightarrow> app list \<Rightarrow> clamp_outcome list handler" where
  "sweep_apps env trigger actor w field bound [] = hret []"
| "sweep_apps env trigger actor w field bound (a # as) =
     hbind (sweep_app env trigger actor w field bound (a_id a)) (\<lambda>x.
     hbind (sweep_apps env trigger actor w field bound as) (\<lambda>rest.
     hret (outcome w (Some (a_id a)) field x @ rest)))"

definition apps_of :: "env \<Rightarrow> string \<Rightarrow> app list handler" where
  "apps_of env w = on_workspace env w ''apps'' (\<lambda>db. (Inr (list_apps (ws_apps db)), db))"

definition cascade_realm_to_apps ::
  "env \<Rightarrow> string \<Rightarrow> string \<Rightarrow> policy_spec \<Rightarrow> string option \<Rightarrow> clamp_outcome list handler" where
  "cascade_realm_to_apps env w field new actor =
     hbind (apps_of env w) (\<lambda>as. sweep_apps env ''workspace_tightened'' actor w field new as)"

definition sweep_workspace ::
  "env \<Rightarrow> string option \<Rightarrow> string \<Rightarrow> policy_spec \<Rightarrow> string \<Rightarrow> swept handler" where
  "sweep_workspace env actor field new w =
     on_workspace env w ''policies'' (\<lambda>db.
       case sweep env ''master_tightened'' actor field new (Inr ()) (ws_policies db) (ws_audit db) of
         (r, t, l) \<Rightarrow> db_stmt env (r, db\<lparr>ws_policies := t, ws_audit := l\<rparr>))"

definition effective_bound :: "policy_spec \<Rightarrow> swept \<Rightarrow> policy_spec" where
  "effective_bound new x = (case x of NoValue \<Rightarrow> new | Fits stored \<Rightarrow> stored | Clamped _ after \<Rightarrow> after)"

fun sweep_workspaces ::
  "env \<Rightarrow> string option \<Rightarrow> string \<Rightarrow> policy_spec \<Rightarrow> workspace list \<Rightarrow> clamp_outcome list handler" where
  "sweep_workspaces env actor field new [] = hret []"
| "sweep_workspaces env actor field new (r # rs) =
     (if w_id r = MASTER_WORKSPACE_ID then sweep_workspaces env actor field new rs
      else hbind (sweep_workspace env actor field new (w_id r)) (\<lambda>x.
        hbind (apps_of env (w_id r)) (\<lambda>as.
        hbind (sweep_apps env ''master_tightened'' actor (w_id r) field (effective_bound new x) as) (\<lambda>outs.
        hbind (sweep_workspaces env actor field new rs) (\<lambda>rest.
        hret (outcome (w_id r) None field x @ outs @ rest))))))"

definition cascade_master_to_realms_and_apps ::
  "env \<Rightarrow> string \<Rightarrow> policy_spec \<Rightarrow> string option \<Rightarrow> clamp_outcome list handler" where
  "cascade_master_to_realms_and_apps env field new actor =
     hbind (\<lambda>s. (Inr (list_realms (sys_workspaces (sv_system s))), s))
       (\<lambda>rs. sweep_workspaces env actor field new rs)"

section \<open>Handlers\<close>

record put_policy_response =
  pp_field :: string
  pp_spec :: policy_spec
  pp_cascaded :: "clamp_outcome list"

definition set_details :: "env \<Rightarrow> string \<Rightarrow> policy_spec \<Rightarrow> json" where
  "set_details env sc s = JObject [(''scope'', JString sc), (''spec'', spec_json env s)]"

definition deleted_details :: "string \<Rightarrow> json" where
  "deleted_details sc = JObject [(''scope'', JString sc)]"

text \<open>The three scopes run the same statements on their own tables.\<close>

definition put_stmts ::
  "env \<Rightarrow> string \<Rightarrow> string \<Rightarrow> string \<Rightarrow> policy_spec \<Rightarrow> db_error + unit \<Rightarrow> policies \<Rightarrow> audit_log
    \<Rightarrow> (db_error + unit) \<times> policies \<times> audit_log" where
  "put_stmts env actor sc field s audit t l =
     (case upsert_policy (store_spec env) (clock env) t field s of
        (Inl e, t') \<Rightarrow> (Inl e, t', l)
      | (Inr _, t') \<Rightarrow>
          (case audit of
             Inl e \<Rightarrow> (Inl e, t', l)
           | Inr _ \<Rightarrow> (Inr (), t', snd (audit_append (clock env) l (Some actor) ''policy_set'' (Some field) (set_details env sc s)))))"

definition delete_stmts ::
  "env \<Rightarrow> string \<Rightarrow> string \<Rightarrow> string \<Rightarrow> db_error + unit \<Rightarrow> policies \<Rightarrow> audit_log
    \<Rightarrow> (core_error + unit) \<times> policies \<times> audit_log" where
  "delete_stmts env actor sc field audit t l =
     (case delete_policy t field of
        (Inl (Sqlx RowNotFound), t') \<Rightarrow> (Inl (NotFound ''policy'' field), t', l)
      | (Inl e, t') \<Rightarrow> (Inl (core_error_of_db (show_sqlx env) e), t', l)
      | (Inr _, t') \<Rightarrow>
          (case audit of
             Inl e \<Rightarrow> (Inl (core_error_of_db (show_sqlx env) e), t', l)
           | Inr _ \<Rightarrow> (Inr (), t', snd (audit_append (clock env) l (Some actor) ''policy_deleted'' (Some field) (deleted_details sc)))))"

definition get_stmt :: "env \<Rightarrow> policies \<Rightarrow> string \<Rightarrow> core_error + policy_spec" where
  "get_stmt env t field =
     (case get_policy t field of
        Inl e \<Rightarrow> Inl (core_error_of_db (show_sqlx env) e)
      | Inr None \<Rightarrow> Inl (NotFound ''policy'' field)
      | Inr (Some s) \<Rightarrow> Inr s)"

definition list_stmt :: "env \<Rightarrow> policies \<Rightarrow> core_error + (string \<times> policy_spec \<times> time) list" where
  "list_stmt env t = (case list_policies t of Inl e \<Rightarrow> Inl (core_error_of_db (show_sqlx env) e) | Inr xs \<Rightarrow> Inr xs)"

definition system_list :: "env \<Rightarrow> claims \<Rightarrow> (string \<times> policy_spec \<times> time) list handler" where
  "system_list env c = hbind (lift (require_master c)) (\<lambda>_. on_system (\<lambda>db. (list_stmt env (sys_policies db), db)))"

definition system_get :: "env \<Rightarrow> claims \<Rightarrow> string \<Rightarrow> policy_spec handler" where
  "system_get env c field = hbind (lift (require_master c)) (\<lambda>_. on_system (\<lambda>db. (get_stmt env (sys_policies db) field, db)))"

definition system_put :: "env \<Rightarrow> claims \<Rightarrow> string \<Rightarrow> policy_spec \<Rightarrow> put_policy_response handler" where
  "system_put env c field s =
     hbind (lift (require_master c)) (\<lambda>_.
     hbind (on_system (\<lambda>db. case put_stmts env (sub c) ''system'' field s (Inr ()) (sys_policies db) (sys_audit db) of
              (r, t, l) \<Rightarrow> db_stmt env (r, db\<lparr>sys_policies := t, sys_audit := l\<rparr>))) (\<lambda>_.
     hbind (cascade_master_to_realms_and_apps env field s (Some (sub c))) (\<lambda>cascaded.
     hret \<lparr>pp_field = field, pp_spec = s, pp_cascaded = cascaded\<rparr>)))"

definition system_delete :: "env \<Rightarrow> claims \<Rightarrow> string \<Rightarrow> unit handler" where
  "system_delete env c field =
     hbind (lift (require_master c)) (\<lambda>_.
     on_system (\<lambda>db. case delete_stmts env (sub c) ''system'' field (Inr ()) (sys_policies db) (sys_audit db) of
       (r, t, l) \<Rightarrow> (r, db\<lparr>sys_policies := t, sys_audit := l\<rparr>)))"

definition require_realm_exists :: "string \<Rightarrow> unit handler" where
  "require_realm_exists w = require_workspace_exists w"

definition workspace_list :: "env \<Rightarrow> claims \<Rightarrow> string \<Rightarrow> (string \<times> policy_spec \<times> time) list handler" where
  "workspace_list env c w =
     hbind (lift (require_workspace_access c w)) (\<lambda>_.
     hbind (require_realm_exists w) (\<lambda>_.
     on_workspace env w ''policies'' (\<lambda>db. (list_stmt env (ws_policies db), db))))"

definition workspace_get :: "env \<Rightarrow> claims \<Rightarrow> string \<Rightarrow> string \<Rightarrow> policy_spec handler" where
  "workspace_get env c w field =
     hbind (lift (require_workspace_access c w)) (\<lambda>_.
     hbind (require_realm_exists w) (\<lambda>_.
     on_workspace env w ''policies'' (\<lambda>db. (get_stmt env (ws_policies db) field, db))))"

definition chain_level :: "string \<Rightarrow> policy_spec option \<Rightarrow> policy_level list" where
  "chain_level name s = (case s of None \<Rightarrow> [] | Some p \<Rightarrow> [\<lparr>level = name, spec = p\<rparr>])"

definition system_bound :: "env \<Rightarrow> string \<Rightarrow> policy_spec option handler" where
  "system_bound env field s = lift_db env (get_policy (sys_policies (sv_system s)) field) s"

definition workspace_put :: "env \<Rightarrow> claims \<Rightarrow> string \<Rightarrow> string \<Rightarrow> policy_spec \<Rightarrow> put_policy_response handler" where
  "workspace_put env c w field s =
     hbind (lift (require_workspace_access c w)) (\<lambda>_.
     hbind (require_realm_exists w) (\<lambda>_.
     hbind (system_bound env field) (\<lambda>master.
     hbind (lift (validate_chain (show_spec env) field (chain_level ''master'' master @ chain_level ''workspace'' (Some s)))) (\<lambda>_.
     hbind (on_workspace env w ''policies'' (\<lambda>db.
              case put_stmts env (sub c) ''workspace'' field s (Inr ()) (ws_policies db) (ws_audit db) of
                (r, t, l) \<Rightarrow> db_stmt env (r, db\<lparr>ws_policies := t, ws_audit := l\<rparr>))) (\<lambda>_.
     hbind (cascade_realm_to_apps env w field s (Some (sub c))) (\<lambda>cascaded.
     hret \<lparr>pp_field = field, pp_spec = s, pp_cascaded = cascaded\<rparr>))))))"

definition workspace_delete :: "env \<Rightarrow> claims \<Rightarrow> string \<Rightarrow> string \<Rightarrow> unit handler" where
  "workspace_delete env c w field =
     hbind (lift (require_workspace_access c w)) (\<lambda>_.
     hbind (require_realm_exists w) (\<lambda>_.
     on_workspace env w ''policies'' (\<lambda>db.
       case delete_stmts env (sub c) ''workspace'' field (Inr ()) (ws_policies db) (ws_audit db) of
         (r, t, l) \<Rightarrow> (r, db\<lparr>ws_policies := t, ws_audit := l\<rparr>))))"

definition find_app_or_fail :: "env \<Rightarrow> string \<Rightarrow> string \<Rightarrow> unit handler" where
  "find_app_or_fail env w a =
     on_workspace env w ''apps'' (\<lambda>db. (case find_app (ws_apps db) a of None \<Rightarrow> Inl (AppNotFound w a) | Some _ \<Rightarrow> Inr (), db))"

definition open_app_pool ::
  "env \<Rightarrow> string \<Rightarrow> string \<Rightarrow> string \<Rightarrow> (app_db \<Rightarrow> (core_error + 'a) \<times> app_db) \<Rightarrow> 'a handler" where
  "open_app_pool env w a table f =
     hbind (require_realm_exists w) (\<lambda>_.
     hbind (find_app_or_fail env w a) (\<lambda>_.
     on_app env w a table (\<lambda>db. case need db table of Inl e \<Rightarrow> db_stmt env (Inl e, db) | Inr _ \<Rightarrow> f db)))"

definition app_list :: "env \<Rightarrow> claims \<Rightarrow> string \<Rightarrow> string \<Rightarrow> (string \<times> policy_spec \<times> time) list handler" where
  "app_list env c w a =
     hbind (lift (require_app_access c w a)) (\<lambda>_.
     open_app_pool env w a ''policies'' (\<lambda>db. (list_stmt env (ad_policies db), db)))"

definition app_get :: "env \<Rightarrow> claims \<Rightarrow> string \<Rightarrow> string \<Rightarrow> string \<Rightarrow> policy_spec handler" where
  "app_get env c w a field =
     hbind (lift (require_app_access c w a)) (\<lambda>_.
     open_app_pool env w a ''policies'' (\<lambda>db. (get_stmt env (ad_policies db) field, db)))"

definition app_put :: "env \<Rightarrow> claims \<Rightarrow> string \<Rightarrow> string \<Rightarrow> string \<Rightarrow> policy_spec \<Rightarrow> put_policy_response handler" where
  "app_put env c w a field s =
     hbind (lift (require_app_access c w a)) (\<lambda>_.
     hbind (find_app_or_fail env w a) (\<lambda>_.
     hbind (system_bound env field) (\<lambda>master.
     hbind (on_workspace env w ''policies'' (\<lambda>db. db_stmt env (get_policy (ws_policies db) field, db))) (\<lambda>ws.
     hbind (lift (validate_chain (show_spec env) field
              (chain_level ''master'' master @ chain_level ''workspace'' ws @ chain_level ''app'' (Some s)))) (\<lambda>_.
     hbind (on_app env w a ''policies'' (\<lambda>db.
              case need db ''policies'' of
                Inl e \<Rightarrow> db_stmt env (Inl e, db)
              | Inr _ \<Rightarrow>
                  (case put_stmts env (sub c) ''app'' field s (need db ''audit_log'') (ad_policies db) (ad_audit db) of
                     (r, t, l) \<Rightarrow> db_stmt env (r, db\<lparr>ad_policies := t, ad_audit := l\<rparr>)))) (\<lambda>_.
     hret \<lparr>pp_field = field, pp_spec = s, pp_cascaded = []\<rparr>))))))"

definition app_delete :: "env \<Rightarrow> claims \<Rightarrow> string \<Rightarrow> string \<Rightarrow> string \<Rightarrow> unit handler" where
  "app_delete env c w a field =
     hbind (lift (require_app_access c w a)) (\<lambda>_.
     open_app_pool env w a ''policies'' (\<lambda>db.
       case delete_stmts env (sub c) ''app'' field (need db ''audit_log'') (ad_policies db) (ad_audit db) of
         (r, t, l) \<Rightarrow> (r, db\<lparr>ad_policies := t, ad_audit := l\<rparr>)))"

section \<open>What a cascade achieves\<close>

lemma case_triple_Inr [handler]:
  "(case p of (r, t, l) \<Rightarrow> db_stmt env (r, g t l)) = (Inr y, d) \<longleftrightarrow> (\<exists>t l. p = (Inr y, t, l) \<and> d = g t l)"
  by (cases p) (auto simp: db_stmt_Inr)

lemma need_then_Inr [handler]:
  "(case x of Inl e \<Rightarrow> db_stmt env (Inl e, d0) | Inr u \<Rightarrow> g u) = (Inr y, d) \<longleftrightarrow> (\<exists>u. x = Inr u \<and> g u = (Inr y, d))"
  by (cases x) (auto simp: db_stmt_Inr)

definition serde_ok :: "spec_store \<Rightarrow> bool" where
  "serde_ok store = (\<forall>s. storable s \<longrightarrow> store s = Inr (Inr s))"

definition of_kind :: "string \<Rightarrow> policy_spec \<Rightarrow> policies \<Rightarrow> bool" where
  "of_kind field s t = (policies_ok t \<and> (\<forall>v. get_policy t field = Inr (Some v) \<longrightarrow> same_kind s v))"

definition inside :: "string \<Rightarrow> policy_spec \<Rightarrow> policies \<Rightarrow> bool" where
  "inside field s t = (policies_ok t \<and> (\<forall>v. get_policy t field = Inr (Some v) \<longrightarrow> allows s v))"

definition bound_in :: "string \<Rightarrow> policy_spec \<Rightarrow> policies \<Rightarrow> policy_spec" where
  "bound_in field s t = (case get_policy t field of Inr (Some v) \<Rightarrow> v | _ \<Rightarrow> s)"

lemma inside_of_kind: "inside field s t \<Longrightarrow> of_kind field s t"
  by (auto simp: inside_def of_kind_def allows_same_kind)

lemma of_kind_trans: "of_kind field s t \<Longrightarrow> same_kind p s \<Longrightarrow> of_kind field p t"
  by (auto simp: of_kind_def intro: same_kind_trans)

lemma bound_in_good:
  assumes "inside field s t" and "wf_spec s" and "storable s"
  shows "wf_spec (bound_in field s t) \<and> storable (bound_in field s t) \<and> same_kind (bound_in field s t) s"
  using assms policies_ok_get [of t field]
  by (auto simp: inside_def bound_in_def dest: allows_wf intro: same_kind_sym [OF allows_same_kind])

lemma clamp_storable: "same_kind p c \<Longrightarrow> storable p \<Longrightarrow> storable c \<Longrightarrow> storable (clamp p c)"
  by (cases p; cases c) (auto simp: storable_def enum_set_clamp_def)

lemma sweep_inside:
  assumes "of_kind field bound t" and "wf_spec bound" and "storable bound" and "serde_ok (store_spec env)"
    and "sweep env trigger actor field bound audit t l = (Inr x, t', l')"
  shows "inside field bound t' \<and> effective_bound bound x = bound_in field bound t'"
proof -
  consider "get_policy t field = Inr None" | v where "get_policy t field = Inr (Some v)" "storable v"
    using assms(1) policies_ok_get [of t field] by (auto simp: of_kind_def)
  then show ?thesis
  proof cases
    case 1
    with assms(1,5) show ?thesis by (auto simp: sweep_def inside_def of_kind_def effective_bound_def bound_in_def)
  next
    case (2 v)
    show ?thesis
    proof (cases "allows bound v")
      case True
      with 2 assms(1,5) show ?thesis by (auto simp: sweep_def inside_def of_kind_def effective_bound_def bound_in_def)
    next
      case False
      have k: "same_kind bound v" using assms(1) 2 by (simp add: of_kind_def)
      let ?c = "clamp bound v" and ?up = "upsert_policy (store_spec env) (clock env) t field (clamp bound v)"
      have st: "storable ?c" using clamp_storable [OF k assms(3) 2(2)] .
      then have store: "store_spec env ?c = Inr (Inr ?c)" using assms(4) by (simp add: serde_ok_def)
      have t': "t' = snd ?up" and x: "x = Clamped v ?c"
        using assms(5) 2 False by (auto simp: sweep_def Let_def split: prod.splits sum.splits)
      have "policies_ok t'" unfolding t'
        using assms(1) store st by (intro upsert_policies_ok) (auto simp: of_kind_def)
      moreover have "get_policy t' field = Inr (Some ?c)" unfolding t' by (rule get_upsert_same) (rule store)
      ultimately show ?thesis using clamp_allowed [OF assms(2) k] x
        by (simp add: inside_def effective_bound_def bound_in_def)
    qed
  qed
qed

lemma sweep_noop:
  assumes "inside field bound t"
  shows "\<exists>x. sweep env trigger actor field bound audit t l = (Inr x, t, l) \<and> outcome w a field x = []
    \<and> effective_bound bound x = bound_in field bound t"
  using assms policies_ok_get [of t field]
  by (auto simp: sweep_def inside_def outcome_def effective_bound_def bound_in_def)

text \<open>The state a cascade leaves behind, for one app and for one workspace with its apps.\<close>

definition settled_app :: "server \<Rightarrow> string \<Rightarrow> string \<Rightarrow> policy_spec \<Rightarrow> string \<Rightarrow> bool" where
  "settled_app s w field bound a =
     (\<exists>db. sv_apps s (w, a) = Some db \<and> need db ''policies'' = Inr () \<and> inside field bound (ad_policies db))"

definition settled :: "server \<Rightarrow> string \<Rightarrow> policy_spec \<Rightarrow> string \<Rightarrow> bool" where
  "settled s field new w =
     (\<exists>db. sv_workspaces s w = Some db \<and> inside field new (ws_policies db)
        \<and> (\<forall>a \<in> set (ws_apps db). settled_app s w field (bound_in field new (ws_policies db)) (a_id a)))"

lemma sweep_app_settles:
  assumes "sweep_app env trigger actor w field bound a s = (Inr x, s')"
    and "\<And>db. sv_apps s (w, a) = Some db \<Longrightarrow> of_kind field bound (ad_policies db)"
    and "wf_spec bound" and "storable bound" and "serde_ok (store_spec env)"
  shows "settled_app s' w field bound a \<and> sv_system s' = sv_system s \<and> sv_workspaces s' = sv_workspaces s
    \<and> (\<forall>k. k \<noteq> (w, a) \<longrightarrow> sv_apps s' k = sv_apps s k)"
proof -
  obtain db t l where db: "sv_apps s (w, a) = Some db" "need db ''policies'' = Inr ()"
    and sw: "sweep env trigger actor field bound (need db ''audit_log'') (ad_policies db) (ad_audit db) = (Inr x, t, l)"
    and s': "s' = s\<lparr>sv_apps := (sv_apps s)((w, a) \<mapsto> db\<lparr>ad_policies := t, ad_audit := l\<rparr>)\<rparr>"
    using assms(1) by (auto simp: sweep_app_def handler)
  have "inside field bound t" using sweep_inside [OF _ assms(3-5) sw] assms(2) db by blast
  then show ?thesis using db s' by (simp add: settled_app_def need_def)
qed

lemma settled_app_of_kind: "settled_app s w field bound a \<Longrightarrow> sv_apps s (w, a) = Some db \<Longrightarrow> of_kind field bound (ad_policies db)"
  by (auto simp: settled_app_def inside_of_kind)

lemma settled_app_cong: "sv_apps s' (w, a) = sv_apps s (w, a) \<Longrightarrow> settled_app s' w field bound a = settled_app s w field bound a"
  by (simp add: settled_app_def)

lemma sweep_apps_settles:
  assumes "sweep_apps env trigger actor w field bound as s = (Inr x, s')"
    and "\<And>a db. sv_apps s (w, a) = Some db \<Longrightarrow> of_kind field bound (ad_policies db)"
    and "wf_spec bound" and "storable bound" and "serde_ok (store_spec env)"
  shows "(\<forall>a. settled_app s w field bound a \<or> a \<in> a_id ` set as \<longrightarrow> settled_app s' w field bound a)
    \<and> sv_system s' = sv_system s \<and> sv_workspaces s' = sv_workspaces s
    \<and> (\<forall>v a. v \<noteq> w \<or> a \<notin> a_id ` set as \<longrightarrow> sv_apps s' (v, a) = sv_apps s (v, a))"
  using assms
proof (induction as arbitrary: s x)
  case Nil
  then show ?case by (simp add: handler)
next
  case (Cons a as)
  then obtain y s1 rest where h: "sweep_app env trigger actor w field bound (a_id a) s = (Inr y, s1)"
    and t: "sweep_apps env trigger actor w field bound as s1 = (Inr rest, s')"
    by (auto simp: handler)
  have "\<And>db. sv_apps s (w, a_id a) = Some db \<Longrightarrow> of_kind field bound (ad_policies db)" by (rule Cons.prems(2))
  from sweep_app_settles [OF h this assms(3-5)]
  have s1: "settled_app s1 w field bound (a_id a)" "sv_system s1 = sv_system s" "sv_workspaces s1 = sv_workspaces s"
    and other: "\<And>k. k \<noteq> (w, a_id a) \<Longrightarrow> sv_apps s1 k = sv_apps s k" by blast+
  have kind: "of_kind field bound (ad_policies db)" if "sv_apps s1 (w, b) = Some db" for b db
    using that s1(1) other [of "(w, b)"] Cons.prems(2) settled_app_of_kind by (cases "b = a_id a") auto
  have keep: "settled_app s1 w field bound b" if "settled_app s w field bound b" for b
    using that s1(1) other [of "(w, b)"] settled_app_cong [of s1 w b s field bound] by (cases "b = a_id a") auto
  from Cons.IH [OF t kind assms(3-5)] s1 other keep show ?case by auto
qed

lemma sweep_workspace_settles:
  assumes "sweep_workspace env actor field new w s = (Inr x, s')"
    and "\<And>db. sv_workspaces s w = Some db \<Longrightarrow> of_kind field new (ws_policies db)"
    and "wf_spec new" and "storable new" and "serde_ok (store_spec env)"
  shows "\<exists>db. sv_workspaces s' w = Some db \<and> inside field new (ws_policies db)
      \<and> effective_bound new x = bound_in field new (ws_policies db)
      \<and> sv_system s' = sv_system s \<and> sv_apps s' = sv_apps s \<and> (\<forall>v. v \<noteq> w \<longrightarrow> sv_workspaces s' v = sv_workspaces s v)"
proof -
  obtain db t l where db: "sv_workspaces s w = Some db"
    and sw: "sweep env ''master_tightened'' actor field new (Inr ()) (ws_policies db) (ws_audit db) = (Inr x, t, l)"
    and s': "s' = s\<lparr>sv_workspaces := (sv_workspaces s)(w \<mapsto> db\<lparr>ws_policies := t, ws_audit := l\<rparr>)\<rparr>"
    using assms(1) by (auto simp: sweep_workspace_def handler)
  then show ?thesis using sweep_inside [OF assms(2) [OF db] assms(3-5) sw] by simp
qed

lemma settled_cong:
  "sv_workspaces s' w = sv_workspaces s w \<Longrightarrow> (\<And>a. sv_apps s' (w, a) = sv_apps s (w, a)) \<Longrightarrow>
   settled s' field new w = settled s field new w"
  by (simp add: settled_def settled_app_def)

lemma apps_of_Inr [handler]:
  "apps_of env w s = (Inr as, s') \<longleftrightarrow> (\<exists>db. sv_workspaces s w = Some db \<and> as = list_apps (ws_apps db) \<and> s' = s)"
  by (auto simp: apps_of_def on_workspace_read split: option.splits)

definition all_of_kind :: "server \<Rightarrow> string \<Rightarrow> policy_spec \<Rightarrow> bool" where
  "all_of_kind s field new =
     ((\<forall>w db. sv_workspaces s w = Some db \<longrightarrow> of_kind field new (ws_policies db))
      \<and> (\<forall>k db. sv_apps s k = Some db \<longrightarrow> of_kind field new (ad_policies db)))"

lemma settled_all_of_kind_step:
  assumes "all_of_kind s field new" and "settled s' field new w" and "wf_spec new" and "storable new"
    and "\<And>v a. v \<noteq> w \<Longrightarrow> sv_workspaces s' v = sv_workspaces s v \<and> sv_apps s' (v, a) = sv_apps s (v, a)"
    and "\<And>a db. sv_apps s' (w, a) = Some db \<Longrightarrow> of_kind field new (ad_policies db)"
  shows "all_of_kind s' field new"
proof -
  have "of_kind field new (ws_policies db)" if "sv_workspaces s' v = Some db" for v db
  proof (cases "v = w")
    case True
    then show ?thesis using assms(2) that by (auto simp: settled_def inside_of_kind)
  next
    case False
    then have "sv_workspaces s v = Some db" using assms(5) that by simp
    then show ?thesis using assms(1) by (simp add: all_of_kind_def)
  qed
  moreover have "of_kind field new (ad_policies db)" if "sv_apps s' (v, a) = Some db" for v a db
    using assms(1) assms(5) [of v a] assms(6) [of a db] that by (cases "v = w") (auto simp: all_of_kind_def)
  ultimately show ?thesis by (auto simp: all_of_kind_def)
qed

lemma visit_settles:
  assumes "sweep_workspace env actor field new w s = (Inr x, s1)" and "apps_of env w s1 = (Inr as, s2)"
    and "sweep_apps env trigger actor w field (effective_bound new x) as s2 = (Inr outs, s')"
    and "all_of_kind s field new" and "wf_spec new" and "storable new" and "serde_ok (store_spec env)"
  shows "settled s' field new w \<and> all_of_kind s' field new \<and> sv_system s' = sv_system s
    \<and> (\<forall>v a. v \<noteq> w \<longrightarrow> sv_workspaces s' v = sv_workspaces s v \<and> sv_apps s' (v, a) = sv_apps s (v, a))"
proof -
  have "\<And>db. sv_workspaces s w = Some db \<Longrightarrow> of_kind field new (ws_policies db)"
    using assms(4) by (simp add: all_of_kind_def)
  from sweep_workspace_settles [OF assms(1) this assms(5-7)] obtain db where
    db: "sv_workspaces s1 w = Some db" "inside field new (ws_policies db)"
      "effective_bound new x = bound_in field new (ws_policies db)"
    and s1: "sv_system s1 = sv_system s" "sv_apps s1 = sv_apps s" "\<And>v. v \<noteq> w \<Longrightarrow> sv_workspaces s1 v = sv_workspaces s v"
    by auto
  let ?b = "bound_in field new (ws_policies db)"
  have s2: "s2 = s1" "as = list_apps (ws_apps db)" using assms(2) db by (auto simp: handler)
  have b: "wf_spec ?b" "storable ?b" "same_kind ?b new" using bound_in_good [OF db(2) assms(5,6)] by auto
  have "of_kind field ?b (ad_policies adb)" if "sv_apps s1 (w, a) = Some adb" for a adb
    using that s1(2) assms(4) of_kind_trans [OF _ b(3)] by (auto simp: all_of_kind_def)
  from sweep_apps_settles [OF assms(3) [unfolded s2 db(3)] this b(1,2) assms(7)]
  have f: "\<And>a. a \<in> a_id ` set (ws_apps db) \<Longrightarrow> settled_app s' w field ?b a" "sv_system s' = sv_system s1"
    "sv_workspaces s' = sv_workspaces s1"
    "\<And>v a. v \<noteq> w \<or> a \<notin> a_id ` set (ws_apps db) \<Longrightarrow> sv_apps s' (v, a) = sv_apps s1 (v, a)"
    by (auto simp: list_apps_def)
  have st: "settled s' field new w" using f db by (auto simp: settled_def)
  have fr: "sv_workspaces s' v = sv_workspaces s v \<and> sv_apps s' (v, a) = sv_apps s (v, a)" if "v \<noteq> w" for v a
    using f(3,4) s1(2,3) that by simp
  have "of_kind field new (ad_policies adb)" if "sv_apps s' (w, a) = Some adb" for a adb
  proof (cases "a \<in> a_id ` set (ws_apps db)")
    case True
    then show ?thesis using settled_app_of_kind [OF f(1) that] of_kind_trans same_kind_sym b(3) by blast
  next
    case False
    then have "sv_apps s (w, a) = Some adb" using f(4) [of w a] that s1(2) by simp
    then show ?thesis using assms(4) by (simp add: all_of_kind_def)
  qed
  from settled_all_of_kind_step [OF assms(4) st assms(5,6) fr this] show ?thesis using st fr f(2) s1(1) by auto
qed

lemma sweep_workspaces_settles:
  assumes "sweep_workspaces env actor field new rs s = (Inr outs, s')"
    and "all_of_kind s field new" and "wf_spec new" and "storable new" and "serde_ok (store_spec env)"
  shows "(\<forall>w. settled s field new w \<or> w \<in> w_id ` set rs \<and> w \<noteq> MASTER_WORKSPACE_ID \<longrightarrow> settled s' field new w)
    \<and> sv_system s' = sv_system s"
  using assms(1,2)
proof (induction rs arbitrary: s outs)
  case Nil
  then show ?case by (simp add: handler)
next
  case (Cons r rs)
  show ?case
  proof (cases "w_id r = MASTER_WORKSPACE_ID")
    case True
    with Cons show ?thesis by auto
  next
    case False
    with Cons.prems(1) obtain x s1 as s2 os s3 rest where
      v: "sweep_workspace env actor field new (w_id r) s = (Inr x, s1)" "apps_of env (w_id r) s1 = (Inr as, s2)"
        "sweep_apps env ''master_tightened'' actor (w_id r) field (effective_bound new x) as s2 = (Inr os, s3)"
      and t: "sweep_workspaces env actor field new rs s3 = (Inr rest, s')"
      by (auto simp: hbind_Inr hret_Inr)
    note f = visit_settles [OF v Cons.prems(2) assms(3-5)]
    have "settled s3 field new w" if "settled s field new w" for w
      using f that settled_cong [of s3 w s field new] by (cases "w = w_id r") auto
    with f Cons.IH [OF t] show ?thesis by auto
  qed
qed

lemma settled_app_noop:
  assumes "settled_app s w field bound a"
  shows "\<exists>x. sweep_app env trigger actor w field bound a s = (Inr x, s) \<and> outcome w (Some a) field x = []"
proof -
  obtain db where db: "sv_apps s (w, a) = Some db" "need db ''policies'' = Inr ()" "inside field bound (ad_policies db)"
    using assms by (auto simp: settled_app_def)
  from sweep_noop [OF db(3), of env trigger actor "need db ''audit_log''" "ad_audit db" w "Some a"]
  obtain x where "sweep env trigger actor field bound (need db ''audit_log'') (ad_policies db) (ad_audit db)
      = (Inr x, ad_policies db, ad_audit db)" "outcome w (Some a) field x = []" by blast
  then show ?thesis using db by (simp add: sweep_app_def on_app_def db_stmt_def fun_upd_idem)
qed

lemma settled_apps_noop:
  "\<forall>a \<in> set as. settled_app s w field bound (a_id a) \<Longrightarrow> sweep_apps env trigger actor w field bound as s = (Inr [], s)"
proof (induction as)
  case (Cons a as)
  then obtain x where "sweep_app env trigger actor w field bound (a_id a) s = (Inr x, s)" "outcome w (Some (a_id a)) field x = []"
    using settled_app_noop by fastforce
  with Cons show ?case by (simp add: hbind_def hret_def)
qed (simp add: hret_def)

lemma settled_workspaces_noop:
  "\<forall>r \<in> set rs. w_id r \<noteq> MASTER_WORKSPACE_ID \<longrightarrow> settled s field new (w_id r) \<Longrightarrow>
   sweep_workspaces env actor field new rs s = (Inr [], s)"
proof (induction rs)
  case (Cons r rs)
  show ?case
  proof (cases "w_id r = MASTER_WORKSPACE_ID")
    case False
    with Cons.prems obtain db where db: "sv_workspaces s (w_id r) = Some db" "inside field new (ws_policies db)"
      and apps: "\<forall>a \<in> set (ws_apps db). settled_app s (w_id r) field (bound_in field new (ws_policies db)) (a_id a)"
      by (auto simp: settled_def)
    from sweep_noop [OF db(2), of env "''master_tightened''" actor "Inr ()" "ws_audit db" "w_id r" None]
    obtain x where x: "sweep env ''master_tightened'' actor field new (Inr ()) (ws_policies db) (ws_audit db)
        = (Inr x, ws_policies db, ws_audit db)" "outcome (w_id r) None field x = []"
        "effective_bound new x = bound_in field new (ws_policies db)" by blast
    then have "sweep_workspace env actor field new (w_id r) s = (Inr x, s)"
      using db by (simp add: sweep_workspace_def on_workspace_def db_stmt_def fun_upd_idem)
    moreover have "apps_of env (w_id r) s = (Inr (list_apps (ws_apps db)), s)"
      using db by (simp add: apps_of_Inr)
    moreover have "sweep_apps env ''master_tightened'' actor (w_id r) field (effective_bound new x) (list_apps (ws_apps db)) s = (Inr [], s)"
      using apps x(3) by (intro settled_apps_noop) (simp add: list_apps_def)
    ultimately show ?thesis using False Cons x(2) by (simp add: hbind_def hret_def)
  qed (use Cons in simp)
qed (simp add: hret_def)

lemma set_list_realms [simp]: "set (list_realms t) = set t"
  by (auto simp: list_realms_def Let_def)

lemma system_put_settles:
  assumes "system_put env c field new s = (Inr resp, s')"
    and "all_of_kind s field new" and "wf_spec new" and "storable new" and "serde_ok (store_spec env)"
  shows "get_policy (sys_policies (sv_system s')) field = Inr (Some new)
    \<and> sys_workspaces (sv_system s') = sys_workspaces (sv_system s)
    \<and> (\<forall>r \<in> set (sys_workspaces (sv_system s)). w_id r \<noteq> MASTER_WORKSPACE_ID \<longrightarrow> settled s' field new (w_id r))"
proof -
  obtain t l outs where p: "put_stmts env (sub c) ''system'' field new (Inr ()) (sys_policies (sv_system s)) (sys_audit (sv_system s)) = (Inr (), t, l)"
    and cas: "sweep_workspaces env (Some (sub c)) field new (list_realms (sys_workspaces (sv_system s)))
      (s\<lparr>sv_system := (sv_system s)\<lparr>sys_policies := t, sys_audit := l\<rparr>\<rparr>) = (Inr outs, s')"
    using assms(1) by (auto simp: system_put_def cascade_master_to_realms_and_apps_def handler)
  have st: "store_spec env new = Inr (Inr new)" using assms(4,5) by (simp add: serde_ok_def)
  then have t: "t = snd (upsert_policy (store_spec env) (clock env) (sys_policies (sv_system s)) field new)"
    using p by (auto simp: put_stmts_def upsert_policy_def)
  have "all_of_kind (s\<lparr>sv_system := (sv_system s)\<lparr>sys_policies := t, sys_audit := l\<rparr>\<rparr>) field new"
    using assms(2) by (simp add: all_of_kind_def)
  from sweep_workspaces_settles [OF cas this assms(3-5)] show ?thesis
    by (auto simp: t get_upsert_same [where store = "store_spec env", OF st])
qed

section \<open>Properties\<close>

text \<open>C10: setting a master policy brings the whole server under it. When the request succeeds with a sound
  value, and the values stored for that field are of its kind, then afterwards the master holds the new
  value, every workspace holds none or one the master allows, and every app of a workspace holds none or
  one allowed by the value of its workspace, or by the master's where the workspace has none.\<close>

theorem system_put_cascades:
  assumes "system_put env c field new s = (Inr resp, s')"
    and "all_of_kind s field new" and "wf_spec new" and "storable new" and "serde_ok (store_spec env)"
    and "r \<in> set (sys_workspaces (sv_system s))" and "w_id r \<noteq> MASTER_WORKSPACE_ID"
  shows "get_policy (sys_policies (sv_system s')) field = Inr (Some new) \<and>
    (\<exists>db. sv_workspaces s' (w_id r) = Some db
      \<and> (\<forall>v. get_policy (ws_policies db) field = Inr (Some v) \<longrightarrow> allows new v)
      \<and> (\<forall>a \<in> set (ws_apps db). \<exists>adb. sv_apps s' (w_id r, a_id a) = Some adb
          \<and> (\<forall>v. get_policy (ad_policies adb) field = Inr (Some v)
               \<longrightarrow> allows (bound_in field new (ws_policies db)) v)))"
proof -
  note f = system_put_settles [OF assms(1-5)]
  then have "settled s' field new (w_id r)" using assms(6,7) by blast
  then obtain db where db: "sv_workspaces s' (w_id r) = Some db" "inside field new (ws_policies db)"
    "\<forall>a \<in> set (ws_apps db). settled_app s' (w_id r) field (bound_in field new (ws_policies db)) (a_id a)"
    by (auto simp: settled_def)
  have "\<exists>adb. sv_apps s' (w_id r, a_id a) = Some adb \<and> (\<forall>v. get_policy (ad_policies adb) field = Inr (Some v)
      \<longrightarrow> allows (bound_in field new (ws_policies db)) v)" if "a \<in> set (ws_apps db)" for a
    using db(3) that by (auto simp: settled_app_def inside_def)
  with f db(1,2) show ?thesis by (auto simp: inside_def)
qed

text \<open>the cascade is idempotent: run again with the same value right after a successful master update,
  it reports no clamp and leaves every database, the audit logs included, as it was.\<close>

theorem cascade_idempotent:
  assumes "system_put env c field new s = (Inr resp, s')"
    and "all_of_kind s field new" and "wf_spec new" and "storable new" and "serde_ok (store_spec env)"
  shows "cascade_master_to_realms_and_apps env field new actor s' = (Inr [], s')"
  using system_put_settles [OF assms] settled_workspaces_noop [of "list_realms (sys_workspaces (sv_system s'))" s' field new env actor]
  by (auto simp: cascade_master_to_realms_and_apps_def hbind_def)

text \<open>a value outside the bound of the scope above is refused with a policy violation and changes
  nothing, for a workspace against the master and for an app against its workspace.\<close>

theorem policy_violation_changes_nothing:
  assumes "require_workspace_access c w = Inr ()" and "require_app_access c w a = Inr ()"
    and "find_workspace (sys_workspaces (sv_system s)) w \<noteq> None" and "sv_workspaces s w = Some db"
    and "find_app (ws_apps db) a \<noteq> None"
    and "get_policy (sys_policies (sv_system s)) field = Inr (Some m)"
  shows "(\<not> allows m new \<longrightarrow> (\<exists>f v b. workspace_put env c w field new s = (Inl (PolicyViolation f v b), s)))
    \<and> (\<forall>p. get_policy (ws_policies db) field = Inr (Some p) \<and> \<not> allows p new \<longrightarrow>
          (\<exists>f v b. app_put env c w a field new s = (Inl (PolicyViolation f v b), s)))"
  using assms
  by (auto simp: workspace_put_def app_put_def require_realm_exists_def require_workspace_exists_def system_bound_def
      chain_level_def find_app_or_fail_def hbind_def lift_def lift_db_def on_workspace_def db_stmt_def validate_def fun_upd_idem
      split: option.splits)

text \<open>a range with its bounds swapped is accepted as a master policy, and no stored range ever settles
  under it: the sweep replaces every stored range by the inverted one, which it does not allow itself,
  so each further cascade replaces it and logs it again.\<close>

theorem inverted_range_never_settles:
  assumes "range_max p < range_min p" and "serde_ok (store_spec env)"
    and "get_policy t field = Inr (Some (Range v))"
  shows "\<exists>t' l'. sweep env trigger actor field (Range p) (Inr ()) t l = (Inr (Clamped (Range v) (Range p)), t', l')
    \<and> (\<exists>t'' l''. sweep env trigger actor field (Range p) (Inr ()) t' l' = (Inr (Clamped (Range p) (Range p)), t'', l''))"
proof -
  have c: "range_clamp p x = p" "\<not> range_allows p x" for x
    using assms(1) by (auto simp: range_clamp_def range_allows_def Let_def)
  have st: "store_spec env (Range p) = Inr (Inr (Range p))" using assms(2) by (simp add: serde_ok_def storable_def)
  have step: "\<exists>l'. sweep env trigger actor field (Range p) (Inr ()) u m
      = (Inr (Clamped (Range x) (Range p)), snd (upsert_policy (store_spec env) (clock env) u field (Range p)), l')"
    if "get_policy u field = Inr (Some (Range x))" for u m x
    using that st c by (simp add: sweep_def upsert_policy_def Let_def)
  obtain l' where 1: "sweep env trigger actor field (Range p) (Inr ()) t l
      = (Inr (Clamped (Range v) (Range p)), snd (upsert_policy (store_spec env) (clock env) t field (Range p)), l')"
    using step [OF assms(3)] by blast
  have "get_policy (snd (upsert_policy (store_spec env) (clock env) t field (Range p))) field = Inr (Some (Range p))"
    by (rule get_upsert_same) (rule st)
  from step [OF this] 1 show ?thesis by blast
qed

theorem inverted_range_never_settles_witness:
  "\<exists>t' l'. sweep (demo_env 1) ''master_tightened'' None ''f'' (Range \<lparr>range_min = 9, range_max = 3\<rparr>) (Inr ())
     [\<lparr>pol_field = ''f'', pol_json = Inr (Range \<lparr>range_min = 1, range_max = 5\<rparr>), pol_updated_at = 0\<rparr>] \<lparr>au_rows = [], au_last_id = 0\<rparr>
     = (Inr (Clamped (Range \<lparr>range_min = 1, range_max = 5\<rparr>) (Range \<lparr>range_min = 9, range_max = 3\<rparr>)), t', l')"
  using inverted_range_never_settles [of "\<lparr>range_min = 9, range_max = 3\<rparr>" "demo_env 1"
      "[\<lparr>pol_field = ''f'', pol_json = Inr (Range \<lparr>range_min = 1, range_max = 5\<rparr>), pol_updated_at = 0\<rparr>]" "''f''"
      "\<lparr>range_min = 1, range_max = 5\<rparr>" "''master_tightened''" None "\<lparr>au_rows = [], au_last_id = 0\<rparr>"]
  by (auto simp: serde_ok_def demo_env_def get_policy_def decode_policy_def)

text \<open>an app admin has the powers of a workspace admin over the workspace of its app: setting workspace
  policies and deleting end users give the same answer and the same effect for both.\<close>

theorem app_admin_acts_for_workspace:
  assumes "role c = AppAdminRole"
  shows "workspace_put env c w field new s = workspace_put env (c\<lparr>role := WorkspaceAdminRole\<rparr>) w field new s
    \<and> workspace_delete env c w field s = workspace_delete env (c\<lparr>role := WorkspaceAdminRole\<rparr>) w field s
    \<and> users_delete env c w i s = users_delete env (c\<lparr>role := WorkspaceAdminRole\<rparr>) w i s"
  using assms by (simp add: workspace_put_def workspace_delete_def users_delete_def require_workspace_access_def)

theorem app_admin_acts_for_workspace_witness:
  "fst (users_delete (demo_env 1) (build_claims ''j'' 0 ''bob'' AppAdminRole (Some ''acme'') (Some ''shop'') 0) ''acme'' ''alice'' demo_server) = Inr ()"
  using app_admin_acts_for_workspace [of "build_claims ''j'' 0 ''bob'' AppAdminRole (Some ''acme'') (Some ''shop'') 0"
      "demo_env 1" "''acme''" "''f''" "Toggle (Open True)" demo_server "''alice''"]
  by (simp add: users_delete_def workspace_pool_def delete_user_def demo_simps run_simps require_workspace_access_def
      build_claims_def sql_count_def)

section \<open>A worked cascade\<close>

text \<open>The master tightens \<open>[4, 64]\<close> to \<open>[10, 20]\<close> over a workspace with \<open>[8, 32]\<close> and an app with \<open>[12, 28]\<close>.\<close>

definition stored_range :: "int \<Rightarrow> int \<Rightarrow> policies" where
  "stored_range mn mx = [\<lparr>pol_field = ''len'', pol_json = Inr (Range \<lparr>range_min = mn, range_max = mx\<rparr>), pol_updated_at = 0\<rparr>]"

definition policy_workspace :: workspace_db where
  "policy_workspace = demo_workspace\<lparr>ws_policies := stored_range 8 32, ws_apps := [\<lparr>a_id = ''mobile'', a_name = [], a_created_at = 0\<rparr>]\<rparr>"

definition policy_server :: server where
  "policy_server = demo_server\<lparr>sv_workspaces := [''acme'' \<mapsto> policy_workspace],
     sv_apps := [(''acme'', ''mobile'') \<mapsto> empty_app_db\<lparr>ad_policies := stored_range 12 28\<rparr>]\<rparr>"

abbreviation new_bound :: policy_spec where
  "new_bound \<equiv> Range \<lparr>range_min = 10, range_max = 20\<rparr>"

abbreviation root_claims :: claims where
  "root_claims \<equiv> build_claims ''j'' 0 ''root'' MasterAdminRole None None 0"

lemma stored_range_of_kind: "of_kind ''len'' new_bound (stored_range mn mx)"
  by (auto simp: of_kind_def policies_ok_def stored_range_def get_policy_def decode_policy_def storable_def)

lemma policy_server_of_kind: "all_of_kind policy_server ''len'' new_bound"
  by (auto simp: all_of_kind_def policy_server_def policy_workspace_def stored_range_of_kind split: if_splits)

lemma demo_serde: "serde_ok (store_spec (demo_env now))"
  by (simp add: serde_ok_def demo_env_def)

lemmas cascade_simps = hbind_def hret_def lift_def on_system_def on_workspace_def on_app_def db_stmt_def need_def
  sweep_def get_policy_def decode_policy_def upsert_policy_def sql_upsert_def sql_update_def stored_range_def Let_def
  range_allows_def range_clamp_def effective_bound_def outcome_def

lemma put_runs: "\<exists>resp s'. system_put (demo_env 1) root_claims ''len'' new_bound policy_server = (Inr resp, s') \<and> length (pp_cascaded resp) = 2"
  by (simp add: system_put_def cascade_master_to_realms_and_apps_def list_realms_def sweep_workspace_def sweep_app_def apps_of_def
      list_apps_def put_stmts_def require_master_def build_claims_def policy_server_def policy_workspace_def demo_server_def
      demo_env_def empty_app_db_def MASTER_WORKSPACE_ID_def cascade_simps)

theorem system_put_cascades_witness:
  "\<exists>resp s' db. system_put (demo_env 1) root_claims ''len'' new_bound policy_server = (Inr resp, s')
     \<and> sv_workspaces s' ''acme'' = Some db \<and> (\<forall>v. get_policy (ws_policies db) ''len'' = Inr (Some v) \<longrightarrow> allows new_bound v)"
proof -
  obtain resp s' where r: "system_put (demo_env 1) root_claims ''len'' new_bound policy_server = (Inr resp, s')"
    using put_runs by blast
  have "\<exists>db. sv_workspaces s' ''acme'' = Some db \<and> (\<forall>v. get_policy (ws_policies db) ''len'' = Inr (Some v) \<longrightarrow> allows new_bound v)"
    using system_put_cascades [OF r policy_server_of_kind _ _ demo_serde, of "hd (sys_workspaces (sv_system demo_server))"]
    by (auto simp: wf_spec_def storable_def range_allows_def policy_server_def demo_server_def MASTER_WORKSPACE_ID_def)
  with r show ?thesis by blast
qed

theorem cascade_idempotent_witness:
  "\<exists>s'. cascade_master_to_realms_and_apps (demo_env 1) ''len'' new_bound None s' = (Inr [], s')
     \<and> (\<exists>resp. system_put (demo_env 1) root_claims ''len'' new_bound policy_server = (Inr resp, s') \<and> pp_cascaded resp \<noteq> [])"
proof -
  obtain resp s' where r: "system_put (demo_env 1) root_claims ''len'' new_bound policy_server = (Inr resp, s')"
    and "pp_cascaded resp \<noteq> []" using put_runs by fastforce
  moreover have "cascade_master_to_realms_and_apps (demo_env 1) ''len'' new_bound None s' = (Inr [], s')"
    by (rule cascade_idempotent [OF r policy_server_of_kind _ _ demo_serde])
      (simp_all add: wf_spec_def storable_def range_allows_def)
  ultimately show ?thesis by blast
qed

theorem policy_violation_changes_nothing_witness:
  "\<exists>f v b. app_put (demo_env 1) root_claims ''acme'' ''mobile'' ''len'' (Range \<lparr>range_min = 1, range_max = 99\<rparr>)
     (policy_server\<lparr>sv_system := (sv_system policy_server)\<lparr>sys_policies := stored_range 4 64\<rparr>\<rparr>)
   = (Inl (PolicyViolation f v b), policy_server\<lparr>sv_system := (sv_system policy_server)\<lparr>sys_policies := stored_range 4 64\<rparr>\<rparr>)"
proof -
  let ?s = "policy_server\<lparr>sv_system := (sv_system policy_server)\<lparr>sys_policies := stored_range 4 64\<rparr>\<rparr>"
  have g: "get_policy (stored_range mn mx) ''len'' = Inr (Some (Range \<lparr>range_min = mn, range_max = mx\<rparr>))" for mn mx
    by (simp add: stored_range_def get_policy_def decode_policy_def)
  have "require_workspace_access root_claims ''acme'' = Inr ()" "require_app_access root_claims ''acme'' ''mobile'' = Inr ()"
    by (simp_all add: require_workspace_access_def require_app_access_def build_claims_def)
  moreover have "find_workspace (sys_workspaces (sv_system ?s)) ''acme'' \<noteq> None" "sv_workspaces ?s ''acme'' = Some policy_workspace"
    by (simp_all add: policy_server_def demo_server_def find_workspace_def)
  moreover have "find_app (ws_apps policy_workspace) ''mobile'' \<noteq> None" by (simp add: policy_workspace_def find_app_def)
  moreover have "get_policy (sys_policies (sv_system ?s)) ''len'' = Inr (Some (Range \<lparr>range_min = 4, range_max = 64\<rparr>))"
    by (simp add: g)
  ultimately show ?thesis
    using policy_violation_changes_nothing [of root_claims "''acme''" "''mobile''" ?s policy_workspace "''len''"] g [of 8 32]
    by (auto simp: policy_workspace_def range_allows_def)
qed

end
