(* ===== verification/Collections_Api.thy ===== *)
theory Collections_Api
  imports Policy_Api Records_Api Lifecycle_Api
begin

text \<open>
  The schema side of an app: the handlers of \<^verbatim>\<open>collections.rs\<close>, \<^verbatim>\<open>access_rules.rs\<close> and \<^verbatim>\<open>audit.rs\<close> of
  \<^verbatim>\<open>rustbase-api\<close>. They map the errors of the storage layer to responses; the theorems follow what they
  write to what the record handlers then do.
\<close>

section \<open>Collections\<close>

text \<open>\<open>open_app_pool\<close>: the workspace and the app exist, and the statements run on the app's database.\<close>

definition open_app ::
  "env \<Rightarrow> string \<Rightarrow> string \<Rightarrow> string \<Rightarrow> (app_db \<Rightarrow> (core_error + 'a) \<times> app_db) \<Rightarrow> 'a handler" where
  "open_app env w a table f =
     hbind (require_realm_exists w) (\<lambda>_.
     hbind (find_app_or_fail env w a) (\<lambda>_.
     on_app env w a table f))"

definition collection_not_found :: "string \<Rightarrow> core_error" where
  "collection_not_found name = NotFound name []"

definition collections_list :: "env \<Rightarrow> claims \<Rightarrow> string \<Rightarrow> string \<Rightarrow> collection list handler" where
  "collections_list env c w a =
     hbind (lift (require_app_access c w a)) (\<lambda>_.
     open_app env w a ''_collections'' (\<lambda>db. db_stmt env (list_collections db, db)))"

definition collections_create :: "env \<Rightarrow> claims \<Rightarrow> string \<Rightarrow> string \<Rightarrow> schema \<Rightarrow> collection handler" where
  "collections_create env c w a sch =
     hbind (lift (require_app_access c w a)) (\<lambda>_.
     open_app env w a ''_collections'' (\<lambda>db.
       case find_collection db (collection_str (schema_id sch)) of
         Inl e \<Rightarrow> db_stmt env (Inl e, db)
       | Inr (Some _) \<Rightarrow>
           (Inl (Conflict (''collection '' @ [CHR 0x27] @ collection_str (schema_id sch) @ [CHR 0x27] @ '' already exists'')), db)
       | Inr None \<Rightarrow> db_stmt env (create_collection (clock env) db sch)))"

definition collections_get :: "env \<Rightarrow> claims \<Rightarrow> string \<Rightarrow> string \<Rightarrow> string \<Rightarrow> collection handler" where
  "collections_get env c w a name =
     hbind (lift (require_app_access c w a)) (\<lambda>_.
     open_app env w a ''_collections'' (\<lambda>db.
       case find_collection db name of
         Inl e \<Rightarrow> db_stmt env (Inl e, db)
       | Inr None \<Rightarrow> (Inl (collection_not_found name), db)
       | Inr (Some coll) \<Rightarrow> (Inr coll, db)))"

definition patch_error :: "env \<Rightarrow> string \<Rightarrow> db_error \<Rightarrow> core_error" where
  "patch_error env name e =
     (case e of
        Sqlx RowNotFound \<Rightarrow> collection_not_found name
      | InvalidIdentifier msg \<Rightarrow> Conflict msg
      | other \<Rightarrow> core_error_of_db (show_sqlx env) other)"

definition collections_patch ::
  "env \<Rightarrow> claims \<Rightarrow> string \<Rightarrow> string \<Rightarrow> string \<Rightarrow> schema \<Rightarrow> bool \<Rightarrow> (collection \<times> schema_diff) handler" where
  "collections_patch env c w a name sch force =
     hbind (lift (require_app_access c w a)) (\<lambda>_.
     if collection_str (schema_id sch) \<noteq> name
     then hfail (Validation (''schema id '' @ [CHR 0x27] @ collection_str (schema_id sch) @ [CHR 0x27] @
            '' does not match path '' @ [CHR 0x27] @ name @ [CHR 0x27]))
     else open_app env w a ''_collections'' (\<lambda>db.
       case patch_collection (\<lambda>n. show_i64 env (int n)) (clock env) db sch force of
         (Inl e, db') \<Rightarrow> (Inl (patch_error env name e), db')
       | (Inr x, db') \<Rightarrow> (Inr x, db')))"

definition collections_delete :: "env \<Rightarrow> claims \<Rightarrow> string \<Rightarrow> string \<Rightarrow> string \<Rightarrow> unit handler" where
  "collections_delete env c w a name =
     hbind (lift (require_app_access c w a)) (\<lambda>_.
     open_app env w a ''_collections'' (\<lambda>db.
       case delete_collection db name of
         (Inl e, db') \<Rightarrow>
           (Inl (if e = Sqlx RowNotFound then collection_not_found name else core_error_of_db (show_sqlx env) e), db')
       | (Inr x, db') \<Rightarrow> (Inr x, db')))"

section \<open>Access rules\<close>

definition open_app_and_check ::
  "env \<Rightarrow> string \<Rightarrow> string \<Rightarrow> string \<Rightarrow> (app_db \<Rightarrow> (core_error + 'a) \<times> app_db) \<Rightarrow> 'a handler" where
  "open_app_and_check env w a coll f =
     open_app env w a ''_collections'' (\<lambda>db.
       case find_collection db coll of
         Inl e \<Rightarrow> db_stmt env (Inl e, db)
       | Inr None \<Rightarrow> (Inl (collection_not_found coll), db)
       | Inr (Some _) \<Rightarrow> f db)"

definition rules_list :: "env \<Rightarrow> claims \<Rightarrow> string \<Rightarrow> string \<Rightarrow> string \<Rightarrow> access_rule list handler" where
  "rules_list env c w a coll =
     hbind (lift (require_app_access c w a)) (\<lambda>_.
     open_app_and_check env w a coll (\<lambda>db. db_stmt env (list_rules db coll, db)))"

definition parse_action :: "string \<Rightarrow> core_error + access_action" where
  "parse_action action =
     (case action_from_str action of None \<Rightarrow> Inl (Validation (''unknown access action: '' @ action)) | Some x \<Rightarrow> Inr x)"

definition rules_put ::
  "env \<Rightarrow> claims \<Rightarrow> string \<Rightarrow> string \<Rightarrow> string \<Rightarrow> string \<Rightarrow> string option \<Rightarrow> access_rule handler" where
  "rules_put env c w a coll action flt =
     hbind (lift (require_app_access c w a)) (\<lambda>_.
     hbind (lift (parse_action action)) (\<lambda>act.
     open_app_and_check env w a coll (\<lambda>db.
       case set_rule db coll act flt of
         (Inl e, db') \<Rightarrow> db_stmt env (Inl e, db')
       | (Inr _, db') \<Rightarrow>
           (case get_rule db' coll act of
              Inl e \<Rightarrow> db_stmt env (Inl e, db')
            | Inr _ \<Rightarrow> (Inr \<lparr>rule_collection = coll, rule_action = act, rule_filter = flt\<rparr>, db')))))"

definition rules_delete :: "env \<Rightarrow> claims \<Rightarrow> string \<Rightarrow> string \<Rightarrow> string \<Rightarrow> string \<Rightarrow> unit handler" where
  "rules_delete env c w a coll action =
     hbind (lift (require_app_access c w a)) (\<lambda>_.
     hbind (lift (parse_action action)) (\<lambda>act.
     open_app_and_check env w a coll (\<lambda>db.
       let p = (\<lambda>r. ar_collection_id r = coll \<and> ar_action r = action_str act) in
       case need db ''_access_rules'' of
         Inl e \<Rightarrow> db_stmt env (Inl e, db)
       | Inr _ \<Rightarrow>
           if sql_count p (ad_rules db) = 0 then (Inl (NotFound coll (action_str act)), db)
           else (Inr (), db\<lparr>ad_rules := sql_delete p (ad_rules db)\<rparr>))))"

section \<open>Audit log\<close>

record audit_list_query =
  al_page :: "nat option"
  al_per_page :: "nat option"
  al_action :: "string option"
  al_actor :: "string option"

definition non_empty :: "string option \<Rightarrow> string option" where
  "non_empty x = (case x of Some [] \<Rightarrow> None | _ \<Rightarrow> x)"

definition build_query :: "audit_list_query \<Rightarrow> audit_query" where
  "build_query q =
     \<lparr>aq_page = (case al_page q of None \<Rightarrow> 1 | Some p \<Rightarrow> p), aq_per_page = (case al_per_page q of None \<Rightarrow> 30 | Some p \<Rightarrow> p),
      aq_action = non_empty (al_action q), aq_actor = non_empty (al_actor q)\<rparr>"

record listed_audit_response =
  lr_entries :: "audit_entry list"
  lr_page_no :: nat
  lr_page_size :: nat
  lr_total :: nat
  lr_pages :: nat

definition div_ceil :: "nat \<Rightarrow> nat \<Rightarrow> nat" where
  "div_ceil n k = n div k + (if n mod k = 0 then 0 else 1)"

definition into_response :: "listed_audit \<Rightarrow> listed_audit_response" where
  "into_response l =
     \<lparr>lr_entries = la_items l, lr_page_no = la_page l, lr_page_size = la_per_page l, lr_total = la_total_items l,
      lr_pages = div_ceil (la_total_items l) (max (la_per_page l) 1)\<rparr>"

definition audit_system_list :: "claims \<Rightarrow> audit_list_query \<Rightarrow> listed_audit_response handler" where
  "audit_system_list c q =
     hbind (lift (require_master c)) (\<lambda>_.
     on_system (\<lambda>db. (Inr (into_response (audit_list_paginated (sys_audit db) (build_query q))), db)))"

definition audit_workspace_list :: "env \<Rightarrow> claims \<Rightarrow> string \<Rightarrow> audit_list_query \<Rightarrow> listed_audit_response handler" where
  "audit_workspace_list env c w q =
     hbind (lift (require_workspace_access c w)) (\<lambda>_.
     hbind (require_realm_exists w) (\<lambda>_.
     on_workspace env w ''audit_log'' (\<lambda>db. (Inr (into_response (audit_list_paginated (ws_audit db) (build_query q))), db))))"

definition audit_app_list :: "env \<Rightarrow> claims \<Rightarrow> string \<Rightarrow> string \<Rightarrow> audit_list_query \<Rightarrow> listed_audit_response handler" where
  "audit_app_list env c w a q =
     hbind (lift (require_app_access c w a)) (\<lambda>_.
     open_app env w a ''audit_log'' (\<lambda>db.
       case need db ''audit_log'' of
         Inl e \<Rightarrow> db_stmt env (Inl e, db)
       | Inr _ \<Rightarrow> (Inr (into_response (audit_list_paginated (ad_audit db) (build_query q))), db)))"

section \<open>Properties\<close>

lemma div_ceil_least: "0 < k \<Longrightarrow> div_ceil n k \<le> m \<longleftrightarrow> n \<le> m * k"
proof -
  assume k: "0 < k"
  show ?thesis
  proof (cases "n mod k = 0")
    case True
    then obtain j where "n = k * j" by auto
    then show ?thesis using k by (simp add: div_ceil_def mult.commute)
  next
    case False
    have "n = n div k * k + n mod k" by simp
    moreover have "n mod k < k" using k by simp
    ultimately have "n div k < m \<longleftrightarrow> n \<le> m * k" using False
      by (metis (no_types, lifting) div_less_iff_less_mult k le_neq_implies_less less_imp_le_nat mod_mult_self2_is_0)
    then show ?thesis using False by (simp add: div_ceil_def Suc_le_eq)
  qed
qed



lemma opened_cases:
  "open_app env w a table f s =
     (if find_workspace (sys_workspaces (sv_system s)) w = None then (Inl (WorkspaceNotFound w), s)
      else case sv_workspaces s w of
        None \<Rightarrow> (Inl (core_error_of_db (show_sqlx env) (Sqlx (NoSuchTable ''apps''))), s)
      | Some wdb \<Rightarrow>
          if find_app (ws_apps wdb) a = None then (Inl (AppNotFound w a), s) else on_app env w a table f s)"
  by (auto simp: open_app_def hbind_def require_realm_exists_def require_workspace_exists_def find_app_or_fail_def on_workspace_read
      split: option.splits)

lemma opened_Inr [handler]:
  "open_app env w a table f s = (Inr y, s') \<longleftrightarrow>
     (\<exists>wdb. find_workspace (sys_workspaces (sv_system s)) w \<noteq> None \<and> sv_workspaces s w = Some wdb \<and> find_app (ws_apps wdb) a \<noteq> None)
     \<and> on_app env w a table f s = (Inr y, s')"
  by (auto simp: opened_cases split: option.splits)

lemma opened_run:
  assumes "find_workspace (sys_workspaces (sv_system s)) w \<noteq> None" and "sv_workspaces s w = Some wdb"
    and "find_app (ws_apps wdb) a \<noteq> None" and "sv_apps s (w, a) = Some db"
  shows "open_app env w a table f s = (case f db of (r, db') \<Rightarrow> (r, s\<lparr>sv_apps := (sv_apps s)((w, a) \<mapsto> db')\<rparr>))"
  using assms by (auto simp: opened_cases on_app_def)

text \<open>An administrator of an app can erase its audit log. Deleting the collection \<open>audit_log\<close> is answered
  with not found, but the table is dropped: from then on the app's log cannot be read, and every other
  part of the app's database is as before.\<close>

theorem audit_log_erased_by_collection_delete:
  assumes "require_app_access c w a = Inr ()"
    and "find_workspace (sys_workspaces (sv_system s)) w \<noteq> None" and "sv_workspaces s w = Some wdb"
    and "find_app (ws_apps wdb) a \<noteq> None" and "sv_apps s (w, a) = Some db"
    and "''audit_log'' \<notin> cr_id ` set (ad_collections db)" and "''_collections'' \<notin> ad_missing db"
  shows "\<exists>s'. collections_delete env c w a ''audit_log'' s = (Inl (NotFound ''audit_log'' []), s')
    \<and> sv_apps s' (w, a) = Some (db\<lparr>ad_missing := insert ''audit_log'' (ad_missing db)\<rparr>)
    \<and> fst (audit_app_list env c w a q s') = Inl (core_error_of_db (show_sqlx env) (Sqlx (NoSuchTable ''audit_log'')))"
proof -
  let ?db = "db\<lparr>ad_missing := insert ''audit_log'' (ad_missing db)\<rparr>"
  let ?s = "s\<lparr>sv_apps := (sv_apps s)((w, a) \<mapsto> ?db)\<rparr>"
  have v: "is_valid_ident ''audit_log''" by code_simp
  have "delete_collection db ''audit_log'' = (Inl (Sqlx RowNotFound), ?db)"
    using v assms(6,7) by (force simp: delete_collection_def drop_table_def BUILTIN_TABLES_def need_def sql_count_eq_0 Let_def)
  then have "collections_delete env c w a ''audit_log'' s = (Inl (NotFound ''audit_log'' []), ?s)"
    using assms(1) by (simp add: collections_delete_def hbind_def lift_def collection_not_found_def opened_run [OF assms(2-5)])
  moreover have "fst (audit_app_list env c w a q ?s) = Inl (core_error_of_db (show_sqlx env) (Sqlx (NoSuchTable ''audit_log'')))"
    using assms by (simp add: opened_run [of ?s w wdb a ?db] audit_app_list_def hbind_def lift_def need_def db_stmt_def)
  ultimately show ?thesis by auto
qed

theorem audit_log_erased_by_collection_delete_witness:
  "\<exists>s'. collections_delete (demo_env 1) root_admin ''acme'' ''blog'' ''audit_log'' hooks_server = (Inl (NotFound ''audit_log'' []), s')
     \<and> isl (fst (audit_app_list (demo_env 1) root_admin ''acme'' ''blog'' \<lparr>al_page = None, al_per_page = None, al_action = None, al_actor = None\<rparr> s'))"
proof -
  have "require_app_access root_admin ''acme'' ''blog'' = Inr ()" by (simp add: root_admin_def build_claims_def require_app_access_def)
  from audit_log_erased_by_collection_delete [OF this, of hooks_server
      "demo_workspace\<lparr>ws_apps := [\<lparr>a_id = ''blog'', a_name = ''Blog'', a_created_at = 0\<rparr>]\<rparr>" empty_app_db "demo_env 1"
      "\<lparr>al_page = None, al_per_page = None, al_action = None, al_actor = None\<rparr>"]
  show ?thesis by (auto simp: hooks_server_def demo_server_def find_workspace_def find_app_def empty_app_db_def)
qed

section \<open>Rules written through the API\<close>

lemma rules_put_Inr:
  assumes "rules_put env c w a coll action flt s = (Inr r, s')"
  obtains act db db' where "action_from_str action = Some act" and "sv_apps s (w, a) = Some db" and "set_rule db coll act flt = (Inr (), db')"
    and "s' = s\<lparr>sv_apps := (sv_apps s)((w, a) \<mapsto> db')\<rparr>"
  using assms
  by (auto simp: rules_put_def open_app_and_check_def handler parse_action_def
      split: option.splits sum.splits prod.splits)

lemma rules_delete_Inr:
  assumes "rules_delete env c w a coll action s = (Inr (), s')"
  obtains act db where "action_from_str action = Some act" and "sv_apps s (w, a) = Some db" and "need db ''_access_rules'' = Inr ()"
    and "s' = s\<lparr>sv_apps := (sv_apps s)((w, a) \<mapsto>
      db\<lparr>ad_rules := sql_delete (\<lambda>r. ar_collection_id r = coll \<and> ar_action r = action_str act) (ad_rules db)\<rparr>)\<rparr>"
  using assms
  by (auto simp: rules_delete_def open_app_and_check_def handler parse_action_def Let_def
      split: option.splits sum.splits prod.splits if_splits)

lemma get_rule_deleted:
  "need db ''_access_rules'' = Inr () \<Longrightarrow>
   get_rule (db\<lparr>ad_rules := sql_delete (\<lambda>r. ar_collection_id r = coll \<and> ar_action r = action_str act) (ad_rules db)\<rparr>) coll act = Inr None"
  by (auto simp: get_rule_def need_def sql_delete_def find_None_iff)

lemma rule_denied:
  assumes "\<not> is_admin_for_app c w a" and "sv_apps s (w, a) = Some db" and "get_rule db coll action = Inr rule" and "classify_rule rule = Deny"
  shows "\<exists>e. hbind (authorized env c w a coll action) f s = (Inl e, s)"
proof (rule hbind_denied)
  show "reading (authorized env c w a coll action)"
    unfolding authorized_def by (intro reading_hbind reading_open reading_authorize reading_pure)
  show "authorized env c w a coll action s \<noteq> (Inr x, s)" for x
    using assms by (auto simp: authorized_def handler authorize_Inr authorize_record_action_def dest!: open_app_Inr)
qed

text \<open>Taking a rule away closes its action at once. After an administrator deleted the rule of an action, or set it
  to null, the next request of any caller who is no administrator of the app fails and changes nothing:
  a list for the rule of lists, and so on for the five actions.\<close>

theorem removed_rule_closes_action:
  assumes "rules_delete env c w a coll action s = (Inr (), s') \<or> rules_put env c w a coll action None s = (Inr r, s')"
    and "\<not> is_admin_for_app u w a"
  shows "(action = ''list'' \<longrightarrow> (\<exists>e. records_list env' u w a coll q s' = (Inl e, s')))
    \<and> (action = ''create'' \<longrightarrow> (\<exists>e. records_create env' u w a coll req s' = (Inl e, s')))
    \<and> (action = ''view'' \<longrightarrow> (\<exists>e. records_get env' u w a coll i s' = (Inl e, s')))
    \<and> (action = ''update'' \<longrightarrow> (\<exists>e. records_update env' u w a coll i patch s' = (Inl e, s')))
    \<and> (action = ''delete'' \<longrightarrow> (\<exists>e. records_delete env' u w a coll i s' = (Inl e, s')))"
proof -
  obtain act db rule where act: "action_from_str action = Some act" and db: "sv_apps s' (w, a) = Some db"
    and rule: "get_rule db coll act = Inr rule" "classify_rule rule = Deny"
    using assms(1)
  proof
    assume "rules_delete env c w a coll action s = (Inr (), s')"
    then show thesis by (rule rules_delete_Inr) (use get_rule_deleted that in \<open>auto simp: classify_rule_def\<close>)
  next
    assume "rules_put env c w a coll action None s = (Inr r, s')"
    then show thesis by (rule rules_put_Inr) (use set_rule_get that in \<open>auto simp: classify_rule_def\<close>)
  qed
  note denied = rule_denied [OF assms(2) db rule]
  have fa: "\<exists>e. hbind (find_allowed env' u w a coll i act) g s' = (Inl e, s')" for g :: "schema \<times> rec \<Rightarrow> 'x handler"
    using denied via_authorized(3) [of env' u w a coll i act] by (metis hbind_assoc)
  have "act = AList \<Longrightarrow> \<exists>e. records_list env' u w a coll q s' = (Inl e, s')" using denied via_authorized(1) by metis
  moreover have "act = ACreate \<Longrightarrow> \<exists>e. records_create env' u w a coll req s' = (Inl e, s')" using denied via_authorized(2) by metis
  moreover have "act = AView \<Longrightarrow> \<exists>e. records_get env' u w a coll i s' = (Inl e, s')" using fa via_find_allowed(1) by metis
  moreover have "act = AUpdate \<Longrightarrow> \<exists>e. records_update env' u w a coll i patch s' = (Inl e, s')" using fa via_find_allowed(2) by metis
  moreover have "act = ADelete \<Longrightarrow> \<exists>e. records_delete env' u w a coll i s' = (Inl e, s')" using fa via_find_allowed(3) by metis
  ultimately show ?thesis using act by (auto simp: action_from_str_def)
qed

lemma blog_opened:
  "open_app env ''acme'' ''blog'' table f blog_server =
     (case f blog_db of (r, db) \<Rightarrow> (r, blog_server\<lparr>sv_apps := (sv_apps blog_server)((''acme'', ''blog'') \<mapsto> db)\<rparr>))"
  by (rule opened_run [OF _ _ _ blog_apps])
    (auto simp: blog_server_def demo_server_def find_workspace_def find_app_def)

theorem removed_rule_closes_action_witness:
  "let s' = snd (rules_delete (demo_env 1) root_admin ''acme'' ''blog'' ''posts'' ''list'' blog_server)
   in \<exists>e. records_list (demo_env 1) alice ''acme'' ''blog'' ''posts'' \<lparr>lq_page = 1, lq_per_page = 10, lq_filter = None\<rparr> s' = (Inl e, s')"
proof -
  let ?d = "rules_delete (demo_env 1) root_admin ''acme'' ''blog'' ''posts'' ''list'' blog_server"
  have rules: "ad_rules blog_db = [\<lparr>ar_collection_id = ''posts'', ar_action = ''list'', ar_filter = Some []\<rparr>]" and "need blog_db n = Inr ()" for n
    by (simp_all add: blog_db_def posts_db_def empty_app_db_def need_def)
  then have "fst ?d = Inr ()"
    by (simp add: rules_delete_def open_app_and_check_def blog_opened blog_collection hbind_def lift_def Let_def sql_count_def
        root_admin_def build_claims_def require_app_access_def parse_action_def action_from_str_def split_beta)
  then have "?d = (Inr (), snd ?d)" by (metis prod.collapse)
  from removed_rule_closes_action [OF disjI1 [OF this] alice_rules(1)] show ?thesis by (simp add: Let_def)
qed
end
