(* ===== verification/Files_Api.thy ===== *)
theory Files_Api
  imports Collections_Api
begin

text \<open>
  Stored files: the handlers of \<^verbatim>\<open>rustbase-api/src/files.rs\<close> over the rows of \<open>_files\<close> and the object store of
  \<^verbatim>\<open>rustbase-storage\<close>. An object key carries the workspace and the app. The theorems show that a file reads back,
  that apps do not share objects, and what a stored name can do to a header.
\<close>

section \<open>Names and keys\<close>

definition MAX_UPLOAD_BYTES :: nat where
  "MAX_UPLOAD_BYTES = 25 * 1024 * 1024"

definition storage_key :: "string \<Rightarrow> string \<Rightarrow> string \<Rightarrow> string" where
  "storage_key w a i = ''workspaces/'' @ w @ ''/apps/'' @ a @ ''/storage/'' @ i"

definition is_control :: "char \<Rightarrow> bool" where
  "is_control c = (let n = of_char c :: nat in n < 32 \<or> 127 \<le> n \<and> n < 160)"

definition quoted_attachment :: "string \<Rightarrow> string" where
  "quoted_attachment filename =
     (let safe = take 200 (filter (\<lambda>c. c \<notin> {CHR 0x22, CHR 0x5C, CHR 0x0D, CHR 0x0A} \<and> \<not> is_control c) filename)
      in if safe = [] then ''attachment'' else ''attachment; filename='' @ [CHR 0x22] @ safe @ [CHR 0x22])"

section \<open>Handlers\<close>

definition app_must_exist :: "string \<Rightarrow> string \<Rightarrow> env \<Rightarrow> unit handler" where
  "app_must_exist w a env = hbind (require_realm_exists w) (\<lambda>_. find_app_or_fail env w a)"

definition store_file :: "env \<Rightarrow> string \<Rightarrow> string \<Rightarrow> file_meta \<Rightarrow> char list \<Rightarrow> file_meta handler" where
  "store_file env w a meta body s =
     (case storage_put (storage env) (storage_key w a (f_id meta)) body (sv_objects s) of
        (Inl e, os) \<Rightarrow> (Inl (Internal (''storage put: '' @ storage_error_str e)), s\<lparr>sv_objects := os\<rparr>)
      | (Inr _, os) \<Rightarrow> (Inr meta, s\<lparr>sv_objects := os\<rparr>))"

text \<open>The headers of the request, where they decode as text.\<close>

definition files_upload ::
  "env \<Rightarrow> claims \<Rightarrow> string \<Rightarrow> string \<Rightarrow> string option \<Rightarrow> string option \<Rightarrow> char list \<Rightarrow> file_meta handler" where
  "files_upload env c w a x_filename content_type body =
     hbind (lift (require_app_access c w a)) (\<lambda>_.
     hbind (app_must_exist w a env) (\<lambda>_.
     if length body > MAX_UPLOAD_BYTES then hfail (Validation ''upload exceeds 26214400 bytes'')
     else case non_empty x_filename of
       None \<Rightarrow> hfail (Validation ''X-Filename header is required'')
     | Some filename \<Rightarrow>
         hbind (on_app env w a ''_files'' (\<lambda>db.
           db_stmt env (insert_file (fresh_uuid env) (clock env) db filename content_type (int (length body))))) (\<lambda>meta.
         store_file env w a meta body)))"

definition files_list :: "env \<Rightarrow> claims \<Rightarrow> string \<Rightarrow> string \<Rightarrow> file_meta list handler" where
  "files_list env c w a =
     hbind (lift (require_app_access c w a)) (\<lambda>_.
     open_app env w a ''_files'' (\<lambda>db. db_stmt env (list_files db, db)))"

definition file_row :: "env \<Rightarrow> string \<Rightarrow> app_db \<Rightarrow> (core_error + file_meta) \<times> app_db" where
  "file_row env i db =
     (case find_file db i of
        Inl e \<Rightarrow> db_stmt env (Inl e, db)
      | Inr None \<Rightarrow> (Inl (NotFound ''file'' i), db)
      | Inr (Some f) \<Rightarrow> (Inr f, db))"

record download =
  dl_bytes :: "char list"
  dl_content_type :: string
  dl_filename :: string
  dl_disposition :: string

definition files_download :: "env \<Rightarrow> claims \<Rightarrow> string \<Rightarrow> string \<Rightarrow> string \<Rightarrow> download handler" where
  "files_download env c w a i =
     hbind (lift (require_app_access c w a)) (\<lambda>_.
     hbind (open_app env w a ''_files'' (file_row env i)) (\<lambda>meta.
     hbind (\<lambda>s. (case storage_get (storage env) (storage_key w a i) (sv_objects s) of
                   Inl e \<Rightarrow> Inl (Internal (''storage get: '' @ storage_error_str e)) | Inr b \<Rightarrow> Inr b, s)) (\<lambda>bytes.
     hret \<lparr>dl_bytes = bytes,
           dl_content_type = (case f_mime meta of Some m \<Rightarrow> if header_ok env m then m else ''application/octet-stream''
                              | None \<Rightarrow> ''application/octet-stream''),
           dl_filename = (if header_ok env (f_filename meta) then f_filename meta else ''file''),
           dl_disposition = (let d = quoted_attachment (f_filename meta) in if header_ok env d then d else ''attachment'')\<rparr>)))"

definition files_meta :: "env \<Rightarrow> claims \<Rightarrow> string \<Rightarrow> string \<Rightarrow> string \<Rightarrow> file_meta handler" where
  "files_meta env c w a i =
     hbind (lift (require_app_access c w a)) (\<lambda>_.
     open_app env w a ''_files'' (file_row env i))"

text \<open>The object is deleted best effort: its error is dropped.\<close>

definition remove_file :: "env \<Rightarrow> string \<Rightarrow> string \<Rightarrow> string \<Rightarrow> unit handler" where
  "remove_file env w a i s = (Inr (), s\<lparr>sv_objects := snd (storage_delete (storage env) (storage_key w a i) (sv_objects s))\<rparr>)"

definition files_delete :: "env \<Rightarrow> claims \<Rightarrow> string \<Rightarrow> string \<Rightarrow> string \<Rightarrow> unit handler" where
  "files_delete env c w a i =
     hbind (lift (require_app_access c w a)) (\<lambda>_.
     hbind (open_app env w a ''_files'' (\<lambda>db.
       case delete_file db i of
         (Inl e, db') \<Rightarrow> (Inl (if e = Sqlx RowNotFound then NotFound ''file'' i else core_error_of_db (show_sqlx env) e), db')
       | (Inr x, db') \<Rightarrow> (Inr x, db'))) (\<lambda>_.
     remove_file env w a i))"

section \<open>Headers\<close>

text \<open>A stored file name cannot inject into the disposition header. The header is \<open>attachment\<close>, or it has
  exactly two quotation marks, around at most 200 characters none of which is a quotation mark, a
  backslash or a control character, and nothing follows them.\<close>

theorem attachment_name_cannot_escape:
  "quoted_attachment name = ''attachment'' \<or>
   (\<exists>safe. quoted_attachment name = ''attachment; filename='' @ [CHR 0x22] @ safe @ [CHR 0x22]
      \<and> safe \<noteq> [] \<and> length safe \<le> 200 \<and> CHR 0x22 \<notin> set safe \<and> CHR 0x5C \<notin> set safe
      \<and> list_all (\<lambda>c. \<not> is_control c) safe \<and> set safe \<subseteq> set name
      \<and> split_on CHR 0x22 (quoted_attachment name) = [''attachment; filename='', safe, []])"
proof (cases "quoted_attachment name = ''attachment''")
  case False
  define safe where "safe = take 200 (filter (\<lambda>c. c \<notin> {CHR 0x22, CHR 0x5C, CHR 0x0D, CHR 0x0A} \<and> \<not> is_control c) name)"
  have q: "quoted_attachment name = ''attachment; filename='' @ [CHR 0x22] @ safe @ [CHR 0x22]" and ne: "safe \<noteq> []"
    using False unfolding quoted_attachment_def Let_def safe_def [symmetric] by (auto split: if_splits)
  have mem: "c \<in> set name \<and> c \<noteq> CHR 0x22 \<and> c \<noteq> CHR 0x5C \<and> \<not> is_control c" if "c \<in> set safe" for c
    using in_set_takeD [OF that [unfolded safe_def]] by auto
  then have chars: "CHR 0x22 \<notin> set safe" "CHR 0x5C \<notin> set safe" "list_all (\<lambda>c. \<not> is_control c) safe" "set safe \<subseteq> set name"
    by (auto simp: list_all_iff)
  have len: "length safe \<le> 200" by (simp add: safe_def)
  have "split_on CHR 0x22 ((''attachment; filename='' @ CHR 0x22 # safe) @ CHR 0x22 # []) = [''attachment; filename='', safe, []]"
    using chars(1) split_on_snoc [of "CHR 0x22" "[]" "''attachment; filename='' @ CHR 0x22 # safe"]
      split_on_snoc [of "CHR 0x22" safe "''attachment; filename=''"] by simp
  then have "split_on CHR 0x22 (quoted_attachment name) = [''attachment; filename='', safe, []]" unfolding q by simp
  then show ?thesis using q ne len chars by blast
qed simp

section \<open>Contents\<close>

text \<open>What the object store documents of paths: a key whose components are made of lower-case letters, digits
  and hyphens is its own path.\<close>

definition plain_key :: "string \<Rightarrow> bool" where
  "plain_key k = list_all (\<lambda>p. p \<noteq> [] \<and> list_all slug_char p) (split_on CHR ''/'' k)"

definition paths_ok :: "object_store \<Rightarrow> bool" where
  "paths_ok st \<longleftrightarrow> (\<forall>k. plain_key k \<longrightarrow> object_path st k = k)"

lemma split_on_append: "split_on c (x @ c # y) = split_on c x @ split_on c y"
proof (induction x)
  case (Cons z x)
  then show ?case using split_on_ne [of c x] by (cases "split_on c x") auto
qed simp

lemma split_on_none: "c \<notin> set x \<Longrightarrow> split_on c x = [x]"
  by (induction x) auto

lemma storage_key_split:
  "split_on CHR ''/'' (storage_key w a i) = [''workspaces''] @ split_on CHR ''/'' w @ [''apps''] @ split_on CHR ''/'' a @ [''storage''] @ split_on CHR ''/'' i"
proof -
  have "storage_key w a i = ''workspaces'' @ CHR ''/'' # w @ CHR ''/'' # ''apps'' @ CHR ''/'' # a @ CHR ''/'' # ''storage'' @ CHR ''/'' # i"
    by (simp add: storage_key_def)
  then show ?thesis by (simp only: split_on_append) (simp add: split_on_none)
qed

lemma slug_component: "validate_slug what i = Inr () \<Longrightarrow> i \<noteq> [] \<and> list_all slug_char i \<and> split_on CHR ''/'' i = [i]"
  using slug_no_slash [of what i] by (auto simp: validate_slug_def as_bytes_def split_on_none split: if_splits)

lemma storage_key_plain:
  assumes "validate_realm_id w = Inr ()" and "validate_app_id a = Inr ()" and "i \<noteq> []" and "list_all slug_char i"
  shows "plain_key (storage_key w a i)"
proof -
  have "CHR ''/'' \<notin> set i" using assms(4) by (auto simp: list_all_iff slug_char_def is_ascii_lowercase_def is_ascii_digit_def less_eq_char_def)
  moreover have "list_all slug_char ''workspaces''" "list_all slug_char ''apps''" "list_all slug_char ''storage''" by code_simp+
  ultimately show ?thesis
    using assms slug_component [of "''workspace''" w] slug_component [of "''app''" a]
    by (simp add: plain_key_def storage_key_split split_on_none validate_realm_id_def validate_app_id_def)
qed

lemma insert_file_Inr:
  assumes "insert_file i now db fn mime sz = (Inr f, db')"
  shows "f = \<lparr>f_id = i, f_filename = fn, f_mime = mime, f_size = sz, f_created_at = now\<rparr>" and "db' = db\<lparr>ad_files := ad_files db @ [f]\<rparr>"
    and "find_file db' i = Inr (Some f)"
proof -
  show f: "f = \<lparr>f_id = i, f_filename = fn, f_mime = mime, f_size = sz, f_created_at = now\<rparr>" and db': "db' = db\<lparr>ad_files := ad_files db @ [f]\<rparr>"
    using assms by (auto simp: insert_file_def Let_def split: sum.splits if_splits)
  have "need db ''_files'' = Inr ()" and "List.find (\<lambda>f. f_id f = i) (ad_files db) = None"
    using assms by (auto simp: insert_file_def Let_def find_None_iff split: sum.splits if_splits)
  then show "find_file db' i = Inr (Some f)" using f db' by (simp add: find_file_def need_def rbind_def find_append split: if_splits)
qed

lemma store_file_Inr [handler]:
  "store_file env w a meta body s = (Inr m, s') \<longleftrightarrow> m = meta \<and> (\<exists>os.
     storage_put (storage env) (storage_key w a (f_id meta)) body (sv_objects s) = (Inr (), os) \<and> s' = s\<lparr>sv_objects := os\<rparr>)"
  by (auto simp: store_file_def split: prod.splits sum.splits)

lemma app_must_exist_Inr [handler]:
  "app_must_exist w a env s = (Inr x, s') \<longleftrightarrow>
     (\<exists>wdb. find_workspace (sys_workspaces (sv_system s)) w \<noteq> None \<and> sv_workspaces s w = Some wdb \<and> find_app (ws_apps wdb) a \<noteq> None) \<and> s' = s"
  by (auto simp: app_must_exist_def handler require_realm_exists_def find_app_or_fail_def fun_upd_idem split: option.splits)

lemma files_upload_Inr:
  assumes "files_upload env c w a fn ct body s = (Inr meta, s')"
  obtains name wdb db db' os where "require_app_access c w a = Inr ()" and "length body \<le> MAX_UPLOAD_BYTES" and "fn = Some name"
    and "find_workspace (sys_workspaces (sv_system s)) w \<noteq> None" and "sv_workspaces s w = Some wdb" and "find_app (ws_apps wdb) a \<noteq> None"
    and "sv_apps s (w, a) = Some db" and "insert_file (fresh_uuid env) (clock env) db name ct (int (length body)) = (Inr meta, db')"
    and "storage_put (storage env) (storage_key w a (f_id meta)) body (sv_objects s) = (Inr (), os)"
    and "s' = s\<lparr>sv_apps := (sv_apps s)((w, a) \<mapsto> db'), sv_objects := os\<rparr>"
proof -
  from assms that show thesis
    by (auto simp: files_upload_def handler non_empty_def split: if_splits option.splits list.splits)
qed

lemma storage_put_get:
  "store_ok st \<Longrightarrow> storage_put st k b os = (Inr (), os') \<Longrightarrow> storage_get st k os' = Inr b"
  by (auto simp: store_ok_def storage_put_def storage_get_def split: prod.splits sum.splits)

text \<open>C32: An uploaded file downloads as it was stored. After a successful upload, within the size limit, a download
  of the new id answers the bytes that were sent, under the name and type that were sent where they
  can be headers, always as an attachment.\<close>

theorem file_roundtrip:
  assumes "files_upload env c w a (Some name) ct body s = (Inr meta, s')" and "store_ok (storage env)"
  shows "\<exists>d. files_download env c w a (f_id meta) s' = (Inr d, s') \<and> dl_bytes d = body \<and> f_size meta = int (length body)
    \<and> length body \<le> MAX_UPLOAD_BYTES \<and> (header_ok env name \<longrightarrow> dl_filename d = name)
    \<and> (\<forall>m. ct = Some m \<and> header_ok env m \<longrightarrow> dl_content_type d = m) \<and> take 10 (dl_disposition d) = ''attachment''"
  using assms(1)
proof (rule files_upload_Inr)
  fix name' wdb db db' os
  assume access: "require_app_access c w a = Inr ()" and len: "length body \<le> MAX_UPLOAD_BYTES" and n: "Some name = Some name'"
    and ex: "find_workspace (sys_workspaces (sv_system s)) w \<noteq> None" "sv_workspaces s w = Some wdb" "find_app (ws_apps wdb) a \<noteq> None"
    and ins: "insert_file (fresh_uuid env) (clock env) db name' ct (int (length body)) = (Inr meta, db')"
    and put: "storage_put (storage env) (storage_key w a (f_id meta)) body (sv_objects s) = (Inr (), os)"
    and s': "s' = s\<lparr>sv_apps := (sv_apps s)((w, a) \<mapsto> db'), sv_objects := os\<rparr>"
  note f = insert_file_Inr [OF ins]
  have find: "find_file db' (f_id meta) = Inr (Some meta)" using f(1,3) by simp
  have get: "storage_get (storage env) (storage_key w a (f_id meta)) os = Inr body" by (rule storage_put_get [OF assms(2) put])
  have opened: "open_app env w a ''_files'' (file_row env (f_id meta)) s' = (Inr meta, s')"
    using find by (subst opened_run [of s' w wdb a db']) (auto simp: s' ex file_row_def)
  have disp: "take 10 (quoted_attachment x) = ''attachment''" for x by (simp add: quoted_attachment_def Let_def)
  have "files_download env c w a (f_id meta) s' = (Inr \<lparr>dl_bytes = body,
           dl_content_type = (case ct of Some m \<Rightarrow> if header_ok env m then m else ''application/octet-stream'' | None \<Rightarrow> ''application/octet-stream''),
           dl_filename = (if header_ok env name then name else ''file''),
           dl_disposition = (let d = quoted_attachment name in if header_ok env d then d else ''attachment'')\<rparr>, s')"
    using access opened get f(1) n by (simp add: files_download_def hbind_def lift_def hret_def s')
  then show ?thesis using f(1) len disp by (auto simp: Let_def)
qed

text \<open>The objects a handler leaves: those it found, or what its last step makes of them.\<close>

lemma hbind_objects:
  assumes "\<And>s. sv_objects (snd (m s)) = sv_objects s"
    and "\<And>x s. sv_objects (snd (f x s)) \<in> g (sv_objects s)" and "\<And>os. os \<in> g os"
  shows "sv_objects (snd (hbind m f s)) \<in> g (sv_objects s)"
proof (cases "m s")
  case (Pair r s1)
  then have "sv_objects s1 = sv_objects s" using assms(1) [of s] by simp
  then show ?thesis using assms(2) [of _ s1] assms(3) Pair by (cases r) (auto simp: hbind_def)
qed

lemma same_objects [simp]:
  "sv_objects (snd (lift r s)) = sv_objects s" "sv_objects (snd (hfail e s)) = sv_objects s"
  "sv_objects (snd (on_app env w a t f s)) = sv_objects s" "sv_objects (snd (open_app env w a t f s)) = sv_objects s"
  "sv_objects (snd (app_must_exist w a env s)) = sv_objects s"
  by (auto simp: lift_def hfail_def on_app_def opened_cases app_must_exist_def hbind_def require_realm_exists_def require_workspace_exists_def
      find_app_or_fail_def on_workspace_read split: option.splits prod.splits)

lemma insert_and_store_objects:
  "sv_objects (snd (hbind (on_app env w a ''_files'' (\<lambda>db. db_stmt env (insert_file i now db fn ct n))) (\<lambda>meta. store_file env w a meta body) s)) \<in>
     {sv_objects s, snd (storage_put (storage env) (storage_key w a i) body (sv_objects s))}"
proof -
  let ?m = "on_app env w a ''_files'' (\<lambda>db. db_stmt env (insert_file i now db fn ct n))"
  obtain r s1 where m: "?m s = (r, s1)" by (metis surj_pair)
  then have os: "sv_objects s1 = sv_objects s" using same_objects(3) by (metis snd_conv)
  show ?thesis
  proof (cases r)
    case (Inr meta)
    then have "f_id meta = i" using m by (auto simp: handler dest!: insert_file_Inr(1))
    then show ?thesis using m os Inr by (auto simp: hbind_def store_file_def split: prod.splits sum.splits)
  qed (use m os in \<open>simp add: hbind_def\<close>)
qed

lemma files_upload_objects:
  "sv_objects (snd (files_upload env c w a fn ct body s)) \<in>
     {sv_objects s, snd (storage_put (storage env) (storage_key w a (fresh_uuid env)) body (sv_objects s))}"
  unfolding files_upload_def
  by (intro hbind_objects [where g = "\<lambda>os. {os, snd (storage_put (storage env) (storage_key w a (fresh_uuid env)) body os)}"])
    (use insert_and_store_objects in \<open>auto split: option.splits\<close>)

lemma files_delete_objects:
  "sv_objects (snd (files_delete env c w a i s)) \<in>
     {sv_objects s, snd (storage_delete (storage env) (storage_key w a i) (sv_objects s))}"
  unfolding files_delete_def
  by (intro hbind_objects [where g = "\<lambda>os. {os, snd (storage_delete (storage env) (storage_key w a i) os)}"]) (auto simp: remove_file_def)


text \<open>A failed upload leaves a file without contents. When the object store refuses the bytes, the row that
  was inserted before stays: the upload is answered with an error, but the file is listed.\<close>

theorem failed_upload_leaves_row:
  assumes "require_app_access c w a = Inr ()"
    and "find_workspace (sys_workspaces (sv_system s)) w \<noteq> None" and "sv_workspaces s w = Some wdb"
    and "find_app (ws_apps wdb) a \<noteq> None" and "sv_apps s (w, a) = Some db"
    and "length body \<le> MAX_UPLOAD_BYTES" and "name \<noteq> []"
    and "insert_file (fresh_uuid env) (clock env) db name ct (int (length body)) = (Inr meta, db')"
    and "storage_put (storage env) (storage_key w a (f_id meta)) body (sv_objects s) = (Inl e, os)"
  shows "\<exists>s' fs. files_upload env c w a (Some name) ct body s = (Inl (Internal (''storage put: '' @ storage_error_str e)), s')
    \<and> files_list env c w a s' = (Inr fs, s') \<and> meta \<in> set fs"
proof -
  note f = insert_file_Inr [OF assms(8)]
  let ?s = "s\<lparr>sv_apps := (sv_apps s)((w, a) \<mapsto> db'), sv_objects := os\<rparr>"
  have m: "app_must_exist w a env s = (Inr (), s)" using assms(2-4) app_must_exist_Inr [of w a env s "()" s] by auto
  have "files_upload env c w a (Some name) ct body s = (Inl (Internal (''storage put: '' @ storage_error_str e)), ?s)"
    using assms(1,5-9) m
    by (cases name) (simp_all add: files_upload_def hbind_def lift_def non_empty_def on_app_def db_stmt_def store_file_def)
  moreover have "list_files db' = Inr (sort_key (\<lambda>f. - f_created_at f) (ad_files db'))"
    using f(3) by (auto simp: list_files_def find_file_def rbind_def split: sum.splits)
  then have "files_list env c w a ?s = (Inr (sort_key (\<lambda>f. - f_created_at f) (ad_files db')), ?s)"
    using assms(1-4) by (simp add: files_list_def hbind_def lift_def opened_run [of ?s w wdb a db'] db_stmt_def)
  moreover have "meta \<in> set (sort_key (\<lambda>f. - f_created_at f) (ad_files db'))" using f(2) by simp
  ultimately show ?thesis by blast
qed

theorem file_roundtrip_witness:
  "\<exists>d s'. files_download (demo_env 1) root_admin ''acme'' ''blog'' ''bob'' s' = (Inr d, s') \<and> dl_bytes d = ''hi''"
proof -
  let ?u = "files_upload (demo_env 1) root_admin ''acme'' ''blog'' (Some ''a.txt'') None ''hi'' hooks_server"
  let ?f = "\<lparr>f_id = ''bob'', f_filename = ''a.txt'', f_mime = None, f_size = 2, f_created_at = 1\<rparr>"
  have "fst ?u = Inr ?f"
    by (simp add: files_upload_def app_must_exist_def require_realm_exists_def find_app_or_fail_def hooks_server_simps non_empty_def
        MAX_UPLOAD_BYTES_def on_app_def insert_file_def need_def empty_app_db_def Let_def db_stmt_def store_file_def storage_put_def map_store_def demo_simps)
  then have u: "?u = (Inr ?f, snd ?u)" by (metis prod.collapse)
  have "store_ok (storage (demo_env 1))" by (simp add: demo_env_def map_store_ok)
  from file_roundtrip [OF u this] show ?thesis by auto
qed


definition full_disk :: object_store where
  "full_disk = map_store\<lparr>store_put := (\<lambda>_ _ os. (Inl ''disk full'', os))\<rparr>"

theorem failed_upload_leaves_row_witness:
  "\<exists>s' fs. files_list ((demo_env 1)\<lparr>storage := full_disk\<rparr>) root_admin ''acme'' ''blog'' s' = (Inr fs, s') \<and> fs \<noteq> []"
proof -
  let ?f = "\<lparr>f_id = ''bob'', f_filename = ''a.txt'', f_mime = None, f_size = 2, f_created_at = 1\<rparr>"
  let ?e = "(demo_env 1)\<lparr>storage := full_disk\<rparr>"
  have "require_app_access root_admin ''acme'' ''blog'' = Inr ()" by (simp add: root_admin_def build_claims_def require_app_access_def)
  moreover have "find_workspace (sys_workspaces (sv_system hooks_server)) ''acme'' \<noteq> None"
    by (simp add: hooks_server_def demo_server_def find_workspace_def)
  moreover have "sv_workspaces hooks_server ''acme'' = Some (demo_workspace\<lparr>ws_apps := [\<lparr>a_id = ''blog'', a_name = ''Blog'', a_created_at = 0\<rparr>]\<rparr>)"
    by (simp add: hooks_server_def)
  moreover have "find_app (ws_apps (demo_workspace\<lparr>ws_apps := [\<lparr>a_id = ''blog'', a_name = ''Blog'', a_created_at = 0\<rparr>]\<rparr>)) ''blog'' \<noteq> None"
    by (simp add: find_app_def)
  moreover have "sv_apps hooks_server (''acme'', ''blog'') = Some empty_app_db" by (simp add: hooks_server_def)
  moreover have "length ''hi'' \<le> MAX_UPLOAD_BYTES" and "''a.txt'' \<noteq> []" by (simp_all add: MAX_UPLOAD_BYTES_def)
  moreover have "insert_file (fresh_uuid ?e) (clock ?e) empty_app_db ''a.txt'' None (int (length ''hi'')) = (Inr ?f, empty_app_db\<lparr>ad_files := [?f]\<rparr>)"
    by (simp add: insert_file_def need_def empty_app_db_def demo_env_def Let_def)
  moreover have "storage_put (storage ?e) (storage_key ''acme'' ''blog'' (f_id ?f)) ''hi'' (sv_objects hooks_server) = (Inl (Store ''disk full''), sv_objects hooks_server)"
    by (simp add: storage_put_def full_disk_def)
  ultimately have "\<exists>s' fs. files_upload ?e root_admin ''acme'' ''blog'' (Some ''a.txt'') None ''hi'' hooks_server =
      (Inl (Internal (''storage put: '' @ storage_error_str (Store ''disk full''))), s')
    \<and> files_list ?e root_admin ''acme'' ''blog'' s' = (Inr fs, s') \<and> ?f \<in> set fs"
    by (rule failed_upload_leaves_row)
  then show ?thesis by (metis empty_iff empty_set)
qed
end
