(* ===== verification/Sessions.thy ===== *)
theory Sessions
  imports Router Files_Api
begin

text \<open>
The session cookies of \<open>rustbase-api/src/auth/cookies.rs\<close> and of the login, refresh and logout answers, and what of them a browser brings back. The
  user agent is a parameter that follows RFC 6265.
\<close>

section \<open>Cookies of a session\<close>

definition build_access_cookie :: "env \<Rightarrow> string \<Rightarrow> int \<Rightarrow> bool \<Rightarrow> string" where
  "build_access_cookie env token ttl secure = build_cookie (show_i64 env) (header_ok env) ACCESS_COOKIE token ''/'' ttl secure"

definition build_refresh_cookie :: "env \<Rightarrow> string \<Rightarrow> int \<Rightarrow> bool \<Rightarrow> string" where
  "build_refresh_cookie env token ttl secure = build_cookie (show_i64 env) (header_ok env) REFRESH_COOKIE token ''/_/auth'' ttl secure"

definition clear_access_cookie :: "env \<Rightarrow> bool \<Rightarrow> string" where
  "clear_access_cookie env secure = build_cookie (show_i64 env) (header_ok env) ACCESS_COOKIE [] ''/'' 0 secure"

definition clear_refresh_cookie :: "env \<Rightarrow> bool \<Rightarrow> string" where
  "clear_refresh_cookie env secure = build_cookie (show_i64 env) (header_ok env) REFRESH_COOKIE [] ''/_/auth'' 0 secure"

text \<open>The \<open>Set-Cookie\<close> headers of a login, of a refresh and of a logout.\<close>

definition with_session_cookies :: "env \<Rightarrow> bool \<Rightarrow> string \<Rightarrow> string \<Rightarrow> string list" where
  "with_session_cookies env secure access refresh =
     [build_access_cookie env access (num_seconds default_access_ttl) secure,
      build_refresh_cookie env refresh (num_seconds default_refresh_ttl) secure]"

definition refresh_cookies :: "env \<Rightarrow> bool \<Rightarrow> login_response \<Rightarrow> string list" where
  "refresh_cookies env secure r = with_session_cookies env secure (lr_access r) (lr_refresh r)"

definition login_cookies :: "env \<Rightarrow> bool \<Rightarrow> user_login_response \<Rightarrow> string list" where
  "login_cookies env secure r = (case r of
      Tokens t _ \<Rightarrow> with_session_cookies env secure (lr_access t) (lr_refresh t)
    | MfaRequired _ \<Rightarrow> [])"

definition logout_cookies :: "env \<Rightarrow> bool \<Rightarrow> string list" where
  "logout_cookies env secure = [clear_access_cookie env secure, clear_refresh_cookie env secure]"

section \<open>The user agent\<close>

text \<open>RFC 6265: a cookie goes with the requests whose path its path matches, as pairs in an order the agent
  chooses. \<open>agent\<close> takes the \<open>Set-Cookie\<close> headers it was sent and the path of a request to the \<open>Cookie\<close> header.\<close>

definition path_match :: "string \<Rightarrow> string \<Rightarrow> bool" where
  "path_match cookie request \<longleftrightarrow> cookie = request \<or>
     take (length cookie) request = cookie \<and> cookie \<noteq> [] \<and> (last cookie = CHR ''/'' \<or> take 1 (drop (length cookie) request) = ''/'')"

fun cookie_line :: "(string \<times> string) list \<Rightarrow> string option" where
  "cookie_line [] = None"
| "cookie_line [(n, v)] = Some (n @ ''='' @ v)"
| "cookie_line ((n, v) # ps) = map_option (\<lambda>l. n @ ''='' @ v @ ''; '' @ l) (cookie_line ps)"

definition session_pairs :: "string \<Rightarrow> string \<Rightarrow> string \<Rightarrow> (string \<times> string) list" where
  "session_pairs access refresh path =
     (if path_match ''/'' path then [(ACCESS_COOKIE, access)] else []) @ (if path_match ''/_/auth'' path then [(REFRESH_COOKIE, refresh)] else [])"

definition follows_rfc :: "(string list \<Rightarrow> string \<Rightarrow> string option) \<Rightarrow> env \<Rightarrow> bool \<Rightarrow> string \<Rightarrow> string \<Rightarrow> string \<Rightarrow> bool" where
  "follows_rfc agent env secure access refresh path \<longleftrightarrow>
     (\<exists>ps. set ps = set (session_pairs access refresh path) \<and> distinct ps
        \<and> agent (with_session_cookies env secure access refresh) path = cookie_line ps)"

definition cookie_request :: "string option \<Rightarrow> headers" where
  "cookie_request line = \<lparr>authorization = None, cookie_header = line\<rparr>"

section \<open>What reaches the server\<close>

definition plain_token :: "string \<Rightarrow> bool" where
  "plain_token t \<longleftrightarrow> (\<forall>c \<in> set t. \<not> is_whitespace c \<and> c \<noteq> CHR '';'')"

lemma trim_plain: "(\<forall>c \<in> set t. \<not> is_whitespace c) \<Longrightarrow> trim t = t"
proof -
  have "dropWhile is_whitespace xs = xs" if "\<forall>c \<in> set xs. \<not> is_whitespace c" for xs
    using that by (cases xs) auto
  from this [of t] this [of "rev t"] show "(\<forall>c \<in> set t. \<not> is_whitespace c) \<Longrightarrow> trim t = t" by (simp add: trim_def trim_start_def)
qed

lemma trim_space: "trim (CHR '' '' # t) = trim t"
  by (simp add: trim_def trim_start_def is_whitespace_def Let_def)

lemma names_plain: "plain_token ACCESS_COOKIE" "plain_token REFRESH_COOKIE" "plain_token ''=''"
  by (simp_all add: plain_token_def ACCESS_COOKIE_def REFRESH_COOKIE_def is_whitespace_def)

lemma plain_append: "plain_token (x @ y) \<longleftrightarrow> plain_token x \<and> plain_token y"
  by (auto simp: plain_token_def)

lemma cookie_pair_plain: "plain_token v \<Longrightarrow> n \<in> {ACCESS_COOKIE, REFRESH_COOKIE} \<Longrightarrow> plain_token (n @ ''='' @ v)"
  unfolding plain_append using names_plain by blast

lemma cookie_names: "ACCESS_COOKIE \<noteq> REFRESH_COOKIE" "length ACCESS_COOKIE = length REFRESH_COOKIE"
  by (simp_all add: ACCESS_COOKIE_def REFRESH_COOKIE_def)

lemma first_cookie_pair:
  assumes "plain_token v" "n \<in> {ACCESS_COOKIE, REFRESH_COOKIE}" "m \<in> {ACCESS_COOKIE, REFRESH_COOKIE}"
  shows "first_cookie m ((n @ ''='' @ v) # rest) = (if m = n then Some v else first_cookie m rest)"
    and "first_cookie m ((CHR '' '' # n @ ''='' @ v) # rest) = (if m = n then Some v else first_cookie m rest)"
proof -
  have "trim (n @ ''='' @ v) = n @ ''='' @ v" using cookie_pair_plain [OF assms(1,2)] unfolding plain_token_def by (intro trim_plain) blast
  moreover have "strip_prefix (m @ ''='') (n @ ''='' @ v) = (if m = n then Some v else None)"
    using assms(2,3) cookie_names by (auto simp: strip_prefix_def)
  ultimately show "first_cookie m ((n @ ''='' @ v) # rest) = (if m = n then Some v else first_cookie m rest)"
    "first_cookie m ((CHR '' '' # n @ ''='' @ v) # rest) = (if m = n then Some v else first_cookie m rest)"
    by (simp_all add: trim_space)
qed


text \<open>A line of at most two pairs of a session reads back.\<close>

lemma read_line:
  assumes "plain_token v" "plain_token v'" "n \<in> {ACCESS_COOKIE, REFRESH_COOKIE}" "n' \<in> {ACCESS_COOKIE, REFRESH_COOKIE}" "m \<in> {ACCESS_COOKIE, REFRESH_COOKIE}"
  shows "read_cookie (cookie_request (cookie_line [(n, v)])) m = (if m = n then Some v else None)"
    and "read_cookie (cookie_request (cookie_line [(n, v), (n', v')])) m = (if m = n then Some v else if m = n' then Some v' else None)"
proof -
  have c: "CHR '';'' \<notin> set (n @ ''='' @ v)" "CHR '';'' \<notin> set (CHR '' '' # n' @ ''='' @ v')"
    using cookie_pair_plain [OF assms(1,3)] cookie_pair_plain [OF assms(2,4)] unfolding plain_token_def by (blast, simp, blast)
  have "split_on CHR '';'' (n @ ''='' @ v) = [n @ ''='' @ v]" using c(1) by (rule split_on_none)
  then show "read_cookie (cookie_request (cookie_line [(n, v)])) m = (if m = n then Some v else None)"
    using first_cookie_pair(1) [OF assms(1,3,5), of "[]"] by (simp add: read_cookie_def cookie_request_def)
  have "split_on CHR '';'' ((n @ ''='' @ v) @ CHR '';'' # CHR '' '' # n' @ ''='' @ v') = [n @ ''='' @ v, CHR '' '' # n' @ ''='' @ v']"
    unfolding split_on_append split_on_none [OF c(1)] split_on_none [OF c(2)] by simp
  then show "read_cookie (cookie_request (cookie_line [(n, v), (n', v')])) m = (if m = n then Some v else if m = n' then Some v' else None)"
    using first_cookie_pair(1) [OF assms(1,3,5), of "[CHR '' '' # n' @ ''='' @ v']"] first_cookie_pair(2) [OF assms(2,4,5), of "[]"]
    by (simp add: read_cookie_def cookie_request_def)
qed

lemma two_orders: "set ps = {a, b} \<Longrightarrow> distinct ps \<Longrightarrow> a \<noteq> b \<Longrightarrow> ps = [a, b] \<or> ps = [b, a]"
proof -
  assume s: "set ps = {a, b}" and d: "distinct ps" and ab: "a \<noteq> b"
  have "length ps = 2" using distinct_card [OF d] s ab by simp
  then obtain x y where "ps = [x, y]" by (auto simp: numeral_2_eq_2 length_Suc_conv)
  then show ?thesis using s by (auto simp: doubleton_eq_iff)
qed


lemma session_reads:
  assumes "follows_rfc agent env secure access refresh path" and "plain_token access" and "plain_token refresh" and "take 1 path = ''/''"
  shows "read_cookie (cookie_request (agent (with_session_cookies env secure access refresh) path)) ACCESS_COOKIE = Some access
    \<and> pick_refresh_token (cookie_request (agent (with_session_cookies env secure access refresh) path)) None =
        (if path_match ''/_/auth'' path then Some refresh else None)"
proof -
  let ?a = "(ACCESS_COOKIE, access)" and ?r = "(REFRESH_COOKIE, refresh)"
  note two = read_line(2) [OF assms(2,3), of ACCESS_COOKIE REFRESH_COOKIE] read_line(2) [OF assms(3,2), of REFRESH_COOKIE ACCESS_COOKIE]
  have read_two: "read_cookie (cookie_request (cookie_line [?a, ?r])) ACCESS_COOKIE = Some access" "read_cookie (cookie_request (cookie_line [?a, ?r])) REFRESH_COOKIE = Some refresh"
    "read_cookie (cookie_request (cookie_line [?r, ?a])) ACCESS_COOKIE = Some access" "read_cookie (cookie_request (cookie_line [?r, ?a])) REFRESH_COOKIE = Some refresh"
    using two cookie_names(1) by (simp_all del: cookie_line.simps)
  have read_one: "read_cookie (cookie_request (cookie_line [?a])) ACCESS_COOKIE = Some access" "read_cookie (cookie_request (cookie_line [?a])) REFRESH_COOKIE = None"
    using read_line(1) [OF assms(2,2), of ACCESS_COOKIE ACCESS_COOKIE] cookie_names(1) by (simp_all del: cookie_line.simps)
  have p: "path_match ''/'' path" using assms(4) by (simp add: path_match_def)
  obtain ps where ps: "set ps = set (session_pairs access refresh path)" "distinct ps" "agent (with_session_cookies env secure access refresh) path = cookie_line ps"
    using assms(1) by (auto simp: follows_rfc_def)
  show ?thesis
  proof (cases "path_match ''/_/auth'' path")
    case True
    then have "set ps = {?a, ?r}" using ps(1) p by (simp add: session_pairs_def)
    then have "ps = [?a, ?r] \<or> ps = [?r, ?a]" using two_orders [OF _ ps(2)] cookie_names by blast
    then have "read_cookie (cookie_request (cookie_line ps)) ACCESS_COOKIE = Some access" "read_cookie (cookie_request (cookie_line ps)) REFRESH_COOKIE = Some refresh"
      using read_two by blast+
    then show ?thesis using ps(3) True by (simp add: pick_refresh_token_def)
  next
    case False
    then have "set ps = {?a}" using ps(1) p by (simp add: session_pairs_def)
    then have "ps = [?a]" using ps(2) by (cases ps) (auto simp: subset_singleton_iff)
    then have "read_cookie (cookie_request (cookie_line ps)) ACCESS_COOKIE = Some access" "read_cookie (cookie_request (cookie_line ps)) REFRESH_COOKIE = None"
      using read_one by blast+
    then show ?thesis using ps(3) False by (simp add: pick_refresh_token_def)
  qed
qed

text \<open>The session of a browser. After an answer with the session cookies, a user agent that follows RFC 6265 brings the
  access token with every request, and the refresh token with those below \<open>/_/auth\<close> and with no others.\<close>

theorem session_cookies_travel:
  assumes "follows_rfc agent env secure access refresh path" and "plain_token access" and "plain_token refresh" and "take 1 path = ''/''"
  shows "read_cookie (cookie_request (agent (with_session_cookies env secure access refresh) path)) ACCESS_COOKIE = Some access
    \<and> pick_refresh_token (cookie_request (agent (with_session_cookies env secure access refresh) path)) None =
        (if path_match ''/_/auth'' path then Some refresh else None)"
  using session_reads [OF assms] .

lemma user_path_no_match: "\<not> path_match ''/_/auth'' (''/api/workspaces/'' @ w @ ''/auth/refresh'')"
  by (simp add: path_match_def)

text \<open>A browser session of a user ends with its access token: the cookie of the refresh token is never sent to the
  endpoint that refreshes users, which refuses the request.\<close>

theorem user_cookie_session_cannot_refresh:
  assumes "follows_rfc agent env secure access refresh (''/api/workspaces/'' @ w @ ''/auth/refresh'')" and "plain_token access" and "plain_token refresh"
  shows "\<exists>e. user_refresh env' w (cookie_request (agent (with_session_cookies env secure access refresh) (''/api/workspaces/'' @ w @ ''/auth/refresh''))) None s = (Inl e, s)"
proof -
  have "pick_refresh_token (cookie_request (agent (with_session_cookies env secure access refresh) (''/api/workspaces/'' @ w @ ''/auth/refresh''))) None = None"
    using conjunct2 [OF session_reads [OF assms]] user_path_no_match [of w] by simp
  then show ?thesis by (auto simp: user_refresh_def require_workspace_exists_def hbind_def hfail_def split: option.splits)
qed

text \<open>The log-out of a workspace that the guide documents has no route.\<close>

theorem workspace_logout_unrouted:
  assumes "lookup_ok L"
  shows "dispatch_route L ''POST'' ''/api/workspaces/acme/auth/logout'' = Unrouted \<and> dispatch_route L ''GET'' ''/api/workspaces/acme/auth/logout'' = Unrouted"
  unfolding dispatch_best [OF assms] by code_simp


section \<open>Examples\<close>

definition demo_agent :: "string list \<Rightarrow> string \<Rightarrow> string option" where
  "demo_agent set_cookies path = cookie_line (if path = ''/_/auth/refresh'' then [(REFRESH_COOKIE, ''r''), (ACCESS_COOKIE, ''a'')] else [(ACCESS_COOKIE, ''a'')])"

lemma demo_plain: "plain_token ''a''" "plain_token ''r''"
  by (simp_all add: plain_token_def is_whitespace_def)

theorem session_cookies_travel_witness:
  "pick_refresh_token (cookie_request (demo_agent (with_session_cookies (demo_env 1) True ''a'' ''r'') ''/_/auth/refresh'')) None = Some ''r''"
proof -
  have m: "path_match ''/_/auth'' ''/_/auth/refresh''" "path_match ''/'' ''/_/auth/refresh''" by (simp_all add: path_match_def)
  have "follows_rfc demo_agent (demo_env 1) True ''a'' ''r'' ''/_/auth/refresh''"
    unfolding follows_rfc_def
    by (rule exI [of _ "[(REFRESH_COOKIE, ''r''), (ACCESS_COOKIE, ''a'')]"])
       (auto simp: session_pairs_def m demo_agent_def simp del: cookie_line.simps)
  from conjunct2 [OF session_cookies_travel [OF this demo_plain]] m show ?thesis by simp
qed

theorem user_cookie_session_cannot_refresh_witness:
  "\<exists>e. user_refresh (demo_env 1) ''acme'' (cookie_request (demo_agent (with_session_cookies (demo_env 1) True ''a'' ''r'') ''/api/workspaces/acme/auth/refresh'')) None
      demo_server = (Inl e, demo_server)"
proof -
  have "path_match ''/'' ''/api/workspaces/acme/auth/refresh''" "\<not> path_match ''/_/auth'' ''/api/workspaces/acme/auth/refresh''" by (simp_all add: path_match_def)
  then have "follows_rfc demo_agent (demo_env 1) True ''a'' ''r'' (''/api/workspaces/'' @ ''acme'' @ ''/auth/refresh'')"
    unfolding follows_rfc_def by (intro exI [of _ "[(ACCESS_COOKIE, ''a'')]"]) (simp add: session_pairs_def demo_agent_def del: cookie_line.simps)
  from user_cookie_session_cannot_refresh [OF this demo_plain, of "demo_env 1" demo_server] show ?thesis by simp
qed

theorem workspace_logout_unrouted_witness:
  "dispatch_route best_lookup ''POST'' ''/api/workspaces/acme/auth/logout'' = Unrouted"
  using workspace_logout_unrouted [OF best_lookup_ok] by blast

end
