(* ===== verification/Http_Layers.thy ===== *)
theory Http_Layers
  imports Custom_Routes Files_Api
begin

text \<open>
  The layers around the router: the rate limit, the security headers and the cross-origin rules of
  \<open>rustbase-api/src/middleware\<close>, the metrics endpoint and the dashboard of \<open>rustbase-server/src\<close>, the health check and the
  published keys. The limiter, the metrics exporter and the embedded files are parameters.
\<close>

section \<open>Rate limit\<close>

record rate_limit_config =
  rl_per_second :: nat
  rl_burst :: nat
  rl_trust_proxy_headers :: bool

definition rate_limit_default :: rate_limit_config where
  "rate_limit_default = \<lparr>rl_per_second = 10, rl_burst = 20, rl_trust_proxy_headers = False\<rparr>"

datatype 'g rate_limit_layers = PeerIp 'g | ForwardedIp 'g

definition rate_per_ms :: "rate_limit_config \<Rightarrow> nat" where
  "rate_per_ms cfg = (let per_second = max (rl_per_second cfg) 1 in max (1000 div per_second) 1)"

definition rate_burst :: "rate_limit_config \<Rightarrow> nat" where
  "rate_burst cfg = max (rl_burst cfg) (max (rl_per_second cfg) 1)"

text \<open>\<open>build\<close> is the builder of the limiter: the period in milliseconds, the burst, and whether the key is the
  forwarded address.\<close>

definition rate_limit_layer :: "(nat \<Rightarrow> nat \<Rightarrow> bool \<Rightarrow> 'g option) \<Rightarrow> rate_limit_config \<Rightarrow> 'g rate_limit_layers option" where
  "rate_limit_layer build cfg =
     (case build (rate_per_ms cfg) (rate_burst cfg) False of
        None \<Rightarrow> None
      | Some g \<Rightarrow>
          if rl_trust_proxy_headers cfg then map_option ForwardedIp (build (rate_per_ms cfg) (rate_burst cfg) True)
          else Some (PeerIp g))"

datatype governor_error =
    TooManyRequests nat
  | UnableToExtractKey
  | OtherGovernor nat "string option"

definition governor_error_to_response :: "(nat \<Rightarrow> string) \<Rightarrow> (string \<Rightarrow> bool) \<Rightarrow> governor_error \<Rightarrow> http_response" where
  "governor_error_to_response show_nat value_ok err =
     (let (status, retry, code, message) = (case err of
          TooManyRequests wait \<Rightarrow> (429, Some wait, ''too_many_requests'', ''rate limit exceeded; retry after '' @ show_nat wait @ ''s'')
        | UnableToExtractKey \<Rightarrow> (500, None, ''internal'', ''could not extract rate-limit key'')
        | OtherGovernor c m \<Rightarrow> (c, None, ''internal'', case m of Some t \<Rightarrow> t | None \<Rightarrow> ''rate-limit middleware error''));
        resp = \<lparr>hs_status = status, hs_headers = [''content-type'' \<mapsto> ''application/json''],
          hs_body = JObject [(''code'', JString code), (''message'', JString message)]\<rparr>
      in case retry of
        None \<Rightarrow> resp
      | Some secs \<Rightarrow> if value_ok (show_nat secs) then resp\<lparr>hs_headers := (hs_headers resp)(''retry-after'' \<mapsto> show_nat secs)\<rparr> else resp)"

text \<open>What the builder documents: it refuses a period or a burst of zero and nothing else.\<close>

definition builder_ok :: "(nat \<Rightarrow> nat \<Rightarrow> bool \<Rightarrow> 'g option) \<Rightarrow> bool" where
  "builder_ok build \<longleftrightarrow> (\<forall>p b k. build p b k = None \<longleftrightarrow> p = 0 \<or> b = 0)"

text \<open>The limiter is always installed, with the key the configuration asks for. Up to 1000 requests per second, the
  period lets through at least the configured rate and less than twice of it; above that it lets through 1000
  per second.\<close>

theorem rate_limit_period:
  assumes "builder_ok build"
  shows "(\<exists>g. rate_limit_layer build cfg = Some (if rl_trust_proxy_headers cfg then ForwardedIp g else PeerIp g))
    \<and> (0 < rl_per_second cfg \<and> rl_per_second cfg \<le> 1000 \<longrightarrow>
        rl_per_second cfg * rate_per_ms cfg \<le> 1000 \<and> 1000 < 2 * rl_per_second cfg * rate_per_ms cfg)
    \<and> (1000 < rl_per_second cfg \<longrightarrow> rate_per_ms cfg = 1)"
proof (intro conjI impI)
  have "rate_per_ms cfg \<noteq> 0" "rate_burst cfg \<noteq> 0" by (simp_all add: rate_per_ms_def rate_burst_def Let_def max_def)
  then have "build (rate_per_ms cfg) (rate_burst cfg) k \<noteq> None" for k using assms by (simp add: builder_ok_def)
  then obtain g h where "build (rate_per_ms cfg) (rate_burst cfg) False = Some g" "build (rate_per_ms cfg) (rate_burst cfg) True = Some h" by blast
  then show "\<exists>g. rate_limit_layer build cfg = Some (if rl_trust_proxy_headers cfg then ForwardedIp g else PeerIp g)"
    by (auto simp: rate_limit_layer_def)
next
  assume p: "0 < rl_per_second cfg \<and> rl_per_second cfg \<le> 1000"
  let ?d = "1000 div rl_per_second cfg"
  have d1: "1 \<le> ?d" using p by (simp add: div_greater_zero_iff Suc_le_eq)
  have "max (rl_per_second cfg) 1 = rl_per_second cfg" using p by simp
  then have d: "rate_per_ms cfg = ?d" "1 \<le> ?d" using d1 by (simp_all add: rate_per_ms_def max_absorb1)
  show "rl_per_second cfg * rate_per_ms cfg \<le> 1000" unfolding d(1) by (rule times_div_less_eq_dividend)
  have "1000 < rl_per_second cfg * ?d + rl_per_second cfg" using p dividend_less_times_div [of "rl_per_second cfg" 1000] by (simp add: add.commute)
  also have "\<dots> \<le> rl_per_second cfg * ?d + rl_per_second cfg * ?d" using d(2) by simp
  finally show "1000 < 2 * rl_per_second cfg * rate_per_ms cfg" unfolding d(1) by simp
next
  assume "1000 < rl_per_second cfg"
  then show "rate_per_ms cfg = 1" by (simp add: rate_per_ms_def Let_def)
qed

section \<open>Security headers\<close>

record security_headers_config =
  hsts_max_age_secs :: nat
  hsts_include_subdomains :: bool

definition hsts_value :: "(nat \<Rightarrow> string) \<Rightarrow> (string \<Rightarrow> bool) \<Rightarrow> security_headers_config \<Rightarrow> string option" where
  "hsts_value show_nat value_ok cfg =
     (if hsts_max_age_secs cfg = 0 then None
      else let v = ''max-age='' @ show_nat (hsts_max_age_secs cfg) @ (if hsts_include_subdomains cfg then ''; includeSubDomains'' else [])
           in if value_ok v then Some v else None)"

definition PERMISSIONS_POLICY :: string where
  "PERMISSIONS_POLICY = ''geolocation=(), microphone=(), camera=(), payment=(), usb=(), interest-cohort=()''"

definition security_headers_layer :: "(nat \<Rightarrow> string) \<Rightarrow> (string \<Rightarrow> bool) \<Rightarrow> security_headers_config \<Rightarrow> http_response \<Rightarrow> http_response" where
  "security_headers_layer show_nat value_ok cfg resp = resp\<lparr>hs_headers := (hs_headers resp)(
     ''strict-transport-security'' \<mapsto> (case hsts_value show_nat value_ok cfg of Some v \<Rightarrow> v | None \<Rightarrow> ''max-age=0''),
     ''x-content-type-options'' \<mapsto> ''nosniff'',
     ''referrer-policy'' \<mapsto> ''strict-origin-when-cross-origin'',
     ''x-frame-options'' \<mapsto> ''DENY'',
     ''permissions-policy'' \<mapsto> PERMISSIONS_POLICY)\<rparr>"

lemma five_updates: "{n. (m(a := x1, b := x2, c := x3, d := x4, e := x5)) n \<noteq> m n} \<subseteq> {a, b, c, d, e}"
  by auto

text \<open>No handler weakens the security headers: whatever an inner service answers, a custom route included, the five
  headers leave the server with the values of the configuration, and nothing else of the answer changes. An age
  of zero is sent as \<open>max-age=0\<close>.\<close>

theorem security_headers_override:
  "let r = security_headers_layer show_nat value_ok cfg resp in
     hs_headers r ''x-content-type-options'' = Some ''nosniff'' \<and> hs_headers r ''x-frame-options'' = Some ''DENY''
     \<and> hs_headers r ''referrer-policy'' = Some ''strict-origin-when-cross-origin'' \<and> hs_headers r ''permissions-policy'' = Some PERMISSIONS_POLICY
     \<and> (\<exists>v. hs_headers r ''strict-transport-security'' = Some v)
     \<and> (if hsts_max_age_secs cfg = 0 then hs_headers r ''strict-transport-security'' = Some ''max-age=0'' else True)
     \<and> hs_status r = hs_status resp \<and> hs_body r = hs_body resp
     \<and> {n. hs_headers r n \<noteq> hs_headers resp n} \<subseteq> {''strict-transport-security'', ''x-content-type-options'', ''referrer-policy'',
         ''x-frame-options'', ''permissions-policy''}"
  unfolding Let_def
proof (intro conjI)
  show "{n. hs_headers (security_headers_layer show_nat value_ok cfg resp) n \<noteq> hs_headers resp n} \<subseteq>
      {''strict-transport-security'', ''x-content-type-options'', ''referrer-policy'', ''x-frame-options'', ''permissions-policy''}"
    using five_updates [of "hs_headers resp"] by (simp add: security_headers_layer_def del: fun_upd_apply)
qed (simp_all add: security_headers_layer_def hsts_value_def)

section \<open>Cross-origin requests\<close>

record cors_config =
  cors_allow_origins :: "string list"
  cors_allow_credentials :: bool
  cors_max_age :: nat

record cors_layer =
  cl_methods :: "string list"
  cl_headers :: "string list"
  cl_max_age :: nat
  cl_origins :: "string list option"
  cl_credentials :: bool

definition allowed_methods :: "string list" where
  "allowed_methods = [''GET'', ''POST'', ''PATCH'', ''PUT'', ''DELETE'', ''OPTIONS'']"

definition allowed_headers :: "string list" where
  "allowed_headers = [''authorization'', ''content-type'', ''x-request-id'']"

definition cors_layer_of :: "(string \<Rightarrow> bool) \<Rightarrow> cors_config \<Rightarrow> cors_layer" where
  "cors_layer_of value_ok cfg =
     (let layer = \<lparr>cl_methods = allowed_methods, cl_headers = allowed_headers, cl_max_age = cors_max_age cfg, cl_origins = None, cl_credentials = False\<rparr>
      in if cors_allow_origins cfg = [] then layer
         else let layer = layer\<lparr>cl_origins := Some (filter value_ok (cors_allow_origins cfg))\<rparr>
              in if cors_allow_credentials cfg then layer\<lparr>cl_credentials := True\<rparr> else layer)"

text \<open>Without an entry in the configuration no origin is let in, and no credentials: an origin of the layer is one
  the configuration lists.\<close>

theorem cors_only_configured:
  "(case cl_origins (cors_layer_of value_ok cfg) of None \<Rightarrow> cors_allow_origins cfg = []
      | Some os \<Rightarrow> cors_allow_origins cfg \<noteq> [] \<and> set os = {x \<in> set (cors_allow_origins cfg). value_ok x})
    \<and> cl_credentials (cors_layer_of value_ok cfg) = (cors_allow_origins cfg \<noteq> [] \<and> cors_allow_credentials cfg)"
  by (auto simp: cors_layer_of_def Let_def)

section \<open>Metrics\<close>

record observability_config =
  metrics_enabled :: bool
  metrics_token :: "string option"

definition observability_init :: "(unit \<Rightarrow> string + 'h) \<Rightarrow> observability_config \<Rightarrow> string + 'h option" where
  "observability_init install cfg =
     (if \<not> metrics_enabled cfg then Inr None
      else if (case metrics_token cfg of None \<Rightarrow> True | Some t \<Rightarrow> t = [])
      then Inl ''[observability] metrics_enabled = true requires a non-empty metrics_token''
      else rbind (install ()) (\<lambda>h. Inr (Some h)))"

definition metrics_endpoint :: "string option \<Rightarrow> string \<Rightarrow> (string \<rightharpoonup> string) \<Rightarrow> http_response" where
  "metrics_endpoint token snapshot headers =
     (let nothing = \<lparr>hs_status = 404, hs_headers = Map.empty, hs_body = JNull\<rparr> in
      case token of
        None \<Rightarrow> nothing
      | Some expected \<Rightarrow>
          if expected = [] then nothing
          else if Option.bind (headers ''authorization'') (strip_prefix ''Bearer '') \<noteq> Some expected then nothing
          else \<lparr>hs_status = 200, hs_headers = [''content-type'' \<mapsto> ''text/plain; version=0.0.4''], hs_body = JString snapshot\<rparr>)"

lemma strip_prefix_Some: "strip_prefix p v = Some t \<longleftrightarrow> v = p @ t"
  by (auto simp: strip_prefix_def) (metis append_take_drop_id)

text \<open>The metrics are for the holder of the token: the endpoint answers anything but 404 exactly for a request with
  the configured token, which is not empty; a server with metrics that started has such a token.\<close>

theorem metrics_need_token:
  "(hs_status (metrics_endpoint token snapshot headers) \<noteq> 404 \<longleftrightarrow>
      (\<exists>t. token = Some t \<and> t \<noteq> [] \<and> headers ''authorization'' = Some (''Bearer '' @ t)))
    \<and> (case observability_init install cfg of Inr (Some h) \<Rightarrow> (\<exists>t. metrics_token cfg = Some t \<and> t \<noteq> []) | _ \<Rightarrow> True)"
proof
  show "hs_status (metrics_endpoint token snapshot headers) \<noteq> 404 \<longleftrightarrow>
      (\<exists>t. token = Some t \<and> t \<noteq> [] \<and> headers ''authorization'' = Some (''Bearer '' @ t))"
  proof (cases "headers ''authorization''")
    case None
    then show ?thesis by (simp add: metrics_endpoint_def Let_def split: option.split)
  next
    case (Some v)
    then show ?thesis by (simp add: metrics_endpoint_def Let_def strip_prefix_Some del: append.simps split: option.split)
  qed
  show "case observability_init install cfg of Inr (Some h) \<Rightarrow> (\<exists>t. metrics_token cfg = Some t \<and> t \<noteq> []) | _ \<Rightarrow> True"
    by (auto simp: observability_init_def rbind_def split: option.splits sum.splits if_splits)
qed

section \<open>The dashboard\<close>

text \<open>\<open>dev\<close> is the directory of the override with its regular files by path, \<open>embedded\<close> the files in the
  executable.\<close>

definition dashboard_resolve ::
  "(string \<Rightarrow> string) \<Rightarrow> (string \<times> (string \<rightharpoonup> char list)) option \<Rightarrow> (string \<rightharpoonup> char list) \<Rightarrow> string \<Rightarrow> (char list \<times> string) option" where
  "dashboard_resolve mime dev embedded path =
     (let clean = dropWhile (\<lambda>c. c = CHR ''/'') path;
          candidates = [if clean = [] then ''index.html'' else clean, ''index.html''];
          in_dev = (case dev of
              None \<Rightarrow> None
            | Some (base, disk) \<Rightarrow> List.find (\<lambda>c. disk (base @ ''/'' @ c) \<noteq> None) candidates)
      in case (dev, in_dev) of
        (Some (base, disk), Some c) \<Rightarrow> map_option (\<lambda>b. (b, mime c)) (disk (base @ ''/'' @ c))
      | _ \<Rightarrow> (case List.find (\<lambda>c. embedded c \<noteq> None) candidates of
                None \<Rightarrow> None | Some c \<Rightarrow> map_option (\<lambda>b. (b, mime c)) (embedded c)))"

definition dashboard_serve ::
  "(string \<Rightarrow> bool) \<Rightarrow> (string \<Rightarrow> string) \<Rightarrow> (string \<times> (string \<rightharpoonup> char list)) option \<Rightarrow> (string \<rightharpoonup> char list) \<Rightarrow> string \<Rightarrow> http_response" where
  "dashboard_serve value_ok mime dev embedded path =
     (case dashboard_resolve mime dev embedded path of
        None \<Rightarrow> \<lparr>hs_status = 404, hs_headers = Map.empty, hs_body = JString ''dashboard asset not found''\<rparr>
      | Some (bytes, m) \<Rightarrow> \<lparr>hs_status = 200, hs_headers = (if value_ok m then [''content-type'' \<mapsto> m] else Map.empty), hs_body = JString bytes\<rparr>)"

definition dashboard_or_405 ::
  "(string \<Rightarrow> bool) \<Rightarrow> (string \<Rightarrow> string) \<Rightarrow> (string \<times> (string \<rightharpoonup> char list)) option \<Rightarrow> (string \<rightharpoonup> char list) \<Rightarrow> string \<Rightarrow> string \<Rightarrow> http_response" where
  "dashboard_or_405 value_ok mime dev embedded m path =
     (if m = ''GET'' \<and> take 3 path = ''/_/'' then dashboard_serve value_ok mime dev embedded ''index.html''
      else \<lparr>hs_status = 405, hs_headers = Map.empty, hs_body = JNull\<rparr>)"

text \<open>The client-side router always gets its shell: with an embedded index every request of the dashboard answers
  200, with the file it names if there is one and the index otherwise.\<close>

theorem dashboard_falls_back:
  assumes "embedded ''index.html'' = Some shell"
  shows "hs_status (dashboard_serve value_ok mime None embedded path) = 200
    \<and> hs_body (dashboard_serve value_ok mime None embedded path) =
        JString (case embedded (dropWhile (\<lambda>c. c = CHR ''/'') path) of
            Some b \<Rightarrow> if dropWhile (\<lambda>c. c = CHR ''/'') path = [] then shell else b | None \<Rightarrow> shell)"
  using assms by (auto simp: dashboard_serve_def dashboard_resolve_def Let_def split: option.splits)

text \<open>The override of the dashboard reads any file the process can: the path of a request is joined to the
  directory as it is, parent segments included.\<close>

theorem dashboard_override_escapes:
  assumes "disk (base @ ''/../'' @ name) = Some secret"
  shows "hs_body (dashboard_serve value_ok mime (Some (base, disk)) embedded (''../'' @ name)) = JString secret"
  using assms by (simp add: dashboard_serve_def dashboard_resolve_def Let_def)

section \<open>Health and public keys\<close>

definition healthz :: "env \<Rightarrow> (string \<times> bool) handler" where
  "healthz env s = (Inr (''ok'', master_admin_is_initialized (sys_master_admins (sv_system s))), s)"

definition jwks_response :: "json \<Rightarrow> http_response" where
  "jwks_response keys = \<lparr>hs_status = 200,
     hs_headers = [''content-type'' \<mapsto> ''application/jwk-set+json'', ''cache-control'' \<mapsto> ''public, max-age=3600''], hs_body = keys\<rparr>"

section \<open>Concrete instances\<close>

definition demo_builder :: "nat \<Rightarrow> nat \<Rightarrow> bool \<Rightarrow> (nat \<times> nat) option" where
  "demo_builder p b k = (if p = 0 \<or> b = 0 then None else Some (p, b))"

theorem rate_limit_period_witness:
  "\<exists>g. rate_limit_layer demo_builder rate_limit_default = Some (PeerIp g) \<and> 10 * rate_per_ms rate_limit_default \<le> 1000"
proof -
  have "builder_ok demo_builder" by (simp add: builder_ok_def demo_builder_def)
  from rate_limit_period [OF this, of rate_limit_default] show ?thesis by (simp add: rate_limit_default_def)
qed

theorem dashboard_falls_back_witness:
  "hs_body (dashboard_serve (\<lambda>_. True) (\<lambda>_. ''text/html'') None [''index.html'' \<mapsto> ''shell''] ''login'') = JString ''shell''"
  using dashboard_falls_back [of "[''index.html'' \<mapsto> ''shell'']" "''shell''" "\<lambda>_. True" "\<lambda>_. ''text/html''" "''login''"] by simp

theorem dashboard_override_escapes_witness:
  "hs_body (dashboard_serve (\<lambda>_. True) (\<lambda>_. ''text/plain'') (Some (''ui'', [''ui/../key'' \<mapsto> ''secret''])) Map.empty ''../key'') = JString ''secret''"
  using dashboard_override_escapes [of "[''ui/../key'' \<mapsto> ''secret'']" "''ui''" "''key''" "''secret''" "\<lambda>_. True" "\<lambda>_. ''text/plain''" Map.empty] by simp

end
