(* ===== verification/Server_Config.thy ===== *)
theory Server_Config
  imports Http_Layers Router
begin

text \<open>
  The configuration of \<open>rustbase-server/src/config.rs\<close> with its defaults, and the replication plan of
  \<open>rustbase-server/src/litestream.rs\<close>: the walk over the data directory and the paths in the bucket. Every database is listed
  once and gets a path of its own.
\<close>

section \<open>Configuration\<close>

record litestream_config =
  ls_enabled :: bool
  ls_bucket :: "string option"
  ls_prefix :: "string option"
  ls_replicate_interval_sec :: nat

record http_config =
  hc_max_body_bytes :: nat
  hc_security_headers :: bool
  hc_hsts :: security_headers_config
  hc_cookie_secure :: bool

record rate_limit_section =
  rs_enabled :: bool
  rs_limit :: rate_limit_config

record lockout_config =
  lc_enabled :: bool
  lc_max_failures :: nat
  lc_window_secs :: nat
  lc_lockout_secs :: nat

datatype smtp_tls = NoTls | StartTls | ImplicitTls

record smtp_config =
  sc_host :: string
  sc_port :: nat
  sc_username :: "string option"
  sc_password :: "string option"
  sc_tls :: smtp_tls

record server_config =
  cf_listen :: string
  cf_data_dir :: string
  cf_workspace_pool_cap :: nat
  cf_app_pool_cap :: nat
  cf_litestream :: litestream_config
  cf_smtp :: "smtp_config option"
  cf_s3 :: "s3_config option"
  cf_http :: http_config
  cf_cors :: cors_config
  cf_rate_limit :: rate_limit_section
  cf_lockout :: lockout_config
  cf_fetch_allowed_hosts :: "string list"
  cf_observability :: observability_config

definition default_http :: http_config where
  "default_http = \<lparr>hc_max_body_bytes = 8 * 1024 * 1024, hc_security_headers = True,
     hc_hsts = \<lparr>hsts_max_age_secs = 63072000, hsts_include_subdomains = True\<rparr>, hc_cookie_secure = True\<rparr>"

definition default_rate_limit :: rate_limit_section where
  "default_rate_limit = \<lparr>rs_enabled = True, rs_limit = \<lparr>rl_per_second = 50, rl_burst = 100, rl_trust_proxy_headers = False\<rparr>\<rparr>"

definition default_lockout :: lockout_config where
  "default_lockout = \<lparr>lc_enabled = True, lc_max_failures = 5, lc_window_secs = 300, lc_lockout_secs = 300\<rparr>"

text \<open>The defaults that \<open>load\<close> sets before the file and the environment are read.\<close>

definition load_defaults :: server_config where
  "load_defaults = \<lparr>cf_listen = ''0.0.0.0:8080'', cf_data_dir = ''./data'', cf_workspace_pool_cap = 32, cf_app_pool_cap = 64,
     cf_litestream = \<lparr>ls_enabled = False, ls_bucket = None, ls_prefix = None, ls_replicate_interval_sec = 10\<rparr>,
     cf_smtp = None, cf_s3 = None, cf_http = default_http,
     cf_cors = \<lparr>cors_allow_origins = [], cors_allow_credentials = False, cors_max_age = 600\<rparr>,
     cf_rate_limit = default_rate_limit, cf_lockout = default_lockout, cf_fetch_allowed_hosts = [],
     cf_observability = \<lparr>metrics_enabled = False, metrics_token = None\<rparr>\<rparr>"

text \<open>\<open>sources\<close> reads the file and the environment over the defaults.\<close>

definition load_config :: "(server_config \<Rightarrow> string + server_config) \<Rightarrow> string + server_config" where
  "load_config sources =
     rbind (sources load_defaults) (\<lambda>cfg.
       if ls_enabled (cf_litestream cfg) \<and> ls_bucket (cf_litestream cfg) = None
       then Inl ''litestream.enabled = true but litestream.bucket is not set'' else Inr cfg)"

text \<open>With the default configuration the body limit is below the upload limit: uploads between the two never reach
  the handler, whose own limit is never the one that refuses.\<close>

theorem default_body_limit_hides_upload_limit:
  "load_config Inr = Inr load_defaults \<and> hc_max_body_bytes (cf_http load_defaults) < MAX_UPLOAD_BYTES"
  by (simp add: load_config_def load_defaults_def default_http_def MAX_UPLOAD_BYTES_def rbind_def)

section \<open>Replication\<close>

text \<open>A directory tree, read in the order of the directory.\<close>

datatype entry = File | Dir "(string \<times> entry) list"

definition extension :: "string \<Rightarrow> string option" where
  "extension n = (let after = takeWhile (\<lambda>c. c \<noteq> CHR ''.'') (rev n) in
     if length n \<le> length after + 1 then None else Some (rev after))"

fun walk_dir :: "string list \<Rightarrow> entry \<Rightarrow> string list list" where
  "walk_dir cur File = []"
| "walk_dir cur (Dir es) = concat (map (\<lambda>(n, e). case e of
      Dir _ \<Rightarrow> walk_dir (cur @ [n]) e
    | File \<Rightarrow> if extension n = Some ''db'' then [cur @ [n]] else []) es)"

definition bucket_key :: "string list \<Rightarrow> string" where
  "bucket_key path = map (\<lambda>c. if c = CHR 0x5C then CHR ''/'' else c) (join_path (butlast path @ [take (length (last path) - 3) (last path)]))"

definition bucket_path :: "string option \<Rightarrow> string list \<Rightarrow> string" where
  "bucket_path prefix path = (case prefix of
      Some p \<Rightarrow> if p \<noteq> [] then rev (dropWhile (\<lambda>c. c = CHR ''/'') (rev p)) @ ''/'' @ bucket_key path else bucket_key path
    | None \<Rightarrow> bucket_key path)"

record db_replica =
  dr_path :: "string list"
  dr_bucket_path :: string

definition discover_dbs :: "entry \<Rightarrow> string option \<Rightarrow> db_replica list" where
  "discover_dbs tree prefix = sort_key dr_path (map (\<lambda>p. \<lparr>dr_path = p, dr_bucket_path = bucket_path prefix p\<rparr>) (walk_dir [] tree))"

definition render_yaml :: "(nat \<Rightarrow> string) \<Rightarrow> string \<Rightarrow> entry \<Rightarrow> litestream_config \<Rightarrow> string + string list" where
  "render_yaml show_nat base tree cfg =
     (let dbs = discover_dbs tree (ls_prefix cfg) in
      case ls_bucket cfg of
        None \<Rightarrow> Inl ''litestream.bucket is not set''
      | Some bucket \<Rightarrow>
          (let interval = show_nat (max (ls_replicate_interval_sec cfg) 1) in
           Inr ([''# Generated by RustBase. Do not edit by hand.'',
               ''# Sync interval: '' @ interval @ ''s. Adjust [litestream].replicate_interval_sec to change.'', ''dbs:'']
             @ (if dbs = [] then [''  # no *.db files were present under '' @ base @ '' at generation time''] else [])
             @ concat (map (\<lambda>db. [''  - path: '' @ base @ ''/'' @ join_path (dr_path db), ''    replicas:'', ''      - type: s3'',
                 ''        bucket: '' @ bucket, ''        path: '' @ dr_bucket_path db, ''        sync-interval: '' @ interval @ ''s'']) dbs))))"

text \<open>The files of a tree by their paths.\<close>

fun file_at :: "entry \<Rightarrow> string list \<Rightarrow> bool" where
  "file_at File p = (p = [])"
| "file_at (Dir es) [] = False"
| "file_at (Dir es) (n # p) = list_ex (\<lambda>(m, e). m = n \<and> file_at e p) es"

text \<open>Names of a directory are distinct, not empty and free of separators.\<close>

fun tree_ok :: "entry \<Rightarrow> bool" where
  "tree_ok File = True"
| "tree_ok (Dir es) = (distinct (map fst es) \<and> list_all (\<lambda>(n, e). n \<noteq> [] \<and> CHR ''/'' \<notin> set n \<and> CHR 0x5C \<notin> set n \<and> tree_ok e) es)"

lemma file_at_Cons: "(n, e) \<in> set es \<Longrightarrow> file_at e p \<Longrightarrow> file_at (Dir es) (n # p)"
  by (force simp: list_ex_iff)

lemma walk_files: "p \<in> set (walk_dir cur e) \<longleftrightarrow> (\<exists>q. q \<noteq> [] \<and> p = cur @ q \<and> file_at e q \<and> extension (last q) = Some ''db'')"
proof (induction cur e arbitrary: p rule: walk_dir.induct)
  case (2 cur es)
  show ?case
  proof
    assume "p \<in> set (walk_dir cur (Dir es))"
    then obtain n e where ne: "(n, e) \<in> set es" and p: "p \<in> set (case e of Dir _ \<Rightarrow> walk_dir (cur @ [n]) e | File \<Rightarrow> if extension n = Some ''db'' then [cur @ [n]] else [])"
      by auto
    show "\<exists>q. q \<noteq> [] \<and> p = cur @ q \<and> file_at (Dir es) q \<and> extension (last q) = Some ''db''"
    proof (cases e)
      case File
      then show ?thesis using p ne by (intro exI [of _ "[n]"]) (auto intro!: file_at_Cons simp del: file_at.simps(3) split: if_splits)
    next
      case (Dir ds)
      with p "2.IH" [OF ne refl Dir] obtain q where "q \<noteq> []" "p = (cur @ [n]) @ q" "file_at e q" "extension (last q) = Some ''db''" by auto
      then show ?thesis using ne by (intro exI [of _ "n # q"]) (simp add: file_at_Cons del: file_at.simps(3))
    qed
  next
    assume "\<exists>q. q \<noteq> [] \<and> p = cur @ q \<and> file_at (Dir es) q \<and> extension (last q) = Some ''db''"
    then obtain n q e where q: "p = cur @ n # q" "(n, e) \<in> set es" "file_at e q" "extension (last (n # q)) = Some ''db''"
      by (auto simp: list_ex_iff neq_Nil_conv)
    have "p \<in> set (case e of Dir _ \<Rightarrow> walk_dir (cur @ [n]) e | File \<Rightarrow> if extension n = Some ''db'' then [cur @ [n]] else [])"
    proof (cases e)
      case File
      then show ?thesis using q by simp
    next
      case (Dir ds)
      then have "q \<noteq> []" using q(3) by (cases q) auto
      then show ?thesis using "2.IH" [OF q(2) refl Dir] q Dir by auto
    qed
    then show "p \<in> set (walk_dir cur (Dir es))"
      unfolding walk_dir.simps set_concat set_map by (intro UN_I [OF imageI [OF q(2)]]) simp
  qed
qed simp

lemma distinct_items:
  assumes "\<And>n e. (n, e) \<in> set es \<Longrightarrow> distinct (f n e) \<and> (\<forall>p \<in> set (f n e). \<exists>q. p = cur @ n # q)" and "distinct (map fst es)"
  shows "distinct (concat (map (\<lambda>(n, e). f n e) es))"
  using assms
proof (induction es)
  case (Cons x es)
  obtain n e where x: "x = (n, e)" by (cases x)
  have "set (f n e) \<inter> set (f m d) = {}" if "(m, d) \<in> set es" for m d
  proof -
    have "m \<noteq> n" using that Cons.prems(2) x by force
    then show ?thesis using Cons.prems(1) [of n e] Cons.prems(1) [of m d] that x by fastforce
  qed
  moreover have "distinct (concat (map (\<lambda>(n, e). f n e) es))" using Cons.prems by (intro Cons.IH) auto
  moreover have "distinct (f n e)" using Cons.prems(1) x by simp
  ultimately show ?case by (auto simp: x)
qed simp

lemma walk_distinct: "tree_ok e \<Longrightarrow> distinct (walk_dir cur e)"
proof (induction cur e rule: walk_dir.induct)
  case (2 cur es)
  let ?f = "\<lambda>n e. case e of Dir _ \<Rightarrow> walk_dir (cur @ [n]) e | File \<Rightarrow> if extension n = Some ''db'' then [cur @ [n]] else []"
  have "distinct (?f n e) \<and> (\<forall>p \<in> set (?f n e). \<exists>q. p = cur @ n # q)" if ne: "(n, e) \<in> set es" for n e
  proof (cases e)
    case File
    then show ?thesis by simp
  next
    case (Dir ds)
    have "tree_ok e" using "2.prems" ne by (auto simp: list_all_iff)
    then show ?thesis using "2.IH" [OF ne refl Dir] Dir by (auto simp: walk_files simp del: walk_dir.simps)
  qed
  then show ?case using "2.prems" distinct_items [of es ?f cur] by simp
qed simp

lemma extension_db: "extension n = Some ''db'' \<Longrightarrow> \<exists>st. n = st @ ''.db''"
proof -
  assume e: "extension n = Some ''db''"
  let ?a = "takeWhile (\<lambda>c. c \<noteq> CHR ''.'') (rev n)"
  have a: "?a = ''bd''" and l: "length n > length ?a + 1" using e by (auto simp: extension_def Let_def rev_swap split: if_splits)
  let ?d = "dropWhile (\<lambda>c. c \<noteq> CHR ''.'') (rev n)"
  have n: "rev n = ?a @ ?d" by simp
  then have "length n = length ?a + length ?d" by (metis length_append length_rev)
  then have "0 < length ?d" using l by linarith
  then have d: "?d \<noteq> []" by (rule length_greater_0_conv [THEN iffD1])
  obtain r where r: "?d = CHR ''.'' # r" using d hd_dropWhile [OF d] by (cases ?d) auto
  have "rev n = ''bd'' @ CHR ''.'' # r" using n unfolding a r .
  then have "n = rev r @ ''.db''" by (simp add: rev_swap)
  then show ?thesis by blast
qed

lemma join_inj:
  "xs \<noteq> [] \<Longrightarrow> ys \<noteq> [] \<Longrightarrow> \<forall>x \<in> set (xs @ ys). CHR ''/'' \<notin> set x \<Longrightarrow> join_path xs = join_path ys \<Longrightarrow> xs = ys"
proof (induction xs arbitrary: ys rule: join_path.induct)
  case (2 x)
  then obtain y ys' where "ys = y # ys'" by (cases ys) auto
  then show ?case using 2 by (cases ys') auto
next
  case (3 x x' xs)
  then obtain y ys' where ys: "ys = y # ys'" by (cases ys) auto
  have ne: "ys' \<noteq> []"
  proof
    assume "ys' = []"
    then have "y = x @ CHR ''/'' # join_path (x' # xs)" using "3.prems"(4) ys by simp
    then have "CHR ''/'' \<in> set y" by simp
    then show False using "3.prems"(3) ys by auto
  qed
  then obtain y' ys'' where y': "ys' = y' # ys''" by (cases ys') auto
  have eq: "x @ CHR ''/'' # join_path (x' # xs) = y @ CHR ''/'' # join_path ys'" using "3.prems"(4) ys y' by simp
  have tw: "takeWhile (\<lambda>c. c \<noteq> CHR ''/'') (z @ CHR ''/'' # zs) = z" if "CHR ''/'' \<notin> set z" for z zs
    using that by (induction z) auto
  have "x = y" using arg_cong [OF eq, of "takeWhile (\<lambda>c. c \<noteq> CHR ''/'')"] tw "3.prems"(3) ys by auto
  then have "join_path (x' # xs) = join_path ys'" using eq by simp
  then have "x' # xs = ys'" using "3.IH" [OF _ ne] "3.prems"(3) ys by auto
  then show ?case using \<open>x = y\<close> ys by simp
qed simp

lemma tree_names: "tree_ok e \<Longrightarrow> file_at e p \<Longrightarrow> \<forall>n \<in> set p. CHR ''/'' \<notin> set n \<and> CHR 0x5C \<notin> set n"
  by (induction e p rule: file_at.induct) (fastforce simp: list_all_iff list_ex_iff)+

lemma bucket_key_eq:
  assumes "\<forall>n \<in> set p. CHR 0x5C \<notin> set n" and "p = d @ [st @ ''.db'']"
  shows "bucket_key p = join_path (d @ [st])"
proof -
  have "c \<noteq> CHR 0x5C" if "c \<in> set (join_path xs)" "\<forall>n \<in> set xs. CHR 0x5C \<notin> set n" for c xs
    using that by (induction xs rule: join_path.induct) auto
  then have "map (\<lambda>c. if c = CHR 0x5C then CHR ''/'' else c) (join_path (d @ [st])) = join_path (d @ [st])"
    using assms by (intro map_idI) auto
  then show ?thesis using assms(2) by (simp add: bucket_key_def)
qed

lemma bucket_path_inj:
  assumes "tree_ok e" "p \<in> set (walk_dir [] e)" "q \<in> set (walk_dir [] e)" "bucket_path prefix p = bucket_path prefix q"
  shows "p = q"
proof -
  have form: "\<exists>d st. p = d @ [st @ ''.db''] \<and> bucket_key p = join_path (d @ [st]) \<and> (\<forall>x \<in> set (d @ [st]). CHR ''/'' \<notin> set x)"
    if "p \<in> set (walk_dir [] e)" for p
  proof -
    from that have f: "p \<noteq> []" "file_at e p" "extension (last p) = Some ''db''" by (auto simp: walk_files)
    from extension_db [OF f(3)] obtain st where st: "last p = st @ ''.db''" by blast
    have p: "p = butlast p @ [st @ ''.db'']" using f(1) st by (metis append_butlast_last_id)
    have n: "\<forall>n \<in> set p. CHR ''/'' \<notin> set n \<and> CHR 0x5C \<notin> set n" by (rule tree_names [OF assms(1) f(2)])
    then have "bucket_key p = join_path (butlast p @ [st])" using bucket_key_eq [OF _ p] by blast
    moreover have "\<forall>x \<in> set (butlast p @ [st]). CHR ''/'' \<notin> set x" using n p by (metis (no_types, lifting) UnE Un_iff append_is_Nil_conv empty_iff empty_set in_set_butlastD last_in_set set_ConsD set_append st f(1))
    ultimately show ?thesis using p by blast
  qed
  from form [OF assms(2)] form [OF assms(3)] obtain d st d' st' where
    "p = d @ [st @ ''.db'']" "bucket_key p = join_path (d @ [st])" "\<forall>x \<in> set (d @ [st]). CHR ''/'' \<notin> set x"
    "q = d' @ [st' @ ''.db'']" "bucket_key q = join_path (d' @ [st'])" "\<forall>x \<in> set (d' @ [st']). CHR ''/'' \<notin> set x" by blast
  moreover have "bucket_key p = bucket_key q" using assms(4) by (auto simp: bucket_path_def split: option.splits if_splits)
  ultimately have "d @ [st] = d' @ [st']" by (intro join_inj) auto
  then show ?thesis using \<open>p = d @ [st @ ''.db'']\<close> \<open>q = d' @ [st' @ ''.db'']\<close> by simp
qed

text \<open>Every database is replicated, and to a place of its own: the configuration lists exactly the files below the
  data directory with the extension \<open>db\<close>, and no two of them share a path in the bucket.\<close>

theorem replicas_are_separate:
  assumes "tree_ok tree"
  shows "distinct (map dr_bucket_path (discover_dbs tree prefix))
    \<and> dr_path ` set (discover_dbs tree prefix) = {p. p \<noteq> [] \<and> file_at tree p \<and> extension (last p) = Some ''db''}"
proof
  let ?r = "\<lambda>p. \<lparr>dr_path = p, dr_bucket_path = bucket_path prefix p\<rparr>"
  have "distinct (map (bucket_path prefix) (walk_dir [] tree))"
    using walk_distinct [OF assms] bucket_path_inj [OF assms] by (auto simp: distinct_map inj_on_def)
  then have "distinct (map dr_bucket_path (map ?r (walk_dir [] tree)))" by (simp only: map_map comp_def db_replica.select_convs)
  then have "distinct (map ?r (walk_dir [] tree))" "inj_on dr_bucket_path (set (map ?r (walk_dir [] tree)))" unfolding distinct_map [of dr_bucket_path] by simp_all
  then show "distinct (map dr_bucket_path (discover_dbs tree prefix))"
    unfolding distinct_map [of dr_bucket_path] discover_dbs_def set_sort distinct_sort by blast
  show "dr_path ` set (discover_dbs tree prefix) = {p. p \<noteq> [] \<and> file_at tree p \<and> extension (last p) = Some ''db''}"
    by (auto simp: discover_dbs_def image_image walk_files)
qed

theorem replicas_are_separate_witness:
  "let tree = Dir [(''system.db'', File), (''workspaces'', Dir [(''acme'', Dir [(''workspace.db'', File), (''workspace.db-wal'', File)])])]
   in distinct (map dr_bucket_path (discover_dbs tree (Some ''prod/''))) \<and> map dr_bucket_path (discover_dbs tree (Some ''prod/'')) =
        [''prod/system'', ''prod/workspaces/acme/workspace'']"
proof -
  let ?t = "Dir [(''system.db'', File), (''workspaces'', Dir [(''acme'', Dir [(''workspace.db'', File), (''workspace.db-wal'', File)])])]"
  have "tree_ok ?t" by simp
  moreover have "map dr_bucket_path (discover_dbs ?t (Some ''prod/'')) = [''prod/system'', ''prod/workspaces/acme/workspace'']" by code_simp
  ultimately show ?thesis using replicas_are_separate [of ?t "Some ''prod/''"] by (simp add: Let_def)
qed

end
