(* ===== verification/OAuth_Api.thy ===== *)
theory OAuth_Api
  imports Files_Api
begin

text \<open>
  OAuth sign-in and the administration of providers: \<^verbatim>\<open>oauth.rs\<close> and \<^verbatim>\<open>oauth_admin.rs\<close> of
  \<^verbatim>\<open>rustbase-api/src/auth\<close>. The URL, base64 and JSON-pointer libraries and the HTTP client are the record
  \<open>oauth_lib\<close>; the cipher is the one of \<open>env\<close>.
\<close>

section \<open>What the handlers take from outside\<close>

text \<open>One HTTP exchange: the send fails, or the answer has a status, the rendering of its status line,
  a body as text and what decoding the body as JSON gives.\<close>

datatype http_answer =
    SendFailed string
  | Answered nat string string "string + json"

text \<open>The URL, base64, JSON-pointer and HTTP libraries and the random bytes of a request.
  \<open>url_with_query\<close> parses a URL and appends query pairs; \<open>http_post_form\<close> and \<open>http_get_bearer\<close> take
  the URL and what is sent there.\<close>

record oauth_lib =
  url_with_query :: "string \<Rightarrow> (string \<times> string) list \<Rightarrow> string + string"
  base64url :: "char list \<Rightarrow> string"
  json_pointer :: "json \<Rightarrow> string \<Rightarrow> json option"
  http_post_form :: "string \<Rightarrow> (string \<times> string) list \<Rightarrow> http_answer"
  http_get_bearer :: "string \<Rightarrow> string \<Rightarrow> http_answer"
  random32 :: "char list"

definition is_success :: "nat \<Rightarrow> bool" where
  "is_success status = (200 \<le> status \<and> status < 300)"

section \<open>Sign-in\<close>

definition STATE_TTL_MINUTES :: int where
  "STATE_TTL_MINUTES = 5"

definition fresh_code_verifier :: "oauth_lib \<Rightarrow> string" where
  "fresh_code_verifier ol = base64url ol (random32 ol)"

definition derive_s256_challenge :: "oauth_lib \<Rightarrow> env \<Rightarrow> string \<Rightarrow> string" where
  "derive_s256_challenge ol env verifier = base64url ol (sha256 env (as_bytes verifier))"

definition verifier_for_storage :: "env \<Rightarrow> string \<Rightarrow> core_error + stored_secret" where
  "verifier_for_storage env verifier =
     (case kek env of
        Some k \<Rightarrow> (case encrypt env (as_bytes verifier) k of
                     Inl e \<Rightarrow> Inl (Internal (''encrypt code_verifier: '' @ e)) | Inr ct \<Rightarrow> Inr (Encrypted ct))
      | None \<Rightarrow> Inr (Clear verifier))"

definition verifier_from_storage :: "env \<Rightarrow> stored_secret \<Rightarrow> core_error + string" where
  "verifier_from_storage env stored =
     (case stored of
        Clear s \<Rightarrow> Inr s
      | Encrypted ct \<Rightarrow>
          (case kek env of
             None \<Rightarrow> Inl (Unavailable ''this OAuth flow's PKCE verifier is encrypted but RUSTBASE_KEK is not set; restore the key that started it'')
           | Some k \<Rightarrow>
               (case decrypt env ct k of
                  Inl e \<Rightarrow> Inl (Internal (''decrypt code_verifier: '' @ e))
                | Inr plain \<Rightarrow>
                    (case from_utf8 env plain of
                       Inl e \<Rightarrow> Inl (Internal (''code_verifier not utf-8: '' @ e))
                     | Inr s \<Rightarrow> Inr s))))"

fun join_spaces :: "string list \<Rightarrow> string" where
  "join_spaces [] = []"
| "join_spaces [x] = x"
| "join_spaces (x # y # xs) = x @ '' '' @ join_spaces (y # xs)"

definition authorize_pairs :: "oauth_provider \<Rightarrow> string \<Rightarrow> string \<Rightarrow> string \<Rightarrow> (string \<times> string) list" where
  "authorize_pairs cfg redirect_uri state code_challenge =
     [(''client_id'', op_client_id cfg), (''redirect_uri'', redirect_uri), (''response_type'', ''code''),
      (''scope'', join_spaces (oc_scopes (op_config cfg))), (''state'', state),
      (''code_challenge'', code_challenge), (''code_challenge_method'', ''S256'')]"

definition build_authorize_url ::
  "oauth_lib \<Rightarrow> oauth_provider \<Rightarrow> string \<Rightarrow> string \<Rightarrow> string \<Rightarrow> core_error + string" where
  "build_authorize_url ol cfg redirect_uri state code_challenge =
     (case url_with_query ol (oc_auth_url (op_config cfg)) (authorize_pairs cfg redirect_uri state code_challenge) of
        Inl e \<Rightarrow> Inl (Internal (''provider '' @ op_provider cfg @ '' has invalid auth_url: '' @ e))
      | Inr url \<Rightarrow> Inr url)"

definition require_provider :: "env \<Rightarrow> string \<Rightarrow> string \<Rightarrow> oauth_provider handler" where
  "require_provider env w provider =
     on_workspace env w ''oauth_providers'' (\<lambda>db.
       case find_provider (ws_providers db) provider of
         Inl e \<Rightarrow> db_stmt env (Inl e, db)
       | Inr None \<Rightarrow> (Inl (NotFound ''oauth_provider'' provider), db)
       | Inr (Some p) \<Rightarrow> (Inr p, db))"

definition oauth_authorize :: "oauth_lib \<Rightarrow> env \<Rightarrow> string \<Rightarrow> string \<Rightarrow> string \<Rightarrow> (string \<times> string) handler" where
  "oauth_authorize ol env w provider redirect_uri =
     hbind (require_workspace_exists w) (\<lambda>_.
     hbind (require_provider env w provider) (\<lambda>cfg.
     let nonce = fresh_secret env; verifier = fresh_code_verifier ol; challenge = derive_s256_challenge ol env verifier in
     hbind (lift (verifier_for_storage env verifier)) (\<lambda>stored.
     hbind (on_workspace env w ''_oauth_states'' (\<lambda>db.
       case db_stmt env (oauth_state_issue (sha256 env) (clock env) (ws_states db) nonce provider redirect_uri stored
              (minutes STATE_TTL_MINUTES)) of
         (r, t) \<Rightarrow> (r, db\<lparr>ws_states := t\<rparr>))) (\<lambda>_.
     hbind (lift (build_authorize_url ol cfg redirect_uri nonce challenge)) (\<lambda>url.
     hret (url, nonce))))))"

definition token_form :: "oauth_provider \<Rightarrow> string \<Rightarrow> string \<Rightarrow> string \<Rightarrow> string option \<Rightarrow> (string \<times> string) list" where
  "token_form cfg client_secret code redirect_uri code_verifier =
     [(''grant_type'', ''authorization_code''), (''code'', code), (''redirect_uri'', redirect_uri),
      (''client_id'', op_client_id cfg), (''client_secret'', client_secret)]
     @ (case code_verifier of None \<Rightarrow> [] | Some v \<Rightarrow> [(''code_verifier'', v)])"

text \<open>Both requests decode their answer the same way; \<open>what\<close> names the request in messages.\<close>

definition json_answer :: "string \<Rightarrow> string \<Rightarrow> http_answer \<Rightarrow> core_error + json" where
  "json_answer what verb answer =
     (case answer of
        SendFailed e \<Rightarrow> Inl (Internal (what @ '' '' @ verb @ '': '' @ e))
      | Answered status shown body decoded \<Rightarrow>
          if \<not> is_success status then Inl (Internal (what @ '' endpoint returned '' @ shown @ '': '' @ body))
          else case decoded of Inl e \<Rightarrow> Inl (Internal (what @ '' json: '' @ e)) | Inr j \<Rightarrow> Inr j)"

definition exchange_code ::
  "oauth_lib \<Rightarrow> oauth_provider \<Rightarrow> string \<Rightarrow> string \<Rightarrow> string \<Rightarrow> string option \<Rightarrow> core_error + string" where
  "exchange_code ol cfg client_secret code redirect_uri code_verifier =
     (case json_answer ''token'' ''POST''
             (http_post_form ol (oc_token_url (op_config cfg)) (token_form cfg client_secret code redirect_uri code_verifier)) of
        Inl e \<Rightarrow> Inl e
      | Inr body \<Rightarrow>
          (case body of
             JObject kvs \<Rightarrow> (case map_of kvs ''access_token'' of
                              Some (JString t) \<Rightarrow> Inr t | _ \<Rightarrow> Inl (Internal ''token response missing access_token''))
           | _ \<Rightarrow> Inl (Internal ''token response missing access_token'')))"

definition fetch_userinfo :: "oauth_lib \<Rightarrow> oauth_provider \<Rightarrow> string \<Rightarrow> core_error + json" where
  "fetch_userinfo ol cfg access_token =
     json_answer ''userinfo'' ''GET'' (http_get_bearer ol (oc_userinfo_url (op_config cfg)) access_token)"

definition pluck_string :: "oauth_lib \<Rightarrow> json \<Rightarrow> string \<Rightarrow> string option" where
  "pluck_string ol v pointer = (case json_pointer ol v pointer of Some (JString s) \<Rightarrow> Some s | _ \<Rightarrow> None)"

text \<open>The three ways to a local account: the linked user, a user with the same email, who is linked, or a
  fresh user without a password. The statements run one by one, outside a transaction.\<close>

definition link_user :: "env \<Rightarrow> string \<Rightarrow> string \<Rightarrow> string \<Rightarrow> workspace_db \<Rightarrow> (core_error + unit) \<times> workspace_db" where
  "link_user env user provider provider_user db =
     (case db_stmt env (upsert_link (map u_id (ws_users db)) (ws_links db) user provider provider_user) of
        (r, t) \<Rightarrow> (r, db\<lparr>ws_links := t\<rparr>))"

definition verify_email_of :: "user \<Rightarrow> workspace_db \<Rightarrow> workspace_db" where
  "verify_email_of u db = (if u_verified u then db else db\<lparr>ws_users := mark_verified (ws_users db) (u_id u)\<rparr>)"

definition resolve_user ::
  "env \<Rightarrow> string \<Rightarrow> string \<Rightarrow> string \<Rightarrow> workspace_db \<Rightarrow> (core_error + user \<times> bool) \<times> workspace_db" where
  "resolve_user env provider provider_user email db =
     (case find_by_provider_user (ws_links db) provider provider_user of
        Some link \<Rightarrow>
          (case find_user_by_id (ws_users db) (ol_user_id link) of
             None \<Rightarrow> (Inl (Internal ''linked user disappeared''), db)
           | Some u \<Rightarrow> (Inr (u, False), verify_email_of u db))
      | None \<Rightarrow>
          (case find_user_by_email (ws_users db) email of
             Some u \<Rightarrow>
               (case link_user env (u_id u) provider provider_user db of
                  (Inl e, db') \<Rightarrow> (Inl e, db')
                | (Inr _, db') \<Rightarrow> (Inr (u, False), verify_email_of u db'))
           | None \<Rightarrow>
               (case db_stmt env (insert_passwordless_user (fresh_uuid env) (clock env) (ws_users db) email) of
                  (Inl e, t) \<Rightarrow> (Inl e, db)
                | (Inr u, t) \<Rightarrow>
                    (case link_user env (u_id u) provider provider_user (db\<lparr>ws_users := mark_verified t (u_id u)\<rparr>) of
                       (Inl e, db') \<Rightarrow> (Inl e, db')
                     | (Inr _, db') \<Rightarrow> (Inr (u, True), db')))))"

record callback_response =
  cb_access_token :: string
  cb_refresh_token :: string
  cb_user_id :: string
  cb_user_email :: string

definition consume_state :: "env \<Rightarrow> string \<Rightarrow> string \<Rightarrow> string \<Rightarrow> (string \<times> stored_secret) handler" where
  "consume_state env w provider state =
     hbind (on_workspace env w ''_oauth_states'' (\<lambda>db.
       case db_stmt env (oauth_state_consume (sha256 env) (clock env) (ws_states db) state provider) of
         (r, t) \<Rightarrow> (r, db\<lparr>ws_states := t\<rparr>))) (\<lambda>out.
     case out of
       OAuthOk redirect_uri code_verifier \<Rightarrow> hret (redirect_uri, code_verifier)
     | OAuthUnknown \<Rightarrow> hfail Unauthorized
     | ProviderMismatch \<Rightarrow> hfail Unauthorized
     | OAuthAlreadyConsumed \<Rightarrow> hfail (Conflict ''oauth state already used'')
     | OAuthExpired \<Rightarrow> hfail (Conflict ''oauth state expired - restart sign-in''))"

definition client_secret_of :: "env \<Rightarrow> oauth_provider \<Rightarrow> core_error + string" where
  "client_secret_of env cfg =
     (case kek env of
        None \<Rightarrow> Inl (Unavailable ''no key-encryption key: set RUSTBASE_KEK to the value this provider's secret was encrypted with'')
      | Some k \<Rightarrow>
          (case decrypt env (op_secret_enc cfg) k of
             Inl e \<Rightarrow> Inl (Internal (''decrypt client_secret: '' @ e))
           | Inr plain \<Rightarrow>
               (case from_utf8 env plain of
                  Inl e \<Rightarrow> Inl (Internal (''client_secret utf8: '' @ e)) | Inr s \<Rightarrow> Inr s)))"

definition userinfo_field :: "oauth_lib \<Rightarrow> string \<Rightarrow> json \<Rightarrow> string \<Rightarrow> core_error + string" where
  "userinfo_field ol provider userinfo pointer =
     (case pluck_string ol userinfo pointer of
        None \<Rightarrow> Inl (Validation (''userinfo missing '' @ pointer @ '' (provider '' @ provider @ '')''))
      | Some x \<Rightarrow> Inr x)"

definition sign_in :: "env \<Rightarrow> string \<Rightarrow> user \<Rightarrow> bool \<Rightarrow> callback_response handler" where
  "sign_in env w user just_signed_up =
     hbind (on_workspace env w ''apps'' (\<lambda>db. (Inr (list_apps (ws_apps db)), db))) (\<lambda>as.
     hbind (fire_otp_hooks env w (user_public user True) just_signed_up as) (\<lambda>_.
     hbind (finish_user_login env w (u_id user)) (\<lambda>access.
     hbind (fire_after_login env w (user_public user True) as) (\<lambda>_.
     hret \<lparr>cb_access_token = access, cb_refresh_token = fresh_refresh env, cb_user_id = u_id user, cb_user_email = u_email user\<rparr>))))"

definition identify :: "oauth_lib \<Rightarrow> env \<Rightarrow> oauth_provider \<Rightarrow> string \<Rightarrow> string \<Rightarrow> string \<Rightarrow> stored_secret \<Rightarrow> core_error + string \<times> string" where
  "identify ol env cfg provider code redirect_uri code_verifier =
     rbind (client_secret_of env cfg) (\<lambda>client_secret.
     rbind (verifier_from_storage env code_verifier) (\<lambda>verifier.
     rbind (exchange_code ol cfg client_secret code redirect_uri (Some verifier)) (\<lambda>token.
     rbind (fetch_userinfo ol cfg token) (\<lambda>userinfo.
     rbind (userinfo_field ol provider userinfo (oc_userinfo_id_field (op_config cfg))) (\<lambda>provider_user.
     rbind (userinfo_field ol provider userinfo (oc_userinfo_email_field (op_config cfg))) (\<lambda>email.
     Inr (provider_user, email)))))))"

definition oauth_callback :: "oauth_lib \<Rightarrow> env \<Rightarrow> string \<Rightarrow> string \<Rightarrow> string \<Rightarrow> string \<Rightarrow> callback_response handler" where
  "oauth_callback ol env w provider code state =
     hbind (require_workspace_exists w) (\<lambda>_.
     hbind (consume_state env w provider state) (\<lambda>(redirect_uri, code_verifier).
     hbind (require_provider env w provider) (\<lambda>cfg.
     hbind (lift (identify ol env cfg provider code redirect_uri code_verifier)) (\<lambda>(provider_user, email).
     hbind (on_workspace env w ''user_oauth_links'' (resolve_user env provider provider_user email)) (\<lambda>(user, just_signed_up).
     sign_in env w user just_signed_up)))))"

section \<open>Provider administration\<close>

record provider_response =
  pv_provider :: string
  pv_client_id :: string
  pv_config :: oauth_provider_config

definition response_of_summary :: "oauth_provider_summary \<Rightarrow> provider_response" where
  "response_of_summary s = \<lparr>pv_provider = os_provider s, pv_client_id = os_client_id s, pv_config = os_config s\<rparr>"

definition providers_list :: "env \<Rightarrow> claims \<Rightarrow> string \<Rightarrow> provider_response list handler" where
  "providers_list env c w =
     hbind (lift (require_workspace_access c w)) (\<lambda>_.
     hbind (require_workspace_exists w) (\<lambda>_.
     hbind (on_workspace env w ''oauth_providers'' (\<lambda>db. db_stmt env (list_providers (ws_providers db), db))) (\<lambda>rows.
     hret (map response_of_summary rows))))"

definition providers_get :: "env \<Rightarrow> claims \<Rightarrow> string \<Rightarrow> string \<Rightarrow> provider_response handler" where
  "providers_get env c w provider =
     hbind (lift (require_workspace_access c w)) (\<lambda>_.
     hbind (require_workspace_exists w) (\<lambda>_.
     hbind (require_provider env w provider) (\<lambda>row.
     hret \<lparr>pv_provider = op_provider row, pv_client_id = op_client_id row, pv_config = op_config row\<rparr>)))"

definition encrypt_client_secret :: "env \<Rightarrow> string \<Rightarrow> core_error + char list" where
  "encrypt_client_secret env plain =
     (case kek env of
        None \<Rightarrow> Inl (Unavailable ''no key-encryption key: set RUSTBASE_KEK (32 hex bytes, e.g. `openssl rand -hex 32`) before storing an OAuth client secret'')
      | Some k \<Rightarrow>
          (case encrypt env (as_bytes plain) k of
             Inl e \<Rightarrow> Inl (Internal (''encrypt client_secret: '' @ e)) | Inr ct \<Rightarrow> Inr ct))"

definition secret_to_store :: "env \<Rightarrow> string \<Rightarrow> string \<Rightarrow> string option \<Rightarrow> char list handler" where
  "secret_to_store env w provider client_secret =
     (case non_empty client_secret of
        Some plain \<Rightarrow> lift (encrypt_client_secret env plain)
      | None \<Rightarrow>
          on_workspace env w ''oauth_providers'' (\<lambda>db.
            case find_provider (ws_providers db) provider of
              Inl e \<Rightarrow> db_stmt env (Inl e, db)
            | Inr None \<Rightarrow> (Inl (Validation ''client_secret is required when creating a provider''), db)
            | Inr (Some existing) \<Rightarrow> (Inr (op_secret_enc existing), db)))"

definition providers_put ::
  "env \<Rightarrow> claims \<Rightarrow> string \<Rightarrow> string \<Rightarrow> string \<Rightarrow> string option \<Rightarrow> oauth_provider_config \<Rightarrow> provider_response handler" where
  "providers_put env c w provider client_id client_secret config =
     hbind (lift (require_workspace_access c w)) (\<lambda>_.
     hbind (require_workspace_exists w) (\<lambda>_.
     hbind (secret_to_store env w provider client_secret) (\<lambda>secret_enc.
     hbind (on_workspace env w ''oauth_providers'' (\<lambda>db. (Inr (), db\<lparr>ws_providers := upsert_provider (ws_providers db)
        \<lparr>op_provider = provider, op_client_id = client_id, op_secret_enc = secret_enc, op_config = config\<rparr>\<rparr>))) (\<lambda>_.
     hret \<lparr>pv_provider = provider, pv_client_id = client_id, pv_config = config\<rparr>))))"

definition providers_delete :: "env \<Rightarrow> claims \<Rightarrow> string \<Rightarrow> string \<Rightarrow> unit handler" where
  "providers_delete env c w provider =
     hbind (lift (require_workspace_access c w)) (\<lambda>_.
     hbind (require_workspace_exists w) (\<lambda>_.
     on_workspace env w ''oauth_providers'' (\<lambda>db.
       case delete_provider (ws_providers db) provider of
         (n, t) \<Rightarrow> (if n = 0 then Inl (NotFound ''oauth_provider'' provider) else Inr (), db\<lparr>ws_providers := t\<rparr>))))"

section \<open>The flow\<close>

text \<open>The row a state nonce names.\<close>

definition flow_row :: "env \<Rightarrow> string \<Rightarrow> string \<Rightarrow> server \<Rightarrow> oauth_state option" where
  "flow_row env w state s =
     Option.bind (sv_workspaces s w) (\<lambda>db. oauth_state_find (ws_states db) (hash_token (sha256 env) state))"

text \<open>What the cipher promises: decryption under the same key gives back what was encrypted, and the bytes
  of a string read as that string.\<close>

definition cipher_ok :: "env \<Rightarrow> env \<Rightarrow> bool" where
  "cipher_ok env env' \<longleftrightarrow> kek env' = kek env
     \<and> (\<forall>x k ct. encrypt env x k = Inr ct \<longrightarrow> decrypt env' ct k = Inr x) \<and> (\<forall>x. from_utf8 env' (as_bytes x) = Inr x)"

lemma verifier_reads_back:
  "cipher_ok env env' \<Longrightarrow> verifier_for_storage env v = Inr stored \<Longrightarrow> verifier_from_storage env' stored = Inr v"
  by (auto simp: cipher_ok_def verifier_for_storage_def verifier_from_storage_def split: option.splits sum.splits)

lemma require_provider_Inr [handler]:
  "require_provider env w p s = (Inr cfg, s') \<longleftrightarrow>
     s' = s \<and> (\<exists>db. sv_workspaces s w = Some db \<and> find_provider (ws_providers db) p = Inr (Some cfg))"
  by (auto simp: require_provider_def on_workspace_def db_stmt_def fun_upd_idem split: option.splits sum.splits)

lemma oauth_issue_Inr:
  assumes "oauth_state_issue H now t state provider uri stored ttl = (Inr r, t')"
  shows "oauth_state_find t' (hash_token H state) = Some r \<and> st_provider r = provider \<and> st_redirect_uri r = uri
    \<and> secret_from_columns (st_code_verifier r) (st_code_verifier_enc r) = Some stored"
proof -
  have "List.find (\<lambda>r. st_state_hash r = h) t = None" if "h \<notin> st_state_hash ` set t" for h
    using that by (auto simp: find_None_iff)
  then show ?thesis using assms from_columns_secret [of stored]
    by (auto simp: oauth_state_issue_def oauth_state_find_def find_append Let_def split: prod.splits if_splits)
qed

lemma build_authorize_url_Inr:
  "build_authorize_url ol cfg uri state ch = Inr url \<longleftrightarrow>
     url_with_query ol (oc_auth_url (op_config cfg)) (authorize_pairs cfg uri state ch) = Inr url"
  by (simp add: build_authorize_url_def split: sum.splits)

lemma oauth_authorize_Inr:
  assumes "oauth_authorize ol env w p uri s = (Inr (url, nonce), s1)"
  shows "\<exists>db cfg r stored. sv_workspaces s w = Some db \<and> find_provider (ws_providers db) p = Inr (Some cfg)
    \<and> nonce = fresh_secret env \<and> flow_row env w nonce s1 = Some r \<and> st_provider r = p \<and> st_redirect_uri r = uri
    \<and> verifier_for_storage env (fresh_code_verifier ol) = Inr stored
    \<and> secret_from_columns (st_code_verifier r) (st_code_verifier_enc r) = Some stored
    \<and> url_with_query ol (oc_auth_url (op_config cfg))
        (authorize_pairs cfg uri nonce (derive_s256_challenge ol env (fresh_code_verifier ol))) = Inr url"
  using assms
  by (auto simp: oauth_authorize_def Let_def handler flow_row_def build_authorize_url_Inr dest!: oauth_issue_Inr)

lemma oauth_consume_Ok:
  assumes "oauth_state_consume H now t state p = (Inr (OAuthOk uri stored), t')"
  shows "\<exists>r. oauth_state_find t (hash_token H state) = Some r \<and> st_provider r = p \<and> st_redirect_uri r = uri
    \<and> now < st_expires_at r \<and> st_consumed_at r = None
    \<and> secret_from_columns (st_code_verifier r) (st_code_verifier_enc r) = Some stored
    \<and> t' = snd (oauth_state_claim t (hash_token H state) now)"
  using assms by (auto simp: oauth_state_consume_def split: option.splits if_splits prod.splits)

lemma consume_state_Inr:
  "consume_state env w p state s = (Inr (uri, stored), s1) \<longleftrightarrow>
     (\<exists>db t. sv_workspaces s w = Some db
        \<and> oauth_state_consume (sha256 env) (clock env) (ws_states db) state p = (Inr (OAuthOk uri stored), t)
        \<and> s1 = s\<lparr>sv_workspaces := (sv_workspaces s)(w \<mapsto> db\<lparr>ws_states := t\<rparr>)\<rparr>)"
proof -
  have "(case out of OAuthOk u v \<Rightarrow> hret (u, v) | OAuthUnknown \<Rightarrow> hfail Unauthorized
           | OAuthAlreadyConsumed \<Rightarrow> hfail (Conflict ''oauth state already used'')
           | OAuthExpired \<Rightarrow> hfail (Conflict ''oauth state expired - restart sign-in'')
           | ProviderMismatch \<Rightarrow> hfail Unauthorized) x = (Inr (uri, stored), s1)
         \<longleftrightarrow> out = OAuthOk uri stored \<and> s1 = x" for out x
    by (cases out) (auto simp: hret_def hfail_def)
  then show ?thesis by (auto simp: consume_state_def handler)
qed

lemma consumed_row:
  assumes "consume_state env w p state s = (Inr (uri, stored), s1)"
  shows "\<exists>r. flow_row env w state s = Some r \<and> st_provider r = p \<and> st_redirect_uri r = uri
    \<and> secret_from_columns (st_code_verifier r) (st_code_verifier_enc r) = Some stored"
  using assms by (auto simp: consume_state_Inr flow_row_def dest: oauth_consume_Ok)

lemma userinfo_field_Inr: "userinfo_field ol p info ptr = Inr x \<longleftrightarrow> pluck_string ol info ptr = Some x"
  by (simp add: userinfo_field_def split: option.splits)

lemma identify_Inr:
  "identify ol env cfg p code uri stored = Inr (puid, email) \<longleftrightarrow>
     (\<exists>secret v token info. client_secret_of env cfg = Inr secret \<and> verifier_from_storage env stored = Inr v
        \<and> exchange_code ol cfg secret code uri (Some v) = Inr token \<and> fetch_userinfo ol cfg token = Inr info
        \<and> pluck_string ol info (oc_userinfo_id_field (op_config cfg)) = Some puid
        \<and> pluck_string ol info (oc_userinfo_email_field (op_config cfg)) = Some email)"
  by (auto simp: identify_def rbind_eq_Inr userinfo_field_Inr)

lemma oauth_callback_Inr:
  assumes "oauth_callback ol env w p code state s = (Inr r, s')"
  shows "\<exists>uri stored s1 db cfg puid email u new s2. consume_state env w p state s = (Inr (uri, stored), s1)
    \<and> sv_workspaces s1 w = Some db \<and> find_provider (ws_providers db) p = Inr (Some cfg)
    \<and> identify ol env cfg p code uri stored = Inr (puid, email)
    \<and> on_workspace env w ''user_oauth_links'' (resolve_user env p puid email) s1 = (Inr (u, new), s2)
    \<and> sign_in env w u new s2 = (Inr r, s')"
  using assms by (auto simp: oauth_callback_def handler split: prod.splits)


section \<open>A state is used once\<close>

text \<open>\<open>preserves v m\<close>: no run of \<open>m\<close>, failed or not, changes the part \<open>v\<close> of the server.\<close>

definition preserves :: "(server \<Rightarrow> 'x) \<Rightarrow> 'a handler \<Rightarrow> bool" where
  "preserves v m \<longleftrightarrow> (\<forall>s. v (snd (m s)) = v s)"

lemma preserves_hbind: "preserves v m \<Longrightarrow> (\<And>x. preserves v (f x)) \<Longrightarrow> preserves v (hbind m f)"
  unfolding preserves_def hbind_def by (simp add: split_beta split: sum.splits)

lemma preserves_pure:
  "preserves v (hret x)" "preserves v (hfail e)" "preserves v (lift r)" "preserves v (lift_auth q)"
  by (auto simp: preserves_def hret_def hfail_def lift_def lift_auth_def split: sum.splits)

definition flows :: "string \<Rightarrow> server \<Rightarrow> workspaces \<times> oauth_states option" where
  "flows w s = (sys_workspaces (sv_system s), map_option ws_states (sv_workspaces s w))"

lemma flows_on_workspace:
  "(\<And>db. ws_states (snd (f db)) = ws_states db) \<Longrightarrow> preserves (flows w) (on_workspace env w t f)"
  by (auto simp: preserves_def flows_def on_workspace_def split: option.splits prod.splits) (metis snd_conv)

lemma flows_hooks:
  "preserves (flows w') (before_login_hook env w public a)"
  "preserves (flows w') (observe (dispatch_user_after_login env w a' req u))"
  "preserves (flows w') (observe (dispatch_user_after_register env w a' req u))"
proof -
  have "flows w' s' = flows w' s" if "hook_effect w x s s'" for x s s'
    using hook_effect_system [OF that] hook_effect_workspaces [OF that] by (simp add: flows_def)
  note flow = this [OF engine_effects(5)] this [OF engine_effects(6)] this [OF engine_effects(7)]
  then show "preserves (flows w') (before_login_hook env w public a)"
    by (auto simp: preserves_def before_login_hook_def split: prod.splits sum.splits runtime_error.splits) (metis snd_conv)+
  show "preserves (flows w') (observe (dispatch_user_after_login env w a' req u))"
    "preserves (flows w') (observe (dispatch_user_after_register env w a' req u))"
    using flow by (auto simp: preserves_def observe_def)
qed

lemma flows_fire:
  "preserves (flows w') (fire_after_login env w public as)"
  "preserves (flows w') (fire_after_register env w public as)"
  by (induction as) (auto intro!: preserves_pure preserves_hbind flows_hooks)

lemma flows_fire_otp_hooks: "preserves (flows w') (fire_otp_hooks env w public new as)"
  by (induction as) (auto intro!: preserves_pure preserves_hbind flows_hooks flows_fire simp del: fire_after_register.simps)

lemma flows_sign_in: "preserves (flows w) (sign_in env w user new)"
  unfolding sign_in_def finish_user_login_def issue_access_def
  by (intro preserves_hbind preserves_pure flows_fire flows_fire_otp_hooks flows_on_workspace)
    (auto simp: db_stmt_def commit_user_login_def split: prod.splits sum.splits)

lemma resolve_user_states: "ws_states (snd (resolve_user env p puid email db)) = ws_states db"
  by (auto simp: resolve_user_def link_user_def verify_email_of_def split: option.splits prod.splits sum.splits)

lemma reading_require: "reading (require_workspace_exists w)" "reading (require_provider env w p)"
  by (auto simp: reading_def require_workspace_exists_def require_provider_def on_workspace_def db_stmt_def fun_upd_idem
      split: option.splits sum.splits)

lemma preserves_reading: "reading m \<Longrightarrow> preserves v m"
  by (simp add: reading_def preserves_def)

lemma oauth_callback_flows:
  assumes "consume_state env w p state s = (Inr x, s1)" and "find_workspace (sys_workspaces (sv_system s)) w \<noteq> None"
  shows "flows w (snd (oauth_callback ol env w p code state s)) = flows w s1"
proof -
  let ?rest = "\<lambda>(uri, stored). hbind (require_provider env w p) (\<lambda>cfg.
     hbind (lift (identify ol env cfg p code uri stored)) (\<lambda>(provider_user, email).
     hbind (on_workspace env w ''user_oauth_links'' (resolve_user env p provider_user email)) (\<lambda>(user, new).
     sign_in env w user new)))"
  have "preserves (flows w) (?rest x)"
    by (auto intro!: preserves_hbind preserves_pure flows_on_workspace resolve_user_states flows_sign_in
        preserves_reading [OF reading_require(2)] split: prod.splits)
  moreover have "oauth_callback ol env w p code state s = ?rest x s1"
    using assms by (auto simp: oauth_callback_def hbind_def require_workspace_exists_def split: option.splits)
  ultimately show ?thesis by (simp add: preserves_def)
qed

lemma claimed_row:
  "oauth_state_find t h = Some r \<Longrightarrow> st_consumed_at r = None \<Longrightarrow>
   oauth_state_find (snd (oauth_state_claim t h now)) h = Some (r\<lparr>st_consumed_at := Some now\<rparr>)"
  by (induction t) (auto simp: oauth_state_find_def oauth_state_claim_def Let_def split: if_splits)

text \<open>A state nonce serves one callback. Once a callback has consumed its state, the state is spent, even when
  the callback then fails at the provider, the account or a hook: every later callback with it, with any code
  and at any time, is refused and changes nothing.\<close>

theorem oauth_state_serves_one_callback:
  assumes "consume_state env w p state s = (Inr x, s1)" and "find_workspace (sys_workspaces (sv_system s)) w \<noteq> None"
    and "s2 = snd (oauth_callback ol env w p code state s)" and "sha256 env' = sha256 env"
  shows "oauth_callback ol' env' w p' code' state s2 =
     (Inl (if p' = p then Conflict ''oauth state already used'' else Unauthorized), s2)"
proof -
  obtain uri stored where x: "x = (uri, stored)" by (cases x)
  from assms(1) obtain db t where db: "sv_workspaces s w = Some db"
    and t: "oauth_state_consume (sha256 env) (clock env) (ws_states db) state p = (Inr (OAuthOk uri stored), t)"
    and s1: "s1 = s\<lparr>sv_workspaces := (sv_workspaces s)(w \<mapsto> db\<lparr>ws_states := t\<rparr>)\<rparr>" by (auto simp: x consume_state_Inr)
  from oauth_consume_Ok [OF t] obtain r where r: "oauth_state_find (ws_states db) (hash_token (sha256 env) state) = Some r"
    "st_provider r = p" "st_consumed_at r = None" "secret_from_columns (st_code_verifier r) (st_code_verifier_enc r) = Some stored"
    and t': "t = snd (oauth_state_claim (ws_states db) (hash_token (sha256 env) state) (clock env))" by auto
  have "oauth_state_find t (hash_token (sha256 env) state) = Some (r\<lparr>st_consumed_at := Some (clock env)\<rparr>)"
    using r(1,3) by (simp add: t' claimed_row)
  moreover have "flows w s2 = flows w s1" unfolding assms(3) by (rule oauth_callback_flows [OF assms(1,2)])
  then obtain db2 where "sv_workspaces s2 w = Some db2" "ws_states db2 = t" "find_workspace (sys_workspaces (sv_system s2)) w \<noteq> None"
    using assms(2) by (auto simp: flows_def s1)
  ultimately show ?thesis using r(2,4) assms(4)
    by (auto simp: oauth_callback_def consume_state_def hbind_def require_workspace_exists_def on_workspace_def
        oauth_state_consume_def db_stmt_def hfail_def fun_upd_idem split: option.splits)
qed

text \<open>A sign-in with a provider does not look at the second factor: whatever TOTP rows the workspace holds, the
  callback answers the same and leaves the same state, apart from those rows.\<close>

theorem oauth_login_ignores_totp:
  "oauth_callback ol env w p code state (with_totps w t s) =
     (fst (oauth_callback ol env w p code state s), with_totps w t (snd (oauth_callback ol env w p code state s)))"
proof -
  have "commutes (with_totps w t) (consume_state env w p state)" unfolding consume_state_def
    by (intro commutes_hbind commutes_on_workspace)
      (auto simp: db_stmt_def intro!: commutes_pure split: prod.splits sum.splits oauth_outcome.splits)
  moreover have "commutes (with_totps w t) (require_provider env w p)" unfolding require_provider_def
    by (intro commutes_on_workspace) (auto simp: db_stmt_def split: option.splits sum.splits)
  moreover have "commutes (with_totps w t) (on_workspace env w x (resolve_user env p puid email))" for x puid email
    by (intro commutes_on_workspace)
      (auto simp: resolve_user_def link_user_def verify_email_of_def split: option.splits prod.splits sum.splits)
  moreover have "commutes (with_totps w t) (sign_in env w user new)" for user new unfolding sign_in_def
    by (intro commutes_hbind commutes_pure commutes_on_workspace commutes_fire_otp_hooks commutes_finish_user_login commutes_fire_after) simp
  ultimately have "commutes (with_totps w t) (oauth_callback ol env w p code state)"
    unfolding oauth_callback_def by (auto intro!: commutes_hbind commutes_pure commutes_attempts split: prod.splits)
  then show ?thesis by (simp add: commutes_def)
qed

section \<open>Provider accounts\<close>

text \<open>A user has at most one account with a provider, and an account belongs to at most one user.\<close>

definition links_ok :: "oauth_links \<Rightarrow> bool" where
  "links_ok t \<longleftrightarrow> unique_on (\<lambda>l. (ol_user_id l, ol_provider l)) t \<and> unique_on (\<lambda>l. (ol_provider l, ol_provider_user_id l)) t"

lemma find_by_provider_None:
  "find_by_provider_user t p puid = None \<longleftrightarrow> (p, puid) \<notin> (\<lambda>l. (ol_provider l, ol_provider_user_id l)) ` set t"
  by (auto simp: find_by_provider_user_def find_None_iff)

lemma find_by_provider_Some:
  "find_by_provider_user t p puid = Some l \<Longrightarrow> l \<in> set t \<and> ol_provider l = p \<and> ol_provider_user_id l = puid"
  by (auto simp: find_by_provider_user_def dest: find_SomeD)

lemma relinked_unique:
  assumes "unique_on (\<lambda>l. (ol_user_id l, ol_provider l)) t" and "unique_on (\<lambda>l. (ol_provider l, ol_provider_user_id l)) t"
    and "\<And>l. l \<in> set t \<Longrightarrow> (ol_provider l, ol_provider_user_id l) \<noteq> (p, puid)"
  shows "unique_on (\<lambda>l. (ol_provider l, ol_provider_user_id l))
    (sql_update (\<lambda>l. (ol_user_id l, ol_provider l) = (u, p)) (\<lambda>l. l\<lparr>ol_provider_user_id := puid\<rparr>) t)"
  using assms
proof (induction t)
  case (Cons x t)
  let ?p = "\<lambda>l. (ol_user_id l, ol_provider l) = (u, p)"
  let ?id = "\<lambda>l. (ol_provider l, ol_provider_user_id l)"
  let ?f = "\<lambda>l. l\<lparr>ol_provider_user_id := puid\<rparr>"
  have rest: "unique_on ?id (sql_update ?p ?f t)" by (rule Cons.IH) (use Cons.prems in \<open>auto\<close>)
  show ?case
  proof (cases "?p x")
    case True
    then have "\<not> ?p l" if "l \<in> set t" for l using that Cons.prems(1) by (auto simp: image_iff)
    then have "sql_update ?p ?f t = t" by (intro sql_update_id) auto
    moreover have "(p, puid) \<notin> ?id ` set t" using Cons.prems(3) by force
    ultimately show ?thesis using True Cons.prems(2) by simp
  next
    case False
    have "?id x \<notin> ?id ` set (sql_update ?p ?f t)"
    proof
      assume "?id x \<in> ?id ` set (sql_update ?p ?f t)"
      then obtain l where l: "l \<in> set (sql_update ?p ?f t)" "?id l = ?id x" by force
      from l(1) show False
      proof (cases rule: in_sql_updateE)
        case (hit y)
        then have "?id x = (p, puid)" using l(2) by simp
        then show False using Cons.prems(3) [of x] by simp
      next
        case miss
        then have "?id l \<in> ?id ` set t" by (intro imageI)
        then show False unfolding l(2) using Cons.prems(2) by simp
      qed
    qed
    then show ?thesis using False rest by auto
  qed
qed simp

lemma upsert_link_Inr:
  assumes "upsert_link us t u p puid = (Inr (), t')" and "find_by_provider_user t p puid = None"
  shows "(\<exists>l. find_by_provider_user t' p puid = Some l \<and> ol_user_id l = u)" and "links_ok t \<Longrightarrow> links_ok t'"
proof -
  let ?k = "\<lambda>l. (ol_user_id l, ol_provider l)"
  let ?new = "\<lparr>ol_user_id = u, ol_provider = p, ol_provider_user_id = puid\<rparr>"
  have t': "t' = (if (u, p) \<in> ?k ` set t then sql_update (\<lambda>l. ?k l = (u, p)) (\<lambda>l. l\<lparr>ol_provider_user_id := puid\<rparr>) t else t @ [?new])"
    using assms(1) by (auto simp: upsert_link_def sql_upsert_def split: if_splits)
  have none: "(ol_provider l, ol_provider_user_id l) \<noteq> (p, puid)" if "l \<in> set t" for l
    using that assms(2) by (force simp: find_by_provider_None)
  have "find_by_provider_user t' p puid \<noteq> None"
  proof (cases "(u, p) \<in> ?k ` set t")
    case True
    then obtain l where "l \<in> set t" "?k l = (u, p)" by auto
    then have "l\<lparr>ol_provider_user_id := puid\<rparr> \<in> set t'" using True by (auto simp: t' set_sql_update)
    with \<open>?k l = (u, p)\<close> show ?thesis by (auto simp: find_by_provider_None intro!: rev_image_eqI)
  qed (simp add: t' find_by_provider_None)
  moreover have "l \<in> set t \<or> ol_user_id l = u" if "l \<in> set t'" for l
    using that by (auto simp: t' set_sql_update split: if_splits)
  then have "ol_user_id l = u" if "find_by_provider_user t' p puid = Some l" for l
    using find_by_provider_Some [OF that] none by blast
  ultimately show "\<exists>l. find_by_provider_user t' p puid = Some l \<and> ol_user_id l = u" by auto
  assume ok: "links_ok t"
  show "links_ok t'"
  proof (cases "(u, p) \<in> ?k ` set t")
    case False
    with ok none show ?thesis by (force simp: t' links_ok_def)
  next
    case True
    have "map ?k (sql_update (\<lambda>l. ?k l = (u, p)) (\<lambda>l. l\<lparr>ol_provider_user_id := puid\<rparr>) t) = map ?k t"
      by (rule map_sql_update) auto
    moreover note relinked_unique [OF _ _ none, where u = u]
    ultimately show ?thesis using True ok by (simp add: t' links_ok_def)
  qed
qed

lemma find_marked_user:
  "find_user_by_id t i = Some u \<Longrightarrow> \<exists>u'. find_user_by_id (mark_verified t i) i = Some u' \<and> u_id u' = i \<and> u_verified u'"
  by (induction t) (auto simp: find_user_by_id_def mark_verified_def split: if_splits)

lemma link_user_Inr:
  "link_user env u p puid db = (Inr x, db') \<longleftrightarrow>
     (\<exists>t. upsert_link (map u_id (ws_users db)) (ws_links db) u p puid = (Inr (), t) \<and> db' = db\<lparr>ws_links := t\<rparr>)"
  by (auto simp: link_user_def handler)

lemma resolve_new_account:
  assumes "find_by_provider_user (ws_links db) p puid = None" and "resolve_user env p puid email db = (Inr (u, new), db')"
    and "unique_on u_id (ws_users db)"
  shows "\<exists>us t. upsert_link us (ws_links db) (u_id u) p puid = (Inr (), t) \<and> ws_links db' = t
    \<and> (\<exists>v. find_user_by_id (ws_users db') (u_id u) = Some v \<and> u_id v = u_id u \<and> u_verified v)"
proof (cases "find_user_by_email (ws_users db) email")
  case (Some v)
  with assms(1,2) obtain t where v: "v = u" and t: "upsert_link (map u_id (ws_users db)) (ws_links db) (u_id u) p puid = (Inr (), t)"
    and db': "db' = verify_email_of u (db\<lparr>ws_links := t\<rparr>)"
    by (auto simp: resolve_user_def link_user_Inr split: option.splits prod.splits sum.splits)
  have "u \<in> set (ws_users db)" using Some v by (auto simp: find_user_by_email_def dest: find_SomeD)
  then have "find_user_by_id (ws_users db) (u_id u) = Some u" using assms(3) by (simp add: find_user_by_id_def find_unique)
  with t db' find_marked_user [OF this] show ?thesis by (auto simp: verify_email_of_def)
next
  case None
  with assms(1,2) obtain us t where us: "insert_passwordless_user (fresh_uuid env) (clock env) (ws_users db) email = (Inr u, us)"
    and t: "upsert_link (map u_id (mark_verified us (u_id u))) (ws_links db) (u_id u) p puid = (Inr (), t)"
    and db': "db' = db\<lparr>ws_users := mark_verified us (u_id u), ws_links := t\<rparr>"
    by (auto simp: resolve_user_def link_user_Inr db_stmt_def split: option.splits prod.splits sum.splits)
  have "us = ws_users db @ [u]" and "u_id u \<notin> u_id ` set (ws_users db)"
    using us by (auto simp: insert_passwordless_user_def insert_user_row_def split: if_splits)
  then have "unique_on u_id us" and "u \<in> set us" using assms(3) by simp_all
  then have "find_user_by_id us (u_id u) = Some u" by (simp add: find_user_by_id_def find_unique)
  from find_marked_user [OF this] t db' show ?thesis by auto
qed

text \<open>An account of a provider stays with its user. After a sign-in resolved an account to a user, a later sign-in
  with the same account gets that user, now verified, whatever email the provider reports then, and changes
  nothing; and no account is ever shared by two users.\<close>

theorem oauth_account_keeps_its_user:
  assumes "resolve_user env p puid email db = (Inr (u, new), db')" and "unique_on u_id (ws_users db)"
    and "links_ok (ws_links db)"
  shows "links_ok (ws_links db')
    \<and> (\<exists>u'. u_id u' = u_id u \<and> u_verified u' \<and> (\<forall>env' email'. resolve_user env' p puid email' db' = (Inr (u', False), db')))"
proof (cases "find_by_provider_user (ws_links db) p puid")
  case (Some l)
  with assms(1) have u: "find_user_by_id (ws_users db) (ol_user_id l) = Some u" "db' = verify_email_of u db"
    by (auto simp: resolve_user_def split: option.splits)
  then have "u_id u = ol_user_id l" by (auto dest: find_user_by_id_SomeD)
  with u Some find_marked_user [OF u(1)] assms(3) show ?thesis
    by (auto simp: resolve_user_def verify_email_of_def split: option.splits)
next
  case None
  with assms(1) obtain us t where link: "upsert_link us (ws_links db) (u_id u) p puid = (Inr (), t)"
    and u: "\<exists>v. find_user_by_id (ws_users db') (u_id u) = Some v \<and> u_id v = u_id u \<and> u_verified v" and db': "ws_links db' = t"
    using resolve_new_account [OF None assms(1,2)] by blast
  from upsert_link_Inr(1) [OF link None] obtain l where l: "find_by_provider_user t p puid = Some l" "ol_user_id l = u_id u" by blast
  with u db' upsert_link_Inr(2) [OF link None] assms(3) show ?thesis
    by (auto simp: resolve_user_def verify_email_of_def)
qed

text \<open>A sign-in by email adopts an account nobody verified. When a user registered with a password under the
  email and never confirmed it, the first sign-in with a provider account of that email gets this user, marks
  it verified and leaves its password in force: whoever registered it keeps a working password.\<close>

theorem oauth_adopts_unverified_password:
  assumes "find_by_provider_user (ws_links db) p puid = None" and "find_user_by_email (ws_users db) email = Some u"
    and "u_password_hash u = Some h" and "\<not> u_verified u" and "unique_on u_id (ws_users db)"
  shows "\<exists>db'. resolve_user env p puid email db = (Inr (u, False), db')
    \<and> find_user_by_email (ws_users db') email = Some (u\<lparr>u_verified := True\<rparr>)"
proof -
  have u: "u \<in> set (ws_users db)" "u_email u = email" using assms(2) by (auto simp: find_user_by_email_def dest: find_SomeD)
  then obtain t where t: "upsert_link (map u_id (ws_users db)) (ws_links db) (u_id u) p puid = (Inr (), t)"
    by (simp add: upsert_link_def)
  have "find_user_by_email (mark_verified us (u_id u)) email = Some (u\<lparr>u_verified := True\<rparr>)"
    if "find_user_by_email us email = Some u" for us
    using that by (induction us) (auto simp: find_user_by_email_def mark_verified_def split: if_splits)
  with assms t show ?thesis
    by (simp add: resolve_user_def link_user_def db_stmt_def verify_email_of_def)
qed

lemma find_upsert_provider: "find_provider (upsert_provider t q) (op_provider q) = Inr (Some q)"
  using find_sql_upsert_same [of pr_provider "\<lparr>pr_provider = op_provider q, pr_client_id = op_client_id q,
        pr_client_secret_enc = op_secret_enc q, pr_config_json = Some (Inr (op_config q))\<rparr>"]
  by (auto simp: find_provider_def upsert_provider_def decode_config_def split: option.splits dest!: find_SomeD)

text \<open>A client secret follows the token URL. Writing a provider without a secret keeps the stored one and takes
  the new configuration, so the next callback sends the decrypted secret to the new token URL; the write needs
  access to the workspace, which every app admin of it has, and not the secret.\<close>

theorem kept_secret_goes_to_new_token_url:
  assumes "providers_put env c w p client_id None config s = (Inr resp, s1)"
    and "sv_workspaces s w = Some db" and "find_provider (ws_providers db) p = Inr (Some old)"
    and "oauth_callback ol env' w p code state s1 = (Inr r, s2)"
  shows "\<exists>new secret uri v token. client_secret_of env' old = Inr secret \<and> op_client_id new = client_id \<and> op_config new = config
    \<and> json_answer ''token'' ''POST'' (http_post_form ol (oc_token_url config) (token_form new secret code uri (Some v))) = Inr token"
proof -
  let ?new = "\<lparr>op_provider = p, op_client_id = client_id, op_secret_enc = op_secret_enc old, op_config = config\<rparr>"
  have new: "find_provider (upsert_provider (ws_providers db) ?new) p = Inr (Some ?new)"
    using find_upsert_provider [of "ws_providers db" ?new] by simp
  have "\<exists>db1. sv_workspaces s1 w = Some db1 \<and> ws_providers db1 = upsert_provider (ws_providers db) ?new"
    using assms(1-3) by (auto simp: providers_put_def secret_to_store_def non_empty_def handler)
  moreover from oauth_callback_Inr [OF assms(4)] obtain uri stored s3 db3 cfg puid email
    where c: "consume_state env' w p state s1 = (Inr (uri, stored), s3)" "sv_workspaces s3 w = Some db3"
      "find_provider (ws_providers db3) p = Inr (Some cfg)" and i: "identify ol env' cfg p code uri stored = Inr (puid, email)" by blast
  ultimately have "cfg = ?new" using new by (auto simp: consume_state_Inr)
  with i obtain secret v token where "client_secret_of env' ?new = Inr secret"
    and "exchange_code ol ?new secret code uri (Some v) = Inr token" by (auto simp: identify_Inr)
  then show ?thesis by (intro exI [of _ ?new]) (auto simp: client_secret_of_def exchange_code_def split: option.splits sum.splits)
qed

section \<open>Examples\<close>

text \<open>A decoder of the strings of the model, whose characters take one or two bytes.\<close>

fun utf8_decode :: "char list \<Rightarrow> string" where
  "utf8_decode [] = []"
| "utf8_decode [c] = [c]"
| "utf8_decode (c # d # cs) =
     (if of_char c < (128 :: nat) then c # utf8_decode (d # cs)
      else char_of ((of_char c - 192 :: nat) * 64 + (of_char d - 128)) # utf8_decode cs)"

lemma utf8_decode_append: "utf8_decode (utf8 c @ cs) = c # utf8_decode cs"
proof (cases "of_char c < (128 :: nat)")
  case True
  then show ?thesis by (cases cs) (simp_all add: utf8_def)
next
  case False
  define n where "n = (of_char c :: nat)"
  have n: "128 \<le> n" "n < 256" using False nat_of_char_less_256 [of c] by (auto simp: n_def)
  have "of_char (char_of (192 + n div 64) :: char) = 192 + n div 64" and "of_char (char_of (128 + n mod 64) :: char) = 128 + n mod 64"
    using n by (simp_all add: of_char_of take_bit_eq_mod)
  then show ?thesis using False n by (simp add: utf8_def Let_def flip: n_def) (simp add: n_def)
qed

lemma utf8_decode_as_bytes: "utf8_decode (as_bytes s) = s"
  using utf8_decode_append by (induction s) (simp_all add: as_bytes_def)

definition oauth_env :: "time \<Rightarrow> env" where
  "oauth_env now = (demo_env now)\<lparr>kek := Some ''k'', from_utf8 := (\<lambda>b. Inr (utf8_decode b))\<rparr>"

definition demo_config :: oauth_provider_config where
  "demo_config = \<lparr>oc_auth_url = ''https://id/auth'', oc_token_url = ''https://id/token'', oc_userinfo_url = ''https://id/me'',
     oc_scopes = [''email''], oc_userinfo_id_field = ''/sub'', oc_userinfo_email_field = ''/email''\<rparr>"

definition demo_provider :: provider_row where
  "demo_provider = \<lparr>pr_provider = ''id'', pr_client_id = ''me'', pr_client_secret_enc = ''secret'', pr_config_json = Some (Inr demo_config)\<rparr>"

text \<open>A provider that checks the verifier.\<close>

definition demo_oauth :: oauth_lib where
  "demo_oauth = \<lparr>url_with_query = (\<lambda>u qs. Inr (u @ ''?'' @ concat (map (\<lambda>(k, v). k @ ''='' @ v @ ''&'') qs))), base64url = (\<lambda>x. x),
     json_pointer = (\<lambda>j p. case j of JObject kvs \<Rightarrow> map_of kvs p | _ \<Rightarrow> None),
     http_post_form = (\<lambda>u f. if map_of f ''code_verifier'' = Some ''v'' then Answered 200 ''200 OK'' [] (Inr (JObject [(''access_token'', JString ''t'')]))
        else Answered 400 ''400'' [] (Inr JNull)),
     http_get_bearer = (\<lambda>u t. Answered 200 ''200 OK'' [] (Inr (JObject [(''/sub'', JString ''42''), (''/email'', JString ''a@b.c'')]))),
     random32 = ''v''\<rparr>"

definition oauth_server :: server where
  "oauth_server = demo_server\<lparr>sv_workspaces := [''acme'' \<mapsto> demo_workspace\<lparr>ws_providers := [demo_provider]\<rparr>]\<rparr>"

lemmas oauth_simps = oauth_authorize_def oauth_callback_def require_workspace_exists_def require_provider_def verifier_for_storage_def
  verifier_from_storage_def build_authorize_url_def consume_state_def client_secret_of_def identify_def exchange_code_def fetch_userinfo_def
  json_answer_def is_success_def userinfo_field_def pluck_string_def resolve_user_def link_user_def verify_email_of_def sign_in_def
  fresh_code_verifier_def derive_s256_challenge_def token_form_def find_provider_def decode_config_def oauth_state_issue_def
  oauth_state_consume_def oauth_state_find_def oauth_state_claim_def find_workspace_def find_by_provider_user_def find_user_by_email_def
  upsert_link_def sql_upsert_def finish_user_login_def list_apps_def STATE_TTL_MINUTES_def secret_from_columns_def
  as_bytes_def utf8_def issue_access_def jwt_issue_def demo_lib_def commit_user_login_def insert_row_def fresh_token_def demo_hashes

lemma demo_callback:
  "fst (oauth_callback demo_oauth (oauth_env 2) ''acme'' ''id'' ''code'' ''s2''
     (snd (oauth_authorize demo_oauth (oauth_env 1) ''acme'' ''id'' ''/cb'' oauth_server))) = 
   Inr \<lparr>cb_access_token = ''t'', cb_refresh_token = ''r2'', cb_user_id = ''alice'', cb_user_email = ''a@b.c''\<rparr>"
  by (simp add: oauth_simps oauth_env_def demo_oauth_def oauth_server_def demo_provider_def demo_config_def demo_simps run_simps)

lemmas oauth_demo = oauth_env_def demo_oauth_def oauth_server_def demo_provider_def demo_config_def demo_simps run_simps

lemma demo_authorize:
  "fst (oauth_authorize demo_oauth (oauth_env 1) ''acme'' ''id'' ''/cb'' oauth_server) =
     Inr (''https://id/auth?client_id=me&redirect_uri=/cb&response_type=code&scope=email&state=s2&code_challenge=v&code_challenge_method=S256&'', ''s2'')"
  by (simp add: oauth_simps oauth_demo authorize_pairs_def)


theorem oauth_state_serves_one_callback_witness:
  "let s = snd (oauth_authorize demo_oauth (oauth_env 1) ''acme'' ''id'' ''/cb'' oauth_server);
       s2 = snd (oauth_callback (demo_oauth\<lparr>http_post_form := (\<lambda>_ _. SendFailed ''down'')\<rparr>) (oauth_env 2) ''acme'' ''id'' ''code'' ''s2'' s)
   in oauth_callback demo_oauth (oauth_env 3) ''acme'' ''id'' ''code'' ''s2'' s2 = (Inl (Conflict ''oauth state already used''), s2)"
proof -
  let ?s = "snd (oauth_authorize demo_oauth (oauth_env 1) ''acme'' ''id'' ''/cb'' oauth_server)"
  let ?c = "consume_state (oauth_env 2) ''acme'' ''id'' ''s2'' ?s"
  have "fst ?c = Inr (''/cb'', Encrypted ''v'')" by (simp add: oauth_simps oauth_demo)
  then have c: "?c = (Inr (''/cb'', Encrypted ''v''), snd ?c)" by (metis prod.collapse)
  have "find_workspace (sys_workspaces (sv_system ?s)) ''acme'' \<noteq> None" by (simp add: oauth_simps oauth_demo)
  from oauth_state_serves_one_callback [OF c this refl, where env' = "oauth_env 3" and p' = "''id''"]
  show ?thesis by (simp add: Let_def oauth_env_def demo_env_def)
qed

theorem oauth_account_keeps_its_user_witness:
  "\<exists>u'. u_id u' = ''alice'' \<and> resolve_user (oauth_env 2) ''id'' ''42'' ''new@x.y''
     (snd (resolve_user (oauth_env 1) ''id'' ''42'' ''a@b.c'' demo_workspace)) =
       (Inr (u', False), snd (resolve_user (oauth_env 1) ''id'' ''42'' ''a@b.c'' demo_workspace))"
proof -
  let ?r = "resolve_user (oauth_env 1) ''id'' ''42'' ''a@b.c'' demo_workspace"
  have "fst ?r = Inr (demo_user, False)" by (simp add: oauth_simps oauth_demo)
  then have "?r = (Inr (demo_user, False), snd ?r)" by (metis prod.collapse)
  from oauth_account_keeps_its_user [OF this] show ?thesis by (auto simp: demo_simps links_ok_def)
qed

theorem oauth_adopts_unverified_password_witness:
  "\<exists>db'. resolve_user (oauth_env 1) ''id'' ''42'' ''a@b.c'' (demo_workspace\<lparr>ws_users := [demo_user\<lparr>u_verified := False\<rparr>]\<rparr>) =
       (Inr (demo_user\<lparr>u_verified := False\<rparr>, False), db')
     \<and> find_user_by_email (ws_users db') ''a@b.c'' = Some demo_user"
  using oauth_adopts_unverified_password [of "demo_workspace\<lparr>ws_users := [demo_user\<lparr>u_verified := False\<rparr>]\<rparr>" "''id''" "''42''" "''a@b.c''"
      "demo_user\<lparr>u_verified := False\<rparr>" "''password''" "oauth_env 1"]
  by (simp add: demo_simps find_by_provider_user_def find_user_by_email_def)

definition app_admin_claims :: claims where
  "app_admin_claims = build_claims ''j'' 0 ''eve'' AppAdminRole (Some ''acme'') (Some ''blog'') 0"

theorem kept_secret_goes_to_new_token_url_witness:
  "\<exists>new secret uri v token. client_secret_of (oauth_env 2) \<lparr>op_provider = ''id'', op_client_id = ''me'', op_secret_enc = ''secret'', op_config = demo_config\<rparr> = Inr secret
    \<and> op_client_id new = ''me'' \<and> op_config new = demo_config\<lparr>oc_token_url := ''https://eve/''\<rparr>
    \<and> json_answer ''token'' ''POST'' (http_post_form demo_oauth ''https://eve/'' (token_form new secret ''code'' uri (Some v))) = Inr token"
proof -
  let ?cfg = "demo_config\<lparr>oc_token_url := ''https://eve/''\<rparr>"
  let ?s = "snd (oauth_authorize demo_oauth (oauth_env 1) ''acme'' ''id'' ''/cb'' oauth_server)"
  let ?p = "providers_put (oauth_env 1) app_admin_claims ''acme'' ''id'' ''me'' None ?cfg ?s"
  let ?c = "oauth_callback demo_oauth (oauth_env 2) ''acme'' ''id'' ''code'' ''s2'' (snd ?p)"
  have "fst ?p = Inr \<lparr>pv_provider = ''id'', pv_client_id = ''me'', pv_config = ?cfg\<rparr>"
    by (simp add: providers_put_def secret_to_store_def non_empty_def app_admin_claims_def build_claims_def require_workspace_access_def
        upsert_provider_def oauth_simps oauth_demo)
  then have p: "?p = (Inr \<lparr>pv_provider = ''id'', pv_client_id = ''me'', pv_config = ?cfg\<rparr>, snd ?p)" by (metis prod.collapse)
  have "fst ?c = Inr \<lparr>cb_access_token = ''t'', cb_refresh_token = ''r2'', cb_user_id = ''alice'', cb_user_email = ''a@b.c''\<rparr>"
    by (simp add: providers_put_def secret_to_store_def non_empty_def app_admin_claims_def build_claims_def require_workspace_access_def
        upsert_provider_def oauth_simps oauth_demo)
  then have c: "?c = (Inr \<lparr>cb_access_token = ''t'', cb_refresh_token = ''r2'', cb_user_id = ''alice'', cb_user_email = ''a@b.c''\<rparr>, snd ?c)"
    by (metis prod.collapse)
  have "\<exists>db. sv_workspaces ?s ''acme'' = Some db \<and> find_provider (ws_providers db) ''id'' =
      Inr (Some \<lparr>op_provider = ''id'', op_client_id = ''me'', op_secret_enc = ''secret'', op_config = demo_config\<rparr>)"
    by (simp add: oauth_simps oauth_demo)
  then obtain db where db: "sv_workspaces ?s ''acme'' = Some db" "find_provider (ws_providers db) ''id'' =
      Inr (Some \<lparr>op_provider = ''id'', op_client_id = ''me'', op_secret_enc = ''secret'', op_config = demo_config\<rparr>)" by blast
  from kept_secret_goes_to_new_token_url [OF p db c] show ?thesis by simp
qed

end
