(* ===== verification/Secret_Box.thy ===== *)
theory Secret_Box
  imports OAuth_Api
begin

text \<open>
  The sealed secrets of \<open>rustbase-auth/src/secret_box.rs\<close>: authenticated encryption with the nonce in front, and the
  resolution of the key-encryption key from the environment or the database. The cipher itself is a parameter. A sealed
  secret opens to itself, and this cipher discharges what the OAuth handlers rely on.
\<close>

section \<open>Sealing\<close>

datatype secret_box_error =
    InvalidKekLen nat
  | InvalidCiphertext
  | EncryptFailed
  | DecryptFailed
  | BadKey string

fun secret_box_error_str :: "(nat \<Rightarrow> string) \<Rightarrow> secret_box_error \<Rightarrow> string" where
  "secret_box_error_str show_nat (InvalidKekLen n) = ''kek must be exactly 32 bytes (got '' @ show_nat n @ '')''"
| "secret_box_error_str show_nat InvalidCiphertext = ''ciphertext too short to contain nonce + tag''"
| "secret_box_error_str show_nat EncryptFailed = ''aes-gcm encrypt failed''"
| "secret_box_error_str show_nat DecryptFailed = ''aes-gcm decrypt failed: wrong key or tampered ciphertext''"
| "secret_box_error_str show_nat (BadKey m) = m"

definition NONCE_LEN :: nat where
  "NONCE_LEN = 12"

definition KEY_LEN :: nat where
  "KEY_LEN = 32"

text \<open>AES-256-GCM of the \<open>aes_gcm\<close> crate: key, nonce and message.\<close>

record aead =
  seal :: "char list \<Rightarrow> char list \<Rightarrow> char list \<Rightarrow> char list option"
  unseal :: "char list \<Rightarrow> char list \<Rightarrow> char list \<Rightarrow> char list option"

definition box_encrypt :: "aead \<Rightarrow> char list \<Rightarrow> char list \<Rightarrow> char list \<Rightarrow> secret_box_error + char list" where
  "box_encrypt cipher nonce plaintext k =
     (if length k \<noteq> KEY_LEN then Inl (InvalidKekLen (length k))
      else case seal cipher k nonce plaintext of None \<Rightarrow> Inl EncryptFailed | Some ct \<Rightarrow> Inr (nonce @ ct))"

definition box_decrypt :: "aead \<Rightarrow> char list \<Rightarrow> char list \<Rightarrow> secret_box_error + char list" where
  "box_decrypt cipher ciphertext k =
     (if length k \<noteq> KEY_LEN then Inl (InvalidKekLen (length k))
      else if length ciphertext < NONCE_LEN + 16 then Inl InvalidCiphertext
      else case unseal cipher k (take NONCE_LEN ciphertext) (drop NONCE_LEN ciphertext) of
        None \<Rightarrow> Inl DecryptFailed | Some p \<Rightarrow> Inr p)"

text \<open>What the cipher promises: a sealed message opens under its key and nonce to what was sealed, carries a tag of
  16 bytes, and opens to nothing else: whatever opens was sealed.\<close>

definition aead_ok :: "aead \<Rightarrow> bool" where
  "aead_ok cipher \<longleftrightarrow> (\<forall>k n p ct. seal cipher k n p = Some ct \<longrightarrow> unseal cipher k n ct = Some p \<and> length ct = length p + 16)
     \<and> (\<forall>k n p ct. unseal cipher k n ct = Some p \<longrightarrow> seal cipher k n p = Some ct)"

lemma aead_seal_opens: "aead_ok cipher \<Longrightarrow> seal cipher k n p = Some ct \<Longrightarrow> unseal cipher k n ct = Some p \<and> length ct = length p + 16"
  unfolding aead_ok_def by blast

lemma aead_opened_was_sealed: "aead_ok cipher \<Longrightarrow> unseal cipher k n ct = Some p \<Longrightarrow> seal cipher k n p = Some ct"
  unfolding aead_ok_def by blast

lemma box_opens:
  assumes "aead_ok cipher" "length nonce = NONCE_LEN" "box_encrypt cipher nonce p k = Inr ct"
  shows "box_decrypt cipher ct k = Inr p"
proof -
  from assms(3) obtain body where b: "length k = KEY_LEN" "seal cipher k nonce p = Some body" "ct = nonce @ body"
    by (simp add: box_encrypt_def split: if_splits option.splits)
  from aead_seal_opens [OF assms(1) b(2)] have "unseal cipher k nonce body = Some p" "length body = length p + 16" by simp_all
  then show ?thesis using b assms(2) by (simp add: box_decrypt_def)
qed

text \<open>A sealed secret opens to itself under its key, with any nonce of the fixed length. What opens at all was
  sealed: a ciphertext that decrypts under a key is the one encryption of its plaintext with its nonce makes.\<close>

theorem secret_box_roundtrip:
  assumes "aead_ok cipher"
  shows "(length nonce = NONCE_LEN \<and> box_encrypt cipher nonce p k = Inr ct \<longrightarrow> box_decrypt cipher ct k = Inr p)
    \<and> (box_decrypt cipher ct k = Inr p \<longrightarrow> box_encrypt cipher (take NONCE_LEN ct) p k = Inr ct)"
proof (intro conjI impI)
  assume "length nonce = NONCE_LEN \<and> box_encrypt cipher nonce p k = Inr ct"
  then show "box_decrypt cipher ct k = Inr p" using box_opens [OF assms] by blast
next
  assume d: "box_decrypt cipher ct k = Inr p"
  then have k: "length k = KEY_LEN" and u: "unseal cipher k (take NONCE_LEN ct) (drop NONCE_LEN ct) = Some p"
    by (simp_all add: box_decrypt_def split: if_splits option.splits)
  from aead_opened_was_sealed [OF assms u] k show "box_encrypt cipher (take NONCE_LEN ct) p k = Inr ct"
    by (simp add: box_encrypt_def)
qed

text \<open>The cipher of the handlers, as the server has it: \<open>encrypt\<close> and \<open>decrypt\<close> with their errors as text.\<close>

definition boxed :: "aead \<Rightarrow> (nat \<Rightarrow> string) \<Rightarrow> char list \<Rightarrow> env \<Rightarrow> env" where
  "boxed cipher show_nat nonce env = env\<lparr>
     encrypt := (\<lambda>p k. case box_encrypt cipher nonce p k of Inl e \<Rightarrow> Inl (secret_box_error_str show_nat e) | Inr c \<Rightarrow> Inr c),
     decrypt := (\<lambda>c k. case box_decrypt cipher c k of Inl e \<Rightarrow> Inl (secret_box_error_str show_nat e) | Inr p \<Rightarrow> Inr p)\<rparr>"

lemma boxed_cipher_ok:
  assumes "aead_ok cipher" and "length nonce = NONCE_LEN" and "kek env' = kek env" and "\<And>x. from_utf8 env' (as_bytes x) = Inr x"
  shows "cipher_ok (boxed cipher sh nonce env) (boxed cipher sh nonce' env')"
  using assms(3,4) box_opens [OF assms(1,2)]
  by (simp add: cipher_ok_def boxed_def split: sum.splits)

section \<open>The key-encryption key\<close>

datatype kek_source = FromEnv "char list" | FromDatabaseLegacy "char list" | Absent

fun kek_key :: "kek_source \<Rightarrow> char list option" where
  "kek_key (FromEnv k) = Some k"
| "kek_key (FromDatabaseLegacy k) = Some k"
| "kek_key Absent = None"

text \<open>\<open>u8::from_str_radix\<close> with radix 16 on two characters; a leading plus sign is allowed.\<close>

definition hex_value :: "char \<Rightarrow> nat option" where
  "hex_value c = (let n = of_char c :: nat in
     if 48 \<le> n \<and> n \<le> 57 then Some (n - 48) else if 97 \<le> n \<and> n \<le> 102 then Some (n - 87)
     else if 65 \<le> n \<and> n \<le> 70 then Some (n - 55) else None)"

definition u8_from_hex :: "char \<Rightarrow> char \<Rightarrow> nat option" where
  "u8_from_hex a b = (if a = CHR ''+'' then hex_value b
     else case (hex_value a, hex_value b) of (Some x, Some y) \<Rightarrow> Some (16 * x + y) | _ \<Rightarrow> None)"

fun decode_pairs :: "string \<Rightarrow> char list option" where
  "decode_pairs (a # b # cs) = (case u8_from_hex a b of
      None \<Rightarrow> None | Some n \<Rightarrow> map_option ((#) (char_of n)) (decode_pairs cs))"
| "decode_pairs _ = Some []"

text \<open>Over the bytes of the value. Where a slice of two bytes cuts a character of two bytes apart, the code panics;
  the model gives the error of a slice that is not hexadecimal.\<close>

definition decode_hex_key :: "(nat \<Rightarrow> string) \<Rightarrow> string \<Rightarrow> secret_box_error + char list" where
  "decode_hex_key show_nat raw =
     (if length (as_bytes raw) \<noteq> KEY_LEN * 2
      then Inl (BadKey (''RUSTBASE_KEK must be 64 hex characters (32 bytes), got '' @ show_nat (length (as_bytes raw))))
      else case decode_pairs (as_bytes raw) of None \<Rightarrow> Inl (BadKey ''RUSTBASE_KEK is not valid hex'') | Some k \<Rightarrow> Inr k)"

definition resolve_kek :: "(nat \<Rightarrow> string) \<Rightarrow> string option \<Rightarrow> char list option \<Rightarrow> secret_box_error + kek_source" where
  "resolve_kek show_nat env_value stored =
     (case env_value of
        Some raw \<Rightarrow>
          (let raw = trim raw in
           if raw = [] then Inl (BadKey ''RUSTBASE_KEK is set but empty; unset it or give it 32 hex-encoded bytes'')
           else rbind (decode_hex_key show_nat raw) (\<lambda>k. Inr (FromEnv k)))
      | None \<Rightarrow>
          (case stored of
             Some k \<Rightarrow> if length k = KEY_LEN then Inr (FromDatabaseLegacy k) else Inl (BadKey ''stored key-encryption key has the wrong length'')
           | None \<Rightarrow> Inr Absent))"

lemma hex_digit_reads:
  assumes "n < 16"
  shows "hex_value (hex_digit n) = Some n \<and> hex_digit n \<noteq> CHR ''+'' \<and> \<not> is_whitespace (hex_digit n) \<and> as_bytes [hex_digit n] = [hex_digit n]"
proof -
  have "list_all (\<lambda>n. hex_value (hex_digit n) = Some n \<and> hex_digit n \<noteq> CHR ''+'' \<and> \<not> is_whitespace (hex_digit n)
      \<and> as_bytes [hex_digit n] = [hex_digit n]) [0..<16]" by code_simp
  with assms show ?thesis by (simp add: list_all_iff)
qed

lemma hex_nibbles: "(of_char (b :: char) :: nat) div 16 < 16" "(of_char b :: nat) mod 16 < 16"
proof -
  have "of_char b < (256 :: nat)" by simp
  then show "(of_char b :: nat) div 16 < 16" by linarith
qed simp

lemma as_bytes_hex: "as_bytes (concat (map hex_byte k)) = concat (map hex_byte k)"
proof (induction k)
  case Nil
  show ?case by (simp add: as_bytes_def)
next
  case (Cons b k)
  from hex_digit_reads [OF hex_nibbles(1) [of b]] hex_digit_reads [OF hex_nibbles(2) [of b]] Cons.IH show ?case
    by (simp add: hex_byte_def Let_def as_bytes_def)
qed

lemma decode_pairs_hex: "decode_pairs (concat (map hex_byte k)) = Some k"
proof (induction k)
  case (Cons b k)
  from hex_digit_reads [OF hex_nibbles(1) [of b]] hex_digit_reads [OF hex_nibbles(2) [of b]] Cons.IH show ?case
    by (simp add: hex_byte_def Let_def u8_from_hex_def)
qed simp

lemma length_hex: "length (concat (map hex_byte k)) = 2 * length k"
  by (induction k) (simp_all add: length_hex_byte)

lemma length_decode_pairs: "decode_pairs cs = Some k \<Longrightarrow> length k = length cs div 2"
  by (induction cs arbitrary: k rule: decode_pairs.induct) (auto split: option.splits)

lemma decode_hex_key_length: "decode_hex_key sh raw = Inr k \<Longrightarrow> length k = KEY_LEN"
  by (auto simp: decode_hex_key_def dest: length_decode_pairs split: if_splits option.splits)

lemma hex_no_space: "c \<in> set (concat (map hex_byte k)) \<Longrightarrow> \<not> is_whitespace c"
proof -
  assume "c \<in> set (concat (map hex_byte k))"
  then obtain b where "c \<in> set (hex_byte b)" by auto
  then obtain n where "c = hex_digit n" "n < 16"
    by (metis hex_byte_def Let_def in_set_conv_nth length_hex_byte less_2_cases mod_less_divisor nth_Cons_0 nth_Cons_Suc
        One_nat_def hex_nibbles)
  then show ?thesis using hex_digit_reads by blast
qed

lemma trim_around:
  assumes "\<forall>c \<in> set s. \<not> is_whitespace c" "\<forall>c \<in> set (a @ b). is_whitespace c" "s \<noteq> []"
  shows "trim (a @ s @ b) = s"
proof -
  have "dropWhile is_whitespace (x @ y) = y" if "\<forall>c \<in> set x. is_whitespace c" "y = [] \<or> \<not> is_whitespace (hd y)" for x y
    using that by (induction x) (cases y, auto)
  from this [of a "s @ b"] this [of "rev b" "rev s"] assms show ?thesis
    by (simp add: trim_def trim_start_def hd_rev)
qed

text \<open>The key of 32 bytes written as hexadecimal digits, with white space around it, is the key the server uses,
  whatever key the database still holds.\<close>

theorem resolve_kek_roundtrip:
  assumes "length k = KEY_LEN" and "\<forall>c \<in> set (a @ b). is_whitespace c"
  shows "resolve_kek sh (Some (a @ concat (map hex_byte k) @ b)) stored = Inr (FromEnv k)"
proof -
  have "length (concat (map hex_byte k)) = 64" using assms(1) by (simp only: length_hex) (simp add: KEY_LEN_def)
  then have ne: "concat (map hex_byte k) \<noteq> []" by fastforce
  have "trim (a @ concat (map hex_byte k) @ b) = concat (map hex_byte k)"
    using trim_around [OF _ assms(2) ne] hex_no_space by blast
  then show ?thesis using assms(1) ne by (simp add: resolve_kek_def decode_hex_key_def as_bytes_hex length_hex decode_pairs_hex rbind_def)
qed

text \<open>Whatever key the server resolves, from the environment or from the database, has the length the cipher needs:
  sealing never fails for its length. Without a configured and a stored key it resolves none.\<close>

theorem resolved_kek_fits:
  assumes "resolve_kek sh env_value stored = Inr src"
  shows "(\<forall>k nonce p ct n. kek_key src = Some k \<longrightarrow>
      box_encrypt cipher nonce p k \<noteq> Inl (InvalidKekLen n) \<and> box_decrypt cipher ct k \<noteq> Inl (InvalidKekLen n))
    \<and> (kek_key src = None \<longleftrightarrow> env_value = None \<and> stored = None)"
proof -
  have "kek_key src = Some k \<Longrightarrow> length k = KEY_LEN" for k
    using assms decode_hex_key_length
    by (auto simp: resolve_kek_def rbind_def Let_def split: option.splits if_splits sum.splits)
  then show ?thesis using assms
    by (auto simp: box_encrypt_def box_decrypt_def resolve_kek_def rbind_def Let_def split: option.splits if_splits sum.splits)
qed

text \<open>A key of 64 characters is read as hexadecimal although half of the characters are plus signs: such a key has
  four bits of every byte.\<close>

theorem plus_signs_pass_for_hex:
  "decode_hex_key sh (concat (replicate 32 ''+f'')) = Inr (replicate 32 (char_of (15 :: nat)))"
  by (simp add: decode_hex_key_def as_bytes_def utf8_def KEY_LEN_def numeral_eq_Suc u8_from_hex_def hex_value_def)

section \<open>Concrete instances\<close>

text \<open>A cipher that keeps the message and appends a constant tag.\<close>

definition demo_aead :: aead where
  "demo_aead = \<lparr>seal = (\<lambda>k n p. Some (p @ replicate 16 CHR ''t'')),
     unseal = (\<lambda>k n ct. if 16 \<le> length ct \<and> drop (length ct - 16) ct = replicate 16 CHR ''t'' then Some (take (length ct - 16) ct) else None)\<rparr>"

lemma demo_aead_ok: "aead_ok demo_aead"
proof -
  have "take (length ct - 16) ct @ drop (length ct - 16) ct = (ct :: char list)" for ct by simp
  then show ?thesis unfolding aead_ok_def demo_aead_def by (auto split: if_splits) (metis append_take_drop_id)
qed

theorem secret_box_roundtrip_witness:
  "box_decrypt demo_aead (replicate 12 CHR ''n'' @ ''hi'' @ replicate 16 CHR ''t'') (replicate 32 CHR ''k'') = Inr ''hi''"
  using secret_box_roundtrip [OF demo_aead_ok, of "replicate 12 CHR ''n''" "''hi''" "replicate 32 CHR ''k''"
      "replicate 12 CHR ''n'' @ ''hi'' @ replicate 16 CHR ''t''"]
  by (simp add: box_encrypt_def demo_aead_def NONCE_LEN_def KEY_LEN_def)

theorem resolve_kek_roundtrip_witness:
  "resolve_kek (\<lambda>_. []) (Some ('' '' @ concat (map hex_byte (replicate 32 CHR ''k'')) @ '' '')) None = Inr (FromEnv (replicate 32 CHR ''k''))"
  by (rule resolve_kek_roundtrip) (simp_all add: KEY_LEN_def is_whitespace_def)

theorem resolved_kek_fits_witness:
  "resolve_kek (\<lambda>_. []) None (Some (replicate 32 CHR ''k'')) = Inr (FromDatabaseLegacy (replicate 32 CHR ''k''))
    \<and> box_encrypt demo_aead ''n'' ''p'' (replicate 32 CHR ''k'') \<noteq> Inl (InvalidKekLen 32)"
proof -
  have r: "resolve_kek (\<lambda>_. []) None (Some (replicate 32 CHR ''k'')) = Inr (FromDatabaseLegacy (replicate 32 CHR ''k''))"
    by (simp add: resolve_kek_def KEY_LEN_def)
  with resolved_kek_fits [OF r] show ?thesis by simp
qed

end
