(* ===== verification/Boot.thy ===== *)
theory Boot
  imports Server_Config Secret_Box
begin

text \<open>
The server process of \<open>crates/rustbase-server/src/main.rs\<close>: seeding the system database, loading or generating the signing keys, resolving the key-encryption key, choosing the mailer and the object store, the state of a new process, loading the hooks of every app, and the layers put around the router. A process that starts on the data directory of another has the keys of the first and nothing of its memory. Key generation, the SMTP and S3 clients and the metrics recorder are fields of \<open>boot_lib\<close>.
\<close>

section \<open>Libraries\<close>

record 'k boot_lib =
  generate_key :: "char list"
  rsa_from_der :: "char list \<Rightarrow> string + 'k"
  rsa_generate :: "string + 'k \<times> char list"
  smtp_connect :: "smtp_tls \<Rightarrow> string \<Rightarrow> nat \<Rightarrow> (string \<times> string) option \<Rightarrow> string + lettre"
  s3_connect :: "s3_config \<Rightarrow> bool \<Rightarrow> string + object_store"
  open_local :: "string \<Rightarrow> string + object_store"
  install_recorder :: "unit \<Rightarrow> string + unit"
  show_db :: "db_error \<Rightarrow> string"
  show_len :: "nat \<Rightarrow> string"
  read_tree :: "string \<Rightarrow> entry"

section \<open>Starting up\<close>

definition MASTER_SIGNING_KEY :: string where
  "MASTER_SIGNING_KEY = ''master_signing_key''"

definition MASTER_RSA_PKCS8 :: string where
  "MASTER_RSA_PKCS8 = ''master_jwt_rsa_pkcs8_v1''"

text \<open>The master workspace and the seeded administrator, on every start.\<close>

definition seed_system :: "env \<Rightarrow> system_db \<Rightarrow> (db_error + bool) \<times> system_db" where
  "seed_system env sys =
     (let sys = sys\<lparr>sys_workspaces := ensure_master_realm (clock env) (sys_workspaces sys)\<rparr> in
      case ensure_seed_master_admin (fresh_uuid env) (clock env) (sys_master_admins sys) of
        (Inl e, t) \<Rightarrow> (Inl e, sys\<lparr>sys_master_admins := t\<rparr>)
      | (Inr _, t) \<Rightarrow> (Inr (master_admin_is_initialized t), sys\<lparr>sys_master_admins := t\<rparr>))"

record 'k keys =
  ky_hmac :: "char list"
  ky_rsa :: 'k
  ky_kek :: "char list option"

definition load_rsa :: "'k boot_lib \<Rightarrow> time \<Rightarrow> secrets \<Rightarrow> string + 'k \<times> secrets" where
  "load_rsa lib now t =
     (case get_secret t MASTER_RSA_PKCS8 of
        Some der \<Rightarrow> rbind (rsa_from_der lib der) (\<lambda>k. Inr (k, t))
      | None \<Rightarrow> rbind (rsa_generate lib) (\<lambda>(k, der). Inr (k, put_secret now t MASTER_RSA_PKCS8 der)))"

definition load_keys :: "'k boot_lib \<Rightarrow> env \<Rightarrow> string option \<Rightarrow> secrets \<Rightarrow> (string + 'k keys) \<times> secrets" where
  "load_keys lib env kek_var t =
     (case get_or_init_secret (clock env) t MASTER_SIGNING_KEY (generate_key lib) of
        (hmac, t1) \<Rightarrow>
          (case load_rsa lib (clock env) t1 of
             Inl e \<Rightarrow> (Inl e, t1)
           | Inr (k, t2) \<Rightarrow>
               (case resolve_kek (show_len lib) kek_var (get_secret t2 ''oauth_kek'') of
                  Inl e \<Rightarrow> (Inl (secret_box_error_str (show_len lib) e), t2)
                | Inr src \<Rightarrow> (Inr \<lparr>ky_hmac = hmac, ky_rsa = k, ky_kek = kek_key src\<rparr>, t2))))"

definition smtp_new :: "'k boot_lib \<Rightarrow> smtp_config \<Rightarrow> mailer_error + lettre" where
  "smtp_new lib cfg =
     (case smtp_connect lib (sc_tls cfg) (sc_host cfg) (sc_port cfg)
         (case (sc_username cfg, sc_password cfg) of (Some u, Some p) \<Rightarrow> Some (u, p) | _ \<Rightarrow> None) of
        Inl e \<Rightarrow> Inl (Transport e) | Inr l \<Rightarrow> Inr l)"

definition open_mailer :: "'k boot_lib \<Rightarrow> server_config \<Rightarrow> string + lettre option" where
  "open_mailer lib cfg = (case cf_smtp cfg of
      Some c \<Rightarrow> (case smtp_new lib c of Inl e \<Rightarrow> Inl (mailer_error_str e) | Inr l \<Rightarrow> Inr (Some l))
    | None \<Rightarrow> Inr None)"

definition open_storage :: "'k boot_lib \<Rightarrow> server_config \<Rightarrow> string + object_store" where
  "open_storage lib cfg = (case cf_s3 cfg of
      Some c \<Rightarrow> (case storage_s3 (s3_connect lib) c of Inl e \<Rightarrow> Inl (storage_error_str e) | Inr st \<Rightarrow> Inr st)
    | None \<Rightarrow> open_local lib (cf_data_dir cfg))"

text \<open>The hooks of every app of every workspace that has a database; a failing app is skipped.\<close>

definition load_all_hooks :: "env \<Rightarrow> server \<Rightarrow> server" where
  "load_all_hooks env s = fold (\<lambda>w s. case sv_workspaces s (w_id w) of
      None \<Rightarrow> s
    | Some db \<Rightarrow> fold (\<lambda>a s. snd (load_app_with env (w_id w) (a_id a) s)) (list_apps (ws_apps db)) s)
    (list_realms (sys_workspaces (sv_system s))) s"

record 'k booted =
  bt_keys :: "'k keys"
  bt_env :: env
  bt_metrics :: bool
  bt_litestream :: "(string + string list) option"

text \<open>\<open>bt_litestream\<close> is the replication file written when replication is on; failing to write it is only logged.
  The state of a new process: the databases and folders are those on disk, everything kept in memory is empty.\<close>

definition new_process :: "server_config \<Rightarrow> bool \<Rightarrow> server \<Rightarrow> server" where
  "new_process cfg initialized s = s\<lparr>sv_revocations := revocation_default, sv_attempts := Map.empty,
     sv_lockout := lockout_from_secs (lc_enabled (cf_lockout cfg)) (lc_max_failures (cf_lockout cfg))
       (lc_window_secs (cf_lockout cfg)) (lc_lockout_secs (cf_lockout cfg)),
     sv_initialized := initialized, sv_outbox := [], sv_mail_counts := (\<lambda>_ _. 0), sv_published := [], sv_hooks := Map.empty\<rparr>"

definition boot :: "'k boot_lib \<Rightarrow> env \<Rightarrow> string option \<Rightarrow> server_config \<Rightarrow> server \<Rightarrow> (string + 'k booted) \<times> server" where
  "boot lib env kek_var cfg s =
     (case observability_init (install_recorder lib) (cf_observability cfg) of
        Inl e \<Rightarrow> (Inl e, s)
      | Inr metrics \<Rightarrow>
          (case seed_system env (sv_system s) of
             (Inl e, sys) \<Rightarrow> (Inl (show_db lib e), s\<lparr>sv_system := sys\<rparr>)
           | (Inr initialized, sys) \<Rightarrow>
               (case load_keys lib env kek_var (sys_secrets sys) of
                  (Inl e, t) \<Rightarrow> (Inl e, s\<lparr>sv_system := sys\<lparr>sys_secrets := t\<rparr>\<rparr>)
                | (Inr keys, t) \<Rightarrow>
                    (let s = s\<lparr>sv_system := sys\<lparr>sys_secrets := t\<rparr>\<rparr> in
                     case (open_mailer lib cfg, open_storage lib cfg) of
                       (Inl e, _) \<Rightarrow> (Inl e, s)
                     | (_, Inl e) \<Rightarrow> (Inl e, s)
                     | (Inr mailer, Inr store) \<Rightarrow>
                         (let env = env\<lparr>kek := ky_kek keys, smtp_relay := mailer, storage := store, data_dir := cf_data_dir cfg,
                                allowed_hosts := cf_fetch_allowed_hosts cfg\<rparr>
                          in (Inr \<lparr>bt_keys = keys, bt_env = env, bt_metrics = (metrics \<noteq> None),
                                bt_litestream = (if ls_enabled (cf_litestream cfg)
                                  then Some (render_yaml (show_len lib) (cf_data_dir cfg) (read_tree lib (cf_data_dir cfg)) (cf_litestream cfg)) else None)\<rparr>,
                              load_all_hooks env (new_process cfg initialized s)))))))"

section \<open>The layers\<close>

record 'g http_stack =
  hk_metrics_route :: bool
  hk_body_limit :: nat
  hk_security :: "security_headers_config option"
  hk_cors :: cors_layer
  hk_rate :: "'g rate_limit_layers option"
  hk_metrics_layer :: bool

definition build_stack :: "(nat \<Rightarrow> nat \<Rightarrow> bool \<Rightarrow> 'g option) \<Rightarrow> (string \<Rightarrow> bool) \<Rightarrow> bool \<Rightarrow> server_config \<Rightarrow> 'g http_stack" where
  "build_stack build value_ok metrics cfg = \<lparr>
     hk_metrics_route = metrics,
     hk_body_limit = hc_max_body_bytes (cf_http cfg),
     hk_security = (if hc_security_headers (cf_http cfg) then Some (hc_hsts (cf_http cfg)) else None),
     hk_cors = cors_layer_of value_ok (cf_cors cfg),
     hk_rate = (if rs_enabled (cf_rate_limit cfg) then rate_limit_layer build (rs_limit (cf_rate_limit cfg)) else None),
     hk_metrics_layer = metrics\<rparr>"

section \<open>What loading hooks leaves alone\<close>

definition same_process :: "server \<Rightarrow> server \<Rightarrow> bool" where
  "same_process s s' \<longleftrightarrow> sv_system s' = sv_system s \<and> sv_workspaces s' = sv_workspaces s \<and> sv_revocations s' = sv_revocations s
     \<and> sv_attempts s' = sv_attempts s \<and> sv_lockout s' = sv_lockout s \<and> sv_initialized s' = sv_initialized s"

lemma same_process_refl: "same_process s s"
  by (simp add: same_process_def)

lemma same_process_trans: "same_process s s' \<Longrightarrow> same_process s' s'' \<Longrightarrow> same_process s s''"
  by (simp add: same_process_def)

lemma hook_effect_process: "hook_effect w a s s' \<Longrightarrow> same_process s s'"
  by (auto simp: hook_effect_def confined_def same_process_def)

lemma fold_same_process: "(\<And>x s. same_process s (f x s)) \<Longrightarrow> same_process s (fold f xs s)"
proof (induction xs arbitrary: s)
  case (Cons x xs)
  have "same_process s (f x s)" by (rule Cons.prems)
  then show ?case using Cons.IH [OF Cons.prems] same_process_trans by auto
qed (simp add: same_process_refl)

lemma load_all_hooks_process: "same_process s (load_all_hooks env s)"
proof -
  have "same_process s (fold (\<lambda>a s. snd (load_app_with env w (a_id a) s)) apps s)" for w s and apps :: "app list"
    by (rule fold_same_process) (rule hook_effect_process [OF load_app_with_effect])
  then have "same_process s (case sv_workspaces s (w_id w) of None \<Rightarrow> s
      | Some db \<Rightarrow> fold (\<lambda>a s. snd (load_app_with env (w_id w) (a_id a) s)) (list_apps (ws_apps db)) s)" for w s
    by (simp add: same_process_refl split: option.split)
  then show ?thesis unfolding load_all_hooks_def by (rule fold_same_process)
qed

section \<open>Restarts\<close>

lemma get_put_secret: "get_secret (put_secret now t n v) m = (if m = n then Some v else get_secret t m)"
  by (induction t) (auto simp: get_secret_def put_secret_def sql_delete_def)

lemma get_or_init_stores: "get_or_init_secret now t n d = (v, t') \<Longrightarrow> get_secret t' n = Some v"
  by (auto simp: get_or_init_secret_def get_put_secret split: option.splits)

lemma get_or_init_found: "get_secret t n = Some v \<Longrightarrow> get_or_init_secret now t n d = (v, t)"
  by (simp add: get_or_init_secret_def)

lemma seed_system_again:
  assumes "seed_system env sys = (Inr i, sys')"
  shows "seed_system env' sys' = (Inr i, sys')" and "i = master_admin_is_initialized (sys_master_admins sys')"
    and "\<exists>w \<in> set (sys_workspaces sys'). w_is_master w \<or> w_id w = MASTER_WORKSPACE_ID" and "sys_master_admins sys' \<noteq> []"
    and "sys_secrets sys' = sys_secrets sys"
proof -
  let ?ws = "ensure_master_realm (clock env) (sys_workspaces sys)"
  from assms obtain t where t: "ensure_seed_master_admin (fresh_uuid env) (clock env) (sys_master_admins sys) = (Inr (), t)"
    and i: "i = master_admin_is_initialized t" and s: "sys' = sys\<lparr>sys_workspaces := ?ws, sys_master_admins := t\<rparr>"
    by (auto simp: seed_system_def Let_def split: prod.splits sum.splits)
  have "ensure_master_realm now ?ws = ?ws" for now by (auto simp: ensure_master_realm_def)
  moreover have ne: "t \<noteq> []" using t
    by (auto simp: ensure_seed_master_admin_def count_master_admins_def sql_count_def insert_master_row_def split: if_splits prod.splits sum.splits)
  then have "ensure_seed_master_admin u now t = (Inr (), t)" for u now
    by (auto simp: ensure_seed_master_admin_def count_master_admins_def sql_count_def)
  ultimately show "seed_system env' sys' = (Inr i, sys')" by (simp add: seed_system_def s i)
  show "i = master_admin_is_initialized (sys_master_admins sys')" "sys_master_admins sys' \<noteq> []" "sys_secrets sys' = sys_secrets sys"
    using i ne by (simp_all add: s)
  show "\<exists>w \<in> set (sys_workspaces sys'). w_is_master w \<or> w_id w = MASTER_WORKSPACE_ID"
  proof (cases "MASTER_WORKSPACE_ID \<in> w_id ` set ?ws")
    case True
    then obtain w where "w \<in> set ?ws" "w_id w = MASTER_WORKSPACE_ID" by auto
    then show ?thesis by (auto simp: s)
  next
    case False
    then have "\<exists>w \<in> set ?ws. w_is_master w" by (auto simp: ensure_master_realm_def split: if_splits)
    then show ?thesis by (auto simp: s)
  qed
qed

lemma seed_keeps_secrets:
  "seed_system env (sys\<lparr>sys_secrets := t\<rparr>) = (case seed_system env sys of (r, sys') \<Rightarrow> (r, sys'\<lparr>sys_secrets := t\<rparr>))"
  by (simp add: seed_system_def Let_def split: prod.split sum.split)

text \<open>What the key library documents: an encoded key reads back as itself.\<close>

definition rsa_ok :: "'k boot_lib \<Rightarrow> 'k boot_lib \<Rightarrow> bool" where
  "rsa_ok lib lib' \<longleftrightarrow> rsa_from_der lib' = rsa_from_der lib \<and> (\<forall>k der. rsa_generate lib = Inr (k, der) \<longrightarrow> rsa_from_der lib der = Inr k)"

lemma load_rsa_again:
  assumes "rsa_ok lib lib'" "load_rsa lib now t = Inr (k, t')"
  shows "load_rsa lib' now' t' = Inr (k, t')" and "m \<noteq> MASTER_RSA_PKCS8 \<Longrightarrow> get_secret t' m = get_secret t m"
proof -
  have "\<exists>der. get_secret t' MASTER_RSA_PKCS8 = Some der \<and> rsa_from_der lib der = Inr k"
    using assms by (auto simp: load_rsa_def rsa_ok_def get_put_secret rbind_def split: option.splits sum.splits)
  then show "load_rsa lib' now' t' = Inr (k, t')" using assms(1) by (auto simp: load_rsa_def rsa_ok_def rbind_def)
  show "m \<noteq> MASTER_RSA_PKCS8 \<Longrightarrow> get_secret t' m = get_secret t m"
    using assms(2) by (auto simp: load_rsa_def get_put_secret rbind_def split: option.splits sum.splits)
qed

lemma load_keys_again:
  assumes "rsa_ok lib lib'" "show_len lib' = show_len lib" "load_keys lib env v t = (Inr ks, t')"
  shows "load_keys lib' env' v t' = (Inr ks, t')"
proof -
  obtain hmac t1 where h: "get_or_init_secret (clock env) t MASTER_SIGNING_KEY (generate_key lib) = (hmac, t1)" by fastforce
  from assms(3) h obtain k src where r: "load_rsa lib (clock env) t1 = Inr (k, t')"
    and src: "resolve_kek (show_len lib) v (get_secret t' ''oauth_kek'') = Inr src" and ks: "ks = \<lparr>ky_hmac = hmac, ky_rsa = k, ky_kek = kek_key src\<rparr>"
    by (auto simp: load_keys_def split: sum.splits)
  have "get_secret t' MASTER_SIGNING_KEY = Some hmac"
    using get_or_init_stores [OF h] load_rsa_again(2) [OF assms(1) r, of MASTER_SIGNING_KEY] by (simp add: MASTER_SIGNING_KEY_def MASTER_RSA_PKCS8_def)
  then show ?thesis using load_rsa_again(1) [OF assms(1) r] src ks assms(2) by (simp add: load_keys_def get_or_init_found)
qed

lemma boot_Inr:
  assumes "boot lib env v cfg s = (Inr b, s')"
  obtains i sys t where "seed_system env (sv_system s) = (Inr i, sys)" "load_keys lib env v (sys_secrets sys) = (Inr (bt_keys b), t)"
    "same_process (new_process cfg i (s\<lparr>sv_system := sys\<lparr>sys_secrets := t\<rparr>\<rparr>)) s'"
proof -
  obtain r sys where sd: "seed_system env (sv_system s) = (r, sys)" by fastforce
  obtain ks t where k: "load_keys lib env v (sys_secrets sys) = (ks, t)" by fastforce
  from assms sd k obtain i where "r = Inr i" "ks = Inr (bt_keys b)"
    and "s' = load_all_hooks (bt_env b) (new_process cfg i (s\<lparr>sv_system := sys\<lparr>sys_secrets := t\<rparr>\<rparr>))"
    by (auto simp: boot_def Let_def split: sum.splits)
  then show thesis using that sd k load_all_hooks_process by blast
qed


text \<open>After every start the gate agrees with the database, there is a master workspace and an administrator, and
  nothing of the process before is left in memory: every revocation is forgotten and every locked subject free.\<close>

theorem boot_state:
  assumes "boot lib env kek_var cfg s = (Inr b, s1)"
  shows "sv_initialized s1 = master_admin_is_initialized (sys_master_admins (sv_system s1))
    \<and> (\<exists>w \<in> set (sys_workspaces (sv_system s1)). w_is_master w \<or> w_id w = MASTER_WORKSPACE_ID)
    \<and> sys_master_admins (sv_system s1) \<noteq> []
    \<and> fst (is_revoked now (sv_revocations s1) k issued) = False \<and> attempts_check now (sv_attempts s1) subject policy = Inr ()"
proof -
  from boot_Inr [OF assms] obtain i sys t where 1: "seed_system env (sv_system s) = (Inr i, sys)"
    "same_process (new_process cfg i (s\<lparr>sv_system := sys\<lparr>sys_secrets := t\<rparr>\<rparr>)) s1" by blast
  from seed_system_again(2-4) [OF 1(1)] 1(2) show ?thesis
    by (simp add: same_process_def new_process_def revocation_default_def revocation_new_def is_revoked_def attempts_check_def)
qed

text \<open>A restart revives revoked access tokens: a token that verifies and that the running process refuses because
  its subject was revoked passes the same check after the process is started again.\<close>

theorem restart_forgets_revocations:
  assumes "boot lib env kek_var cfg (s\<lparr>sv_revocations := revoke t0 rv (subject_key_of c)\<rparr>) = (Inr b, s1)"
    and "jwt_verify jl iss now token = Inr c" and "Auth_Core.iat c \<le> timestamp t0" and "timestamp now \<le> timestamp t0 + rv_ttl rv"
  shows "fst (verify_and_check jl iss now (revoke t0 rv (subject_key_of c)) token) = Inl Unauthorized
    \<and> fst (verify_and_check jl iss now (sv_revocations s1) token) = Inr c"
proof -
  from boot_Inr [OF assms(1)] have "sv_revocations s1 = revocation_default"
    by (auto simp: same_process_def new_process_def)
  moreover have "fst (is_revoked now (revoke t0 rv (subject_key_of c)) (subject_key_of c) (Auth_Core.iat c))"
    using assms(3,4) by (simp add: is_revoked_def Auth_Core.revoke_def)
  moreover have "\<not> fst (is_revoked now revocation_default k i)" for k i
    by (simp add: is_revoked_def revocation_default_def revocation_new_def)
  ultimately show ?thesis using assms(2) by (simp add: verify_and_check_def case_prod_beta)
qed

section \<open>Concrete instances\<close>

definition demo_boot :: "char list \<Rightarrow> char list boot_lib" where
  "demo_boot fresh = \<lparr>generate_key = fresh, rsa_from_der = Inr, rsa_generate = Inr (fresh, fresh), smtp_connect = (\<lambda>_ _ _ _. Inl []),
     s3_connect = (\<lambda>_ _. Inl []), open_local = (\<lambda>_. Inr map_store), install_recorder = Inr, show_db = (\<lambda>_. []), show_len = (\<lambda>_. []),
     read_tree = (\<lambda>_. Dir [])\<rparr>"

definition empty_disk :: server where
  "empty_disk = demo_server\<lparr>sv_system := \<lparr>sys_workspaces = [], sys_master_admins = [], sys_policies = [], sys_audit = \<lparr>au_rows = [], au_last_id = 0\<rparr>, sys_secrets = [],
     sys_tokens = []\<rparr>, sv_workspaces := Map.empty\<rparr>"

lemma load_no_hooks: "sv_workspaces s = Map.empty \<Longrightarrow> load_all_hooks env s = s"
proof -
  have "fold (\<lambda>w s. case sv_workspaces s (w_id w) of None \<Rightarrow> s
      | Some db \<Rightarrow> fold (\<lambda>a s. snd (load_app_with env (w_id w) (a_id a) s)) (list_apps (ws_apps db)) s) ws s = s" if "sv_workspaces s = Map.empty" for ws s
    using that by (induction ws) simp_all
  then show "sv_workspaces s = Map.empty \<Longrightarrow> load_all_hooks env s = s" by (simp add: load_all_hooks_def)
qed

lemma resolve_absent: "resolve_kek sh None None = Inr Absent"
  by (simp add: resolve_kek_def)

lemma get_or_init_other: "get_or_init_secret now t n d = (v, t') \<Longrightarrow> m \<noteq> n \<Longrightarrow> get_secret t' m = get_secret t m"
  by (auto simp: get_or_init_secret_def get_put_secret split: option.splits)

lemma demo_load_rsa: "\<exists>k t'. load_rsa (demo_boot x) now t = Inr (k, t')"
  by (simp add: load_rsa_def demo_boot_def rbind_def split: option.split)

lemma demo_rsa_ok: "rsa_ok (demo_boot x) (demo_boot y)"
  by (simp add: rsa_ok_def demo_boot_def)

lemma demo_load_keys:
  assumes "get_secret t ''oauth_kek'' = None"
  obtains ks t' where "load_keys (demo_boot x) env None t = (Inr ks, t')" "get_secret t' ''oauth_kek'' = None"
proof -
  obtain v t1 where 1: "get_or_init_secret (clock env) t MASTER_SIGNING_KEY (generate_key (demo_boot x)) = (v, t1)" by fastforce
  obtain k t2 where 2: "load_rsa (demo_boot x) (clock env) t1 = Inr (k, t2)" using demo_load_rsa by blast
  have "get_secret t2 ''oauth_kek'' = None"
    using assms get_or_init_other [OF 1, of "''oauth_kek''"] load_rsa_again(2) [OF demo_rsa_ok 2, of "''oauth_kek''"]
    by (simp add: MASTER_SIGNING_KEY_def MASTER_RSA_PKCS8_def)
  then show thesis using 1 2 that by (simp add: load_keys_def resolve_absent)
qed

lemma demo_boot_ok:
  assumes "seed_system env (sv_system s) = (Inr i, sys)" "get_secret (sys_secrets sys) ''oauth_kek'' = None" "sv_workspaces s = Map.empty"
  obtains b s1 where "boot (demo_boot x) env None load_defaults s = (Inr b, s1)" "sv_workspaces s1 = Map.empty"
    "sys_workspaces (sv_system s1) = sys_workspaces sys" "sys_master_admins (sv_system s1) = sys_master_admins sys"
    "get_secret (sys_secrets (sv_system s1)) ''oauth_kek'' = None"
proof -
  obtain ks t where k: "load_keys (demo_boot x) env None (sys_secrets sys) = (Inr ks, t)" "get_secret t ''oauth_kek'' = None"
    by (rule demo_load_keys [OF assms(2)])
  have o: "open_mailer (demo_boot x) load_defaults = Inr None" "open_storage (demo_boot x) load_defaults = Inr map_store"
    "\<exists>m. observability_init (install_recorder (demo_boot x)) (cf_observability load_defaults) = Inr m"
    by (simp_all add: open_mailer_def open_storage_def load_defaults_def demo_boot_def observability_init_def)
  have "sv_workspaces (new_process load_defaults i (s\<lparr>sv_system := sys\<lparr>sys_secrets := t\<rparr>\<rparr>)) = Map.empty"
    using assms(3) by (simp add: new_process_def)
  note n = load_no_hooks [OF this]
  obtain m where m: "observability_init (install_recorder (demo_boot x)) (cf_observability load_defaults) = Inr m" using o(3) by blast
  have "\<exists>b. boot (demo_boot x) env None load_defaults s = (Inr b, new_process load_defaults i (s\<lparr>sv_system := sys\<lparr>sys_secrets := t\<rparr>\<rparr>))"
    unfolding boot_def by (simp add: m assms(1) k(1) o(1,2) n Let_def)
  then show thesis using that k(2) assms(3) by (auto simp: new_process_def)
qed

lemma demo_seed: "\<exists>i sys. seed_system (demo_env 1) (sv_system empty_disk) = (Inr i, sys)"
  by (simp add: seed_system_def empty_disk_def ensure_seed_master_admin_def count_master_admins_def sql_count_def insert_master_row_def Let_def)

text \<open>An empty data directory, booted twice with libraries that would generate different keys.\<close>

lemma demo_two_boots:
  obtains b s1 b' s2 where "boot (demo_boot ''a'') (demo_env 1) None load_defaults empty_disk = (Inr b, s1)"
    "boot (demo_boot ''b'') (demo_env 2) None load_defaults s1 = (Inr b', s2)"
proof -
  obtain i sys where 1: "seed_system (demo_env 1) (sv_system empty_disk) = (Inr i, sys)" using demo_seed by blast
  have e: "get_secret (sys_secrets sys) ''oauth_kek'' = None" "sv_workspaces empty_disk = Map.empty"
    using seed_system_again(5) [OF 1] by (simp_all add: empty_disk_def get_secret_def)
  obtain b s1 where b: "boot (demo_boot ''a'') (demo_env 1) None load_defaults empty_disk = (Inr b, s1)" "sv_workspaces s1 = Map.empty"
    "get_secret (sys_secrets (sv_system s1)) ''oauth_kek'' = None" using demo_boot_ok [OF 1 e] by blast
  from boot_Inr [OF b(1)] obtain i' sys1 t where 2: "seed_system (demo_env 1) (sv_system empty_disk) = (Inr i', sys1)"
    "same_process (new_process load_defaults i' (empty_disk\<lparr>sv_system := sys1\<lparr>sys_secrets := t\<rparr>\<rparr>)) s1" by blast
  then have s1: "sv_system s1 = sys1\<lparr>sys_secrets := t\<rparr>" by (simp add: same_process_def new_process_def)
  have "seed_system (demo_env 2) (sv_system s1) = (Inr i', sv_system s1)"
    using seed_system_again(1) [OF 2(1), of "demo_env 2"] by (simp add: seed_keeps_secrets s1)
  then obtain b' s2 where "boot (demo_boot ''b'') (demo_env 2) None load_defaults s1 = (Inr b', s2)"
    using demo_boot_ok b(2,3) by blast
  then show thesis using that b(1) by blast
qed


theorem boot_state_witness:
  "\<exists>b s1. boot (demo_boot ''a'') (demo_env 1) None load_defaults empty_disk = (Inr b, s1)
    \<and> sys_master_admins (sv_system s1) \<noteq> [] \<and> attempts_check 1 (sv_attempts s1) ''alice'' (sv_lockout s1) = Inr ()"
proof -
  obtain b s1 b' s2 where 1: "boot (demo_boot ''a'') (demo_env 1) None load_defaults empty_disk = (Inr b, s1)"
    "boot (demo_boot ''b'') (demo_env 2) None load_defaults s1 = (Inr b', s2)" by (rule demo_two_boots)
  with boot_state [OF 1(1), of 1 _ _ "''alice''" "sv_lockout s1"] show ?thesis by blast
qed

theorem restart_forgets_revocations_witness:
  "\<exists>b s1. boot (demo_boot ''a'') (demo_env 1) None load_defaults
      (empty_disk\<lparr>sv_revocations := revoke 0 revocation_default (key_master ''u'')\<rparr>) = (Inr b, s1)
    \<and> fst (verify_and_check (demo_lib (build_claims ''j'' 0 ''u'' UserRole None None (minutes 15)) 0)
      \<lparr>active_kid = ''k'', legacy_hmac = None\<rparr> 1 (sv_revocations s1) ''t'') = Inr (build_claims ''j'' 0 ''u'' UserRole None None (minutes 15))"
proof -
  let ?c = "build_claims ''j'' 0 ''u'' UserRole None None (minutes 15)" and ?s = "empty_disk\<lparr>sv_revocations := revoke 0 revocation_default (key_master ''u'')\<rparr>"
  obtain i sys where 1: "seed_system (demo_env 1) (sv_system ?s) = (Inr i, sys)" using demo_seed by auto
  have e: "get_secret (sys_secrets sys) ''oauth_kek'' = None" "sv_workspaces ?s = Map.empty"
    using seed_system_again(5) [OF 1] by (simp_all add: empty_disk_def get_secret_def)
  obtain b s1 where b: "boot (demo_boot ''a'') (demo_env 1) None load_defaults ?s = (Inr b, s1)" using demo_boot_ok [OF 1 e] by blast
  have c: "subject_key_of ?c = key_master ''u''" "jwt_verify (demo_lib ?c 0) \<lparr>active_kid = ''k'', legacy_hmac = None\<rparr> 1 ''t'' = Inr ?c"
    "Auth_Core.iat ?c \<le> timestamp 0" "timestamp 1 \<le> timestamp 0 + rv_ttl revocation_default"
    by (simp_all add: subject_key_of_def build_claims_def jwt_verify_def demo_lib_def map_decode_def timestamp_def minutes_def seconds_def
        revocation_default_def revocation_new_def)
  have "boot (demo_boot ''a'') (demo_env 1) None load_defaults (empty_disk\<lparr>sv_revocations := revoke 0 revocation_default (subject_key_of ?c)\<rparr>) = (Inr b, s1)"
    using b by (simp only: c(1))
  from conjunct2 [OF restart_forgets_revocations [OF this c(2-4)]] b show ?thesis by blast
qed

end
