(* ===== verification/Signing_Keys.thy ===== *)
theory Signing_Keys
  imports Boot
begin

text \<open>
The RS256 signing keys of \<open>rustbase-auth/src/jwt.rs\<close>: generating, storing and reloading a key, its name, and the key set the server publishes. The RSA
  library, SHA-256 and base64 are fields of \<open>rsa_lib\<close>, whose documented round trip gives the hypothesis of the restart theorem of Boot.
\<close>

section \<open>Keys\<close>

text \<open>The RSA library, SHA-256 and base64: a private key in its encodings, and its public numbers.\<close>

record 'p rsa_lib =
  rsa_new :: "string + 'p"
  from_pkcs8 :: "char list \<Rightarrow> string + 'p"
  to_pkcs8 :: "'p \<Rightarrow> string + char list"
  to_pkcs1 :: "'p \<Rightarrow> string + char list"
  public_to_pkcs1 :: "'p \<Rightarrow> string + char list"
  public_n :: "'p \<Rightarrow> char list"
  public_e :: "'p \<Rightarrow> char list"
  digest :: "char list \<Rightarrow> char list"
  url_safe_no_pad :: "char list \<Rightarrow> string"

record rsa_signing_key =
  rk_kid :: string
  rk_encoding :: "char list"
  rk_decoding :: "char list \<times> char list"
  rk_n :: "char list"
  rk_e :: "char list"

definition map_err :: "string \<Rightarrow> string + 'a \<Rightarrow> auth_error + 'a" where
  "map_err what r = (case r of Inl e \<Rightarrow> Inl (AuthInternal (what @ e)) | Inr x \<Rightarrow> Inr x)"

definition from_private :: "'p rsa_lib \<Rightarrow> 'p \<Rightarrow> auth_error + rsa_signing_key" where
  "from_private lib p =
     rbind (map_err ''rsa pkcs1 export failed: '' (to_pkcs1 lib p)) (\<lambda>pkcs1_der.
     rbind (map_err ''rsa pkcs1 public export failed: '' (public_to_pkcs1 lib p)) (\<lambda>public_der.
     Inr \<lparr>rk_kid = take 16 (url_safe_no_pad lib (digest lib public_der)), rk_encoding = pkcs1_der,
       rk_decoding = (public_n lib p, public_e lib p), rk_n = public_n lib p, rk_e = public_e lib p\<rparr>))"

definition from_pkcs8_der :: "'p rsa_lib \<Rightarrow> char list \<Rightarrow> auth_error + rsa_signing_key" where
  "from_pkcs8_der lib der = rbind (map_err ''rsa pkcs8 parse failed: '' (from_pkcs8 lib der)) (from_private lib)"

definition generate_rsa_with_pkcs8 :: "'p rsa_lib \<Rightarrow> auth_error + rsa_signing_key \<times> char list" where
  "generate_rsa_with_pkcs8 lib =
     rbind (map_err ''rsa keygen failed: '' (rsa_new lib)) (\<lambda>p.
     rbind (map_err ''rsa pkcs8 export failed: '' (to_pkcs8 lib p)) (\<lambda>pkcs8.
     rbind (from_private lib p) (\<lambda>k. Inr (k, pkcs8))))"

section \<open>The published keys\<close>

record jwks_key =
  jw_kty :: string
  jw_alg :: string
  jw_use :: string
  jw_kid :: string
  jw_n :: string
  jw_e :: string

definition to_jwks_key :: "'p rsa_lib \<Rightarrow> rsa_signing_key \<Rightarrow> jwks_key" where
  "to_jwks_key lib k = \<lparr>jw_kty = ''RSA'', jw_alg = ''RS256'', jw_use = ''sig'', jw_kid = rk_kid k,
     jw_n = url_safe_no_pad lib (rk_n k), jw_e = url_safe_no_pad lib (rk_e k)\<rparr>"

text \<open>\<open>JwtIssuer\<close>: the active key and the old HMAC secret.\<close>

record issuer_keys =
  ik_active :: rsa_signing_key
  ik_legacy_hmac :: "char list option"

definition issuer_new :: "rsa_signing_key \<Rightarrow> issuer_keys" where
  "issuer_new k = \<lparr>ik_active = k, ik_legacy_hmac = None\<rparr>"

definition with_legacy_hmac :: "issuer_keys \<Rightarrow> char list \<Rightarrow> issuer_keys" where
  "with_legacy_hmac i hmac = i\<lparr>ik_legacy_hmac := Some hmac\<rparr>"

definition issuer_view :: "issuer_keys \<Rightarrow> jwt_issuer" where
  "issuer_view i = \<lparr>active_kid = rk_kid (ik_active i), legacy_hmac = ik_legacy_hmac i\<rparr>"

definition jwks :: "'p rsa_lib \<Rightarrow> issuer_keys \<Rightarrow> jwks_key list" where
  "jwks lib i = [to_jwks_key lib (ik_active i)]"

section \<open>Reloading\<close>

text \<open>What the RSA library documents: a key it exports reads back as itself.\<close>

definition rsa_lib_ok :: "'p rsa_lib \<Rightarrow> bool" where
  "rsa_lib_ok lib \<longleftrightarrow> (\<forall>p der. to_pkcs8 lib p = Inr der \<longrightarrow> from_pkcs8 lib der = Inr p)"

lemma generated_reloads: "rsa_lib_ok lib \<Longrightarrow> generate_rsa_with_pkcs8 lib = Inr (k, der) \<Longrightarrow> from_pkcs8_der lib der = Inr k"
  by (auto simp: generate_rsa_with_pkcs8_def from_pkcs8_der_def rsa_lib_ok_def rbind_def map_err_def split: sum.splits)

text \<open>The libraries a process starts with, over the RSA library.\<close>

definition rsa_boot :: "(auth_error \<Rightarrow> string) \<Rightarrow> 'p rsa_lib \<Rightarrow> rsa_signing_key boot_lib \<Rightarrow> rsa_signing_key boot_lib" where
  "rsa_boot show_auth rsa lib = lib\<lparr>rsa_from_der := (\<lambda>der. map_sum show_auth id (from_pkcs8_der rsa der)),
     rsa_generate := map_sum show_auth id (generate_rsa_with_pkcs8 rsa)\<rparr>"

lemma rsa_boot_ok:
  assumes "rsa_lib_ok rsa" and "from_pkcs8 rsa' = from_pkcs8 rsa" "to_pkcs1 rsa' = to_pkcs1 rsa" "public_to_pkcs1 rsa' = public_to_pkcs1 rsa"
    "public_n rsa' = public_n rsa" "public_e rsa' = public_e rsa" "digest rsa' = digest rsa" "url_safe_no_pad rsa' = url_safe_no_pad rsa"
  shows "rsa_ok (rsa_boot show_auth rsa lib) (rsa_boot show_auth rsa' lib')"
proof -
  have "from_private rsa' = from_private rsa" by (rule ext) (simp add: from_private_def assms)
  then have "from_pkcs8_der rsa' = from_pkcs8_der rsa" by (intro ext) (simp add: from_pkcs8_der_def assms)
  moreover have "from_pkcs8_der rsa der = Inr k" if "map_sum show_auth id (generate_rsa_with_pkcs8 rsa) = Inr (k, der)" for k der
    using that generated_reloads [OF assms(1), of k der] by (cases "generate_rsa_with_pkcs8 rsa") auto
  ultimately show ?thesis by (simp add: rsa_ok_def rsa_boot_def)
qed

text \<open>The published key is the signing key. What a process publishes is one key, under the name its tokens carry, with
  the public numbers of the key it signs with; after a restart on the same data it is the same key, although the
  new process would generate another.\<close>

theorem published_key_survives_restart:
  assumes "rsa_lib_ok rsa"
    and "load_rsa (rsa_boot show_auth rsa lib) now t = Inr (k, t')"
    and "load_rsa (rsa_boot show_auth (rsa\<lparr>rsa_new := fresh\<rparr>) lib') now' t' = Inr (k', t'')"
  shows "jwks rsa (with_legacy_hmac (issuer_new k') hmac) = jwks rsa (with_legacy_hmac (issuer_new k) hmac)
    \<and> map jw_kid (jwks rsa (issuer_new k)) = [active_kid (issuer_view (with_legacy_hmac (issuer_new k') hmac))] \<and> t'' = t'"
proof -
  have "rsa_ok (rsa_boot show_auth rsa lib) (rsa_boot show_auth (rsa\<lparr>rsa_new := fresh\<rparr>) lib')"
    by (rule rsa_boot_ok [OF assms(1)]) simp_all
  from load_rsa_again(1) [OF this assms(2)] assms(3) have "k' = k" "t'' = t'" by auto
  then show ?thesis by (simp add: jwks_def issuer_new_def with_legacy_hmac_def issuer_view_def to_jwks_key_def)
qed

text \<open>A token under another key is a server error: a request with a token whose header names a key that is not the
  active one, or an algorithm that is not accepted, is answered 500 and not 401.\<close>

theorem foreign_key_answers_500:
  assumes "decode_header lib token = Inr (RS256, Some kid) \<and> kid \<noteq> active_kid iss \<or> decode_header lib token = Inr (OtherAlg alg, k)"
  shows "case fst (verify_and_check lib iss now rv token) of Inl e \<Rightarrow> fst (error_response e) = 500 | Inr _ \<Rightarrow> False"
  using assms by (auto simp: verify_and_check_def jwt_verify_def)

section \<open>Examples\<close>

definition demo_rsa :: "char list rsa_lib" where
  "demo_rsa = \<lparr>rsa_new = Inr ''p'', from_pkcs8 = Inr, to_pkcs8 = Inr, to_pkcs1 = Inr, public_to_pkcs1 = Inr, public_n = id, public_e = (\<lambda>_. ''e''),
     digest = id, url_safe_no_pad = id\<rparr>"

theorem published_key_survives_restart_witness:
  "\<exists>lib k t' k'. load_rsa (rsa_boot (\<lambda>_. []) demo_rsa lib) 0 [] = Inr (k, t')
    \<and> load_rsa (rsa_boot (\<lambda>_. []) (demo_rsa\<lparr>rsa_new := Inr ''q''\<rparr>) lib) 1 t' = Inr (k', t') \<and> jwks demo_rsa (issuer_new k') = jwks demo_rsa (issuer_new k)"
proof -
  obtain lib :: "rsa_signing_key boot_lib" where "lib = lib" by simp
  have ok: "rsa_lib_ok demo_rsa" by (simp add: rsa_lib_ok_def demo_rsa_def)
  obtain k t' where 1: "load_rsa (rsa_boot (\<lambda>_. []) demo_rsa lib) 0 [] = Inr (k, t')"
    by (simp add: load_rsa_def get_secret_def rsa_boot_def demo_rsa_def generate_rsa_with_pkcs8_def from_private_def map_err_def rbind_def)
  have o: "rsa_ok (rsa_boot (\<lambda>_. []) demo_rsa lib) (rsa_boot (\<lambda>_. []) (demo_rsa\<lparr>rsa_new := Inr ''q''\<rparr>) lib)"
    by (rule rsa_boot_ok [OF ok]) simp_all
  note 2 = load_rsa_again(1) [OF o 1, of 1]
  from published_key_survives_restart [OF ok 1 2] 1 2 show ?thesis
    by (auto simp: jwks_def with_legacy_hmac_def issuer_new_def)
qed

theorem foreign_key_answers_500_witness:
  "case fst (verify_and_check (demo_lib (build_claims ''j'' 0 ''u'' UserRole None None 0) 0\<lparr>decode_header := \<lambda>_. Inr (OtherAlg ''None'', None)\<rparr>)
     \<lparr>active_kid = ''k'', legacy_hmac = None\<rparr> 0 revocation_default ''t'') of Inl e \<Rightarrow> fst (error_response e) = 500 | Inr _ \<Rightarrow> False"
  by (rule foreign_key_answers_500) simp

end
