(* ===== verification/User_Views.thy ===== *)
theory User_Views
  imports Auth_Api
begin

text \<open>
What the user administration of \<open>rustbase-api/src/users.rs\<close> shows: its answers depend on no password hash and no second-factor secret.
\<close>

section \<open>What the answers do not show\<close>

text \<open>Other secrets in the same tables: password hashes and the secrets of second factors are replaced.\<close>

definition reseal_db :: "(string \<Rightarrow> string) \<Rightarrow> workspace_db \<Rightarrow> workspace_db" where
  "reseal_db f db = db\<lparr>ws_users := map (\<lambda>u. u\<lparr>u_password_hash := map_option f (u_password_hash u)\<rparr>) (ws_users db),
     ws_totps := map (\<lambda>t. t\<lparr>tp_secret_b32 := map_option f (tp_secret_b32 t), tp_secret_enc := map_option f (tp_secret_enc t)\<rparr>) (ws_totps db)\<rparr>"

definition reseal :: "(string \<Rightarrow> string) \<Rightarrow> server \<Rightarrow> server" where
  "reseal f s = s\<lparr>sv_workspaces := (\<lambda>w. map_option (reseal_db f) (sv_workspaces s w))\<rparr>"

abbreviation rehash :: "(string \<Rightarrow> string) \<Rightarrow> user \<Rightarrow> user" where
  "rehash f u \<equiv> u\<lparr>u_password_hash := map_option f (u_password_hash u)\<rparr>"

lemma public_rehash: "user_row_public_of (rehash f u) = user_row_public_of u"
  by (simp add: user_row_public_of_def)

lemma insort_key_map: "(\<And>y. k (g y) = k y) \<Longrightarrow> insort_key k (g x) (map g xs) = map g (insort_key k x xs)"
  by (induction xs) simp_all

lemma sort_key_map_stable: "(\<And>y. k (g y) = k y) \<Longrightarrow> sort_key k (map g xs) = map g (sort_key k xs)"
  by (induction xs) (simp_all add: insort_key_map)

lemma sql_limit_map: "sql_limit n m (map g xs) = map g (sql_limit n m xs)"
  by (simp add: sql_limit_def Let_def drop_map take_map)

lemma list_users_rehash: "list_users (map (rehash f) us) q n m = map (rehash f) (list_users us q n m)"
proof -
  have "sort_key (\<lambda>u. - u_created_at u) (map (rehash f) xs) = map (rehash f) (sort_key (\<lambda>u. - u_created_at u) xs)" for xs
    by (rule sort_key_map_stable) simp
  then show ?thesis by (simp add: list_users_def filter_map comp_def sql_limit_map)
qed

lemma count_users_rehash: "count_users (map (rehash f) us) q = count_users us q"
  by (simp add: count_users_def sql_count_def filter_map comp_def)

lemma find_user_rehash: "find_user_by_id (map (rehash f) us) i = map_option (rehash f) (find_user_by_id us i)"
  by (induction us) (simp_all add: find_user_by_id_def)

lemma totp_find_reseal:
  "map_sum id (map_option totp_status_of) (totp_find (map (\<lambda>t. t\<lparr>tp_secret_b32 := map_option f (tp_secret_b32 t), tp_secret_enc := map_option f (tp_secret_enc t)\<rparr>) ts) i)
    = map_sum id (map_option totp_status_of) (totp_find ts i)"
  by (induction ts) (auto simp: totp_find_def totp_status_of_def secret_from_columns_def split: option.splits)


lemma pool_answer_reseal:
  assumes "\<And>db. fst (g (reseal_db f db)) = fst (g db)"
  shows "fst (hbind (lift r) (\<lambda>_. workspace_pool env w ''users'' g) (reseal f s)) = fst (hbind (lift r) (\<lambda>_. workspace_pool env w ''users'' g) s)"
proof (cases "sv_workspaces s w")
  case None
  then show ?thesis by (simp add: lift_def hbind_def workspace_pool_def require_workspace_exists_def on_workspace_def reseal_def split: sum.split option.split)
next
  case (Some db)
  then show ?thesis using assms [of db]
    by (simp add: lift_def hbind_def workspace_pool_def require_workspace_exists_def on_workspace_def reseal_def case_prod_beta split: sum.split option.split)
qed

lemma reseal_fields:
  "ws_users (reseal_db f db) = map (rehash f) (ws_users db)" "ws_links (reseal_db f db) = ws_links db"
  "ws_totps (reseal_db f db) = map (\<lambda>t. t\<lparr>tp_secret_b32 := map_option f (tp_secret_b32 t), tp_secret_enc := map_option f (tp_secret_enc t)\<rparr>) (ws_totps db)"
  by (simp_all add: reseal_db_def)

lemma detail_reseal:
  assumes "map_sum id (map_option totp_status_of) r = map_sum id (map_option totp_status_of) r'" "u = u'" "ls = ls'"
  shows "fst (case db_stmt env (r, x) of (Inl e, _) \<Rightarrow> (Inl e, x) | (Inr t, _) \<Rightarrow> (Inr \<lparr>ud_user = u, ud_totp = map_option totp_status_of t, ud_links = ls\<rparr>, x)) =
    fst (case db_stmt env (r', y) of (Inl e, _) \<Rightarrow> (Inl e, y) | (Inr t, _) \<Rightarrow> (Inr \<lparr>ud_user = u', ud_totp = map_option totp_status_of t, ud_links = ls'\<rparr>, y))"
  using assms by (cases r; cases r') (simp_all add: db_stmt_def)

text \<open>Administrators never see a credential: the answers to listing and to reading users are the same whatever the
  password hashes and the second-factor secrets in the database are.\<close>

theorem admin_answers_hide_secrets:
  "fst (users_list env c w page per q (reseal f s)) = fst (users_list env c w page per q s)
    \<and> fst (users_get env c w i (reseal f s)) = fst (users_get env c w i s)"
proof
  have "map (user_row_public_of \<circ> rehash f) us = map user_row_public_of us" for us
    by (simp add: public_rehash)
  then show "fst (users_list env c w page per q (reseal f s)) = fst (users_list env c w page per q s)"
    unfolding users_list_def by (intro pool_answer_reseal) (simp add: reseal_db_def list_users_rehash count_users_rehash Let_def public_rehash)
  show "fst (users_get env c w i (reseal f s)) = fst (users_get env c w i s)"
    unfolding users_get_def
  proof (rule pool_answer_reseal)
    fix db
    show "fst (case find_user_by_id (ws_users (reseal_db f db)) i of None \<Rightarrow> (Inl (NotFound ''user'' i), reseal_db f db) | Some u \<Rightarrow>
        (case db_stmt env (totp_find (ws_totps (reseal_db f db)) i, reseal_db f db) of (Inl e, _) \<Rightarrow> (Inl e, reseal_db f db)
         | (Inr t, _) \<Rightarrow> (Inr \<lparr>ud_user = user_row_public_of u, ud_totp = map_option totp_status_of t,
             ud_links = map oauth_link_public_of (list_links_for_user (ws_links (reseal_db f db)) i)\<rparr>, reseal_db f db))) =
      fst (case find_user_by_id (ws_users db) i of None \<Rightarrow> (Inl (NotFound ''user'' i), db) | Some u \<Rightarrow>
        (case db_stmt env (totp_find (ws_totps db) i, db) of (Inl e, _) \<Rightarrow> (Inl e, db)
         | (Inr t, _) \<Rightarrow> (Inr \<lparr>ud_user = user_row_public_of u, ud_totp = map_option totp_status_of t,
             ud_links = map oauth_link_public_of (list_links_for_user (ws_links db) i)\<rparr>, db)))"
    proof (cases "find_user_by_id (ws_users db) i")
      case None
      then show ?thesis by (simp add: reseal_fields find_user_rehash)
    next
      case (Some u)
      then show ?thesis unfolding reseal_fields find_user_rehash Some option.map option.case
        by (intro detail_reseal totp_find_reseal public_rehash refl)
    qed
  qed
qed

end
