(* ===== verification/Spec2Isabelle.thy ===== *)
theory Spec2Isabelle
  imports Filter_Roundtrip Filter_Sql Rule_Template Realtime Pools Schema App_Registry App_Api Event_Stream Sessions
    Signing_Keys User_Views
begin

text \<open>
  RustBase is a multi-tenant backend server. A \<^emph>\<open>master\<close> administers workspaces, a workspace holds apps
  and end users, and an app holds collections of records, access rules, policies, files and JavaScript
  hooks. Each workspace and each app has a SQLite database of its own, and one system database lists the
  workspaces. This development models the crates under \<^verbatim>\<open>src/crates\<close> and proves the properties the
  manifest lists.

  \<^bold>\<open>The parts and their theories\<close>

  \<^item> \<^verbatim>\<open>rustbase-core\<close>: the types (\<open>Core_Types\<close>: \<^verbatim>\<open>error.rs\<close>, \<^verbatim>\<open>id.rs\<close>, \<^verbatim>\<open>ctx.rs\<close>, \<^verbatim>\<open>schema.rs\<close>,
    \<^verbatim>\<open>record.rs\<close>, \<^verbatim>\<open>mailer.rs\<close>); hierarchical policies with their in-memory cascade (\<open>Policy\<close>:
    \<^verbatim>\<open>config.rs\<close>); filters, LIKE and the filter parser (\<open>Filter_Node\<close>, \<open>Filter_Parser\<close>: \<^verbatim>\<open>filter.rs\<close>,
    \<^verbatim>\<open>filter_parser.rs\<close>), with a printer the parser inverts (\<open>Filter_Roundtrip\<close>); access-rule templates
    (\<open>Rule_Template\<close>: \<^verbatim>\<open>rule_template.rs\<close>).
  \<^item> \<^verbatim>\<open>rustbase-db\<close>: a table is the list of its rows and a statement a function on it (\<open>Prelude\<close>). Filters
    become SQL text (\<open>Filter_Sql\<close>: \<^verbatim>\<open>filter_sql.rs\<close>); refresh tokens (\<open>Tokens\<close>: \<^verbatim>\<open>tokens.rs\<close>);
    secrets that are redeemed once (\<open>Single_Use\<close>, an interface, and \<open>One_Shot\<close>, \<open>Email_Otp\<close>:
    \<^verbatim>\<open>password_resets.rs\<close>, \<^verbatim>\<open>email_verifications.rs\<close>, \<^verbatim>\<open>mfa_challenges.rs\<close>, \<^verbatim>\<open>oauth_states.rs\<close>,
    \<^verbatim>\<open>email_otps.rs\<close>); workspaces, apps, stored policies and the audit log (\<open>Scopes\<close>); accounts
    (\<open>Accounts\<close>); collections, access rules and file rows (\<open>App_Tables\<close>); records (\<open>Records\<close>:
    \<^verbatim>\<open>records.rs\<close>); the caches of connection pools (\<open>Pools\<close>: \<^verbatim>\<open>pool.rs\<close>); the migration runner and the
    shipped scripts (\<open>Migrations\<close>, \<open>Schema\<close>: \<^verbatim>\<open>migrations.rs\<close>).
  \<^item> \<^verbatim>\<open>rustbase-auth\<close>: claims, token verification, revocation, lockout, cookies and scope checks
    (\<open>Auth_Core\<close>, with \<^verbatim>\<open>extract.rs\<close>, \<^verbatim>\<open>cookies.rs\<close> and \<^verbatim>\<open>security.rs\<close> of the API); the signing keys and
    the published key set (\<open>Signing_Keys\<close>: \<^verbatim>\<open>jwt.rs\<close>); sealed secrets (\<open>Secret_Box\<close>: \<^verbatim>\<open>secret_box.rs\<close>).
  \<^item> \<^verbatim>\<open>rustbase-realtime\<close>: the broker of record events (\<open>Realtime\<close>). \<^verbatim>\<open>rustbase-storage\<close>: the object store
    (\<open>Storage\<close>).
  \<^item> \<^verbatim>\<open>rustbase-runtime\<close>: events, handlers and dispatch of hooks (\<open>Hook_Runtime\<close>); the registry the
    bootstrap script keeps and the tasks of scheduled jobs (\<open>App_Registry\<close>); the functions of \<open>$app\<close> with
    their natives and mail hooks (\<open>App_Api\<close>); with \<^verbatim>\<open>hook_bridge.rs\<close> of the API, what a hook can reach
    (\<open>Hook_Bridge\<close>).
  \<^item> \<^verbatim>\<open>rustbase-api\<close>: the shared state and the outside world (\<open>Server\<close>: \<^verbatim>\<open>state.rs\<close>); the mailer with its
    daily quota (\<open>Mailer\<close>); the handlers of \<^verbatim>\<open>auth/\<close> and \<^verbatim>\<open>users.rs\<close> (\<open>Auth_Api\<close>, \<open>User_Views\<close>), of
    OAuth (\<open>OAuth_Api\<close>), of \<^verbatim>\<open>policies.rs\<close>, with \<^verbatim>\<open>policy_engine.rs\<close> of the storage layer
    (\<open>Policy_Api\<close>), of \<^verbatim>\<open>records.rs\<close> and \<^verbatim>\<open>realtime.rs\<close> (\<open>Records_Api\<close>, \<open>Event_Stream\<close>), of hook files
    (\<open>Hook_Files\<close>), of workspaces, apps, admins and setup (\<open>Lifecycle_Api\<close>), of collections, rules and
    audit (\<open>Collections_Api\<close>), of files (\<open>Files_Api\<close>) and of custom routes (\<open>Custom_Routes\<close>); the session
    cookies (\<open>Sessions\<close>); the routes with the setup gate (\<open>Router\<close>) and the layers around them
    (\<open>Http_Layers\<close>).
  \<^item> \<^verbatim>\<open>rustbase-server\<close>: configuration and the replication file (\<open>Server_Config\<close>: \<^verbatim>\<open>config.rs\<close>,
    \<^verbatim>\<open>litestream.rs\<close>), metrics and dashboard (\<open>Http_Layers\<close>: \<^verbatim>\<open>observability.rs\<close>, \<^verbatim>\<open>dashboard.rs\<close>), the
    start of a process (\<open>Boot\<close>: \<^verbatim>\<open>main.rs\<close>).

  A request goes through the layers of \<open>Http_Layers\<close>, the gate and the lookup of \<open>Router\<close>, the extractors
  of \<open>Auth_Core\<close> and one handler, which works on the databases of \<open>Server\<close> and runs the hooks of the app.
  This theory holds the property that follows such a request from the browser to the scope check.

  \<^bold>\<open>How the model reads\<close>

  A \<open>Result<T, E>\<close> is a sum with \<open>Inl\<close> for the error, and a call that writes returns the new state with
  its result, so an early return keeps the writes already made. A handler maps the server to its answer
  and the new server; \<open>hbind\<close> is the \<open>?\<close> operator. A string is a list of characters, one per scalar value
  up to U+00FF; an instant is an integer. \<open>i64\<close>, \<open>u32\<close> and \<open>u64\<close> values the code only compares or counts
  are integers or naturals; where it truncates, as the mail quota does, the value is a word, and a
  conversion through \<open>f64\<close>, which rounds, is written out. A map of the code is a map or, where its order or
  size is read, a list. What may interleave (consuming a secret, the mail quota, the pool caches, the
  broker, a WebSocket) is a step relation or a sequence of inputs.

  What is not in the sources is a parameter: the record \<open>env\<close> (clock, random values, hashing, signing,
  mail, the cipher, the TOTP algorithm, JSON text, HTTP), \<open>sql_engine\<close> (SQLite's reading of a \<open>WHERE\<close> text
  and its comparison of values other than text), \<open>nom\<close> (the number reader and error messages of the parser
  library), \<open>broadcast\<close> (the channel of the broker), \<open>lru\<close> (the cache of pools), \<open>exec\<close> (the execution of a
  script), \<open>object_store\<close>, \<open>lettre\<close> (the SMTP client), \<open>aead\<close>, \<open>oauth_lib\<close>, \<open>route_lib\<close>, \<open>rsa_lib\<close>,
  \<open>boot_lib\<close>, \<open>wire\<close> (JSON text between JavaScript and Rust), \<open>lookup\<close> (the router library), the user agent of
  a browser, and the JavaScript of an app, a tree of bridge calls run by \<open>js_engine\<close>. A theorem that needs
  something of them names it as a hypothesis (\<open>reads_back\<close>, \<open>broadcast_ok\<close>, \<open>lookup_ok\<close>, \<open>rsa_lib_ok\<close>,
  \<open>follows_rfc\<close>, a JSON round trip), and its witness gives a concrete one.

  Every definition terminates: the recursions are structural or come with a measure (the parser and the
  substitution on the length of the input), and there is no fuel. A handler of an app is a finite tree,
  since the CPU deadline aborts a run that would go on.

  \<^bold>\<open>What is shown\<close>

  \<^item> Policies: the cascade makes every chain valid and is idempotent, in memory and over the stored values
    of all workspaces and apps; a write outside its bound changes nothing.
  \<^item> Filters and rules: the parser inverts the printer, the SQL text is the rendering of the filter with
    every value bound, LIKE decides its relation, a template value cannot change a rule's structure.
  \<^item> Records and files: a record and a file read back as they were written; a list answers, and a view,
    update or delete touches, only rows on which the caller's rule is true; a write is announced exactly
    once; a subscriber gets exactly what is published under its key, filtered by the rule, and a WebSocket
    carries what the event stream carries.
  \<^item> Hooks: running an app's hooks, routes and jobs changes that app's rows and audit log, its own
    JavaScript state and the outbox, and nothing else; the string protocol between JavaScript and Rust
    refines the bridge; a send returns exactly when the message was delivered; every job is started once;
    the daily quota holds under every interleaving; a hook file stays in its folder.
  \<^item> Secrets and sessions: a secret is redeemed at most once under every interleaving of requests,
    rotation moves a session, revoked tokens stay dead, lockout and second factor are respected by the
    password login, and its failures do not tell accounts apart; an OAuth sign-in is bound to its flow;
    administrators see no credential; cookies travel where they should.
  \<^item> Storage: migrations run exactly once, resume after a failure and keep the accounts; requests of
    different tenants never share a pool; sealed secrets open under their key.
  \<^item> Tenancy: the tenant of a handler is the one in the URL, no token of one workspace passes a scope check
    of another or reaches its records, folders and files are disjoint.
  \<^item> The process: before setup only the setup is reachable, a restart keeps the keys and the published key
    set, the security headers cannot be weakened, every database is replicated to a place of its own.
  \<^item> Where the code departs from its documentation or intent, a theorem says what it does: two rotations
    of one token, overlapping guesses of a code, sessions that survive a deleted user or a password reset,
    logins that bypass the second factor, a racing subscriber, a URL that passes the fetch allowlist, a
    subscription that sees more than the list, revocations a restart forgets, a cookie that never reaches
    the refresh of users, and others the manifest lists.

  \<^bold>\<open>Not modelled\<close>

  Password hashing, encryption, signatures and random values (parameters). The framing of SSE and
  WebSocket, the accept loop, metrics, gauges and log lines, the embedding of the dashboard at build time
  and the TypeScript compiler pass: calls of libraries without logic of their own. Inside the JavaScript
  engine, the enforcement of the memory, stack and CPU limits, and handlers that register further handlers
  while they run. Failures of a database connection or of the file system are not modelled, only those of
  a statement. Tests, and the SDKs, the dashboard and the infrastructure in other languages.
\<close>

section \<open>From the browser to the scope check\<close>

lemma split_on_Nil_first: "split_on c path = [] # y # ys \<Longrightarrow> take 1 path = [c]"
  by (cases path) (auto split: if_splits list.splits)

lemma cookie_claims:
  assumes "read_cookie h ACCESS_COOKIE = Some access" "authorization h = None" "jwt_verify jl iss now access = Inr c"
  shows "fst (extract_claims jl iss now rv h) = (if fst (is_revoked now rv (subject_key_of c) (Auth_Core.iat c)) then Inl Unauthorized else Inr (Some c))"
  using assms by (simp add: extract_claims_def verify_and_check_def Let_def case_prod_beta split: prod.split)



end
